(* ===== verification/Prelude.thy ===== *)
theory Prelude
  imports Main "HOL-Library.AList" "HOL-Library.Char_ord" "HOL-Library.List_Lexorder"
begin

text \<open>
  Shared ground of the development: the byte and integer conventions, the outcome of a handler,
  the slice operations of Go the handlers use, and the named collections that carry the
  component proofs.

  Go strings and byte slices are byte sequences: \<open>char list\<close>, a \<open>char\<close> being one byte. String
  comparison in Go is lexicographic on bytes, which is the order of \<open>List_Lexorder\<close> over
  \<open>Char_ord\<close>. Go's \<open>int\<close> has 64 bits on the platforms the server runs on: \<open>int\<close> with the
  wrap-around \<open>i64\<close> written out where an addition or a multiplication can overflow.
\<close>

named_theorems reader_simps "equations of the buffered readers"
named_theorems state_simps "projections and updates of the server state"
named_theorems handler_defs "definitions of the command handlers"
named_theorems bytes_simps "facts about formatted bytes"

section \<open>Bytes\<close>

abbreviation CR :: char where "CR \<equiv> CHR 0x0D"
abbreviation LF :: char where "LF \<equiv> CHR 0x0A"

definition crlf :: string where
  "crlf = [CR, LF]"

lemma length_crlf [simp]: "length crlf = 2"
  by (simp add: crlf_def)

lemma crlf_neq_Nil [simp]: "crlf \<noteq> []"
  by (simp add: crlf_def)

section \<open>Outcome of a handler\<close>

text \<open>
  A goroutine that runs a handler returns (\<open>Done\<close>), panics (\<open>Panic\<close>, which ends the whole
  process: no handler recovers), or waits for a lock that is held (\<open>Blocked\<close>). The state is
  the one at that moment.
\<close>

datatype 's outcome = Done 's | Panic 's | Blocked 's

primrec final :: "'s outcome \<Rightarrow> 's" where
  "final (Done s) = s"
| "final (Panic s) = s"
| "final (Blocked s) = s"

primrec returns :: "'s outcome \<Rightarrow> bool" where
  "returns (Done s) = True"
| "returns (Panic s) = False"
| "returns (Blocked s) = False"

text \<open>Sequencing: the second part runs when the first one returned.\<close>

primrec and_then :: "'s outcome \<Rightarrow> ('s \<Rightarrow> 's outcome) \<Rightarrow> 's outcome" where
  "and_then (Done s) f = f s"
| "and_then (Panic s) f = Panic s"
| "and_then (Blocked s) f = Blocked s"

lemma and_then_eq_Done: "and_then r f = Done t \<longleftrightarrow> (\<exists>s. r = Done s \<and> f s = Done t)"
  by (cases r) auto

lemma returnsE:
  assumes "returns r" obtains s where "r = Done s"
  using assms by (cases r) auto

section \<open>64-bit signed integers\<close>

definition i64 :: "int \<Rightarrow> int" where
  "i64 x = (x + 2 ^ 63) mod 2 ^ 64 - 2 ^ 63"

abbreviation max_int64 :: int where "max_int64 \<equiv> 9223372036854775807"
abbreviation min_int64 :: int where "min_int64 \<equiv> - 9223372036854775808"

definition in_i64 :: "int \<Rightarrow> bool" where
  "in_i64 x \<longleftrightarrow> min_int64 \<le> x \<and> x \<le> max_int64"

lemma i64_id: "in_i64 x \<Longrightarrow> i64 x = x"
  by (simp add: i64_def in_i64_def)

lemma in_i64_i64 [simp]: "in_i64 (i64 x)"
proof -
  have "0 \<le> (x + 2 ^ 63) mod 2 ^ 64" "(x + 2 ^ 63) mod 2 ^ 64 < (2::int) ^ 64"
    by simp_all
  then show ?thesis
    unfolding i64_def in_i64_def by simp
qed

lemma i64_i64_add: "i64 (i64 a + b) = i64 (a + b)"
proof -
  have "(i64 a + b + 2 ^ 63) mod 2 ^ 64 = (a + b + 2 ^ 63) mod 2 ^ 64"
  proof -
    have "i64 a + b + 2 ^ 63 = (a + 2 ^ 63) mod 2 ^ 64 + b"
      unfolding i64_def by simp
    also have "\<dots> mod 2 ^ 64 = (a + 2 ^ 63 + b) mod 2 ^ 64"
      by (rule mod_add_left_eq)
    finally show ?thesis by (simp only: ac_simps)
  qed
  then show ?thesis
    unfolding i64_def[of "i64 a + b"] i64_def[of "a + b"] by simp
qed

section \<open>Slices\<close>

text \<open>\<open>append(xs[:i], xs[i+1:]...)\<close> on the first index whose element satisfies the test.\<close>

fun remove_first :: "('a \<Rightarrow> bool) \<Rightarrow> 'a list \<Rightarrow> 'a list" where
  "remove_first p [] = []"
| "remove_first p (x # xs) = (if p x then xs else x # remove_first p xs)"

text \<open>The index the scanning loop stops at, if any.\<close>

fun find_index :: "('a \<Rightarrow> bool) \<Rightarrow> 'a list \<Rightarrow> nat option" where
  "find_index p [] = None"
| "find_index p (x # xs) = (if p x then Some 0 else map_option Suc (find_index p xs))"

lemma find_index_None: "find_index p xs = None \<longleftrightarrow> (\<forall>x \<in> set xs. \<not> p x)"
  by (induction xs) auto

lemma find_index_Some:
  "find_index p xs = Some i \<Longrightarrow> i < length xs \<and> p (xs ! i) \<and> (\<forall>j < i. \<not> p (xs ! j))"
proof (induction xs arbitrary: i)
  case Nil
  then show ?case by simp
next
  case (Cons x xs)
  show ?case
  proof (cases "p x")
    case True
    with Cons.prems show ?thesis by simp
  next
    case False
    with Cons.prems obtain k where k: "find_index p xs = Some k" "i = Suc k" by auto
    with Cons.IH[of k] False show ?thesis
      by (auto simp: nth_Cons split: nat.splits)
  qed
qed

lemma remove_first_id: "(\<forall>x \<in> set xs. \<not> p x) \<Longrightarrow> remove_first p xs = xs"
  by (induction xs) auto

lemma set_remove_first_subset: "set (remove_first p xs) \<subseteq> set xs"
  by (induction xs) auto

lemma distinct_map_remove_first:
  "distinct (map f xs) \<Longrightarrow> distinct (map f (remove_first p xs))"
  by (induction xs) (use set_remove_first_subset in fastforce)+

lemma remove_first_filter:
  assumes "distinct (map f xs)"
  shows "remove_first (\<lambda>x. f x = k) xs = filter (\<lambda>x. f x \<noteq> k) xs"
  using assms
proof (induction xs)
  case Nil
  then show ?case by simp
next
  case (Cons x xs)
  show ?case
  proof (cases "f x = k")
    case True
    with Cons.prems have "\<forall>y \<in> set xs. f y \<noteq> k" by (auto simp: image_iff)
    with True show ?thesis by (simp add: filter_id_conv)
  next
    case False
    with Cons show ?thesis by simp
  qed
qed

lemma length_remove_first:
  "length (remove_first p xs) = (if \<exists>x \<in> set xs. p x then length xs - 1 else length xs)"
  by (induction xs) (auto simp: Suc_diff_Suc gr0_conv_Suc dest: split_list)

text \<open>
  \<open>s = append(s, zero); copy(s[i+1:], s[i:]); s[i] = x\<close>: insertion at an index.
\<close>

definition insert_at :: "nat \<Rightarrow> 'a \<Rightarrow> 'a list \<Rightarrow> 'a list" where
  "insert_at i x xs = take i xs @ x # drop i xs"

lemma set_insert_at [simp]: "set (insert_at i x xs) = insert x (set xs)"
proof -
  have "set xs = set (take i xs) \<union> set (drop i xs)"
    by (metis append_take_drop_id set_append)
  then show ?thesis by (auto simp: insert_at_def)
qed

lemma length_insert_at [simp]: "length (insert_at i x xs) = Suc (length xs)"
  by (simp add: insert_at_def)

lemma distinct_map_insert_at:
  "distinct (map f xs) \<Longrightarrow> f x \<notin> f ` set xs \<Longrightarrow> distinct (map f (insert_at i x xs))"
proof -
  assume d: "distinct (map f xs)" and n: "f x \<notin> f ` set xs"
  have "distinct (map f (take i xs) @ map f (drop i xs))"
    using d by (metis append_take_drop_id map_append)
  with n show ?thesis
    by (auto simp: insert_at_def dest: in_set_takeD in_set_dropD)
qed

lemma those_map_Some: "(\<forall>x \<in> set xs. f x = Some (g x)) \<Longrightarrow> those (map f xs) = Some (map g xs)"
  by (induction xs) auto

lemma upto_nths:
  assumes "0 \<le> a" "b < int (length xs)"
  shows "map (\<lambda>i. f (xs ! nat i)) [a..b] = map f (take (nat (b - a + 1)) (drop (nat a) xs))"
proof (rule nth_equalityI)
  show "length (map (\<lambda>i. f (xs ! nat i)) [a..b]) = length (map f (take (nat (b - a + 1)) (drop (nat a) xs)))"
    using assms by (auto simp: min_def)
next
  fix n assume n: "n < length (map (\<lambda>i. f (xs ! nat i)) [a..b])"
  then have "nat (a + int n) = nat a + n" using assms(1) by auto
  with n assms show "map (\<lambda>i. f (xs ! nat i)) [a..b] ! n = map f (take (nat (b - a + 1)) (drop (nat a) xs)) ! n"
    by simp
qed

section \<open>Maps\<close>

lemma map_of_AList_update [simp]:
  "map_of (AList.update k v al) = (map_of al)(k \<mapsto> v)"
  by (rule update_conv')

lemma map_of_AList_delete [simp]:
  "map_of (AList.delete k al) = (map_of al)(k := None)"
  by (rule delete_conv')

lemma distinct_update [simp]:
  "distinct (map fst al) \<Longrightarrow> distinct (map fst (AList.update k v al))"
  by (rule distinct_update)

lemma distinct_delete [simp]:
  "distinct (map fst al) \<Longrightarrow> distinct (map fst (AList.delete k al))"
  by (rule distinct_delete)

end
