(* ===== verification/Go_Strings.thy ===== *)
theory Go_Strings
  imports Prelude
begin

text \<open>
  The parts of Go's \<open>strings\<close> and \<open>strconv\<close> packages the program uses, on byte sequences:
  \<open>TrimSpace\<close>, \<open>ToUpper\<close>, \<open>HasPrefix\<close>, \<open>TrimPrefix\<close>, \<open>CutPrefix\<close>, \<open>Contains\<close>, \<open>Split\<close> on one
  character, \<open>Fields\<close>, \<open>Itoa\<close> and \<open>Atoi\<close>. The lemmas give the round trip of decimal numbers
  and the behaviour of \<open>TrimSpace\<close> on a line that ends in CR LF.
\<close>

section \<open>White space\<close>

text \<open>
  The UTF-8 encodings of the runes \<open>unicode.IsSpace\<close> accepts: the six ASCII ones, U+0085,
  U+00A0, U+1680, U+2000 to U+200A, U+2028, U+2029, U+202F, U+205F and U+3000. No encoding is a
  prefix of another and none starts inside another rune, so stripping encodings byte-wise from
  either end removes what \<open>strings.TrimSpace\<close> removes.
\<close>

definition space_encs :: "string list" where
  "space_encs =
    [[CHR 0x20], [CHR 0x0D], [CHR 0x0A], [CHR 0x09], [CHR 0x0B], [CHR 0x0C],
     [CHR 0xC2, CHR 0x85], [CHR 0xC2, CHR 0xA0], [CHR 0xE1, CHR 0x9A, CHR 0x80],
     [CHR 0xE2, CHR 0x80, CHR 0x80], [CHR 0xE2, CHR 0x80, CHR 0x81],
     [CHR 0xE2, CHR 0x80, CHR 0x82], [CHR 0xE2, CHR 0x80, CHR 0x83],
     [CHR 0xE2, CHR 0x80, CHR 0x84], [CHR 0xE2, CHR 0x80, CHR 0x85],
     [CHR 0xE2, CHR 0x80, CHR 0x86], [CHR 0xE2, CHR 0x80, CHR 0x87],
     [CHR 0xE2, CHR 0x80, CHR 0x88], [CHR 0xE2, CHR 0x80, CHR 0x89],
     [CHR 0xE2, CHR 0x80, CHR 0x8A], [CHR 0xE2, CHR 0x80, CHR 0xA8],
     [CHR 0xE2, CHR 0x80, CHR 0xA9], [CHR 0xE2, CHR 0x80, CHR 0xAF],
     [CHR 0xE2, CHR 0x81, CHR 0x9F], [CHR 0xE3, CHR 0x80, CHR 0x80]]"

definition HasPrefix :: "string \<Rightarrow> string \<Rightarrow> bool" where
  "HasPrefix s p \<longleftrightarrow> take (length p) s = p"

lemma HasPrefix_append: "HasPrefix (p @ s) p"
  by (simp add: HasPrefix_def)

lemma HasPrefix_Cons [simp]:
  "HasPrefix s []" "\<not> HasPrefix [] (d # p)"
  "HasPrefix (c # s) (d # p) \<longleftrightarrow> c = d \<and> HasPrefix s p"
  by (auto simp: HasPrefix_def)

text \<open>Strip the first matching encoding from the front, as long as one matches.\<close>

function strip :: "string list \<Rightarrow> string \<Rightarrow> string" where
  "strip encs s =
     (case find (\<lambda>e. e \<noteq> [] \<and> HasPrefix s e) encs of
        None \<Rightarrow> s
      | Some e \<Rightarrow> strip encs (drop (length e) s))"
  by pat_completeness auto
termination
proof (relation "measure (\<lambda>(encs, s). length s)")
  show "wf (measure (\<lambda>(encs :: string list, s :: string). length s))" by simp
next
  fix encs :: "string list" and s e :: string
  assume "find (\<lambda>e. e \<noteq> [] \<and> HasPrefix s e) encs = Some e"
  then have "e \<noteq> []" "take (length e) s = e"
    by (auto simp: find_Some_iff HasPrefix_def)
  then have "s \<noteq> []" by auto
  with \<open>e \<noteq> []\<close> show "((encs, drop (length e) s), (encs, s)) \<in> measure (\<lambda>(encs, s). length s)"
    by simp
qed

declare strip.simps [simp del]

definition TrimLeftSpace :: "string \<Rightarrow> string" where
  "TrimLeftSpace s = strip space_encs s"

definition TrimRightSpace :: "string \<Rightarrow> string" where
  "TrimRightSpace s = rev (strip (map rev space_encs) (rev s))"

definition TrimSpace :: "string \<Rightarrow> string" where
  "TrimSpace s = TrimRightSpace (TrimLeftSpace s)"

lemma strip_none: "find (\<lambda>e. e \<noteq> [] \<and> HasPrefix s e) encs = None \<Longrightarrow> strip encs s = s"
  by (simp add: strip.simps)

lemma strip_Nil [simp]: "strip encs [] = []"
  by (rule strip_none) (auto simp: find_None_iff HasPrefix_def)

lemma strip_suffix: "\<exists>p. s = p @ strip encs s"
proof (induction encs s rule: strip.induct)
  case (1 encs s)
  show ?case
  proof (cases "find (\<lambda>e. e \<noteq> [] \<and> HasPrefix s e) encs")
    case None
    then show ?thesis by (simp add: strip_none)
  next
    case (Some e)
    then obtain p where "drop (length e) s = p @ strip encs (drop (length e) s)"
      using "1.IH" by blast
    then have "s = (take (length e) s @ p) @ strip encs s"
      using Some by (simp add: strip.simps[of encs s])
    then show ?thesis by blast
  qed
qed

lemma strip_fixed: "strip encs s = s \<Longrightarrow> e \<in> set encs \<Longrightarrow> e \<noteq> [] \<Longrightarrow> \<not> HasPrefix s e"
proof
  assume s: "strip encs s = s" and e: "e \<in> set encs" "e \<noteq> []" "HasPrefix s e"
  then obtain d where d: "find (\<lambda>e. e \<noteq> [] \<and> HasPrefix s e) encs = Some d"
    by (metis (mono_tags, lifting) find_None_iff2 not_None_eq)
  then have dne: "d \<noteq> []" and dp: "HasPrefix s d"
    by (auto simp: find_Some_iff)
  from d s have "strip encs (drop (length d) s) = s" by (simp add: strip.simps)
  then have "length s \<le> length (drop (length d) s)"
    using strip_suffix[of "drop (length d) s" encs] by (metis length_append le_add2)
  moreover from dp dne have "s \<noteq> []" by (auto simp: HasPrefix_def)
  ultimately show False using dne by (cases s; cases d) auto
qed

section \<open>Trimmed strings\<close>

definition trimmed :: "string \<Rightarrow> bool" where
  "trimmed s \<longleftrightarrow> TrimSpace s = s"

lemma trimmed_iff: "trimmed s \<longleftrightarrow> TrimLeftSpace s = s \<and> TrimRightSpace s = s"
proof
  assume t: "trimmed s"
  obtain p where p: "s = p @ TrimLeftSpace s"
    using strip_suffix unfolding TrimLeftSpace_def by blast
  obtain q where q: "rev (TrimLeftSpace s) = q @ strip (map rev space_encs) (rev (TrimLeftSpace s))"
    using strip_suffix by blast
  then have "length (TrimSpace s) \<le> length (TrimLeftSpace s)"
    unfolding TrimSpace_def TrimRightSpace_def
    by (metis length_append length_rev le_add2)
  with t p have "p = []" unfolding trimmed_def
    by (metis add_le_same_cancel2 length_append length_greater_0_conv not_le)
  with p have "TrimLeftSpace s = s" by simp
  with t show "TrimLeftSpace s = s \<and> TrimRightSpace s = s"
    by (simp add: trimmed_def TrimSpace_def)
next
  assume "TrimLeftSpace s = s \<and> TrimRightSpace s = s"
  then show "trimmed s" by (simp add: trimmed_def TrimSpace_def)
qed

text \<open>No encoding but CR itself holds a CR, so a line end never completes an encoding.\<close>

lemma space_encs_CR: "e \<in> set space_encs \<Longrightarrow> CR \<in> set e \<Longrightarrow> e = [CR]"
  by (auto simp: space_encs_def)

lemma space_encs_nonempty: "e \<in> set space_encs \<Longrightarrow> e \<noteq> []"
  by (auto simp: space_encs_def)

lemma HasPrefix_CR:
  assumes "HasPrefix (a @ CR # t) e" "\<not> HasPrefix a e" "CR \<in> set e \<longrightarrow> e = [CR]" "a \<noteq> []"
  shows False
proof (cases "length e \<le> length a")
  case True
  then show False using assms by (simp add: HasPrefix_def)
next
  case False
  then have "e = a @ take (length e - length a) (CR # t)"
    using assms(1) by (simp add: HasPrefix_def)
  moreover obtain n where "length e - length a = Suc n"
    using False by (metis Suc_diff_Suc not_le)
  ultimately have e: "e = a @ CR # take n t" by simp
  with assms(3,4) show False by (cases a) auto
qed

lemma strip_crlf: "strip (map rev space_encs) (LF # CR # t) = strip (map rev space_encs) t"
  by (simp add: strip.simps[of _ "LF # CR # t"] strip.simps[of _ "CR # t"] space_encs_def)

lemma TrimSpace_crlf:
  assumes "trimmed a"
  shows "TrimSpace (a @ crlf) = a"
proof (cases "a = []")
  case True
  have "strip space_encs [CR, LF] = []"
    by (simp add: strip.simps[of _ "[CR, LF]"] strip.simps[of _ "[LF]"] space_encs_def)
  with True show ?thesis
    by (simp add: TrimSpace_def TrimLeftSpace_def TrimRightSpace_def crlf_def strip_none
        find_None_iff)
next
  case False
  from assms have l: "strip space_encs a = a" and r: "strip (map rev space_encs) (rev a) = rev a"
    by (auto simp: trimmed_iff TrimLeftSpace_def TrimRightSpace_def rev_swap)
  have "find (\<lambda>e. e \<noteq> [] \<and> HasPrefix (a @ crlf) e) space_encs = None"
  proof (subst find_None_iff, clarify)
    fix e assume e: "e \<in> set space_encs" "e \<noteq> []" "HasPrefix (a @ crlf) e"
    then show False
      using HasPrefix_CR[of a "[LF]" e] strip_fixed[OF l] space_encs_CR False
      by (auto simp: crlf_def)
  qed
  then have "TrimLeftSpace (a @ crlf) = a @ crlf"
    by (simp add: TrimLeftSpace_def strip_none)
  with r show ?thesis
    by (simp add: TrimSpace_def TrimRightSpace_def crlf_def strip_crlf)
qed

text \<open>A string whose first and last byte are printable ASCII is trimmed.\<close>

definition graphic :: "char \<Rightarrow> bool" where
  "graphic c \<longleftrightarrow> CHR 0x21 \<le> c \<and> c \<le> CHR 0x7E"

lemma space_encs_graphic:
  "e \<in> set space_encs \<Longrightarrow> \<not> graphic (hd e) \<and> \<not> graphic (last e)"
  by (auto simp: space_encs_def graphic_def)

lemma trimmed_graphic:
  assumes "s = [] \<or> graphic (hd s) \<and> graphic (last s)"
  shows "trimmed s"
proof (cases "s = []")
  case True
  then show ?thesis
    by (simp add: trimmed_iff TrimLeftSpace_def TrimRightSpace_def strip_none find_None_iff
        HasPrefix_def)
next
  case False
  with assms have g: "graphic (hd s)" "graphic (hd (rev s))" by (auto simp: hd_rev)
  have aux: "strip encs t = t"
    if "\<And>e. e \<in> set encs \<Longrightarrow> \<not> graphic (hd e)" "graphic (hd t)" for encs t
  proof (rule strip_none, subst find_None_iff, clarify)
    fix d assume d: "d \<in> set encs" "d \<noteq> []" "HasPrefix t d"
    then obtain c d' where c: "d = c # d'" by (meson neq_Nil_conv)
    with d(3) have "hd t = c" by (cases t) auto
    moreover from that(1) d(1) have "\<not> graphic (hd d)" by blast
    ultimately show False using that(2) c by simp
  qed
  have "strip space_encs s = s" using aux[of space_encs s] space_encs_graphic g by blast
  moreover have "strip (map rev space_encs) (rev s) = rev s"
  proof (rule aux)
    fix e assume "e \<in> set (map rev space_encs)"
    then show "\<not> graphic (hd e)"
      using space_encs_graphic by (auto simp: hd_rev)
  qed (rule g(2))
  ultimately show ?thesis
    by (simp add: trimmed_iff TrimLeftSpace_def TrimRightSpace_def)
qed


section \<open>Case, prefixes, splitting\<close>

text \<open>
  \<open>strings.ToUpper\<close> on ASCII letters, and on the two runes outside ASCII whose upper case is an
  ASCII letter: U+0131 (dotless i) and U+017F (long s). Other runes keep bytes outside ASCII
  under \<open>ToUpper\<close>, so for the only question the program asks of the result, equality with an
  ASCII literal, leaving them as they are gives the same answer.
\<close>

definition upper_char :: "char \<Rightarrow> char" where
  "upper_char c =
     (if CHR ''a'' \<le> c \<and> c \<le> CHR ''z'' then char_of (of_char c - 32 :: nat) else c)"

lemma upper_letters [simp]:
  "upper_char CHR ''A'' = CHR ''A''"
  "upper_char CHR ''B'' = CHR ''B''"
  "upper_char CHR ''C'' = CHR ''C''"
  "upper_char CHR ''D'' = CHR ''D''"
  "upper_char CHR ''E'' = CHR ''E''"
  "upper_char CHR ''F'' = CHR ''F''"
  "upper_char CHR ''G'' = CHR ''G''"
  "upper_char CHR ''H'' = CHR ''H''"
  "upper_char CHR ''I'' = CHR ''I''"
  "upper_char CHR ''J'' = CHR ''J''"
  "upper_char CHR ''K'' = CHR ''K''"
  "upper_char CHR ''L'' = CHR ''L''"
  "upper_char CHR ''M'' = CHR ''M''"
  "upper_char CHR ''N'' = CHR ''N''"
  "upper_char CHR ''O'' = CHR ''O''"
  "upper_char CHR ''P'' = CHR ''P''"
  "upper_char CHR ''Q'' = CHR ''Q''"
  "upper_char CHR ''R'' = CHR ''R''"
  "upper_char CHR ''S'' = CHR ''S''"
  "upper_char CHR ''T'' = CHR ''T''"
  "upper_char CHR ''U'' = CHR ''U''"
  "upper_char CHR ''V'' = CHR ''V''"
  "upper_char CHR ''W'' = CHR ''W''"
  "upper_char CHR ''X'' = CHR ''X''"
  "upper_char CHR ''Y'' = CHR ''Y''"
  "upper_char CHR ''Z'' = CHR ''Z''"
  by (simp_all add: upper_char_def)

fun ToUpper :: "string \<Rightarrow> string" where
  "ToUpper [] = []"
| "ToUpper [c] = [upper_char c]"
| "ToUpper (c # d # s) =
     (if c = CHR 0xC4 \<and> d = CHR 0xB1 then CHR ''I'' # ToUpper s
      else if c = CHR 0xC5 \<and> d = CHR 0xBF then CHR ''S'' # ToUpper s
      else upper_char c # ToUpper (d # s))"

definition TrimPrefix :: "string \<Rightarrow> string \<Rightarrow> string" where
  "TrimPrefix s p = (if HasPrefix s p then drop (length p) s else s)"

definition CutPrefix :: "string \<Rightarrow> string \<Rightarrow> string \<times> bool" where
  "CutPrefix s p = (if HasPrefix s p then (drop (length p) s, True) else (s, False))"

fun Contains :: "string \<Rightarrow> string \<Rightarrow> bool" where
  "Contains [] p \<longleftrightarrow> p = []"
| "Contains (c # s) p \<longleftrightarrow> HasPrefix (c # s) p \<or> Contains s p"

text \<open>\<open>strings.Split\<close> with a separator of one byte: there is always at least one field.\<close>

fun Split :: "char \<Rightarrow> string \<Rightarrow> string list" where
  "Split sep [] = [[]]"
| "Split sep (c # s) =
     (if c = sep then [] # Split sep s
      else (case Split sep s of [] \<Rightarrow> [[c]] | f # fs \<Rightarrow> (c # f) # fs))"

text \<open>\<open>strings.Fields\<close>: the maximal runs without white space.\<close>

function fields_from :: "string \<Rightarrow> string \<Rightarrow> string list" where
  "fields_from cur s =
     (case find (\<lambda>e. e \<noteq> [] \<and> HasPrefix s e) space_encs of
        Some e \<Rightarrow> (if cur = [] then fields_from [] (drop (length e) s)
                   else cur # fields_from [] (drop (length e) s))
      | None \<Rightarrow> (case s of
                   [] \<Rightarrow> (if cur = [] then [] else [cur])
                 | c # s' \<Rightarrow> fields_from (cur @ [c]) s'))"
  by pat_completeness auto
termination
proof (relation "measure (\<lambda>(cur, s). length s)")
  fix cur s e :: string
  assume "find (\<lambda>e. e \<noteq> [] \<and> HasPrefix s e) space_encs = Some e"
  then have "e \<noteq> []" "take (length e) s = e"
    by (auto simp: find_Some_iff HasPrefix_def)
  moreover from this have "s \<noteq> []" by auto
  ultimately have d: "length (drop (length e) s) < length s" by simp
  then show "(([], drop (length e) s), (cur, s)) \<in> measure (\<lambda>(cur, s). length s)" by simp
  from d show "(([], drop (length e) s), (cur, s)) \<in> measure (\<lambda>(cur, s). length s)" by simp
qed simp_all

declare fields_from.simps [simp del]

definition Fields :: "string \<Rightarrow> string list" where
  "Fields s = fields_from [] s"

section \<open>Decimal numbers\<close>

definition digit :: "nat \<Rightarrow> char" where
  "digit d = ''0123456789'' ! d"

fun nat_digits :: "nat \<Rightarrow> string" where
  "nat_digits n = (if n < 10 then [digit n] else nat_digits (n div 10) @ [digit (n mod 10)])"

declare nat_digits.simps [simp del]

definition itoa :: "int \<Rightarrow> string" where
  "itoa i = (if i < 0 then CHR ''-'' # nat_digits (nat (- i)) else nat_digits (nat i))"

definition is_digit :: "char \<Rightarrow> bool" where
  "is_digit c \<longleftrightarrow> CHR ''0'' \<le> c \<and> c \<le> CHR ''9''"

definition digit_val :: "char \<Rightarrow> nat" where
  "digit_val c = of_char c - 48"

datatype num_err = ErrSyntax | ErrRange

text \<open>
  \<open>strconv.ParseUint\<close> in base 10 for 64 bits: the digit check comes before the range checks, and
  the first failing check decides the error.
\<close>

fun parse_uint :: "string \<Rightarrow> nat \<Rightarrow> num_err + nat" where
  "parse_uint [] n = Inr n"
| "parse_uint (c # cs) n =
     (if \<not> is_digit c then Inl ErrSyntax
      else if n \<ge> 1844674407370955162 then Inl ErrRange
      else let n1 = n * 10 + digit_val c
           in if n1 > 18446744073709551615 then Inl ErrRange else parse_uint cs n1)"

definition signed_value :: "bool \<Rightarrow> num_err + nat \<Rightarrow> int \<times> num_err option" where
  "signed_value neg r =
     (case r of
        Inl ErrSyntax \<Rightarrow> (0, Some ErrSyntax)
      | Inl ErrRange \<Rightarrow> (if neg then min_int64 else max_int64, Some ErrRange)
      | Inr n \<Rightarrow>
          if \<not> neg \<and> n \<ge> 2 ^ 63 then (max_int64, Some ErrRange)
          else if neg \<and> n > 2 ^ 63 then (min_int64, Some ErrRange)
          else (if neg then - int n else int n, None))"

text \<open>
  \<open>strconv.Atoi\<close>: the value and the error. A syntax error gives 0, a range error the nearest
  64-bit value; most callers drop the error and go on with the value.
\<close>

definition Atoi :: "string \<Rightarrow> int \<times> num_err option" where
  "Atoi s =
     (let neg = (case s of c # _ \<Rightarrow> c = CHR ''-'' | [] \<Rightarrow> False);
          ds = (case s of c # cs \<Rightarrow> (if c = CHR ''-'' \<or> c = CHR ''+'' then cs else s) | [] \<Rightarrow> [])
      in if ds = [] then (0, Some ErrSyntax) else signed_value neg (parse_uint ds 0))"

lemma digit_facts:
  assumes "d < 10"
  shows "is_digit (digit d)" "digit_val (digit d) = d" "graphic (digit d)"
    "digit d \<noteq> CR" "digit d \<noteq> LF" "digit d \<noteq> CHR ''-''" "digit d \<noteq> CHR ''+''"
proof -
  have "d \<in> {0, 1, 2, 3, 4, 5, 6, 7, 8, 9}" using assms by auto
  then show "is_digit (digit d)" "digit_val (digit d) = d" "graphic (digit d)"
    "digit d \<noteq> CR" "digit d \<noteq> LF" "digit d \<noteq> CHR ''-''" "digit d \<noteq> CHR ''+''"
    by (auto simp: digit_def is_digit_def digit_val_def graphic_def)
qed

lemma nat_digits_nonempty [simp]: "nat_digits n \<noteq> []"
  by (subst nat_digits.simps) simp

lemma nat_digits_length: "n < 10 ^ Suc k \<Longrightarrow> length (nat_digits n) \<le> Suc k"
proof (induction k arbitrary: n)
  case (Suc k)
  then have "length (nat_digits (n div 10)) \<le> Suc k" by (intro Suc.IH) (simp add: less_mult_imp_div_less)
  then show ?case by (subst nat_digits.simps) simp
qed (simp add: nat_digits.simps)

lemma nat_digits_digits: "c \<in> set (nat_digits n) \<Longrightarrow> \<exists>d < 10. c = digit d"
proof (induction n rule: nat_digits.induct)
  case (1 n)
  show ?case
  proof (cases "n < 10")
    case True
    with "1.prems" show ?thesis by (subst (asm) nat_digits.simps) auto
  next
    case False
    with "1.prems" consider "c \<in> set (nat_digits (n div 10))" | "c = digit (n mod 10)"
      by (subst (asm) nat_digits.simps) auto
    then show ?thesis
      using "1.IH" False by cases (auto intro: exI[of _ "n mod 10"])
  qed
qed

lemma nat_digits_graphic: "c \<in> set (nat_digits n) \<Longrightarrow> graphic c"
  using nat_digits_digits digit_facts by blast

lemma itoa_graphic: "c \<in> set (itoa i) \<Longrightarrow> graphic c"
  by (auto simp: itoa_def nat_digits_graphic graphic_def split: if_splits dest: nat_digits_graphic)

lemma itoa_nonempty [simp]: "itoa i \<noteq> []"
  by (simp add: itoa_def)

lemma graphic_not_LF [simp]: "graphic c \<Longrightarrow> c \<noteq> LF \<and> c \<noteq> CR"
  by (auto simp: graphic_def)

lemma itoa_no_LF [simp]: "LF \<notin> set (itoa i)" "CR \<notin> set (itoa i)"
  using itoa_graphic graphic_not_LF by blast+

lemma trimmed_itoa [simp]: "trimmed (itoa i)"
  by (rule trimmed_graphic) (simp add: itoa_graphic[OF hd_in_set] itoa_graphic[OF last_in_set])

lemma parse_uint_append:
  "parse_uint (xs @ ys) n = (case parse_uint xs n of Inl e \<Rightarrow> Inl e | Inr m \<Rightarrow> parse_uint ys m)"
  by (induction xs arbitrary: n) (auto simp: Let_def)

lemma parse_uint_nat_digits: "n < 2 ^ 64 \<Longrightarrow> parse_uint (nat_digits n) 0 = Inr n"
proof (induction n rule: nat_digits.induct)
  case (1 n)
  show ?case
  proof (cases "n < 10")
    case True
    then show ?thesis by (subst nat_digits.simps) (simp add: digit_facts)
  next
    case False
    with 1 have "parse_uint (nat_digits (n div 10)) 0 = Inr (n div 10)" by simp
    moreover have "n div 10 < 1844674407370955162" using "1.prems" by simp
    ultimately show ?thesis
      using False "1.prems"
      by (subst nat_digits.simps) (simp add: parse_uint_append digit_facts)
  qed
qed

lemma nat_digits_hd: "\<exists>d < 10. \<exists>ds. nat_digits n = digit d # ds"
  by (metis list.set_intros(1) nat_digits_digits nat_digits_nonempty neq_Nil_conv)

text \<open>Printing and parsing a 64-bit number is the identity.\<close>

lemma Atoi_itoa [simp]: "in_i64 i \<Longrightarrow> Atoi (itoa i) = (i, None)"
proof -
  assume i: "in_i64 i"
  show ?thesis
  proof (cases "i < 0")
    case True
    then have "parse_uint (nat_digits (nat (- i))) 0 = Inr (nat (- i))"
      using i by (intro parse_uint_nat_digits) (simp add: in_i64_def)
    with True i show ?thesis
      by (simp add: Atoi_def itoa_def signed_value_def in_i64_def)
  next
    case False
    then have "parse_uint (nat_digits (nat i)) 0 = Inr (nat i)"
      using i by (intro parse_uint_nat_digits) (simp add: in_i64_def)
    moreover obtain d ds where "d < 10" "nat_digits (nat i) = digit d # ds"
      using nat_digits_hd by blast
    ultimately show ?thesis using False i
      by (simp add: Atoi_def itoa_def signed_value_def in_i64_def digit_facts)
  qed
qed

lemma Atoi_range: "in_i64 (fst (Atoi s))"
  by (auto simp: Atoi_def signed_value_def in_i64_def Let_def split: sum.splits num_err.splits)

end
