(* ===== verification/Resp_Format.thy ===== *)
theory Resp_Format
  imports Go_Strings
begin

text \<open>
  The RESP texts both sides of the wire build with \<open>fmt.Sprintf\<close>: bulk strings, integers,
  array headers and the array of bulk strings that carries a command. A command argument that
  holds no line feed and that \<open>TrimSpace\<close> leaves alone (\<open>arg_ok\<close>) survives the server's line
  oriented parsing.
\<close>

section \<open>Formats\<close>

definition bulk :: "string \<Rightarrow> string" where
  "bulk s = ''$'' @ itoa (int (length s)) @ crlf @ s @ crlf"

definition int_reply :: "int \<Rightarrow> string" where
  "int_reply i = '':'' @ itoa i @ crlf"

definition array_header :: "int \<Rightarrow> string" where
  "array_header n = ''*'' @ itoa n @ crlf"

definition nil_bulk :: string where
  "nil_bulk = ''$-1'' @ crlf"

definition nil_array :: string where
  "nil_array = ''*-1'' @ crlf"

definition empty_array :: string where
  "empty_array = ''*0'' @ crlf"

definition ok_reply :: string where
  "ok_reply = ''+OK'' @ crlf"

definition noauth_reply :: string where
  "noauth_reply = ''-NOAUTH Authentication required.'' @ crlf"

text \<open>The array of bulk strings: the request format, and what the server logs and propagates.\<close>

definition bulks :: "string list \<Rightarrow> string" where
  "bulks args = concat (map bulk args)"

definition resp_array :: "string list \<Rightarrow> string" where
  "resp_array args = array_header (int (length args)) @ bulks args"

lemmas reply_defs =
  int_reply_def nil_bulk_def nil_array_def empty_array_def ok_reply_def noauth_reply_def

lemma bulks_simps [simp]:
  "bulks [] = []" "bulks (a # as) = bulk a @ bulks as" "bulks (as @ bs) = bulks as @ bulks bs"
  by (simp_all add: bulks_def)

lemma bulk_nonempty [simp]: "bulk a \<noteq> []" "array_header n \<noteq> []"
  by (simp_all add: bulk_def array_header_def)

section \<open>Arguments the line protocol carries\<close>

definition arg_ok :: "string \<Rightarrow> bool" where
  "arg_ok a \<longleftrightarrow> LF \<notin> set a \<and> trimmed a"

lemma arg_ok_graphic: "\<forall>c \<in> set a. graphic c \<Longrightarrow> arg_ok a"
  unfolding arg_ok_def using graphic_not_LF
  by (metis hd_in_set last_in_set trimmed_graphic)

lemma arg_ok_itoa [simp]: "arg_ok (itoa i)"
  by (simp add: arg_ok_def)

lemma arg_ok_trim [simp]: "arg_ok a \<Longrightarrow> TrimSpace (a @ crlf) = a"
  by (simp add: arg_ok_def TrimSpace_crlf)

lemma arg_ok_trim' [simp]: "arg_ok a \<Longrightarrow> TrimSpace a = a"
  by (simp add: arg_ok_def trimmed_def)

text \<open>The two lines of a bulk string.\<close>

lemma bulk_lines:
  "bulk a @ rest = (''$'' @ itoa (int (length a)) @ [CR]) @ LF # (a @ [CR]) @ LF # rest"
  by (simp add: bulk_def crlf_def)

lemma array_header_line:
  "array_header n @ rest = (''*'' @ itoa n @ [CR]) @ LF # rest"
  by (simp add: array_header_def crlf_def)

end
