(* ===== verification/Reader.thy ===== *)
theory Reader
  imports Resp_Format
begin

text \<open>
  \<open>bufio.Reader\<close> over a connection or a file. What the underlying \<open>Read\<close> calls will return is
  part of the state: a list of events, each a chunk of bytes or an error other than EOF; after
  the list every \<open>Read\<close> returns EOF. The split of the stream into chunks is the network's, so
  \<open>Buffered\<close>, the number of bytes of the current chunk not read yet, depends on it.

  The interface the handlers and the AOF parser use is the locale \<open>line_source\<close>: reading a line
  that is complete in the stream returns it and leaves the rest of the stream, however it is
  split into chunks.
\<close>

section \<open>State\<close>

datatype inev = Chunk string | ReadErr
datatype rerr = EOF | IOErr

record rd =
  rbuf :: string
  rsrc :: "inev list"

primrec ev_bytes :: "inev \<Rightarrow> string" where
  "ev_bytes (Chunk c) = c"
| "ev_bytes ReadErr = []"

definition stream :: "rd \<Rightarrow> string" where
  "stream r = rbuf r @ concat (map ev_bytes (rsrc r))"

definition no_errors :: "rd \<Rightarrow> bool" where
  "no_errors r \<longleftrightarrow> ReadErr \<notin> set (rsrc r)"

definition Buffered :: "rd \<Rightarrow> nat" where
  "Buffered r = length (rbuf r)"

section \<open>Operations\<close>

text \<open>The bytes up to and including the first line feed, and those after it.\<close>

fun split_line :: "string \<Rightarrow> (string \<times> string) option" where
  "split_line [] = None"
| "split_line (c # s) =
     (if c = LF then Some ([LF], s)
      else map_option (\<lambda>(l, t). (c # l, t)) (split_line s))"

text \<open>\<open>ReadString\<close> past the buffer: read chunks until one has the line feed.\<close>

fun read_line_src :: "string \<Rightarrow> inev list \<Rightarrow> string \<times> rerr option \<times> rd" where
  "read_line_src acc [] = (acc, Some EOF, \<lparr>rbuf = [], rsrc = []\<rparr>)"
| "read_line_src acc (ReadErr # es) = (acc, Some IOErr, \<lparr>rbuf = [], rsrc = es\<rparr>)"
| "read_line_src acc (Chunk c # es) =
     (case split_line c of
        Some (l, t) \<Rightarrow> (acc @ l, None, \<lparr>rbuf = t, rsrc = es\<rparr>)
      | None \<Rightarrow> read_line_src (acc @ c) es)"

definition ReadString :: "rd \<Rightarrow> string \<times> rerr option \<times> rd" where
  "ReadString r =
     (case split_line (rbuf r) of
        Some (l, t) \<Rightarrow> (l, None, r\<lparr>rbuf := t\<rparr>)
      | None \<Rightarrow> read_line_src (rbuf r) (rsrc r))"

definition skip_line :: "rd \<Rightarrow> rd" where
  "skip_line r = snd (snd (ReadString r))"

text \<open>
  The pattern the handlers repeat for every argument:
  \<open>_, _ = reader.ReadString('\n'); x, err := reader.ReadString('\n')\<close>.
\<close>

definition read_field :: "rd \<Rightarrow> string \<times> rerr option \<times> rd" where
  "read_field r = ReadString (skip_line r)"

fun read_full_src :: "nat \<Rightarrow> string \<Rightarrow> inev list \<Rightarrow> string \<times> rerr option \<times> rd" where
  "read_full_src n acc [] =
     (if n \<le> length acc then (take n acc, None, \<lparr>rbuf = drop n acc, rsrc = []\<rparr>)
      else (acc, Some EOF, \<lparr>rbuf = [], rsrc = []\<rparr>))"
| "read_full_src n acc (e # es) =
     (if n \<le> length acc then (take n acc, None, \<lparr>rbuf = drop n acc, rsrc = e # es\<rparr>)
      else case e of
        ReadErr \<Rightarrow> (acc, Some IOErr, \<lparr>rbuf = [], rsrc = es\<rparr>)
      | Chunk c \<Rightarrow> read_full_src n (acc @ c) es)"

text \<open>\<open>io.ReadFull\<close> of \<open>n\<close> bytes: the bytes read, which are fewer than \<open>n\<close> when there is an error.\<close>

definition ReadFull :: "nat \<Rightarrow> rd \<Rightarrow> string \<times> rerr option \<times> rd" where
  "ReadFull n r = read_full_src n (rbuf r) (rsrc r)"

definition ReadByte :: "rd \<Rightarrow> char option \<times> rerr option \<times> rd" where
  "ReadByte r =
     (let (bs, err, r') = ReadFull 1 r
      in (case bs of b # _ \<Rightarrow> (Some b, err, r') | [] \<Rightarrow> (None, err, r')))"

definition rd_size :: "rd \<Rightarrow> nat" where
  "rd_size r = length (rbuf r) + sum_list (map (\<lambda>e. Suc (length (ev_bytes e))) (rsrc r))"

section \<open>Lines\<close>

lemma split_line_None: "split_line s = None \<longleftrightarrow> LF \<notin> set s"
  by (induction s) auto

lemma split_line_append: "LF \<notin> set l \<Longrightarrow> split_line (l @ LF # t) = Some (l @ [LF], t)"
  by (induction l) auto

lemma split_line_Some: "split_line s = Some (l, t) \<Longrightarrow> s = l @ t \<and> l \<noteq> []"
  by (induction s arbitrary: l t) (auto split: if_splits)

lemma split_line_first:
  assumes "LF \<in> set s" "s @ u = l @ LF # t" "LF \<notin> set l"
  obtains t' where "split_line s = Some (l @ [LF], t')" "t' @ u = t"
proof -
  from assms(1) obtain l' t' where s: "s = l' @ LF # t'" "LF \<notin> set l'"
    by (meson split_list_first)
  with assms have "l' @ LF # (t' @ u) = l @ LF # t" by simp
  with s(2) assms(3) have "l' = l" "t' @ u = t"
    by (induction l' arbitrary: l) (auto simp: append_eq_Cons_conv Cons_eq_append_conv)
  with s that show ?thesis by (simp add: split_line_append)
qed

lemma read_line_src_line:
  assumes "ReadErr \<notin> set es" "LF \<notin> set acc" "acc @ concat (map ev_bytes es) = l @ LF # t"
    "LF \<notin> set l"
  shows "\<exists>r. read_line_src acc es = (l @ [LF], None, r) \<and> stream r = t \<and> no_errors r"
  using assms
proof (induction es arbitrary: acc)
  case Nil
  then have "acc = l @ LF # t" by simp
  with Nil.prems(2) show ?case by simp
next
  case (Cons e es)
  from Cons.prems(1) obtain c where e: "e = Chunk c" by (cases e) auto
  show ?case
  proof (cases "LF \<in> set c")
    case False
    with Cons.prems e have "\<exists>r. read_line_src (acc @ c) es = (l @ [LF], None, r)
        \<and> stream r = t \<and> no_errors r"
      by (intro Cons.IH) auto
    moreover from False have "split_line c = None" by (simp add: split_line_None)
    ultimately show ?thesis using e by simp
  next
    case True
    with e Cons.prems have "(acc @ c) @ concat (map ev_bytes es) = l @ LF # t" "LF \<in> set (acc @ c)"
      by auto
    then obtain t' where t': "split_line (acc @ c) = Some (l @ [LF], t')"
        "t' @ concat (map ev_bytes es) = t"
      using Cons.prems(4) by (metis split_line_first)
    from True obtain d u where c: "c = d @ LF # u" "LF \<notin> set d" by (meson split_list_first)
    with t' Cons.prems(2) have "acc @ d = l" "u = t'"
      by (auto simp: split_line_append simp flip: append_assoc)
    with c t' e Cons.prems(1) show ?thesis
      by (auto simp: split_line_append stream_def no_errors_def)
  qed
qed

lemma ReadString_line:
  assumes "no_errors r" "stream r = l @ LF # t" "LF \<notin> set l"
  shows "\<exists>r'. ReadString r = (l @ [LF], None, r') \<and> stream r' = t \<and> no_errors r'"
proof (cases "LF \<in> set (rbuf r)")
  case True
  with assms obtain t' where "split_line (rbuf r) = Some (l @ [LF], t')"
      "t' @ concat (map ev_bytes (rsrc r)) = t"
    by (auto simp: stream_def elim: split_line_first)
  with assms(1) show ?thesis by (simp add: ReadString_def stream_def no_errors_def)
next
  case False
  with assms show ?thesis
    using read_line_src_line[of "rsrc r" "rbuf r" l t]
    by (auto simp: ReadString_def stream_def no_errors_def split_line_None[THEN iffD2])
qed

lemma read_line_src_eof:
  assumes "ReadErr \<notin> set es" "LF \<notin> set (concat (map ev_bytes es))"
  shows "read_line_src acc es
    = (acc @ concat (map ev_bytes es), Some EOF, \<lparr>rbuf = [], rsrc = []\<rparr>)"
  using assms
proof (induction es arbitrary: acc)
  case (Cons e es)
  then show ?case by (cases e) (auto simp: split_line_None[THEN iffD2])
qed simp

lemma ReadString_eof:
  assumes "no_errors r" "LF \<notin> set (stream r)"
  shows "ReadString r = (stream r, Some EOF, \<lparr>rbuf = [], rsrc = []\<rparr>)"
  using assms
  by (simp add: ReadString_def stream_def no_errors_def split_line_None[THEN iffD2] read_line_src_eof)

section \<open>The interface the line protocol relies on\<close>

text \<open>
  A source of lines: \<open>ok\<close> readers have a stream, and a complete line at the head of the stream
  is what the next read returns. The client lemmas read the parts of a RESP command.
\<close>

locale line_source =
  fixes next_line :: "'r \<Rightarrow> string \<times> 'e option \<times> 'r"
    and contents :: "'r \<Rightarrow> string"
    and ok :: "'r \<Rightarrow> bool"
  assumes complete_line:
    "ok r \<Longrightarrow> contents r = l @ LF # t \<Longrightarrow> LF \<notin> set l \<Longrightarrow>
      \<exists>r'. next_line r = (l @ [LF], None, r') \<and> contents r' = t \<and> ok r'"
    and no_line: "ok r \<Longrightarrow> LF \<notin> set (contents r) \<Longrightarrow>
      \<exists>e r'. next_line r = (contents r, Some e, r') \<and> contents r' = [] \<and> ok r'"
begin

lemma read_header:
  assumes "ok r" "contents r = array_header n @ t"
  shows "\<exists>r'. next_line r = (array_header n, None, r') \<and> contents r' = t \<and> ok r'"
  using complete_line[of r "''*'' @ itoa n @ [CR]" t] assms
  by (simp add: array_header_line) (simp add: array_header_def crlf_def)

lemma read_bulk:
  assumes "ok r" "contents r = bulk a @ t" "LF \<notin> set a"
  shows "\<exists>r1 r2. next_line r = (''$'' @ itoa (int (length a)) @ crlf, None, r1) \<and>
    contents r1 = a @ crlf @ t \<and> ok r1 \<and>
    next_line r1 = (a @ crlf, None, r2) \<and> contents r2 = t \<and> ok r2"
proof -
  have "\<exists>r1. next_line r = ((''$'' @ itoa (int (length a)) @ [CR]) @ [LF], None, r1) \<and>
      contents r1 = (a @ [CR]) @ LF # t \<and> ok r1"
    using assms by (intro complete_line) (auto simp: bulk_lines)
  then obtain r1 where r1: "next_line r = (''$'' @ itoa (int (length a)) @ crlf, None, r1)"
      "contents r1 = (a @ [CR]) @ LF # t" "ok r1"
    by (auto simp: crlf_def)
  then have "\<exists>r2. next_line r1 = ((a @ [CR]) @ [LF], None, r2) \<and> contents r2 = t \<and> ok r2"
    using assms by (intro complete_line) auto
  with r1 show ?thesis by (auto simp: crlf_def)
qed

lemma read_bulk_field:
  assumes "ok r" "contents r = bulk a @ t" "LF \<notin> set a"
  shows "\<exists>r2. next_line (snd (snd (next_line r))) = (a @ crlf, None, r2) \<and> contents r2 = t \<and> ok r2"
  using read_bulk[OF assms] by auto

end

interpretation bufio: line_source ReadString stream no_errors
proof
  show "\<exists>r'. ReadString r = (l @ [LF], None, r') \<and> stream r' = t \<and> no_errors r'"
    if "no_errors r" "stream r = l @ LF # t" "LF \<notin> set l" for r l t
    using that by (rule ReadString_line)
  show "\<exists>e r'. ReadString r = (stream r, Some e, r') \<and> stream r' = [] \<and> no_errors r'"
    if "no_errors r" "LF \<notin> set (stream r)" for r
    using ReadString_eof[OF that] by (auto simp: stream_def no_errors_def)
qed

text \<open>The handlers' argument pattern on a bulk string.\<close>

lemma read_field_bulk:
  assumes "no_errors r" "stream r = bulk a @ t" "arg_ok a"
  obtains r' where "read_field r = (a @ crlf, None, r')" "stream r' = t" "no_errors r'"
  using bufio.read_bulk_field[OF assms(1,2)] assms(3)
  by (auto simp: read_field_def skip_line_def arg_ok_def)

section \<open>Reading makes progress\<close>

lemma read_line_src_size:
  "read_line_src acc es = (l, e, r) \<Longrightarrow>
    rd_size r \<le> sum_list (map (\<lambda>e. Suc (length (ev_bytes e))) es)
    \<and> (es \<noteq> [] \<longrightarrow> rd_size r < sum_list (map (\<lambda>e. Suc (length (ev_bytes e))) es))
    \<and> (es = [] \<longrightarrow> e = Some EOF)"
proof (induction acc es rule: read_line_src.induct)
  case (3 acc c es)
  then show ?case
    by (fastforce simp: rd_size_def split: option.splits prod.splits dest: split_line_Some)
qed (auto simp: rd_size_def)

lemma ReadString_size:
  assumes "ReadString r = (l, e, r')"
  shows "rd_size r' \<le> rd_size r" "e \<noteq> Some EOF \<Longrightarrow> rd_size r' < rd_size r"
proof -
  have "rd_size r' \<le> rd_size r \<and> (e \<noteq> Some EOF \<longrightarrow> rd_size r' < rd_size r)"
  proof (cases "split_line (rbuf r)")
    case None
    with assms have "read_line_src (rbuf r) (rsrc r) = (l, e, r')"
      by (simp add: ReadString_def)
    from read_line_src_size[OF this] show ?thesis
      by (cases "rsrc r = []") (auto simp: rd_size_def)
  next
    case (Some p)
    with assms show ?thesis
      by (cases p) (auto simp: ReadString_def rd_size_def dest: split_line_Some)
  qed
  then show "rd_size r' \<le> rd_size r" "e \<noteq> Some EOF \<Longrightarrow> rd_size r' < rd_size r" by auto
qed

lemma skip_line_size: "rd_size (skip_line r) \<le> rd_size r"
  by (metis ReadString_size(1) prod.collapse skip_line_def)

lemma read_field_size: "read_field r = (l, e, r') \<Longrightarrow> rd_size r' \<le> rd_size r"
  unfolding read_field_def using ReadString_size(1) skip_line_size le_trans by blast

lemma read_line_src_eof_rd: "read_line_src acc es = (l, Some EOF, r) \<Longrightarrow> rd_size r = 0"
  by (induction acc es rule: read_line_src.induct) (auto simp: rd_size_def split: option.splits)

lemma ReadString_shrinks:
  assumes "ReadString r = (l, e, r')" "0 < Buffered r"
  shows "rd_size r' < rd_size r"
proof (cases "e = Some EOF")
  case True
  with assms(1) have "rd_size r' = 0"
    by (auto simp: ReadString_def split: option.splits prod.splits dest: read_line_src_eof_rd)
  with assms(2) show ?thesis by (simp add: rd_size_def Buffered_def)
next
  case False
  with assms(1) show ?thesis by (rule ReadString_size(2))
qed

section \<open>The argument loop\<close>

text \<open>
  \<open>for reader.Buffered() > 0 { ... }\<close>: read arguments as long as the current chunk has bytes left.
  An error ends the loop and the handler with it.
\<close>

function read_elems :: "string list \<Rightarrow> rd \<Rightarrow> string list \<times> rerr option \<times> rd" where
  "read_elems acc r =
     (if Buffered r = 0 then (acc, None, r)
      else let (elem, err, r1) = read_field r
           in if err \<noteq> None then (acc, err, r1) else read_elems (acc @ [TrimSpace elem]) r1)"
  by pat_completeness auto
termination
proof (relation "measure (\<lambda>(acc, r). rd_size r)")
  fix acc :: "string list" and r elem err r1 and x y
  assume "Buffered r \<noteq> 0" "x = read_field r" "(elem, y) = x" "(err, r1) = y" "\<not> err \<noteq> None"
  then have "read_field r = (elem, err, r1)" "0 < Buffered r" by auto
  then have "rd_size r1 \<le> rd_size (skip_line r)" "rd_size (skip_line r) < rd_size r"
    using ReadString_size(1) ReadString_shrinks unfolding read_field_def skip_line_def
    by (blast, metis prod.collapse)
  then show "((acc @ [TrimSpace elem], r1), acc, r) \<in> measure (\<lambda>(acc, r). rd_size r)" by simp
qed simp

declare read_elems.simps [simp del]

lemma read_elems_size: "read_elems acc r = (xs, e, r') \<Longrightarrow> rd_size r' \<le> rd_size r"
proof (induction acc r rule: read_elems.induct)
  case (1 acc r)
  show ?case
  proof (cases "Buffered r = 0")
    case True
    with "1.prems" show ?thesis by (simp add: read_elems.simps[of acc r])
  next
    case False
    obtain el er r1 where f: "read_field r = (el, er, r1)" by (metis prod.collapse)
    then have "rd_size r1 \<le> rd_size r" by (rule read_field_size)
    with "1.prems" "1.IH"[OF False f[symmetric] refl refl] False f show ?thesis
      by (cases er) (auto simp: read_elems.simps[of acc r])
  qed
qed

end
