(* ===== verification/Go_Float.thy ===== *)
theory Go_Float
  imports Complex_Main "HOL-Library.Word" Go_Strings
begin

text \<open>
  Go's \<open>float64\<close> (IEEE 754 binary64, round to nearest even) as the program uses it: comparison,
  the four operations, conversion from and to integers, \<open>strconv.ParseFloat\<close> and
  \<open>strconv.FormatFloat\<close> with format f. A finite non-zero number is its rational value, so every
  operation is the exact operation followed by \<open>rnd\<close>. Conversions of values out of range, which
  Go leaves to the implementation, follow the code the compiler emits for amd64.
\<close>

section \<open>Values and their order\<close>

datatype float64 = NaN | PInf | NInf | NZero | Fin rat

datatype fkey = KNInf | KFin rat | KPInf

instantiation fkey :: linorder
begin

fun less_eq_fkey :: "fkey \<Rightarrow> fkey \<Rightarrow> bool" where
  "less_eq_fkey KNInf b = True"
| "less_eq_fkey a KPInf = True"
| "less_eq_fkey (KFin x) (KFin y) = (x \<le> y)"
| "less_eq_fkey a b = False"

definition less_fkey :: "fkey \<Rightarrow> fkey \<Rightarrow> bool" where
  "less_fkey a b \<longleftrightarrow> a \<le> b \<and> \<not> b \<le> a"

instance
proof
  fix x y z :: fkey
  show "(x < y) = (x \<le> y \<and> \<not> y \<le> x)" by (simp add: less_fkey_def)
  show "x \<le> x" by (cases x) auto
  show "x \<le> y \<Longrightarrow> y \<le> z \<Longrightarrow> x \<le> z" by (cases x; cases y; cases z) auto
  show "x \<le> y \<Longrightarrow> y \<le> x \<Longrightarrow> x = y" by (cases x; cases y) auto
  show "x \<le> y \<or> y \<le> x" by (cases x; cases y) auto
qed

end

lemma less_fkey_simps [simp]:
  "KFin x < KFin y \<longleftrightarrow> x < y" "KNInf < KFin x" "KFin x < KPInf" "KNInf < KPInf"
  "\<not> KPInf < k" "\<not> k < KNInf"
  by (cases k; auto simp: less_fkey_def)+

text \<open>The place of a number other than NaN in the order; the two zeros share one.\<close>

fun fkey_of :: "float64 \<Rightarrow> fkey" where
  "fkey_of NInf = KNInf"
| "fkey_of PInf = KPInf"
| "fkey_of (Fin q) = KFin q"
| "fkey_of NZero = KFin 0"
| "fkey_of NaN = KPInf"

definition flt :: "float64 \<Rightarrow> float64 \<Rightarrow> bool" where
  "flt a b \<longleftrightarrow> a \<noteq> NaN \<and> b \<noteq> NaN \<and> fkey_of a < fkey_of b"

definition feq :: "float64 \<Rightarrow> float64 \<Rightarrow> bool" where
  "feq a b \<longleftrightarrow> a \<noteq> NaN \<and> b \<noteq> NaN \<and> fkey_of a = fkey_of b"

definition fle :: "float64 \<Rightarrow> float64 \<Rightarrow> bool" where
  "fle a b \<longleftrightarrow> a \<noteq> NaN \<and> b \<noteq> NaN \<and> fkey_of a \<le> fkey_of b"

section \<open>Rounding\<close>

fun bits :: "nat \<Rightarrow> nat" where
  "bits n = (if n = 0 then 0 else Suc (bits (n div 2)))"

declare bits.simps [simp del]

text \<open>The exponent \<open>e\<close> with \<open>2 powi e \<le> q < 2 powi (e + 1)\<close>, for positive \<open>q\<close>.\<close>

definition rat_log2 :: "rat \<Rightarrow> int" where
  "rat_log2 q =
     (let (a, b) = quotient_of q;
          e = int (bits (nat a)) - int (bits (nat b))
      in if 2 powi e \<le> q then e else e - 1)"

text \<open>Round to the nearest integer, ties to even.\<close>

definition rne :: "rat \<Rightarrow> int" where
  "rne q =
     (let f = \<lfloor>q\<rfloor>; d = q - of_int f
      in if d < 1 / 2 then f else if 1 / 2 < d then f + 1 else if even f then f else f + 1)"

definition ulp :: "rat \<Rightarrow> rat" where
  "ulp q = 2 powi (max (rat_log2 q) (-1022) - 52)"

definition rnd_mag :: "rat \<Rightarrow> rat" where
  "rnd_mag q = of_int (rne (q / ulp q)) * ulp q"

definition rnd_signed :: "bool \<Rightarrow> rat \<Rightarrow> float64" where
  "rnd_signed neg q =
     (let v = (if q = 0 then 0 else rnd_mag q)
      in if v = 0 then (if neg then NZero else Fin 0)
         else if 2 ^ 1024 \<le> v then (if neg then NInf else PInf)
         else Fin (if neg then - v else v))"

definition rnd :: "rat \<Rightarrow> float64" where
  "rnd q = rnd_signed (q < 0) \<bar>q\<bar>"

section \<open>Operations\<close>

fun fsign :: "float64 \<Rightarrow> bool" where
  "fsign NInf = True"
| "fsign NZero = True"
| "fsign (Fin q) = (q < 0)"
| "fsign PInf = False"
| "fsign NaN = False"

fun fval :: "float64 \<Rightarrow> rat" where
  "fval (Fin q) = q"
| "fval f = 0"

fun fneg :: "float64 \<Rightarrow> float64" where
  "fneg NaN = NaN"
| "fneg PInf = NInf"
| "fneg NInf = PInf"
| "fneg NZero = Fin 0"
| "fneg (Fin q) = (if q = 0 then NZero else Fin (- q))"

definition is_inf :: "float64 \<Rightarrow> bool" where
  "is_inf f \<longleftrightarrow> f = PInf \<or> f = NInf"

definition is_zero :: "float64 \<Rightarrow> bool" where
  "is_zero f \<longleftrightarrow> f = NZero \<or> f = Fin 0"

definition inf_of :: "bool \<Rightarrow> float64" where
  "inf_of neg = (if neg then NInf else PInf)"

definition zero_of :: "bool \<Rightarrow> float64" where
  "zero_of neg = (if neg then NZero else Fin 0)"

definition fadd :: "float64 \<Rightarrow> float64 \<Rightarrow> float64" where
  "fadd a b =
     (if a = NaN \<or> b = NaN then NaN
      else if is_inf a then (if is_inf b \<and> a \<noteq> b then NaN else a)
      else if is_inf b then b
      else if a = NZero \<and> b = NZero then NZero
      else rnd (fval a + fval b))"

definition fsub :: "float64 \<Rightarrow> float64 \<Rightarrow> float64" where
  "fsub a b = fadd a (fneg b)"

definition fmul :: "float64 \<Rightarrow> float64 \<Rightarrow> float64" where
  "fmul a b =
     (let neg = (fsign a \<noteq> fsign b)
      in if a = NaN \<or> b = NaN then NaN
         else if is_inf a \<or> is_inf b then (if is_zero a \<or> is_zero b then NaN else inf_of neg)
         else rnd_signed neg \<bar>fval a * fval b\<bar>)"

definition fdiv :: "float64 \<Rightarrow> float64 \<Rightarrow> float64" where
  "fdiv a b =
     (let neg = (fsign a \<noteq> fsign b)
      in if a = NaN \<or> b = NaN then NaN
         else if is_inf a then (if is_inf b then NaN else inf_of neg)
         else if is_inf b then zero_of neg
         else if is_zero b then (if is_zero a then NaN else inf_of neg)
         else rnd_signed neg \<bar>fval a / fval b\<bar>)"

text \<open>\<open>float64(i)\<close> of an integer.\<close>

definition float_of_int :: "int \<Rightarrow> float64" where
  "float_of_int i = rnd (of_int i)"

text \<open>Truncation towards zero; the \<open>int64\<close> conversion gives the least value out of range.\<close>

definition truncate_rat :: "rat \<Rightarrow> int" where
  "truncate_rat q = (if q < 0 then \<lceil>q\<rceil> else \<lfloor>q\<rfloor>)"

definition to_int64 :: "float64 \<Rightarrow> int" where
  "to_int64 f =
     (case f of
        Fin q \<Rightarrow> (let t = truncate_rat q in if in_i64 t then t else min_int64)
      | NZero \<Rightarrow> 0
      | _ \<Rightarrow> min_int64)"

definition to_uint32 :: "float64 \<Rightarrow> 32 word" where
  "to_uint32 f = word_of_int (to_int64 f)"

definition to_uint64 :: "float64 \<Rightarrow> 64 word" where
  "to_uint64 f =
     (if flt f (Fin (2 ^ 63)) then word_of_int (to_int64 f)
      else word_of_int (to_int64 (fsub f (Fin (2 ^ 63)))) + 2 ^ 63)"

section \<open>Parsing\<close>

definition lower_char :: "char \<Rightarrow> char" where
  "lower_char c =
     (if CHR ''A'' \<le> c \<and> c \<le> CHR ''Z'' then char_of (of_char c + 32 :: nat) else c)"

text \<open>The value of a digit in base 10 or 16.\<close>

definition digit_in :: "bool \<Rightarrow> char \<Rightarrow> nat option" where
  "digit_in hex c =
     (if is_digit c then Some (digit_val c)
      else if hex \<and> CHR ''a'' \<le> lower_char c \<and> lower_char c \<le> CHR ''f''
      then Some (of_char (lower_char c) - 87) else None)"

text \<open>
  \<open>readFloat\<close>'s mantissa loop: the mantissa over all digits, the number of digits after the
  point, whether a point and a digit were seen, and the rest.
\<close>

fun scan_mantissa ::
  "bool \<Rightarrow> nat \<Rightarrow> nat \<Rightarrow> bool \<Rightarrow> bool \<Rightarrow> string \<Rightarrow> nat \<times> nat \<times> bool \<times> string" where
  "scan_mantissa hex m f dot dg [] = (m, f, dg, [])"
| "scan_mantissa hex m f dot dg (c # s) =
     (if c = CHR ''_'' then scan_mantissa hex m f dot dg s
      else if c = CHR ''.''
      then (if dot then (m, f, dg, c # s) else scan_mantissa hex m f True dg s)
      else case digit_in hex c of
             Some d \<Rightarrow> scan_mantissa hex (m * (if hex then 16 else 10) + d)
                         (if dot then Suc f else f) dot True s
           | None \<Rightarrow> (m, f, dg, c # s))"

fun scan_exponent :: "nat \<Rightarrow> string \<Rightarrow> nat \<times> string" where
  "scan_exponent e [] = (e, [])"
| "scan_exponent e (c # s) =
     (if c = CHR ''_'' then scan_exponent e s
      else if is_digit c
      then scan_exponent (if e < 10000 then e * 10 + digit_val c else e) s
      else (e, c # s))"

text \<open>\<open>underscoreOK\<close>'s loop; the state is the kind of the last character: digit, underscore, other.\<close>

datatype saw = SawDigit | SawUnderscore | SawOther

fun underscores_ok :: "bool \<Rightarrow> saw \<Rightarrow> string \<Rightarrow> bool" where
  "underscores_ok hex w [] \<longleftrightarrow> w \<noteq> SawUnderscore"
| "underscores_ok hex w (c # s) \<longleftrightarrow>
     (if digit_in hex c \<noteq> None then underscores_ok hex SawDigit s
      else if c = CHR ''_'' then w = SawDigit \<and> underscores_ok hex SawUnderscore s
      else w \<noteq> SawUnderscore \<and> underscores_ok hex SawOther s)"

definition strip_sign :: "string \<Rightarrow> bool \<times> string" where
  "strip_sign s =
     (case s of
        [] \<Rightarrow> (False, [])
      | c # t \<Rightarrow> if c = CHR ''+'' then (False, t) else if c = CHR ''-'' then (True, t) else (False, s))"

text \<open>A number that is not special: \<open>None\<close> is a syntax error.\<close>

definition parse_number :: "string \<Rightarrow> float64 option" where
  "parse_number s0 =
     (let (neg, s) = strip_sign s0;
          hex = (2 < length s \<and> s ! 0 = CHR ''0'' \<and> lower_char (s ! 1) = CHR ''x'');
          (m, f, digits, t) = scan_mantissa hex 0 0 False False (if hex then drop 2 s else s);
          has_exp = (t \<noteq> [] \<and> lower_char (hd t) = (if hex then CHR ''p'' else CHR ''e''));
          (eneg, u) = strip_sign (tl t);
          (e, rest) = (if has_exp then scan_exponent 0 u else (0, t));
          exp = (if eneg \<and> has_exp then - int e else int e);
          value = (if hex then of_nat m * 2 powi (exp - 4 * int f)
                   else of_nat m * 10 powi (exp - int f))
      in if \<not> digits \<or> hex \<and> \<not> has_exp \<or> has_exp \<and> (u = [] \<or> \<not> is_digit (hd u))
            \<or> rest \<noteq> []
            \<or> CHR ''_'' \<in> set s \<and>
              \<not> underscores_ok hex (if hex then SawDigit else SawOther) (if hex then drop 2 s else s)
         then None
         else Some (rnd_signed neg value))"

text \<open>
  \<open>strconv.ParseFloat(s, 64)\<close>, the value only: every caller drops the error, which leaves 0
  for a syntax error and an infinity for a number out of range.
\<close>

definition ParseFloat_opt :: "string \<Rightarrow> float64 option" where
  "ParseFloat_opt s =
     (let (neg, t) = strip_sign s; l = map lower_char t
      in if l = ''inf'' \<or> l = ''infinity'' then Some (inf_of neg)
         else if map lower_char s = ''nan'' then Some NaN
         else parse_number s)"

definition ParseFloat :: "string \<Rightarrow> float64" where
  "ParseFloat s = (case ParseFloat_opt s of Some f \<Rightarrow> f | None \<Rightarrow> Fin 0)"

section \<open>Formatting\<close>

text \<open>\<open>n\<close> in decimal with at least \<open>w\<close> digits.\<close>

definition pad_digits :: "nat \<Rightarrow> nat \<Rightarrow> string" where
  "pad_digits w n = (let d = nat_digits n in replicate (w - length d) (CHR ''0'') @ d)"

text \<open>\<open>m / 10 ^ p\<close> with \<open>p\<close> digits after the point.\<close>

definition show_decimal :: "nat \<Rightarrow> nat \<Rightarrow> string" where
  "show_decimal m p =
     nat_digits (m div 10 ^ p) @ (if p = 0 then [] else ''.'' @ pad_digits p (m mod 10 ^ p))"

text \<open>Format f with a fixed precision: the exact value, rounded to nearest even.\<close>

definition fixed_mag :: "nat \<Rightarrow> rat \<Rightarrow> string" where
  "fixed_mag p q = show_decimal (nat (rne (q * 10 ^ p))) p"

text \<open>
  Format f with precision -1: the shortest digits that read back as the same number, closest
  to it among those; \<open>k\<close> is the number of digits before the point.
\<close>

function dec_exp :: "nat \<Rightarrow> nat \<Rightarrow> rat \<Rightarrow> int" where
  "dec_exp 0 k q = 0"
| "dec_exp (Suc fuel) k q =
     (if q < 1 / 10 then dec_exp fuel k (q * 10) - 1
      else if 1 \<le> q then dec_exp fuel k (q / 10) + 1
      else 0)"
  by pat_completeness auto
termination by (relation "measure (\<lambda>(fuel, k, q). fuel)") auto

text \<open>At most 17 digits are needed; 400 steps reach the exponent of every finite \<open>float64\<close>.\<close>

fun shortest :: "nat \<Rightarrow> nat \<Rightarrow> rat \<Rightarrow> int \<Rightarrow> rat" where
  "shortest 0 n q k = q"
| "shortest (Suc fuel) n q k =
     (let scale = 10 powi (k - int n);
          lo = \<lfloor>q / scale\<rfloor>;
          a = of_int lo * scale; b = of_int (lo + 1) * scale;
          a_ok = (rnd a = Fin q); b_ok = (rnd b = Fin q);
          near = of_int (rne (q / scale)) * scale
      in if a_ok \<and> b_ok then near else if a_ok then a else if b_ok then b
         else shortest fuel (Suc n) q k)"

fun decimals :: "nat \<Rightarrow> nat \<Rightarrow> rat \<Rightarrow> nat" where
  "decimals 0 p q = p"
| "decimals (Suc fuel) p q =
     (if of_int \<lfloor>q * 10 ^ p\<rfloor> = q * 10 ^ p then p else decimals fuel (Suc p) q)"

definition shortest_mag :: "rat \<Rightarrow> string" where
  "shortest_mag q =
     (let d = shortest 17 1 q (dec_exp 400 0 q); p = decimals 400 0 d
      in show_decimal (nat \<lfloor>d * 10 ^ p\<rfloor>) p)"

definition format_with :: "(rat \<Rightarrow> string) \<Rightarrow> float64 \<Rightarrow> string" where
  "format_with mag f =
     (case f of
        NaN \<Rightarrow> ''NaN''
      | PInf \<Rightarrow> ''+Inf''
      | NInf \<Rightarrow> ''-Inf''
      | NZero \<Rightarrow> ''-'' @ mag 0
      | Fin q \<Rightarrow> if q < 0 then ''-'' @ mag (- q) else mag q)"

text \<open>\<open>strconv.FormatFloat(f, 'f', -1, 64)\<close>, and with a precision (also \<open>%f\<close>, precision 6).\<close>

definition FormatShortest :: "float64 \<Rightarrow> string" where
  "FormatShortest f = format_with (\<lambda>q. if q = 0 then ''0'' else shortest_mag q) f"

definition FormatFixed :: "nat \<Rightarrow> float64 \<Rightarrow> string" where
  "FormatFixed p f = format_with (fixed_mag p) f"

end
