(* ===== verification/Server_State.thy ===== *)
theory Server_State
  imports Reader Go_Float
begin

text \<open>
  The state of the server process: the package variables of \<open>server.go\<close>, the types of
  \<open>structures.go\<close>, and per connection its reader, its outgoing bytes, the session variable
  \<open>authUser\<close> of \<open>serveCommands\<close> and what its goroutine waits for. The goroutines that delete
  expired keys are the pending \<open>timers\<close> of the state.

  A connection can break while a handler writes: \<open>budget\<close> is the number of writes that still
  succeed (\<open>None\<close>: all of them); once a write has failed all later ones fail.
\<close>

section \<open>structures.go\<close>

record user =
  Passwords :: "string list"
  Flags :: "string list"

text \<open>The clients of a list are its waiting channels, by number; each channel holds one value.\<close>

record llist =
  elements :: "string list"
  clients :: "nat list"

record replica =
  rep_conn :: nat
  rep_offset :: int

record elem =
  Name :: string
  Score :: float64

text \<open>
  A sorted set and its \<open>sync.RWMutex\<close>: the number of read locks held, whether the write lock is
  held, and whether a goroutine waits for the write lock, which keeps new readers out.
\<close>

record sorted_set =
  Elements :: "(string \<times> float64) list"
  Order :: "elem list"
  readers :: nat
  writer :: bool
  writer_waits :: bool

section \<open>Connections\<close>

record sink =
  written :: string
  budget :: "nat option"

definition sink_write :: "sink \<Rightarrow> string \<Rightarrow> sink \<times> bool" where
  "sink_write k d =
     (case budget k of
        None \<Rightarrow> (k\<lparr>written := written k @ d\<rparr>, True)
      | Some 0 \<Rightarrow> (k, False)
      | Some (Suc n) \<Rightarrow> (k\<lparr>written := written k @ d, budget := Some n\<rparr>, True))"

text \<open>
  What the connection's goroutine does: it serves commands, waits in \<open>BLPOP\<close> (for a value in its
  channel or the deadline), has seen the \<open>BLPOP\<close> deadline pass, or polls in \<open>WAIT\<close> (for that many
  acknowledgements or the deadline; the last count it computed).
\<close>

datatype activity =
    Serving
  | PopWait nat string "int option"
  | PopExpired nat string
  | AckWait int "int option" int

record conn =
  crd :: rd
  cout :: sink
  authUser :: string
  silent :: bool
  act :: activity

section \<open>server.go: package variables\<close>

datatype info_val = IStr string | IInt int

record server =
  ServerMemory :: "(string \<times> string) list"
  UserRegistry :: "string \<rightharpoonup> user"
  ListRegistry :: "string \<rightharpoonup> llist"
  EnvVariables :: "string \<rightharpoonup> string"
  ServerInfo :: "string \<rightharpoonup> info_val"
  Replicas :: "replica list"
  MasterOffset :: int
  ZSetRegistry :: "string \<rightharpoonup> sorted_set"
  AofFile :: "sink option"
  conns :: "nat \<Rightarrow> conn"
  chans :: "nat \<Rightarrow> string option"
  next_chan :: nat
  clock :: int
  timers :: "(int \<times> string) list"

text \<open>The variables when the process starts, and the user \<open>main\<close> registers.\<close>

definition default_user :: user where
  "default_user = \<lparr>Passwords = [], Flags = [''nopass'']\<rparr>"

definition empty_server :: "(nat \<Rightarrow> conn) \<Rightarrow> int \<Rightarrow> server" where
  "empty_server cs now =
     \<lparr>ServerMemory = [], UserRegistry = Map.empty, ListRegistry = Map.empty, EnvVariables = Map.empty,
      ServerInfo = Map.empty, Replicas = [], MasterOffset = 0, ZSetRegistry = Map.empty, AofFile = None,
      conns = cs, chans = Map.empty, next_chan = 0, clock = now, timers = []\<rparr>"

text \<open>\<open>ServerMemory\<close> only ever holds strings, so a stored value is its string.\<close>

definition mem :: "server \<Rightarrow> string \<rightharpoonup> string" where
  "mem s = map_of (ServerMemory s)"

definition mem_store :: "string \<Rightarrow> string \<Rightarrow> server \<Rightarrow> server" where
  "mem_store k v s = s\<lparr>ServerMemory := AList.update k v (ServerMemory s)\<rparr>"

definition mem_delete :: "string \<Rightarrow> server \<Rightarrow> server" where
  "mem_delete k s = s\<lparr>ServerMemory := AList.delete k (ServerMemory s)\<rparr>"

section \<open>Access to a connection\<close>

definition rd_of :: "nat \<Rightarrow> server \<Rightarrow> rd" where
  "rd_of c s = crd (conns s c)"

definition set_rd :: "nat \<Rightarrow> rd \<Rightarrow> server \<Rightarrow> server" where
  "set_rd c r s = s\<lparr>conns := (conns s)(c := (conns s c)\<lparr>crd := r\<rparr>)\<rparr>"

definition set_auth :: "nat \<Rightarrow> string \<Rightarrow> server \<Rightarrow> server" where
  "set_auth c u s = s\<lparr>conns := (conns s)(c := (conns s c)\<lparr>authUser := u\<rparr>)\<rparr>"

definition set_act :: "nat \<Rightarrow> activity \<Rightarrow> server \<Rightarrow> server" where
  "set_act c a s = s\<lparr>conns := (conns s)(c := (conns s c)\<lparr>act := a\<rparr>)\<rparr>"

text \<open>\<open>net.Conn.Write\<close>, and \<open>SilentConn.Write\<close>, which reports success and sends nothing.\<close>

definition raw_write :: "nat \<Rightarrow> string \<Rightarrow> server \<Rightarrow> server \<times> bool" where
  "raw_write c d s =
     (let (k, ok) = sink_write (cout (conns s c)) d
      in (s\<lparr>conns := (conns s)(c := (conns s c)\<lparr>cout := k\<rparr>)\<rparr>, ok))"

definition conn_write :: "nat \<Rightarrow> string \<Rightarrow> server \<Rightarrow> server \<times> bool" where
  "conn_write c d s = (if silent (conns s c) then (s, True) else raw_write c d s)"

text \<open>A write whose error the handler only logs.\<close>

definition reply :: "nat \<Rightarrow> string \<Rightarrow> server \<Rightarrow> server" where
  "reply c d s = fst (conn_write c d s)"

text \<open>\<open>out c s\<close>: everything sent on a connection so far.\<close>

definition out :: "nat \<Rightarrow> server \<Rightarrow> string" where
  "out c s = written (cout (conns s c))"

definition healthy :: "nat \<Rightarrow> server \<Rightarrow> bool" where
  "healthy c s \<longleftrightarrow> \<not> silent (conns s c) \<and> budget (cout (conns s c)) = None"

section \<open>utils.go: CheckAuth\<close>

definition CheckAuth :: "string \<Rightarrow> bool" where
  "CheckAuth u \<longleftrightarrow> u \<noteq> []"

abbreviation authed :: "nat \<Rightarrow> server \<Rightarrow> bool" where
  "authed c s \<equiv> CheckAuth (authUser (conns s c))"

abbreviation role_is :: "string \<Rightarrow> server \<Rightarrow> bool" where
  "role_is r s \<equiv> ServerInfo s ''role'' = Some (IStr r)"

section \<open>Laws of the accessors\<close>

lemmas conn_defs = rd_of_def set_rd_def set_auth_def set_act_def out_def healthy_def

lemma set_rd_set_rd [simp]: "set_rd c r (set_rd c r' s) = set_rd c r s"
  by (simp add: set_rd_def)

lemma rd_of_set_rd [simp]: "rd_of c (set_rd c r s) = r"
  by (simp add: conn_defs)

lemma set_rd_same [simp]: "set_rd c (rd_of c s) s = s"
  by (simp add: conn_defs)

lemma set_rd_fields [simp]:
  "ServerMemory (set_rd c r s) = ServerMemory s" "UserRegistry (set_rd c r s) = UserRegistry s"
  "ListRegistry (set_rd c r s) = ListRegistry s" "EnvVariables (set_rd c r s) = EnvVariables s"
  "ServerInfo (set_rd c r s) = ServerInfo s" "Replicas (set_rd c r s) = Replicas s"
  "MasterOffset (set_rd c r s) = MasterOffset s" "ZSetRegistry (set_rd c r s) = ZSetRegistry s"
  "AofFile (set_rd c r s) = AofFile s" "chans (set_rd c r s) = chans s"
  "next_chan (set_rd c r s) = next_chan s" "clock (set_rd c r s) = clock s"
  "timers (set_rd c r s) = timers s" "mem (set_rd c r s) = mem s"
  "out d (set_rd c r s) = out d s" "healthy d (set_rd c r s) = healthy d s"
  "authUser (conns (set_rd c r s) d) = authUser (conns s d)"
  "act (conns (set_rd c r s) d) = act (conns s d)"
  "silent (conns (set_rd c r s) d) = silent (conns s d)"
  "cout (conns (set_rd c r s) d) = cout (conns s d)"
  by (auto simp: set_rd_def mem_def out_def healthy_def)

lemma raw_write_fields [simp]:
  "ServerMemory (fst (raw_write c d s)) = ServerMemory s"
  "UserRegistry (fst (raw_write c d s)) = UserRegistry s"
  "ListRegistry (fst (raw_write c d s)) = ListRegistry s"
  "EnvVariables (fst (raw_write c d s)) = EnvVariables s"
  "ServerInfo (fst (raw_write c d s)) = ServerInfo s"
  "Replicas (fst (raw_write c d s)) = Replicas s"
  "MasterOffset (fst (raw_write c d s)) = MasterOffset s"
  "ZSetRegistry (fst (raw_write c d s)) = ZSetRegistry s"
  "AofFile (fst (raw_write c d s)) = AofFile s"
  "chans (fst (raw_write c d s)) = chans s"
  "next_chan (fst (raw_write c d s)) = next_chan s"
  "clock (fst (raw_write c d s)) = clock s"
  "timers (fst (raw_write c d s)) = timers s"
  "crd (conns (fst (raw_write c d s)) e) = crd (conns s e)"
  "authUser (conns (fst (raw_write c d s)) e) = authUser (conns s e)"
  "act (conns (fst (raw_write c d s)) e) = act (conns s e)"
  "silent (conns (fst (raw_write c d s)) e) = silent (conns s e)"
  by (simp_all add: raw_write_def split: prod.splits)

lemma conn_write_fields [simp]:
  "ServerMemory (fst (conn_write c d s)) = ServerMemory s"
  "UserRegistry (fst (conn_write c d s)) = UserRegistry s"
  "ListRegistry (fst (conn_write c d s)) = ListRegistry s"
  "EnvVariables (fst (conn_write c d s)) = EnvVariables s"
  "ServerInfo (fst (conn_write c d s)) = ServerInfo s"
  "Replicas (fst (conn_write c d s)) = Replicas s"
  "MasterOffset (fst (conn_write c d s)) = MasterOffset s"
  "ZSetRegistry (fst (conn_write c d s)) = ZSetRegistry s"
  "AofFile (fst (conn_write c d s)) = AofFile s"
  "chans (fst (conn_write c d s)) = chans s"
  "next_chan (fst (conn_write c d s)) = next_chan s"
  "clock (fst (conn_write c d s)) = clock s"
  "timers (fst (conn_write c d s)) = timers s"
  "crd (conns (fst (conn_write c d s)) e) = crd (conns s e)"
  "authUser (conns (fst (conn_write c d s)) e) = authUser (conns s e)"
  "act (conns (fst (conn_write c d s)) e) = act (conns s e)"
  "silent (conns (fst (conn_write c d s)) e) = silent (conns s e)"
  by (simp_all add: conn_write_def)

lemma reply_fields [simp]:
  "ServerMemory (reply c d s) = ServerMemory s"
  "UserRegistry (reply c d s) = UserRegistry s"
  "ListRegistry (reply c d s) = ListRegistry s"
  "EnvVariables (reply c d s) = EnvVariables s"
  "ServerInfo (reply c d s) = ServerInfo s"
  "Replicas (reply c d s) = Replicas s"
  "MasterOffset (reply c d s) = MasterOffset s"
  "ZSetRegistry (reply c d s) = ZSetRegistry s"
  "AofFile (reply c d s) = AofFile s"
  "chans (reply c d s) = chans s"
  "next_chan (reply c d s) = next_chan s"
  "clock (reply c d s) = clock s"
  "timers (reply c d s) = timers s"
  "crd (conns (reply c d s) e) = crd (conns s e)"
  "authUser (conns (reply c d s) e) = authUser (conns s e)"
  "act (conns (reply c d s) e) = act (conns s e)"
  "silent (conns (reply c d s) e) = silent (conns s e)"
  "mem (reply c d s) = mem s" "rd_of e (reply c d s) = rd_of e s"
  by (simp_all add: reply_def mem_def rd_of_def)

lemma reply_out [simp]:
  "healthy c s \<Longrightarrow> out c (reply c d s) = out c s @ d"
  "e \<noteq> c \<Longrightarrow> out e (reply c d s) = out e s"
  "healthy e s \<Longrightarrow> healthy e (reply c d s)"
  by (auto simp: reply_def conn_write_def raw_write_def sink_write_def out_def healthy_def
      split: prod.splits option.splits nat.splits)

lemma conn_write_healthy:
  "healthy c s \<Longrightarrow> conn_write c d s = (reply c d s, True)"
  by (auto simp: reply_def conn_write_def raw_write_def sink_write_def healthy_def)

lemma reply_silent: "silent (conns s c) \<Longrightarrow> reply c d s = s"
  by (simp add: reply_def conn_write_def)

lemma mem_store_fields [simp]:
  "mem (mem_store k v s) = (mem s)(k \<mapsto> v)"
  "UserRegistry (mem_store k v s) = UserRegistry s" "ListRegistry (mem_store k v s) = ListRegistry s"
  "EnvVariables (mem_store k v s) = EnvVariables s" "ServerInfo (mem_store k v s) = ServerInfo s"
  "Replicas (mem_store k v s) = Replicas s" "MasterOffset (mem_store k v s) = MasterOffset s"
  "ZSetRegistry (mem_store k v s) = ZSetRegistry s" "AofFile (mem_store k v s) = AofFile s"
  "conns (mem_store k v s) = conns s" "chans (mem_store k v s) = chans s"
  "clock (mem_store k v s) = clock s" "timers (mem_store k v s) = timers s"
  "next_chan (mem_store k v s) = next_chan s"
  "out c (mem_store k v s) = out c s" "healthy c (mem_store k v s) = healthy c s"
  "rd_of c (mem_store k v s) = rd_of c s"
  by (simp_all add: mem_store_def mem_def out_def healthy_def rd_of_def)

lemma mem_delete_fields [simp]:
  "mem (mem_delete k s) = (mem s)(k := None)"
  "conns (mem_delete k s) = conns s" "clock (mem_delete k s) = clock s"
  "timers (mem_delete k s) = timers s" "ServerInfo (mem_delete k s) = ServerInfo s"
  by (simp_all add: mem_delete_def mem_def)

text \<open>Updates of the other fields leave the connections alone.\<close>

lemma field_update_frame [simp]:
  "out e (s\<lparr>ServerMemory := x0\<rparr>) = out e s" "healthy e (s\<lparr>ServerMemory := x0\<rparr>) = healthy e s"
  "rd_of e (s\<lparr>ServerMemory := x0\<rparr>) = rd_of e s"
  "out e (s\<lparr>UserRegistry := x1\<rparr>) = out e s" "healthy e (s\<lparr>UserRegistry := x1\<rparr>) = healthy e s"
  "rd_of e (s\<lparr>UserRegistry := x1\<rparr>) = rd_of e s" "mem (s\<lparr>UserRegistry := x1\<rparr>) = mem s"
  "out e (s\<lparr>ListRegistry := x2\<rparr>) = out e s" "healthy e (s\<lparr>ListRegistry := x2\<rparr>) = healthy e s"
  "rd_of e (s\<lparr>ListRegistry := x2\<rparr>) = rd_of e s" "mem (s\<lparr>ListRegistry := x2\<rparr>) = mem s"
  "out e (s\<lparr>ServerInfo := x3\<rparr>) = out e s" "healthy e (s\<lparr>ServerInfo := x3\<rparr>) = healthy e s"
  "rd_of e (s\<lparr>ServerInfo := x3\<rparr>) = rd_of e s" "mem (s\<lparr>ServerInfo := x3\<rparr>) = mem s"
  "out e (s\<lparr>Replicas := x4\<rparr>) = out e s" "healthy e (s\<lparr>Replicas := x4\<rparr>) = healthy e s"
  "rd_of e (s\<lparr>Replicas := x4\<rparr>) = rd_of e s" "mem (s\<lparr>Replicas := x4\<rparr>) = mem s"
  "out e (s\<lparr>MasterOffset := x5\<rparr>) = out e s" "healthy e (s\<lparr>MasterOffset := x5\<rparr>) = healthy e s"
  "rd_of e (s\<lparr>MasterOffset := x5\<rparr>) = rd_of e s" "mem (s\<lparr>MasterOffset := x5\<rparr>) = mem s"
  "out e (s\<lparr>ZSetRegistry := x6\<rparr>) = out e s" "healthy e (s\<lparr>ZSetRegistry := x6\<rparr>) = healthy e s"
  "rd_of e (s\<lparr>ZSetRegistry := x6\<rparr>) = rd_of e s" "mem (s\<lparr>ZSetRegistry := x6\<rparr>) = mem s"
  "out e (s\<lparr>AofFile := x7\<rparr>) = out e s" "healthy e (s\<lparr>AofFile := x7\<rparr>) = healthy e s"
  "rd_of e (s\<lparr>AofFile := x7\<rparr>) = rd_of e s" "mem (s\<lparr>AofFile := x7\<rparr>) = mem s"
  "out e (s\<lparr>chans := x8\<rparr>) = out e s" "healthy e (s\<lparr>chans := x8\<rparr>) = healthy e s"
  "rd_of e (s\<lparr>chans := x8\<rparr>) = rd_of e s" "mem (s\<lparr>chans := x8\<rparr>) = mem s"
  "out e (s\<lparr>next_chan := x9\<rparr>) = out e s" "healthy e (s\<lparr>next_chan := x9\<rparr>) = healthy e s"
  "rd_of e (s\<lparr>next_chan := x9\<rparr>) = rd_of e s" "mem (s\<lparr>next_chan := x9\<rparr>) = mem s"
  "out e (s\<lparr>clock := x10\<rparr>) = out e s" "healthy e (s\<lparr>clock := x10\<rparr>) = healthy e s"
  "rd_of e (s\<lparr>clock := x10\<rparr>) = rd_of e s" "mem (s\<lparr>clock := x10\<rparr>) = mem s"
  "out e (s\<lparr>timers := x11\<rparr>) = out e s" "healthy e (s\<lparr>timers := x11\<rparr>) = healthy e s"
  "rd_of e (s\<lparr>timers := x11\<rparr>) = rd_of e s" "mem (s\<lparr>timers := x11\<rparr>) = mem s"
  by (simp_all add: out_def healthy_def rd_of_def mem_def)

section \<open>The connection as a source of lines\<close>

definition stream_of :: "nat \<Rightarrow> server \<Rightarrow> string" where
  "stream_of c s = stream (rd_of c s)"

definition input_ok :: "nat \<Rightarrow> server \<Rightarrow> bool" where
  "input_ok c s \<longleftrightarrow> no_errors (rd_of c s)"

lemma stream_of_frame [simp]:
  "stream_of c (set_rd c r s) = stream r" "input_ok c (set_rd c r s) = no_errors r"
  "stream_of e (reply c d s) = stream_of e s" "input_ok e (reply c d s) = input_ok e s"
  "stream_of c (mem_store k v s) = stream_of c s" "input_ok c (mem_store k v s) = input_ok c s"
  by (simp_all add: stream_of_def input_ok_def)

definition read_line :: "nat \<Rightarrow> server \<Rightarrow> string \<times> rerr option \<times> server" where
  "read_line c s = (let (l, e, r) = ReadString (rd_of c s) in (l, e, set_rd c r s))"

interpretation conn_lines: line_source "read_line c" "stream_of c" "input_ok c" for c
proof
  fix s :: server and l t :: string
  assume "input_ok c s" "stream_of c s = l @ LF # t" "LF \<notin> set l"
  then show "\<exists>s'. read_line c s = (l @ [LF], None, s') \<and> stream_of c s' = t \<and> input_ok c s'"
    using bufio.complete_line[of "rd_of c s" l t]
    by (force simp: read_line_def stream_of_def input_ok_def)
next
  fix s :: server
  assume "input_ok c s" "LF \<notin> set (stream_of c s)"
  then show "\<exists>e s'. read_line c s = (stream_of c s, Some e, s') \<and> stream_of c s' = [] \<and> input_ok c s'"
    using bufio.no_line[of "rd_of c s"]
    by (force simp: read_line_def stream_of_def input_ok_def)
qed

end
