(* ===== verification/Acl_Auth.thy ===== *)
theory Acl_Auth
  imports Server_State Sha256
begin

text \<open>
  \<open>handlers.go\<close>: \<open>ACL WHOAMI\<close>, \<open>ACL GETUSER\<close>, \<open>ACL SETUSER\<close> and \<open>AUTH\<close>, on the user registry
  (which \<open>main\<close> fills with the user \<open>default\<close> and nothing adds to) and the session's \<open>authUser\<close>.
\<close>

section \<open>Handlers\<close>

definition password_hash :: "string \<Rightarrow> string" where
  "password_hash password = EncodeToString (Sum256 password)"

definition acl_whoami :: "nat \<Rightarrow> server \<Rightarrow> server outcome" where
  "acl_whoami c s =
     (let u = authUser (conns s c)
      in Done (reply c (''$'' @ itoa (int (length u)) @ crlf @ u @ crlf) s))"

definition getuser_response :: "user \<Rightarrow> string" where
  "getuser_response u =
     ''*4'' @ crlf @ bulk ''flags'' @ ''*'' @ itoa (int (length (Flags u))) @ crlf
     @ fold (\<lambda>flag resp. resp @ bulk flag) (Flags u) []
     @ bulk ''passwords'' @ ''*'' @ itoa (int (length (Passwords u))) @ crlf
     @ fold (\<lambda>password resp. resp @ bulk password) (Passwords u) []"

definition acl_getuser :: "nat \<Rightarrow> rd \<Rightarrow> server \<Rightarrow> server outcome" where
  "acl_getuser c r s =
     (let (username, err, r1) = read_field r; s1 = set_rd c r1 s
      in case UserRegistry s1 (TrimSpace username) of
           None \<Rightarrow> Done s1
         | Some userInfo \<Rightarrow> Done (reply c (getuser_response userInfo) s1))"

definition add_password :: "string \<Rightarrow> user \<Rightarrow> user" where
  "add_password hashString u =
     u\<lparr>Passwords := Passwords u @ [hashString],
       Flags := remove_first (\<lambda>flag. flag = ''nopass'') (Flags u)\<rparr>"

definition acl_setuser :: "nat \<Rightarrow> rd \<Rightarrow> server \<Rightarrow> server outcome" where
  "acl_setuser c r s =
     (let (username, err, r1) = read_field r
      in if err \<noteq> None then Done (set_rd c r1 s)
         else let username = TrimSpace username; (arg, err, r2) = read_field r1; s1 = set_rd c r2 s
              in if err \<noteq> None then Done s1
                 else if HasPrefix arg ''>''
                 then let password = TrimSpace (fst (CutPrefix arg ''>''));
                          hashString = password_hash password
                      in case UserRegistry s1 username of
                           None \<Rightarrow> Done s1
                         | Some userInfo \<Rightarrow>
                             Done (reply c ok_reply
                               (s1\<lparr>UserRegistry := (UserRegistry s1)(username \<mapsto> add_password hashString userInfo)\<rparr>))
                 else Done (reply c ok_reply s1))"

definition HandleACL :: "nat \<Rightarrow> server \<Rightarrow> server outcome" where
  "HandleACL c s =
     (if \<not> authed c s then Done (reply c noauth_reply s)
      else let (cmd, err, r) = read_field (rd_of c s); s1 = set_rd c r s; cmd = ToUpper (TrimSpace cmd)
           in if err \<noteq> None then Done s1
              else if cmd = ''WHOAMI'' then acl_whoami c s1
              else if cmd = ''GETUSER'' then acl_getuser c r s1
              else if cmd = ''SETUSER'' then acl_setuser c r s1
              else Done s1)"

text \<open>
  An unknown user is only logged: the type assertion on the missing entry then panics.
\<close>

definition HandleAuth :: "nat \<Rightarrow> server \<Rightarrow> server outcome" where
  "HandleAuth c s =
     (let (username, err, r1) = read_field (rd_of c s)
      in if err \<noteq> None then Done (set_rd c r1 s)
         else let username = TrimSpace username; (password, err, r2) = read_field r1; s1 = set_rd c r2 s
              in if err \<noteq> None then Done s1
                 else let hashedPassStr = password_hash (TrimSpace password)
                      in case UserRegistry s1 username of
                           None \<Rightarrow> Panic s1
                         | Some userInfo \<Rightarrow>
                             if hashedPassStr \<in> set (Passwords userInfo)
                             then Done (reply c ok_reply (set_auth c username s1))
                             else Done (reply c
                               (''-WRONGPASS invalid username-password pair or user is disabled.'' @ crlf) s1))"

end
