(* ===== verification/Lists.thy ===== *)
theory Lists
  imports Server_State
begin

text \<open>
  \<open>handlers.go\<close>: the list commands \<open>RPUSH\<close>, \<open>LPUSH\<close>, \<open>LRANGE\<close>, \<open>LLEN\<close>, \<open>LPOP\<close> and \<open>BLPOP\<close> on
  \<open>ListRegistry\<close>. A client that waits in \<open>BLPOP\<close> is the number of its channel in the list's
  \<open>clients\<close>; the channel has room for one value (\<open>chans\<close>). The steps of a waiting client (receive,
  see the deadline pass, leave the queue) are separate, as its goroutine takes the list's lock
  again for the last one.
\<close>

section \<open>The registry\<close>

definition new_list :: llist where
  "new_list = \<lparr>elements = [], clients = []\<rparr>"

text \<open>\<open>ListRegistry.LoadOrStore\<close> and the assignment back of a locked list.\<close>

definition load_list :: "string \<Rightarrow> server \<Rightarrow> llist" where
  "load_list key s = (case ListRegistry s key of None \<Rightarrow> new_list | Some l \<Rightarrow> l)"

definition put_list :: "string \<Rightarrow> llist \<Rightarrow> server \<Rightarrow> server" where
  "put_list key l s = s\<lparr>ListRegistry := (ListRegistry s)(key \<mapsto> l)\<rparr>"

section \<open>RPUSH, LPUSH\<close>

text \<open>
  The loop that hands new elements to waiting clients: the clients and elements left, the
  channels, and whether a send found its channel full and waits.
\<close>

fun hand_over ::
  "nat list \<Rightarrow> string list \<Rightarrow> (nat \<Rightarrow> string option) \<Rightarrow> nat list \<times> string list \<times> (nat \<Rightarrow> string option) \<times> bool"
where
  "hand_over (ch # chs) (x # xs) cs =
     (if cs ch \<noteq> None then (chs, x # xs, cs, True) else hand_over chs xs (cs(ch \<mapsto> x)))"
| "hand_over chs xs cs = (chs, xs, cs, False)"

definition rpush :: "string \<Rightarrow> string list \<Rightarrow> server \<Rightarrow> server outcome" where
  "rpush key newElems s =
     (let l = load_list key s;
          (chs, rest, cs, stuck) = hand_over (clients l) newElems (chans s);
          s1 = put_list key \<lparr>elements = elements l @ rest, clients = chs\<rparr> (s\<lparr>chans := cs\<rparr>)
      in if stuck then Blocked (put_list key \<lparr>elements = elements l, clients = chs\<rparr> (s\<lparr>chans := cs\<rparr>))
         else Done s1)"

definition HandleRPush :: "nat \<Rightarrow> server \<Rightarrow> server outcome" where
  "HandleRPush c s =
     (if \<not> authed c s then Done (reply c noauth_reply s)
      else let (listKey, err, r1) = read_field (rd_of c s)
           in if err \<noteq> None then Done (set_rd c r1 s)
              else let listKey = TrimSpace listKey; (newElems, err, r2) = read_elems [] r1; s1 = set_rd c r2 s
                   in if err \<noteq> None then Done s1
                      else let responseLen = length (elements (load_list listKey s1)) + length newElems
                           in and_then (rpush listKey newElems s1)
                                (\<lambda>s2. Done (reply c (int_reply (int responseLen)) s2)))"

definition lpush :: "string \<Rightarrow> string list \<Rightarrow> server \<Rightarrow> server" where
  "lpush key newElems s =
     (let l = load_list key s
      in put_list key (l\<lparr>elements := fold (\<lambda>x xs. x # xs) newElems (elements l)\<rparr>) s)"

definition HandleLPush :: "nat \<Rightarrow> server \<Rightarrow> server outcome" where
  "HandleLPush c s =
     (if \<not> authed c s then Done (reply c noauth_reply s)
      else let (listKey, err, r1) = read_field (rd_of c s)
           in if err \<noteq> None then Done (set_rd c r1 s)
              else let listKey = TrimSpace listKey; (newElems, err, r2) = read_elems [] r1; s1 = set_rd c r2 s
                   in if err \<noteq> None then Done s1
                      else let s2 = lpush listKey newElems s1
                           in Done (reply c (int_reply (int (length (elements (load_list listKey s2))))) s2))"

section \<open>LRANGE, LLEN, LPOP\<close>

text \<open>The response of \<open>LRANGE\<close>; \<open>None\<close> is the index panic of the loop.\<close>

definition lrange :: "string list \<Rightarrow> int \<Rightarrow> int \<Rightarrow> string option" where
  "lrange xs index1 index2 =
     (let n = int (length xs);
          i1 = min (if index1 < 0 then max 0 (i64 (index1 + n)) else index1) (n - 1);
          i2 = min (if index2 < 0 then max 0 (i64 (index2 + n)) else index2) (n - 1)
      in map_option (\<lambda>parts. array_header (i2 - i1 + 1) @ concat parts)
           (those (map (\<lambda>i. if 0 \<le> i \<and> i < n then Some (bulk (xs ! nat i)) else None) [i1..i2])))"

definition HandleLRange :: "nat \<Rightarrow> server \<Rightarrow> server outcome" where
  "HandleLRange c s =
     (if \<not> authed c s then Done (reply c noauth_reply s)
      else let (listKey, err, r1) = read_field (rd_of c s)
           in if err \<noteq> None then Done (set_rd c r1 s)
              else let (index1Str, err, r2) = read_field r1
                   in if err \<noteq> None then Done (set_rd c r2 s)
                      else let (index2Str, err, r3) = read_field r2; s1 = set_rd c r3 s
                           in if err \<noteq> None then Done s1
                              else let index1 = fst (Atoi (TrimSpace index1Str));
                                       index2 = fst (Atoi (TrimSpace index2Str))
                                   in case ListRegistry s1 (TrimSpace listKey) of
                                        None \<Rightarrow> Done (reply c empty_array s1)
                                      | Some l \<Rightarrow>
                                          (case lrange (elements l) index1 index2 of
                                             None \<Rightarrow> Panic s1
                                           | Some response \<Rightarrow> Done (reply c response s1)))"

definition HandleLLen :: "nat \<Rightarrow> server \<Rightarrow> server outcome" where
  "HandleLLen c s =
     (if \<not> authed c s then Done (reply c noauth_reply s)
      else let (listKey, err, r) = read_field (rd_of c s); s1 = set_rd c r s
           in if err \<noteq> None then Done s1
              else case ListRegistry s1 (TrimSpace listKey) of
                     None \<Rightarrow> Done (reply c (int_reply 0) s1)
                   | Some l \<Rightarrow> Done (reply c (int_reply (int (length (elements l)))) s1))"

text \<open>
  \<open>lpop xs n\<close>: the response and the elements left; \<open>None\<close> is the index panic (more elements asked
  for than there are) or the slice panic (a negative count).
\<close>

definition lpop :: "string list \<Rightarrow> int \<Rightarrow> (string \<times> string list) option" where
  "lpop xs arg =
     (if arg < 0 \<or> int (length xs) < arg then None
      else let popped = take (nat arg) xs;
               response = (if arg = 1 then bulk (hd popped)
                           else fold (\<lambda>e resp. resp @ bulk e) popped (array_header arg))
           in Some (response, drop (nat arg) xs))"

definition lpop_run :: "nat \<Rightarrow> string \<Rightarrow> int \<Rightarrow> server \<Rightarrow> server outcome" where
  "lpop_run c key arg s =
     (case ListRegistry s key of
        None \<Rightarrow> Done (reply c nil_bulk s)
      | Some l \<Rightarrow>
          (case lpop (elements l) arg of
             None \<Rightarrow> Panic s
           | Some (response, rest) \<Rightarrow> Done (reply c response (put_list key (l\<lparr>elements := rest\<rparr>) s))))"

definition HandleLPop :: "nat \<Rightarrow> server \<Rightarrow> server outcome" where
  "HandleLPop c s =
     (if \<not> authed c s then Done (reply c noauth_reply s)
      else let (listKey, err, r1) = read_field (rd_of c s); listKey = TrimSpace listKey
           in if err \<noteq> None then Done (set_rd c r1 s)
              else if 0 < Buffered r1
              then let (argStr, err, r2) = read_field r1; s1 = set_rd c r2 s
                   in if err \<noteq> None then Done s1
                      else (case Atoi (TrimSpace (TrimPrefix argStr ''$'')) of
                              (arg, Some e) \<Rightarrow> Done s1
                            | (arg, None) \<Rightarrow> lpop_run c listKey arg s1)
              else lpop_run c listKey 1 (set_rd c r1 s))"

section \<open>BLPOP\<close>

definition SendBLPOPSuccess :: "nat \<Rightarrow> string \<Rightarrow> string \<Rightarrow> server \<Rightarrow> server" where
  "SendBLPOPSuccess c listKey val s =
     reply c (''*2'' @ crlf @ ''$'' @ itoa (int (length listKey)) @ crlf @ listKey @ crlf
              @ ''$'' @ itoa (int (length val)) @ crlf @ val @ crlf) s"

text \<open>
  The locked part: an element is popped, or the client's new channel joins the queue and its
  goroutine waits, for ever when the timeout is 0.
\<close>

definition blpop :: "nat \<Rightarrow> string \<Rightarrow> float64 \<Rightarrow> server \<Rightarrow> server" where
  "blpop c key timeout s =
     (let l = load_list key s
      in case elements l of
           val # rest \<Rightarrow> SendBLPOPSuccess c key val (put_list key (l\<lparr>elements := rest\<rparr>) s)
         | [] \<Rightarrow>
             let ch = next_chan s;
                 deadline = (if feq timeout (Fin 0) then None
                             else Some (clock s + to_int64 (fmul timeout (Fin 1000000000))))
             in set_act c (PopWait ch key deadline)
                  (put_list key (l\<lparr>clients := clients l @ [ch]\<rparr>)
                     (s\<lparr>next_chan := Suc ch, chans := (chans s)(ch := None)\<rparr>)))"

definition HandleBLPop :: "nat \<Rightarrow> server \<Rightarrow> server outcome" where
  "HandleBLPop c s =
     (if \<not> authed c s then Done (reply c noauth_reply s)
      else let (listKey, err, r1) = read_field (rd_of c s)
           in if err \<noteq> None then Done (set_rd c r1 s)
              else let (timeoutStr, err, r2) = read_field r1; s1 = set_rd c r2 s
                   in if err \<noteq> None then Done s1
                      else Done (blpop c (TrimSpace listKey) (ParseFloat (TrimSpace timeoutStr)) s1))"

text \<open>The waiting goroutine: a value arrives, or the deadline passes and it leaves the queue.\<close>

definition blpop_receive :: "nat \<Rightarrow> server \<Rightarrow> server" where
  "blpop_receive c s =
     (case act (conns s c) of
        PopWait ch key deadline \<Rightarrow>
          (case chans s ch of
             Some val \<Rightarrow> set_act c Serving (SendBLPOPSuccess c key val (s\<lparr>chans := (chans s)(ch := None)\<rparr>))
           | None \<Rightarrow> s)
      | _ \<Rightarrow> s)"

definition blpop_expire :: "nat \<Rightarrow> server \<Rightarrow> server" where
  "blpop_expire c s =
     (case act (conns s c) of
        PopWait ch key (Some t) \<Rightarrow> if t \<le> clock s then set_act c (PopExpired ch key) s else s
      | _ \<Rightarrow> s)"

definition blpop_leave :: "nat \<Rightarrow> server \<Rightarrow> server" where
  "blpop_leave c s =
     (case act (conns s c) of
        PopExpired ch key \<Rightarrow>
          let l = load_list key s
          in set_act c Serving (reply c nil_array
               (put_list key (l\<lparr>clients := remove_first (\<lambda>x. x = ch) (clients l)\<rparr>) s))
      | _ \<Rightarrow> s)"

end
