(* ===== verification/Sorted_Sets.thy ===== *)
theory Sorted_Sets
  imports Server_State
begin

text \<open>
  \<open>utils.go\<close> \<open>AddToSortedSet\<close> and \<open>handlers.go\<close> \<open>ZADD\<close>, \<open>ZRANK\<close>, \<open>ZRANGE\<close>, \<open>ZCARD\<close>, \<open>ZSCORE\<close>,
  \<open>ZREM\<close>. A sorted set is a map from names to scores together with the slice \<open>Order\<close>, kept
  sorted by score and then name; each set has a \<open>sync.RWMutex\<close>, whose state is modelled because
  some return paths of the readers leave the read lock held.
\<close>

section \<open>sync.RWMutex\<close>

definition rlock :: "sorted_set \<Rightarrow> sorted_set option" where
  "rlock z = (if writer z \<or> writer_waits z then None else Some (z\<lparr>readers := Suc (readers z)\<rparr>))"

definition runlock :: "sorted_set \<Rightarrow> sorted_set" where
  "runlock z = z\<lparr>readers := readers z - 1\<rparr>"

definition lock :: "sorted_set \<Rightarrow> sorted_set option" where
  "lock z = (if writer z \<or> writer_waits z \<or> 0 < readers z then None else Some (z\<lparr>writer := True\<rparr>))"

definition unlock :: "sorted_set \<Rightarrow> sorted_set" where
  "unlock z = z\<lparr>writer := False\<rparr>"

section \<open>sort.Search\<close>

function search_between :: "(nat \<Rightarrow> bool) \<Rightarrow> nat \<Rightarrow> nat \<Rightarrow> nat" where
  "search_between f i j =
     (if i < j
      then let h = (i + j) div 2
           in if \<not> f h then search_between f (h + 1) j else search_between f i h
      else i)"
  by pat_completeness auto
termination by (relation "measure (\<lambda>(f, i, j). j - i)") auto

declare search_between.simps [simp del]

definition Search :: "nat \<Rightarrow> (nat \<Rightarrow> bool) \<Rightarrow> nat" where
  "Search n f = search_between f 0 n"

section \<open>AddToSortedSet\<close>

definition new_zset :: sorted_set where
  "new_zset = \<lparr>Elements = [], Order = [], readers = 0, writer = False, writer_waits = False\<rparr>"

definition load_zset :: "string \<Rightarrow> server \<Rightarrow> sorted_set" where
  "load_zset key s = (case ZSetRegistry s key of None \<Rightarrow> new_zset | Some z \<Rightarrow> z)"

definition put_zset :: "string \<Rightarrow> sorted_set \<Rightarrow> server \<Rightarrow> server" where
  "put_zset key z s = s\<lparr>ZSetRegistry := (ZSetRegistry s)(key \<mapsto> z)\<rparr>"

text \<open>The test of the binary search: the element at or after which the new one goes.\<close>

definition not_before :: "float64 \<Rightarrow> string \<Rightarrow> elem \<Rightarrow> bool" where
  "not_before score elementKey e =
     (if feq (Score e) score then elementKey \<le> Name e else flt score (Score e))"

definition zset_add :: "string \<Rightarrow> float64 \<Rightarrow> sorted_set \<Rightarrow> sorted_set \<times> int" where
  "zset_add elementKey score z =
     (let exists = (map_of (Elements z) elementKey \<noteq> None);
          added = (if exists then 0 else 1);
          order = (if exists then remove_first (\<lambda>e. Name e = elementKey) (Order z) else Order z);
          index = Search (length order) (\<lambda>i. not_before score elementKey (order ! i))
      in (z\<lparr>Elements := AList.update elementKey score (Elements z),
            Order := insert_at index \<lparr>Name = elementKey, Score = score\<rparr> order\<rparr>, added))"

definition AddToSortedSet :: "string \<Rightarrow> string \<Rightarrow> float64 \<Rightarrow> server \<Rightarrow> server outcome \<times> int" where
  "AddToSortedSet setKey elementKey score s =
     (let z = load_zset setKey s
      in case lock z of
           None \<Rightarrow> (Blocked (put_zset setKey (z\<lparr>writer_waits := True\<rparr>) s), 0)
         | Some z1 \<Rightarrow>
             let (z2, added) = zset_add elementKey score z1
             in (Done (put_zset setKey (unlock z2) s), added))"

section \<open>Handlers\<close>

text \<open>\<open>HandleZadd\<close> logs read errors and goes on with what it read.\<close>

definition HandleZadd :: "nat \<Rightarrow> server \<Rightarrow> server outcome" where
  "HandleZadd c s =
     (let (setKey, _, r1) = read_field (rd_of c s);
          (scoreStr, _, r2) = read_field r1;
          score = ParseFloat (TrimSpace scoreStr);
          (elementKey, _, r3) = read_field r2;
          (result, added) = AddToSortedSet (TrimSpace setKey) (TrimSpace elementKey) score (set_rd c r3 s)
      in and_then result (\<lambda>s1. Done (reply c (int_reply added) s1)))"

text \<open>A reader that cannot take the read lock waits.\<close>

definition with_rlock :: "string \<Rightarrow> sorted_set \<Rightarrow> (sorted_set \<Rightarrow> server \<Rightarrow> server outcome) \<Rightarrow> server \<Rightarrow> server outcome" where
  "with_rlock setKey z f s =
     (case rlock z of None \<Rightarrow> Blocked s | Some z1 \<Rightarrow> f z1 (put_zset setKey z1 s))"

text \<open>
  \<open>HandleZRank\<close>: both replies return before \<open>RUnlock\<close>; only an element missing from \<open>Order\<close>
  reaches it.
\<close>

definition HandleZRank :: "nat \<Rightarrow> server \<Rightarrow> server outcome" where
  "HandleZRank c s =
     (let (setKey, err, r1) = read_field (rd_of c s)
      in if err \<noteq> None then Done (set_rd c r1 s)
         else let setKey = TrimSpace setKey; (elementKey, err, r2) = read_field r1;
                  s1 = set_rd c r2 s; elementKey = TrimSpace elementKey
              in if err \<noteq> None then Done s1
                 else case ZSetRegistry s1 setKey of
                        None \<Rightarrow> Done (reply c nil_bulk s1)
                      | Some z \<Rightarrow> with_rlock setKey z (\<lambda>z s.
                          if map_of (Elements z) elementKey = None then Done (reply c nil_bulk s)
                          else case find_index (\<lambda>e. Name e = elementKey) (Order z) of
                                 Some rank \<Rightarrow> Done (reply c (int_reply (int rank)) s)
                               | None \<Rightarrow> Done (put_zset setKey (runlock z) s)) s1)"

text \<open>The range of \<open>ZRANGE\<close> after clamping, and the response; \<open>None\<close> is an index panic.\<close>

definition zrange_bounds :: "nat \<Rightarrow> int \<Rightarrow> int \<Rightarrow> int \<times> int" where
  "zrange_bounds n index1 index2 =
     ((if index1 < 0 then max 0 (i64 (int n + index1)) else index1),
      (if index2 < 0 then max 0 (i64 (int n + index2)) else index2))"

definition zrange_response :: "elem list \<Rightarrow> int \<Rightarrow> int \<Rightarrow> string option" where
  "zrange_response order i1 i2 =
     map_option (\<lambda>parts. array_header (i2 - i1 + 1) @ concat parts)
       (those (map (\<lambda>i. if 0 \<le> i \<and> i < int (length order) then Some (bulk (Name (order ! nat i))) else None)
          [i1..i2]))"

definition zrange :: "nat \<Rightarrow> string \<Rightarrow> int \<Rightarrow> int \<Rightarrow> sorted_set \<Rightarrow> server \<Rightarrow> server outcome" where
  "zrange c setKey index1 index2 z s =
     (let n = length (Elements z); (i1, i2) = zrange_bounds n index1 index2
      in if int n \<le> i1 \<or> i2 < i1 then Done (reply c empty_array s)
         else case zrange_response (Order z) i1 (min i2 (int n - 1)) of
                None \<Rightarrow> Panic s
              | Some response \<Rightarrow> Done (reply c response (put_zset setKey (runlock z) s)))"

definition HandleZRange :: "nat \<Rightarrow> server \<Rightarrow> server outcome" where
  "HandleZRange c s =
     (let (setKey, err, r1) = read_field (rd_of c s)
      in if err \<noteq> None then Done (set_rd c r1 s)
         else let (index1Str, err, r2) = read_field r1
              in if err \<noteq> None then Done (set_rd c r2 s)
                 else let (index2Str, err, r3) = read_field r2; s1 = set_rd c r3 s; setKey = TrimSpace setKey
                      in if err \<noteq> None then Done s1
                         else case ZSetRegistry s1 setKey of
                                None \<Rightarrow> Done (reply c empty_array s1)
                              | Some z \<Rightarrow> with_rlock setKey z
                                  (zrange c setKey (fst (Atoi (TrimSpace index1Str))) (fst (Atoi (TrimSpace index2Str)))) s1)"

definition HandleZCard :: "nat \<Rightarrow> server \<Rightarrow> server outcome" where
  "HandleZCard c s =
     (let (setKey, err, r) = read_field (rd_of c s); s1 = set_rd c r s; setKey = TrimSpace setKey
      in if err \<noteq> None then Done s1
         else case ZSetRegistry s1 setKey of
                None \<Rightarrow> Done (reply c (int_reply 0) s1)
              | Some z \<Rightarrow> with_rlock setKey z (\<lambda>z s.
                  Done (put_zset setKey (runlock z) (reply c (int_reply (int (length (Elements z)))) s))) s1)"

definition HandleZScore :: "nat \<Rightarrow> server \<Rightarrow> server outcome" where
  "HandleZScore c s =
     (let (setKey, err, r1) = read_field (rd_of c s)
      in if err \<noteq> None then Done (set_rd c r1 s)
         else let setKey = TrimSpace setKey; (elementKey, err, r2) = read_field r1;
                  s1 = set_rd c r2 s; elementKey = TrimSpace elementKey
              in if err \<noteq> None then Done s1
                 else case ZSetRegistry s1 setKey of
                        None \<Rightarrow> Done (reply c nil_bulk s1)
                      | Some z \<Rightarrow> with_rlock setKey z (\<lambda>z s.
                          case map_of (Elements z) elementKey of
                            None \<Rightarrow> Done (reply c nil_bulk s)
                          | Some element \<Rightarrow>
                              Done (reply c (bulk (FormatShortest element)) (put_zset setKey (runlock z) s))) s1)"

definition zset_remove :: "string \<Rightarrow> sorted_set \<Rightarrow> sorted_set" where
  "zset_remove elementKey z =
     z\<lparr>Elements := AList.delete elementKey (Elements z),
       Order := remove_first (\<lambda>e. Name e = elementKey) (Order z)\<rparr>"

definition HandleZRem :: "nat \<Rightarrow> server \<Rightarrow> server outcome" where
  "HandleZRem c s =
     (let (setKey, err, r1) = read_field (rd_of c s)
      in if err \<noteq> None then Done (set_rd c r1 s)
         else let setKey = TrimSpace setKey; (elementKey, err, r2) = read_field r1;
                  s1 = set_rd c r2 s; elementKey = TrimSpace elementKey
              in if err \<noteq> None then Done s1
                 else case ZSetRegistry s1 setKey of
                        None \<Rightarrow> Done (reply c (int_reply 0) s1)
                      | Some z \<Rightarrow>
                          (case lock z of
                             None \<Rightarrow> Blocked (put_zset setKey (z\<lparr>writer_waits := True\<rparr>) s1)
                           | Some z1 \<Rightarrow>
                               if map_of (Elements z1) elementKey = None
                               then Done (put_zset setKey (unlock z1) (reply c (int_reply 0) s1))
                               else Done (reply c (int_reply 1)
                                      (put_zset setKey (unlock (zset_remove elementKey z1)) s1))))"

section \<open>Binary search\<close>

text \<open>For a test that stays true once it is true, the least index where it holds.\<close>

lemma search_between_stop: "\<not> i < j \<Longrightarrow> search_between f i j = i"
  by (simp add: search_between.simps[of f i j])

lemma search_between_step:
  "i < j \<Longrightarrow> search_between f i j =
    (if f ((i + j) div 2) then search_between f i ((i + j) div 2)
     else search_between f ((i + j) div 2 + 1) j)"
  by (simp add: search_between.simps[of f i j] Let_def)

lemma search_between_bounds: "i \<le> j \<Longrightarrow> i \<le> search_between f i j \<and> search_between f i j \<le> j"
proof (induction f i j rule: search_between.induct)
  case (1 f i j)
  show ?case
  proof (cases "i < j")
    case False
    with "1.prems" show ?thesis by (simp add: search_between_stop)
  next
    case True
    define h where "h = (i + j) div 2"
    have h: "i \<le> h" "h < j" using True by (auto simp: h_def)
    note IH = "1.IH"[OF True h_def]
    show ?thesis
      using IH h True by (cases "f h") (auto simp: search_between_step simp flip: h_def)
  qed
qed

lemma search_between_below:
  assumes "mono": "\<And>k l. k \<le> l \<Longrightarrow> l < j \<Longrightarrow> f k \<Longrightarrow> f l"
  shows "i \<le> j \<Longrightarrow> (\<And>k. k < i \<Longrightarrow> \<not> f k) \<Longrightarrow> k < search_between f i j \<Longrightarrow> \<not> f k"
  using assms
proof (induction f i j rule: search_between.induct)
  case (1 f i j)
  show ?case
  proof (cases "i < j")
    case False
    with "1.prems" show ?thesis by (simp add: search_between_stop)
  next
    case True
    define h where "h = (i + j) div 2"
    have h: "i \<le> h" "h < j" using True by (auto simp: h_def)
    show ?thesis
    proof (cases "f h")
      case False
      then have "\<not> f l" if "l < h + 1" for l
        using "1.prems"(4)[of l h] h that by auto
      with "1.IH"(1)[OF True h_def False] "1.prems" False h True show ?thesis
        by (simp add: search_between_step flip: h_def)
    next
      case fh: True
      have "\<not> f k" if "k < search_between f i h"
      proof (rule "1.IH"(2)[OF True h_def _ h(1)])
        show "\<not> \<not> f h" using fh by simp
        show "\<not> f l" if "l < i" for l using "1.prems"(2) that by blast
        show "f l" if "k \<le> l" "l < h" "f k" for k l using "1.prems"(4)[of k l] that h by simp
      qed (rule that)
      with "1.prems"(3) fh True show ?thesis by (simp add: search_between_step flip: h_def)
    qed
  qed
qed

lemma search_between_hit:
  "i \<le> j \<Longrightarrow> search_between f i j < j \<Longrightarrow> f (search_between f i j)"
proof (induction f i j rule: search_between.induct)
  case (1 f i j)
  then have True: "i < j" by (cases "i < j") (auto simp: search_between_stop)
  define h where "h = (i + j) div 2"
  have h: "i \<le> h" "h < j" using True by (auto simp: h_def)
  show ?case
  proof (cases "f h")
    case False
    with "1.IH"(1)[OF True h_def] "1.prems" h True show ?thesis
      by (simp add: search_between_step flip: h_def)
  next
    case fh: True
    have "f (search_between f i h)"
    proof (cases "search_between f i h < h")
      case True
      with "1.IH"(2)[OF \<open>i < j\<close> h_def] fh h show ?thesis by simp
    next
      case False
      with search_between_bounds[of i h f] h fh show ?thesis by simp
    qed
    with fh True show ?thesis by (simp add: search_between_step flip: h_def)
  qed
qed

lemma Search_le: "Search n f \<le> n"
  using search_between_bounds[of 0 n f] by (simp add: Search_def)

lemma Search_least:
  assumes "\<And>k l. k \<le> l \<Longrightarrow> l < n \<Longrightarrow> f k \<Longrightarrow> f l"
  shows "k < Search n f \<Longrightarrow> \<not> f k" "Search n f \<le> k \<Longrightarrow> k < n \<Longrightarrow> f k"
proof -
  show "k < Search n f \<Longrightarrow> \<not> f k"
    using search_between_below[of n f 0 k] assms by (simp add: Search_def)
  show "Search n f \<le> k \<Longrightarrow> k < n \<Longrightarrow> f k"
    using search_between_hit[of 0 n f] assms by (fastforce simp: Search_def)
qed

end
