(* ===== verification/Geocoding.thy ===== *)
theory Geocoding
  imports Go_Float
begin

unbundle bit_operations_syntax

text \<open>
  \<open>geocoding.go\<close>: the 52-bit geohash (26 bits per axis, interleaved), its inverse to the centre of
  the cell, the haversine distance, and the score ranges of the nine boxes around a point. Words
  keep their width; floating point follows the code's order of operations, with Go's exact
  constant expressions rounded once where they become a \<open>float64\<close>. \<open>math.Sin\<close>, \<open>Cos\<close>, \<open>Asin\<close>
  and \<open>Sqrt\<close>, whose last bits are the platform's, are a parameter.
\<close>

section \<open>Constants and types\<close>

definition MIN_LATITUDE :: rat where "MIN_LATITUDE = - 8505112878 / 100000000"
definition MAX_LATITUDE :: rat where "MAX_LATITUDE = 8505112878 / 100000000"
definition MIN_LONGITUDE :: rat where "MIN_LONGITUDE = - 180"
definition MAX_LONGITUDE :: rat where "MAX_LONGITUDE = 180"
definition LATITUDE_RANGE :: rat where "LATITUDE_RANGE = MAX_LATITUDE - MIN_LATITUDE"
definition LONGITUDE_RANGE :: rat where "LONGITUDE_RANGE = MAX_LONGITUDE - MIN_LONGITUDE"
definition EARTH_RADIUS :: rat where "EARTH_RADIUS = 6372797560856 / 1000000"

text \<open>\<open>math.Pi\<close>, an exact constant of the \<open>math\<close> package.\<close>

definition Pi :: rat where
  "Pi = 314159265358979323846264338327950288419716939937510582097494459 / 10 ^ 62"

record Coordinates =
  Latitude :: float64
  Longitude :: float64

record ScoreRange =
  Min :: "64 word"
  Max :: "64 word"

record gomath =
  mSin :: "float64 \<Rightarrow> float64"
  mCos :: "float64 \<Rightarrow> float64"
  mAsin :: "float64 \<Rightarrow> float64"
  mSqrt :: "float64 \<Rightarrow> float64"

section \<open>Interleaving\<close>

definition spreadInt32ToInt64 :: "32 word \<Rightarrow> 64 word" where
  "spreadInt32ToInt64 v =
     (let result = ucast v :: 64 word;
          result = (result OR push_bit 16 result) AND 0x0000FFFF0000FFFF;
          result = (result OR push_bit 8 result) AND 0x00FF00FF00FF00FF;
          result = (result OR push_bit 4 result) AND 0x0F0F0F0F0F0F0F0F;
          result = (result OR push_bit 2 result) AND 0x3333333333333333;
          result = (result OR push_bit 1 result) AND 0x5555555555555555
      in result)"

definition compactInt64ToInt32 :: "64 word \<Rightarrow> 32 word" where
  "compactInt64ToInt32 v =
     (let result = v AND 0x5555555555555555;
          result = (result OR drop_bit 1 result) AND 0x3333333333333333;
          result = (result OR drop_bit 2 result) AND 0x0F0F0F0F0F0F0F0F;
          result = (result OR drop_bit 4 result) AND 0x00FF00FF00FF00FF;
          result = (result OR drop_bit 8 result) AND 0x0000FFFF0000FFFF;
          result = (result OR drop_bit 16 result) AND 0x00000000FFFFFFFF
      in ucast result)"

definition interleave :: "32 word \<Rightarrow> 32 word \<Rightarrow> 64 word" where
  "interleave x y =
     (let xSpread = spreadInt32ToInt64 x; ySpread = spreadInt32ToInt64 y;
          yShifted = push_bit 1 ySpread
      in xSpread OR yShifted)"

section \<open>Encode and Decode\<close>

definition pow26 :: float64 where "pow26 = Fin (2 ^ 26)"

definition convertGridNumbersToCoordinates :: "32 word \<Rightarrow> 32 word \<Rightarrow> Coordinates" where
  "convertGridNumbersToCoordinates gridLatitudeNumber gridLongitudeNumber =
     (let grid = (\<lambda>lo range (n :: 32 word).
            fadd (rnd lo) (fmul (rnd range) (fdiv (float_of_int (uint n)) pow26)));
          gridLatitudeMin = grid MIN_LATITUDE LATITUDE_RANGE gridLatitudeNumber;
          gridLatitudeMax = grid MIN_LATITUDE LATITUDE_RANGE (gridLatitudeNumber + 1);
          gridLongitudeMin = grid MIN_LONGITUDE LONGITUDE_RANGE gridLongitudeNumber;
          gridLongitudeMax = grid MIN_LONGITUDE LONGITUDE_RANGE (gridLongitudeNumber + 1);
          latitude = fdiv (fadd gridLatitudeMin gridLatitudeMax) (Fin 2);
          longitude = fdiv (fadd gridLongitudeMin gridLongitudeMax) (Fin 2)
      in \<lparr>Latitude = latitude, Longitude = longitude\<rparr>)"

definition normalizedLatitude :: "float64 \<Rightarrow> float64" where
  "normalizedLatitude latitude =
     fdiv (fmul pow26 (fsub latitude (rnd MIN_LATITUDE))) (rnd LATITUDE_RANGE)"

definition normalizedLongitude :: "float64 \<Rightarrow> float64" where
  "normalizedLongitude longitude =
     fdiv (fmul pow26 (fsub longitude (rnd MIN_LONGITUDE))) (rnd LONGITUDE_RANGE)"

definition Encode :: "float64 \<Rightarrow> float64 \<Rightarrow> 64 word" where
  "Encode latitude longitude =
     (let latInt = to_uint32 (normalizedLatitude latitude);
          lonInt = to_uint32 (normalizedLongitude longitude)
      in interleave latInt lonInt)"

definition Decode :: "64 word \<Rightarrow> Coordinates" where
  "Decode geoCode =
     (let y = drop_bit 1 geoCode; x = geoCode;
          gridLatitudeNumber = compactInt64ToInt32 x;
          gridLongitudeNumber = compactInt64ToInt32 y
      in convertGridNumbersToCoordinates gridLatitudeNumber gridLongitudeNumber)"

section \<open>Distance\<close>

definition GeoDistance :: "gomath \<Rightarrow> Coordinates \<Rightarrow> Coordinates \<Rightarrow> float64" where
  "GeoDistance M a b =
     (let rad = rnd (Pi / 180);
          lon1r = fmul (Longitude a) rad; lon2r = fmul (Longitude b) rad;
          v = mSin M (fdiv (fsub lon2r lon1r) (Fin 2));
          lat1r = fmul (Latitude a) rad; lat2r = fmul (Latitude b) rad;
          u = mSin M (fdiv (fsub lat2r lat1r) (Fin 2));
          d = fadd (fmul u u) (fmul (fmul (fmul (mCos M lat1r) (mCos M lat2r)) v) v)
      in fmul (rnd (2 * EARTH_RADIUS)) (mAsin M (mSqrt M d)))"

section \<open>The nine boxes\<close>

text \<open>The loop that lowers the depth until a cell is at least as wide and high as the radius.\<close>

function search_depth :: "float64 \<Rightarrow> float64 \<Rightarrow> nat \<Rightarrow> nat" where
  "search_depth cosLat radiusMeters depth =
     (if 1 < depth
      then let rad = rnd (Pi / 180);
               degWidth = fdiv (Fin 360) (Fin (2 ^ depth));
               metersWidth = fmul (fmul (fmul degWidth rad) (rnd EARTH_RADIUS)) cosLat;
               degHeight = fdiv (rnd LATITUDE_RANGE) (Fin (2 ^ depth));
               metersHeight = fmul (fmul degHeight rad) (rnd EARTH_RADIUS)
           in if fle radiusMeters metersWidth \<and> fle radiusMeters metersHeight then depth
              else search_depth cosLat radiusMeters (depth - 1)
      else depth)"
  by pat_completeness auto
termination by (relation "measure (\<lambda>(c, r, d). d)") auto

declare search_depth.simps [simp del]

text \<open>The boxes around a grid cell at a depth, in the order of the two loops.\<close>

definition box_ranges :: "nat \<Rightarrow> 32 word \<Rightarrow> 32 word \<Rightarrow> ScoreRange list" where
  "box_ranges depth gridX gridY =
     (let shift = 26 - depth; maxGrid = 2 ^ depth - 1 :: int
      in concat (map (\<lambda>dx. concat (map (\<lambda>dy.
           let nx = uint gridX + dx; ny = uint gridY + dy
           in if nx < 0 \<or> maxGrid < nx \<or> ny < 0 \<or> maxGrid < ny then []
              else let boxScore = interleave (word_of_int nx) (word_of_int ny);
                       minScore = push_bit (2 * shift) boxScore;
                       maxScore = minScore OR (push_bit (2 * shift) 1 - 1)
                   in [\<lparr>Min = minScore, Max = maxScore\<rparr>]) [-1, 0, 1])) [-1, 0, 1]))"

definition Get9BoxRanges :: "gomath \<Rightarrow> float64 \<Rightarrow> float64 \<Rightarrow> float64 \<Rightarrow> ScoreRange list" where
  "Get9BoxRanges M centerLat centerLon radiusMeters =
     (let latRad = fdiv (fmul centerLat (rnd Pi)) (Fin 180);
          cosLat = mCos M latRad;
          cosLat = (if flt cosLat (rnd (1 / 100)) then rnd (1 / 100) else cosLat);
          depth = search_depth cosLat radiusMeters 26;
          normalizedLat = normalizedLatitude centerLat;
          normalizedLon = normalizedLongitude centerLon;
          shift = 26 - depth;
          gridX = drop_bit shift (to_uint32 normalizedLon);
          gridY = drop_bit shift (to_uint32 normalizedLat)
      in box_ranges depth gridX gridY)"

section \<open>Bits\<close>

text \<open>The masks, bit by bit.\<close>

lemma bit_masks:
  "n < 64 \<Longrightarrow> bit (0x0000FFFF0000FFFF :: 64 word) n \<longleftrightarrow> n mod 32 < 16"
  "n < 64 \<Longrightarrow> bit (0x00FF00FF00FF00FF :: 64 word) n \<longleftrightarrow> n mod 16 < 8"
  "n < 64 \<Longrightarrow> bit (0x0F0F0F0F0F0F0F0F :: 64 word) n \<longleftrightarrow> n mod 8 < 4"
  "n < 64 \<Longrightarrow> bit (0x3333333333333333 :: 64 word) n \<longleftrightarrow> n mod 4 < 2"
  "n < 64 \<Longrightarrow> bit (0x5555555555555555 :: 64 word) n \<longleftrightarrow> n mod 2 < 1"
  "n < 64 \<Longrightarrow> bit (0x00000000FFFFFFFF :: 64 word) n \<longleftrightarrow> n < 32"
proof -
  have "\<forall>n \<in> set [0..<64]. (bit (0x0000FFFF0000FFFF :: 64 word) n \<longleftrightarrow> n mod 32 < 16) \<and>
     (bit (0x00FF00FF00FF00FF :: 64 word) n \<longleftrightarrow> n mod 16 < 8) \<and>
     (bit (0x0F0F0F0F0F0F0F0F :: 64 word) n \<longleftrightarrow> n mod 8 < 4) \<and>
     (bit (0x3333333333333333 :: 64 word) n \<longleftrightarrow> n mod 4 < 2) \<and>
     (bit (0x5555555555555555 :: 64 word) n \<longleftrightarrow> n mod 2 < 1) \<and>
     (bit (0x00000000FFFFFFFF :: 64 word) n \<longleftrightarrow> n < 32)"
    by code_simp
  then show "n < 64 \<Longrightarrow> bit (0x0000FFFF0000FFFF :: 64 word) n \<longleftrightarrow> n mod 32 < 16"
    "n < 64 \<Longrightarrow> bit (0x00FF00FF00FF00FF :: 64 word) n \<longleftrightarrow> n mod 16 < 8"
    "n < 64 \<Longrightarrow> bit (0x0F0F0F0F0F0F0F0F :: 64 word) n \<longleftrightarrow> n mod 8 < 4"
    "n < 64 \<Longrightarrow> bit (0x3333333333333333 :: 64 word) n \<longleftrightarrow> n mod 4 < 2"
    "n < 64 \<Longrightarrow> bit (0x5555555555555555 :: 64 word) n \<longleftrightarrow> n mod 2 < 1"
    "n < 64 \<Longrightarrow> bit (0x00000000FFFFFFFF :: 64 word) n \<longleftrightarrow> n < 32"
    by auto
qed

lemma bit64_less [simp]: "bit (w :: 64 word) n \<Longrightarrow> n < 64"
  using bit_imp_le_length[of w n] by simp

lemma bit32_less [simp]: "bit (w :: 32 word) n \<Longrightarrow> n < 32"
  using bit_imp_le_length[of w n] by simp

lemma upto_numeral: "[0..<numeral k] = [0..<pred_numeral k] @ [pred_numeral k]"
  by (simp add: numeral_eq_Suc)

lemma spread_step:
  "bit ((r OR push_bit k r) AND m :: 64 word) n \<longleftrightarrow>
    n < 64 \<and> bit m n \<and> (bit r n \<or> k \<le> n \<and> bit r (n - k))"
  by (auto simp: bit_simps dest: bit64_less)

lemma compact_step:
  "bit ((r OR drop_bit k r) AND m :: 64 word) n \<longleftrightarrow>
    n < 64 \<and> bit m n \<and> (bit r n \<or> bit r (k + n))"
  by (auto simp: bit_simps dest: bit64_less)

text \<open>Spreading puts bit \<open>k\<close> at place \<open>2 * k\<close>; compacting reads the even places.\<close>

lemma spread_bit: "bit (spreadInt32ToInt64 v) n \<longleftrightarrow> even n \<and> bit v (n div 2)"
proof -
  define r0 where "r0 = (ucast v :: 64 word)"
  define r1 where "r1 = (r0 OR push_bit 16 r0) AND 0x0000FFFF0000FFFF"
  define r2 where "r2 = (r1 OR push_bit 8 r1) AND 0x00FF00FF00FF00FF"
  define r3 where "r3 = (r2 OR push_bit 4 r2) AND 0x0F0F0F0F0F0F0F0F"
  define r4 where "r4 = (r3 OR push_bit 2 r3) AND 0x3333333333333333"
  define r5 where "r5 = (r4 OR push_bit 1 r4) AND 0x5555555555555555"
  have b0: "bit r0 n \<longleftrightarrow> n < 32 \<and> bit v n" for n
    by (auto simp: r0_def bit_simps dest: bit32_less)
  have b1: "n < 64 \<Longrightarrow> bit r1 n \<longleftrightarrow> n mod 32 < 16 \<and> (bit r0 n \<or> 16 \<le> n \<and> bit r0 (n - 16))" for n
    unfolding r1_def by (simp only: spread_step bit_masks simp_thms)
  have b2: "n < 64 \<Longrightarrow> bit r2 n \<longleftrightarrow> n mod 16 < 8 \<and> (bit r1 n \<or> 8 \<le> n \<and> bit r1 (n - 8))" for n
    unfolding r2_def by (simp only: spread_step bit_masks simp_thms)
  have b3: "n < 64 \<Longrightarrow> bit r3 n \<longleftrightarrow> n mod 8 < 4 \<and> (bit r2 n \<or> 4 \<le> n \<and> bit r2 (n - 4))" for n
    unfolding r3_def by (simp only: spread_step bit_masks simp_thms)
  have b4: "n < 64 \<Longrightarrow> bit r4 n \<longleftrightarrow> n mod 4 < 2 \<and> (bit r3 n \<or> 2 \<le> n \<and> bit r3 (n - 2))" for n
    unfolding r4_def by (simp only: spread_step bit_masks simp_thms)
  have b5: "n < 64 \<Longrightarrow> bit r5 n \<longleftrightarrow> n mod 2 < 1 \<and> (bit r4 n \<or> 1 \<le> n \<and> bit r4 (n - 1))" for n
    unfolding r5_def by (simp only: spread_step bit_masks simp_thms)
  have "spreadInt32ToInt64 v = r5"
    by (simp only: spreadInt32ToInt64_def Let_def r0_def r1_def r2_def r3_def r4_def r5_def)
  moreover have "list_all (\<lambda>n. bit r5 n = (even n \<and> bit v (n div 2))) [0..<64]"
    by (simp add: upto_numeral b0 b1 b2 b3 b4 b5)
  then have "n < 64 \<Longrightarrow> bit r5 n = (even n \<and> bit v (n div 2))"
    by (simp add: list_all_iff)
  ultimately show ?thesis
    by (cases "n < 64") (auto dest: bit64_less bit32_less)
qed

lemma compact_bit: "bit (compactInt64ToInt32 w) n \<longleftrightarrow> n < 32 \<and> bit w (2 * n)"
proof -
  define r0 where "r0 = w AND 0x5555555555555555"
  define r1 where "r1 = (r0 OR drop_bit 1 r0) AND 0x3333333333333333"
  define r2 where "r2 = (r1 OR drop_bit 2 r1) AND 0x0F0F0F0F0F0F0F0F"
  define r3 where "r3 = (r2 OR drop_bit 4 r2) AND 0x00FF00FF00FF00FF"
  define r4 where "r4 = (r3 OR drop_bit 8 r3) AND 0x0000FFFF0000FFFF"
  define r5 where "r5 = (r4 OR drop_bit 16 r4) AND 0x00000000FFFFFFFF"
  have b0: "bit r0 n \<longleftrightarrow> n < 64 \<and> n mod 2 < 1 \<and> bit w n" for n
    unfolding r0_def bit_and_iff using bit_masks(5)[of n] bit64_less[of w n] by metis
  have b1: "bit r1 n \<longleftrightarrow> n < 64 \<and> n mod 4 < 2 \<and> (bit r0 n \<or> bit r0 (1 + n))" for n
    unfolding r1_def compact_step using bit_masks(4)[of n] by metis
  have b2: "bit r2 n \<longleftrightarrow> n < 64 \<and> n mod 8 < 4 \<and> (bit r1 n \<or> bit r1 (2 + n))" for n
    unfolding r2_def compact_step using bit_masks(3)[of n] by metis
  have b3: "bit r3 n \<longleftrightarrow> n < 64 \<and> n mod 16 < 8 \<and> (bit r2 n \<or> bit r2 (4 + n))" for n
    unfolding r3_def compact_step using bit_masks(2)[of n] by metis
  have b4: "bit r4 n \<longleftrightarrow> n < 64 \<and> n mod 32 < 16 \<and> (bit r3 n \<or> bit r3 (8 + n))" for n
    unfolding r4_def compact_step using bit_masks(1)[of n] by metis
  have b5: "bit r5 n \<longleftrightarrow> n < 64 \<and> n < 32 \<and> (bit r4 n \<or> bit r4 (16 + n))" for n
    unfolding r5_def compact_step using bit_masks(6)[of n] by metis
  have "compactInt64ToInt32 w = ucast r5"
    by (simp only: compactInt64ToInt32_def Let_def r0_def r1_def r2_def r3_def r4_def r5_def)
  moreover have "list_all (\<lambda>n. bit r5 n = bit w (2 * n)) [0..<32]"
    by (simp add: upto_numeral b0 b1 b2 b3 b4 b5 flip: numeral_2_eq_2)
  then have "n < 32 \<Longrightarrow> bit r5 n = bit w (2 * n)"
    by (simp add: list_all_iff)
  ultimately show ?thesis
    by (cases "n < 32") (auto simp: bit_simps)
qed

section \<open>Interleaving is a bijection\<close>

text \<open>
  The contract of a pair of axes packed into one code: the two projections give the axes back,
  so equal codes have equal axes.
\<close>

locale axis_code =
  fixes pack :: "'x \<Rightarrow> 'y \<Rightarrow> 'c" and fst_axis :: "'c \<Rightarrow> 'x" and snd_axis :: "'c \<Rightarrow> 'y"
  assumes fst_pack: "fst_axis (pack x y) = x"
    and snd_pack: "snd_axis (pack x y) = y"
begin

lemma pack_inject: "pack x y = pack x' y' \<longleftrightarrow> x = x' \<and> y = y'"
  by (metis fst_pack snd_pack)

end

lemma interleave_bit:
  "bit (interleave x y) n \<longleftrightarrow> (if even n then bit x (n div 2) else n < 64 \<and> bit y (n div 2))"
  unfolding interleave_def Let_def bit_or_iff bit_push_bit_iff spread_bit
  by (cases n) (auto dest: bit32_less)

lemma compact_interleave:
  "compactInt64ToInt32 (interleave x y) = x"
  "compactInt64ToInt32 (drop_bit 1 (interleave x y)) = y"
  by (rule bit_eqI; auto simp: compact_bit interleave_bit bit_drop_bit_eq simp del: One_nat_def)+

interpretation geo: axis_code interleave compactInt64ToInt32 "\<lambda>c. compactInt64ToInt32 (drop_bit 1 c)"
  by unfold_locales (rule compact_interleave)+

lemma interleave_compact:
  "interleave (compactInt64ToInt32 c) (compactInt64ToInt32 (drop_bit 1 c)) = c"
proof (rule bit_word_eqI)
  fix n assume "n < LENGTH(64)"
  then have "n div 2 < 32" "n < 64" by simp_all
  then show "bit (interleave (compactInt64ToInt32 c) (compactInt64ToInt32 (drop_bit 1 c))) n = bit c n"
    by (cases "even n") (auto simp: interleave_bit compact_bit bit_drop_bit_eq elim!: evenE oddE)
qed

end
