(* ===== verification/Geo_Handlers.thy ===== *)
theory Geo_Handlers
  imports Sorted_Sets Geocoding
begin

text \<open>
  \<open>handlers.go\<close>: \<open>GEOADD\<close>, \<open>GEOPOS\<close>, \<open>GEODIST\<close> and \<open>GEOSEARCH\<close>. A location is an element of a sorted set
  whose score is the 52-bit geohash of \<open>Geocoding\<close>.
\<close>

section \<open>GEOADD\<close>

definition HandleGeoAdd :: "nat \<Rightarrow> server \<Rightarrow> server outcome" where
  "HandleGeoAdd c s =
     (let (key, err, r1) = read_field (rd_of c s)
      in if err \<noteq> None then Done (set_rd c r1 s)
         else let (longStr, err, r2) = read_field r1
              in if err \<noteq> None then Done (set_rd c r2 s)
                 else let (latStr, err, r3) = read_field r2
                      in if err \<noteq> None then Done (set_rd c r3 s)
                         else let (member, err, r4) = read_field r3; s1 = set_rd c r4 s;
                                  longitude = ParseFloat (TrimSpace longStr);
                                  latitude = ParseFloat (TrimSpace latStr)
                              in if err \<noteq> None then Done s1
                                 else if flt longitude (Fin (- 180)) \<or> flt (Fin 180) longitude
                                 then Done (reply c (''-ERR invalid longitude: '' @ FormatFixed 6 longitude @ crlf) s1)
                                 else if flt latitude (rnd MIN_LATITUDE) \<or> flt (rnd MAX_LATITUDE) latitude
                                 then Done (reply c (''-ERR invalid latitude: '' @ FormatFixed 6 latitude @ crlf) s1)
                                 else let score = Encode latitude longitude;
                                          (result, added) = AddToSortedSet (TrimSpace key) (TrimSpace member)
                                                              (float_of_int (uint score)) s1
                                      in and_then result (\<lambda>s2. Done (reply c (int_reply added) s2)))"

section \<open>GEOPOS\<close>

text \<open>The part of the response for one member: its decoded coordinates, or a nil array.\<close>

definition geopos_entry :: "(string \<times> float64) list \<Rightarrow> string \<Rightarrow> string" where
  "geopos_entry els m =
     (case map_of els m of
        None \<Rightarrow> nil_array
      | Some element \<Rightarrow>
          let coordinates = Decode (to_uint64 element);
              longStr = FormatShortest (Longitude coordinates);
              latStr = FormatShortest (Latitude coordinates)
          in ''*2'' @ crlf @ ''$'' @ itoa (int (length longStr)) @ crlf @ longStr @ crlf
             @ ''$'' @ itoa (int (length latStr)) @ crlf @ latStr @ crlf)"

definition HandleGeoPos :: "nat \<Rightarrow> server \<Rightarrow> server outcome" where
  "HandleGeoPos c s =
     (let (key, err, r1) = read_field (rd_of c s)
      in if err \<noteq> None then Done (set_rd c r1 s)
         else let key = TrimSpace key; (members, err, r2) = read_elems [] r1; s1 = set_rd c r2 s;
                  response = array_header (int (length members))
              in if err \<noteq> None then Done s1
                 else case ZSetRegistry s1 key of
                        None \<Rightarrow> Done (reply c (response @ concat (map (\<lambda>m. nil_array) members)) s1)
                      | Some z \<Rightarrow> with_rlock key z (\<lambda>z s.
                          Done (put_zset key (runlock z)
                            (reply c (response @ concat (map (geopos_entry (Elements z)) members)) s))) s1)"

section \<open>GEODIST\<close>

text \<open>A member that is not in the set reads as score 0; a set that does not exist panics.\<close>

definition member_coordinates :: "(string \<times> float64) list \<Rightarrow> string \<Rightarrow> Coordinates" where
  "member_coordinates els m = Decode (to_uint64 (case map_of els m of None \<Rightarrow> Fin 0 | Some x \<Rightarrow> x))"

definition HandleGeoDist :: "gomath \<Rightarrow> nat \<Rightarrow> server \<Rightarrow> server outcome" where
  "HandleGeoDist M c s =
     (let (key, err, r1) = read_field (rd_of c s)
      in if err \<noteq> None then Done (set_rd c r1 s)
         else let (member1, err, r2) = read_field r1
              in if err \<noteq> None then Done (set_rd c r2 s)
                 else let (member2, err, r3) = read_field r2; s1 = set_rd c r3 s; key = TrimSpace key
                      in if err \<noteq> None then Done s1
                         else case ZSetRegistry s1 key of
                                None \<Rightarrow> Panic s1
                              | Some z \<Rightarrow> with_rlock key z (\<lambda>z s.
                                  let coordinates1 = member_coordinates (Elements z) (TrimSpace member1);
                                      coordinates2 = member_coordinates (Elements z) (TrimSpace member2);
                                      s2 = put_zset key (runlock z) s;
                                      distanceStr = FormatFixed 5 (GeoDistance M coordinates1 coordinates2)
                                  in Done (reply c (bulk distanceStr) s2)) s1)"

section \<open>GEOSEARCH\<close>

definition to_meters :: "string \<Rightarrow> float64 \<Rightarrow> float64" where
  "to_meters unit radius =
     (if unit = ''km'' then fmul radius (Fin 1000)
      else if unit = ''mi'' then fmul radius (rnd (160934 / 100))
      else if unit = ''ft'' then fmul radius (rnd (3048 / 10000))
      else radius)"

text \<open>
  The inner loop: from the first element whose score is at least \<open>Min\<close> up to the first whose
  score exceeds \<open>Max\<close>, the elements within the radius.
\<close>

definition scan_range :: "gomath \<Rightarrow> Coordinates \<Rightarrow> float64 \<Rightarrow> elem list \<Rightarrow> ScoreRange \<Rightarrow> string list" where
  "scan_range M center radiusM order r =
     (let startIndex = Search (length order) (\<lambda>i. Min r \<le> to_uint64 (Score (order ! i)));
          candidates = takeWhile (\<lambda>e. \<not> Max r < to_uint64 (Score e)) (drop startIndex order)
      in map Name (filter (\<lambda>e. fle (GeoDistance M center (Decode (to_uint64 (Score e)))) radiusM) candidates))"

text \<open>The keys of \<open>matchingMembersMap\<close>, which the reply lists in Go's unspecified map order.\<close>

definition matching_members :: "gomath \<Rightarrow> Coordinates \<Rightarrow> float64 \<Rightarrow> elem list \<Rightarrow> string list" where
  "matching_members M center radiusM order =
     remdups (concat (map (scan_range M center radiusM order)
       (Get9BoxRanges M (Latitude center) (Longitude center) radiusM)))"

definition HandleGeoSearch :: "gomath \<Rightarrow> (string list \<Rightarrow> string list) \<Rightarrow> nat \<Rightarrow> server \<Rightarrow> server outcome" where
  "HandleGeoSearch M map_order c s =
     (let (key, err, r1) = read_field (rd_of c s)
      in if err \<noteq> None then Done (set_rd c r1 s)
         else let (centerLonStr, err, r2) = read_field (skip_line (skip_line r1))
              in if err \<noteq> None then Done (set_rd c r2 s)
                 else let (centerLatStr, err, r3) = read_field r2
                      in if err \<noteq> None then Done (set_rd c r3 s)
                         else let (radiusStr, err, r4) = read_field (skip_line (skip_line r3))
                              in if err \<noteq> None then Done (set_rd c r4 s)
                                 else let (unit, err, r5) = read_field r4; s1 = set_rd c r5 s;
                                          centerLon = ParseFloat (TrimSpace centerLonStr);
                                          centerLat = ParseFloat (TrimSpace centerLatStr);
                                          radiusM = to_meters (TrimSpace unit) (ParseFloat (TrimSpace radiusStr));
                                          center = \<lparr>Latitude = centerLat, Longitude = centerLon\<rparr>;
                                          key = TrimSpace key
                                      in if err \<noteq> None then Done s1
                                         else case ZSetRegistry s1 key of
                                                None \<Rightarrow> Done (reply c empty_array s1)
                                              | Some z \<Rightarrow> with_rlock key z (\<lambda>z s.
                                                  let members = map_order (matching_members M center radiusM (Order z))
                                                  in Done (put_zset key (runlock z)
                                                       (reply c (resp_array members) s))) s1)"

end
