(* ===== verification/Propagation.thy ===== *)
theory Propagation
  imports Server_State
begin

text \<open>
  \<open>utils.go\<close>: what the master sends to its replicas and appends to the AOF file for a write
  command, and the byte counts both sides keep. The lemmas tie the count \<open>OffsetByteSize\<close> of the
  replica to the length of the text the master sends.
\<close>

section \<open>OffsetByteSize, PropagateCommand, AppendToAof\<close>

definition OffsetByteSize :: "string list \<Rightarrow> int" where
  "OffsetByteSize args =
     fold (\<lambda>arg size. size + int (length (''$'' @ itoa (int (length arg)) @ crlf @ arg @ crlf))) args
       (int (length (''*'' @ itoa (int (length args)) @ crlf)))"

definition PropagateCommand :: "string list \<Rightarrow> server \<Rightarrow> server" where
  "PropagateCommand args s =
     (if Replicas s = [] then s
      else let resp = fold (\<lambda>arg resp. resp @ bulk arg) args (array_header (int (length args)));
               s1 = s\<lparr>MasterOffset := i64 (MasterOffset s + int (length resp))\<rparr>
           in fold (\<lambda>r s. reply (rep_conn r) resp s) (Replicas s) s1)"

definition AppendToAof :: "string list \<Rightarrow> server \<Rightarrow> server" where
  "AppendToAof args s =
     (case AofFile s of
        None \<Rightarrow> s
      | Some file \<Rightarrow>
          let resp = fold (\<lambda>arg resp. resp @ bulk arg) args (array_header (int (length args)))
          in s\<lparr>AofFile := Some (fst (sink_write file resp))\<rparr>)"

text \<open>
  \<open>if role == "slave" { ... repl_offset += OffsetByteSize(args) }\<close> of \<open>HandlePing\<close> and \<open>HandleSet\<close>;
  the type assertion panics when the offset is not set.
\<close>

definition advance_repl_offset :: "string list \<Rightarrow> server \<Rightarrow> server outcome" where
  "advance_repl_offset args s =
     (if role_is ''slave'' s
      then case ServerInfo s ''repl_offset'' of
             Some (IInt off) \<Rightarrow>
               Done (s\<lparr>ServerInfo := (ServerInfo s)(''repl_offset'' \<mapsto> IInt (i64 (off + OffsetByteSize args)))\<rparr>)
           | _ \<Rightarrow> Panic s
      else Done s)"

section \<open>Byte counts\<close>

lemma fold_bulk: "fold (\<lambda>arg resp. resp @ bulk arg) args h = h @ bulks args"
  by (induction args arbitrary: h) auto

lemma fold_bulk_size:
  "fold (\<lambda>arg size. size + int (length (''$'' @ itoa (int (length arg)) @ crlf @ arg @ crlf))) args n
    = n + int (length (bulks args))"
  by (induction args arbitrary: n) (auto simp: bulk_def)

lemma OffsetByteSize_resp: "OffsetByteSize args = int (length (resp_array args))"
  unfolding OffsetByteSize_def fold_bulk_size resp_array_def array_header_def by simp

lemma PropagateCommand_resp:
  "PropagateCommand args s =
     (if Replicas s = [] then s
      else fold (\<lambda>r s. reply (rep_conn r) (resp_array args) s) (Replicas s)
             (s\<lparr>MasterOffset := i64 (MasterOffset s + OffsetByteSize args)\<rparr>))"
  by (simp add: PropagateCommand_def fold_bulk resp_array_def OffsetByteSize_resp)

lemma AppendToAof_resp:
  "AppendToAof args s =
     (case AofFile s of
        None \<Rightarrow> s
      | Some file \<Rightarrow> s\<lparr>AofFile := Some (fst (sink_write file (resp_array args)))\<rparr>)"
  by (cases "AofFile s") (simp_all add: AppendToAof_def fold_bulk resp_array_def)

section \<open>Frame\<close>

lemma fold_reply_fields [simp]:
  fixes s :: server
  shows "ServerMemory (fold (\<lambda>r s. reply (rep_conn r) d s) rs s) = ServerMemory s"
    "UserRegistry (fold (\<lambda>r s. reply (rep_conn r) d s) rs s) = UserRegistry s"
    "ListRegistry (fold (\<lambda>r s. reply (rep_conn r) d s) rs s) = ListRegistry s"
    "EnvVariables (fold (\<lambda>r s. reply (rep_conn r) d s) rs s) = EnvVariables s"
    "ServerInfo (fold (\<lambda>r s. reply (rep_conn r) d s) rs s) = ServerInfo s"
    "Replicas (fold (\<lambda>r s. reply (rep_conn r) d s) rs s) = Replicas s"
    "MasterOffset (fold (\<lambda>r s. reply (rep_conn r) d s) rs s) = MasterOffset s"
    "ZSetRegistry (fold (\<lambda>r s. reply (rep_conn r) d s) rs s) = ZSetRegistry s"
    "AofFile (fold (\<lambda>r s. reply (rep_conn r) d s) rs s) = AofFile s"
    "chans (fold (\<lambda>r s. reply (rep_conn r) d s) rs s) = chans s"
    "next_chan (fold (\<lambda>r s. reply (rep_conn r) d s) rs s) = next_chan s"
    "clock (fold (\<lambda>r s. reply (rep_conn r) d s) rs s) = clock s"
    "timers (fold (\<lambda>r s. reply (rep_conn r) d s) rs s) = timers s"
    "mem (fold (\<lambda>r s. reply (rep_conn r) d s) rs s) = mem s"
    "rd_of e (fold (\<lambda>r s. reply (rep_conn r) d s) rs s) = rd_of e s"
    "authUser (conns (fold (\<lambda>r s. reply (rep_conn r) d s) rs s) e) = authUser (conns s e)"
    "act (conns (fold (\<lambda>r s. reply (rep_conn r) d s) rs s) e) = act (conns s e)"
    "silent (conns (fold (\<lambda>r s. reply (rep_conn r) d s) rs s) e) = silent (conns s e)"
  by (induction rs arbitrary: s) auto

lemma PropagateCommand_fields [simp]:
  "ServerMemory (PropagateCommand args s) = ServerMemory s"
  "UserRegistry (PropagateCommand args s) = UserRegistry s"
  "ListRegistry (PropagateCommand args s) = ListRegistry s"
  "EnvVariables (PropagateCommand args s) = EnvVariables s"
  "ServerInfo (PropagateCommand args s) = ServerInfo s"
  "Replicas (PropagateCommand args s) = Replicas s"
  "ZSetRegistry (PropagateCommand args s) = ZSetRegistry s"
  "AofFile (PropagateCommand args s) = AofFile s"
  "chans (PropagateCommand args s) = chans s" "next_chan (PropagateCommand args s) = next_chan s"
  "clock (PropagateCommand args s) = clock s" "timers (PropagateCommand args s) = timers s"
  "mem (PropagateCommand args s) = mem s" "rd_of e (PropagateCommand args s) = rd_of e s"
  "authUser (conns (PropagateCommand args s) e) = authUser (conns s e)"
  "act (conns (PropagateCommand args s) e) = act (conns s e)"
  "silent (conns (PropagateCommand args s) e) = silent (conns s e)"
  by (simp_all add: PropagateCommand_resp)

lemma AppendToAof_fields [simp]:
  "ServerMemory (AppendToAof args s) = ServerMemory s"
  "UserRegistry (AppendToAof args s) = UserRegistry s"
  "ListRegistry (AppendToAof args s) = ListRegistry s"
  "EnvVariables (AppendToAof args s) = EnvVariables s"
  "ServerInfo (AppendToAof args s) = ServerInfo s"
  "Replicas (AppendToAof args s) = Replicas s"
  "MasterOffset (AppendToAof args s) = MasterOffset s"
  "ZSetRegistry (AppendToAof args s) = ZSetRegistry s"
  "conns (AppendToAof args s) = conns s" "chans (AppendToAof args s) = chans s"
  "next_chan (AppendToAof args s) = next_chan s"
  "clock (AppendToAof args s) = clock s" "timers (AppendToAof args s) = timers s"
  "mem (AppendToAof args s) = mem s" "rd_of e (AppendToAof args s) = rd_of e s"
  "out e (AppendToAof args s) = out e s" "healthy e (AppendToAof args s) = healthy e s"
  by (auto simp: AppendToAof_def mem_def rd_of_def out_def healthy_def split: option.splits)

section \<open>What the replicas receive\<close>

lemma fold_reply_out:
  assumes "distinct (map rep_conn rs)"
    "\<And>r. r \<in> set rs \<Longrightarrow> healthy (rep_conn r) s"
  shows "out e (fold (\<lambda>r s. reply (rep_conn r) d s) rs s)
    = out e s @ (if e \<in> rep_conn ` set rs then d else [])"
  using assms
proof (induction rs arbitrary: s)
  case (Cons r rs)
  have "out e (fold (\<lambda>r s. reply (rep_conn r) d s) rs (reply (rep_conn r) d s))
      = out e (reply (rep_conn r) d s) @ (if e \<in> rep_conn ` set rs then d else [])"
    using Cons.prems by (intro Cons.IH) auto
  with Cons.prems show ?case by (cases "e = rep_conn r") (auto simp: image_iff)
qed simp

lemma fold_reply_healthy:
  "healthy e s \<Longrightarrow> healthy e (fold (\<lambda>r s. reply (rep_conn r) d s) rs s)"
  by (induction rs arbitrary: s) auto

definition replicas_ok :: "server \<Rightarrow> bool" where
  "replicas_ok s \<longleftrightarrow> distinct (map rep_conn (Replicas s)) \<and>
     (\<forall>r \<in> set (Replicas s). healthy (rep_conn r) s)"

lemma PropagateCommand_out:
  assumes "replicas_ok s"
  shows "out e (PropagateCommand args s)
    = out e s @ (if e \<in> rep_conn ` set (Replicas s) then resp_array args else [])"
  using assms
  by (auto simp: PropagateCommand_resp replicas_ok_def fold_reply_out)

lemma PropagateCommand_healthy: "healthy e s \<Longrightarrow> healthy e (PropagateCommand args s)"
  by (simp add: PropagateCommand_resp fold_reply_healthy)

lemma PropagateCommand_offset:
  "MasterOffset (PropagateCommand args s) =
     (if Replicas s = [] then MasterOffset s else i64 (MasterOffset s + OffsetByteSize args))"
  by (simp add: PropagateCommand_resp)

end
