(* ===== verification/Key_Value.thy ===== *)
theory Key_Value
  imports Propagation "HOL-Library.Multiset"
begin

text \<open>
  \<open>handlers.go\<close>: the commands on the string store and the server itself: \<open>PING\<close>, \<open>ECHO\<close>, \<open>SET\<close>,
  \<open>GET\<close>, \<open>CONFIG GET\<close>, \<open>KEYS\<close>, \<open>INFO\<close>, and the expiry goroutines that \<open>SET ... PX\<close> starts.
  Every handler runs after the dispatcher has read the line with the command's name.
\<close>

section \<open>Expiry\<close>

text \<open>\<open>go func: wait for the duration (in nanoseconds), then ServerMemory.Delete(key)\<close>.\<close>

definition expire_after :: "int \<Rightarrow> string \<Rightarrow> server \<Rightarrow> server" where
  "expire_after d k s = s\<lparr>timers := timers s @ [(clock s + d, k)]\<rparr>"

text \<open>The \<open>i\<close>-th pending goroutine runs once its deadline has passed.\<close>

definition fire_timer :: "nat \<Rightarrow> server \<Rightarrow> server" where
  "fire_timer i s =
     (if i < length (timers s) \<and> fst (timers s ! i) \<le> clock s
      then mem_delete (snd (timers s ! i))
             (s\<lparr>timers := take i (timers s) @ drop (Suc i) (timers s)\<rparr>)
      else s)"

definition tick :: "int \<Rightarrow> server \<Rightarrow> server" where
  "tick d s = s\<lparr>clock := clock s + d\<rparr>"

section \<open>Handlers\<close>

definition HandlePing :: "nat \<Rightarrow> server \<Rightarrow> server outcome" where
  "HandlePing c s =
     (if \<not> authed c s then Done (reply c noauth_reply s)
      else let (s1, ok) = conn_write c (''+PONG'' @ crlf) s
           in if \<not> ok then Done s1 else advance_repl_offset [''PING''] s1)"

definition HandleEcho :: "nat \<Rightarrow> server \<Rightarrow> server outcome" where
  "HandleEcho c s =
     (if \<not> authed c s then Done (reply c noauth_reply s)
      else let (content, err, r) = read_field (rd_of c s); s1 = set_rd c r s
           in if err \<noteq> None then Done s1
              else let content = TrimSpace content in Done (reply c (bulk content) s1))"

text \<open>The part of \<open>HandleSet\<close> after the reply: an option, if more input is buffered.\<close>

definition set_option :: "nat \<Rightarrow> string \<Rightarrow> server \<Rightarrow> server" where
  "set_option c key s =
     (if 0 < Buffered (rd_of c s)
      then let (option, err, r1) = read_field (rd_of c s); s1 = set_rd c r1 s
           in if err \<noteq> None then s1
              else if ToUpper (TrimSpace option) = ''PX''
              then let (tte, err, r2) = read_field r1; s2 = set_rd c r2 s;
                       tteNum = fst (Atoi (TrimSpace tte))
                   in if err \<noteq> None then s2 else expire_after (i64 (tteNum * 1000000)) key s2
              else s1
      else s)"

text \<open>The part of \<open>HandleSet\<close> between parsing and the reply.\<close>

definition set_store :: "string \<Rightarrow> string \<Rightarrow> server \<Rightarrow> server outcome" where
  "set_store key value s =
     and_then (advance_repl_offset [''SET'', key, value] (mem_store key value s))
       (\<lambda>s1. Done (if role_is ''master'' s1
                  then AppendToAof [''SET'', key, value] (PropagateCommand [''SET'', key, value] s1)
                  else s1))"

definition HandleSet :: "nat \<Rightarrow> server \<Rightarrow> server outcome" where
  "HandleSet c s =
     (if \<not> authed c s then Done (reply c noauth_reply s)
      else let (key, err, r1) = read_field (rd_of c s)
           in if err \<noteq> None then Done (set_rd c r1 s)
              else let key = TrimSpace key; (value, err, r2) = read_field r1; s1 = set_rd c r2 s
                   in if err \<noteq> None then Done s1
                      else and_then (set_store key (TrimSpace value) s1)
                             (\<lambda>s2. Done (set_option c key (reply c ok_reply s2))))"

definition HandleGet :: "nat \<Rightarrow> server \<Rightarrow> server outcome" where
  "HandleGet c s =
     (if \<not> authed c s then Done (reply c noauth_reply s)
      else let (key, err, r) = read_field (rd_of c s); s1 = set_rd c r s
           in if err \<noteq> None then Done s1
              else case mem s1 (TrimSpace key) of
                     Some value \<Rightarrow> Done (reply c (bulk value) s1)
                   | None \<Rightarrow> Done (reply c nil_bulk s1))"

definition HandleConfigGet :: "nat \<Rightarrow> server \<Rightarrow> server outcome" where
  "HandleConfigGet c s =
     (if \<not> authed c s then Done (reply c noauth_reply s)
      else let (keyName, err, r) = read_field (skip_line (skip_line (rd_of c s)));
               s1 = set_rd c r s
           in if err \<noteq> None then Done s1
              else let keyName = TrimSpace keyName
                   in case EnvVariables s1 keyName of
                        None \<Rightarrow> Done s1
                      | Some value \<Rightarrow> Done (reply c (resp_array [keyName, value]) s1))"

text \<open>
  \<open>ServerMemory.Range\<close> visits the keys in an order Go does not specify: \<open>range_order\<close> gives it.
\<close>

definition HandleKeys :: "(string list \<Rightarrow> string list) \<Rightarrow> nat \<Rightarrow> server \<Rightarrow> server outcome" where
  "HandleKeys range_order c s =
     (if \<not> authed c s then Done (reply c noauth_reply s)
      else let (pattern, err, r) = read_field (rd_of c s); s1 = set_rd c r s
           in if TrimSpace pattern \<noteq> ''*''
              then Done (reply c (''-ERR only * pattern is supported'' @ crlf) s1)
              else let keys = range_order (map fst (ServerMemory s1))
                   in Done (reply c (resp_array keys) s1))"

definition HandleInfo :: "nat \<Rightarrow> server \<Rightarrow> server outcome" where
  "HandleInfo c s =
     (if \<not> authed c s then Done (reply c noauth_reply s)
      else let (arg, err, r) = read_field (rd_of c s); s1 = set_rd c r s
           in if err \<noteq> None then Done s1
              else if ToUpper (TrimSpace arg) = ''REPLICATION''
              then (case ServerInfo s1 ''role'' of
                      Some (IStr serverRole) \<Rightarrow>
                        (let roleLine = ''role:'' @ serverRole
                         in if serverRole = ''master''
                            then case (ServerInfo s1 ''master_replid'', ServerInfo s1 ''master_repl_offset'') of
                                   (Some (IStr replid), Some (IStr offset)) \<Rightarrow>
                                     Done (reply c (bulk (roleLine @ [LF] @ ''master_replid:'' @ replid @ [LF]
                                        @ ''master_repl_offset:'' @ offset @ [LF])) s1)
                                 | _ \<Rightarrow> Panic s1
                            else Done (reply c (bulk roleLine) s1))
                    | _ \<Rightarrow> Panic s1)
              else Done s1)"

lemmas key_value_handlers =
  HandlePing_def HandleEcho_def HandleSet_def HandleGet_def HandleConfigGet_def HandleKeys_def
  HandleInfo_def

end
