(* ===== verification/Replication.thy ===== *)
theory Replication
  imports Key_Value Sha256
begin

text \<open>
  Master and replica: the replica's handshake (\<open>ConnectToMaster\<close>, \<open>HandleReplConfSlave\<close>,
  \<open>HandlePsyncSlave\<close>), the master's side (\<open>HandlePsyncMaster\<close>), the acknowledgements of both
  (\<open>HandleReplConf\<close>) and \<open>WAIT\<close>, whose goroutine polls the offsets of the replicas.
\<close>

section \<open>utils.go: RandomString\<close>

definition charset :: string where
  "charset = ''abcdefghijklmnopqrstuvwxyz'' @ ''ABCDEFGHIJKLMNOPQRSTUVWXYZ'' @ ''0123456789''"

text \<open>\<open>Intn i\<close> is the result of the \<open>i\<close>-th call of \<open>rand.Intn(len(charset))\<close>.\<close>

definition RandomString :: "(nat \<Rightarrow> nat) \<Rightarrow> nat \<Rightarrow> string" where
  "RandomString Intn len = map (\<lambda>i. charset ! Intn i) [0..<len]"

section \<open>REPLCONF\<close>

definition ack_request :: string where
  "ack_request = ''*3'' @ crlf @ ''$8'' @ crlf @ ''REPLCONF'' @ crlf @ ''$6'' @ crlf @ ''GETACK'' @ crlf
     @ ''$1'' @ crlf @ ''*'' @ crlf"

definition ack_response :: "string \<Rightarrow> string" where
  "ack_response offsetStr =
     ''*3'' @ crlf @ ''$8'' @ crlf @ ''REPLCONF'' @ crlf @ ''$3'' @ crlf @ ''ACK'' @ crlf
     @ ''$'' @ itoa (int (length offsetStr)) @ crlf @ offsetStr @ crlf"

text \<open>The loop of the \<open>ACK\<close> branch: the first replica on this connection gets the offset.\<close>

fun store_ack :: "nat \<Rightarrow> int \<Rightarrow> replica list \<Rightarrow> replica list" where
  "store_ack c offset [] = []"
| "store_ack c offset (r # rs) =
     (if rep_conn r = c then r\<lparr>rep_offset := offset\<rparr> # rs else r # store_ack c offset rs)"

text \<open>The answer to \<open>GETACK\<close> is written to the connection itself, under a \<open>SilentConn\<close> too.\<close>

definition HandleReplConf :: "nat \<Rightarrow> server \<Rightarrow> server outcome" where
  "HandleReplConf c s =
     (let (command, _, r1) = read_field (rd_of c s); command = ToUpper (TrimSpace command);
          (val, _, r2) = read_field r1; val = TrimSpace val; s1 = set_rd c r2 s
      in if command = ''GETACK''
         then (case ServerInfo s1 ''repl_offset'' of
                 Some (IInt offset) \<Rightarrow>
                   (let s2 = fst (raw_write c (ack_response (itoa offset)) s1)
                    in Done (s2\<lparr>ServerInfo := (ServerInfo s2)(''repl_offset'' \<mapsto> IInt (i64 (offset + 37)))\<rparr>))
               | _ \<Rightarrow> Panic s1)
         else (case ServerInfo s1 ''role'' of
                 Some (IStr role) \<Rightarrow>
                   if role = ''master''
                   then if command = ''LISTENING-PORT'' \<or> command = ''CAPA'' then Done (reply c ok_reply s1)
                        else if command = ''ACK''
                        then Done (s1\<lparr>Replicas := store_ack c (fst (Atoi val)) (Replicas s1)\<rparr>)
                        else Done s1
                   else Done s1
               | _ \<Rightarrow> Panic s1))"

section \<open>PSYNC on the master\<close>

definition emptyRdbHex :: string where
  "emptyRdbHex = ''524544495330303131fa0972656469732d76657205372e322e30fa0a72656469732d62697473c040fa056374696d65c26d08bc65fa08757365642d6d656dc2b0c41000fa08616f662d62617365c000fff06e3bfec0ff5aa2''"

definition HandlePsyncMaster :: "nat \<Rightarrow> server \<Rightarrow> server outcome" where
  "HandlePsyncMaster c s =
     (case ServerInfo s ''role'' of
        Some (IStr serverRole) \<Rightarrow>
          if serverRole \<noteq> ''master'' then Done s
          else let s1 = set_rd c (skip_line (skip_line (skip_line (skip_line (rd_of c s))))) s
               in (case (ServerInfo s1 ''master_replid'', ServerInfo s1 ''master_repl_offset'') of
                     (Some (IStr replicationId), Some (IStr replicationOffset)) \<Rightarrow>
                       (let (s2, ok) = conn_write c
                              (''+FULLRESYNC '' @ replicationId @ '' '' @ replicationOffset @ crlf) s1
                        in if \<not> ok then Done s2
                           else (case DecodeString emptyRdbHex of
                                   None \<Rightarrow> Done s2
                                 | Some rdbBytes \<Rightarrow>
                                     (let (s3, ok) = conn_write c
                                            (''$'' @ itoa (int (length rdbBytes)) @ crlf @ rdbBytes) s2
                                      in if \<not> ok then Done s3
                                         else Done (s3\<lparr>Replicas := Replicas s3
                                                         @ [\<lparr>rep_conn = c, rep_offset = 0\<rparr>]\<rparr>))))
                   | _ \<Rightarrow> Panic s1)
      | _ \<Rightarrow> Panic s)"

section \<open>The replica's handshake\<close>

definition HandleReplConfSlave :: "nat \<Rightarrow> string \<Rightarrow> server \<Rightarrow> server" where
  "HandleReplConfSlave c replicaPort s =
     (let (s1, ok) = conn_write c
            (''*3'' @ crlf @ ''$8'' @ crlf @ ''REPLCONF'' @ crlf @ ''$14'' @ crlf @ ''listening-port'' @ crlf
             @ ''$'' @ itoa (int (length replicaPort)) @ crlf @ replicaPort @ crlf) s
      in if \<not> ok then s1
         else let s2 = set_rd c (skip_line (rd_of c s1)) s1;
                  (s3, ok) = conn_write c
                    (''*3'' @ crlf @ ''$8'' @ crlf @ ''REPLCONF'' @ crlf @ ''$4'' @ crlf @ ''capa'' @ crlf
                     @ ''$6'' @ crlf @ ''psync2'' @ crlf) s2
              in if \<not> ok then s3 else set_rd c (skip_line (rd_of c s3)) s3)"

definition set_silent :: "nat \<Rightarrow> server \<Rightarrow> server" where
  "set_silent c s = s\<lparr>conns := (conns s)(c := (conns s c)\<lparr>silent := True\<rparr>)\<rparr>"

text \<open>
  The RDB payload is read into a slice of the announced length; a negative length, or one beyond
  the address space (\<open>2 ^ 48\<close> bytes), panics in \<open>make\<close>. The goroutine that then serves the
  replication stream is the connection made silent; \<open>Dispatch\<close> starts its session.
\<close>

definition HandlePsyncSlave :: "nat \<Rightarrow> server \<Rightarrow> server outcome" where
  "HandlePsyncSlave c s =
     (let (s1, ok) = conn_write c (''*3'' @ crlf @ ''$5'' @ crlf @ ''PSYNC'' @ crlf @ ''$1'' @ crlf @ ''?''
            @ crlf @ ''$2'' @ crlf @ ''-1'' @ crlf) s
      in if \<not> ok then Done s1
         else let (lengthLine, _, r1) = ReadString (skip_line (rd_of c s1));
                  lengthLine = TrimSpace (TrimPrefix lengthLine ''$'');
                  len = fst (Atoi lengthLine); s2 = set_rd c r1 s1
              in if len < 0 \<or> 2 ^ 48 < len then Panic s2
                 else let (_, _, r2) = ReadFull (nat len) r1;
                          s3 = set_rd c r2 s2
                      in Done (set_silent c (s3\<lparr>ServerInfo := (ServerInfo s3)(''repl_offset'' \<mapsto> IInt 0)\<rparr>)))"

text \<open>
  \<open>c\<close> is the connection \<open>net.Dial\<close> gives; when it fails, \<open>log.Fatal\<close> ends the process.
\<close>

definition ConnectToMaster :: "bool \<Rightarrow> nat \<Rightarrow> string \<Rightarrow> server \<Rightarrow> server outcome" where
  "ConnectToMaster dial_ok c replicaPort s =
     (if \<not> dial_ok then Panic s
      else let (s1, ok) = conn_write c (''*1'' @ crlf @ ''$4'' @ crlf @ ''PING'' @ crlf) s
           in if \<not> ok then Done s1
              else let s2 = set_rd c (skip_line (rd_of c s1)) s1
                   in HandlePsyncSlave c (HandleReplConfSlave c replicaPort s2))"

section \<open>WAIT\<close>

definition acked_replicas :: "server \<Rightarrow> int" where
  "acked_replicas s = int (length (filter (\<lambda>r. MasterOffset s \<le> rep_offset r) (Replicas s)))"

text \<open>
  One turn of \<open>WAIT_LOOP\<close>: count the replicas that have caught up, and leave the loop when there
  are enough. \<open>wait_expire\<close> is the \<open>ctx.Done\<close> arm of the \<open>select\<close>, which answers with the count of
  the last turn.
\<close>

definition wait_turn :: "nat \<Rightarrow> int \<Rightarrow> int option \<Rightarrow> server \<Rightarrow> server" where
  "wait_turn c numreplicas deadline s =
     (let acked = acked_replicas s
      in if numreplicas \<le> acked then set_act c Serving (reply c (int_reply acked) s)
         else set_act c (AckWait numreplicas deadline acked) s)"

definition wait_poll :: "nat \<Rightarrow> server \<Rightarrow> server" where
  "wait_poll c s =
     (case act (conns s c) of
        AckWait numreplicas deadline _ \<Rightarrow> wait_turn c numreplicas deadline s
      | _ \<Rightarrow> s)"

definition wait_expire :: "nat \<Rightarrow> server \<Rightarrow> server" where
  "wait_expire c s =
     (case act (conns s c) of
        AckWait _ (Some t) acked \<Rightarrow>
          if t \<le> clock s then set_act c Serving (reply c (int_reply acked) s) else s
      | _ \<Rightarrow> s)"

definition HandleWait :: "nat \<Rightarrow> server \<Rightarrow> server outcome" where
  "HandleWait c s =
     (let (numreplicasStr, err, r1) = read_field (rd_of c s)
      in if err \<noteq> None then Done (set_rd c r1 s)
         else let numreplicas = fst (Atoi (TrimSpace numreplicasStr));
                  (timeoutStr, err, r2) = read_field r1; s1 = set_rd c r2 s;
                  timeout = fst (Atoi (TrimSpace timeoutStr));
                  connectedReplicas = length (Replicas s1)
              in if err \<noteq> None then Done s1
                 else if connectedReplicas = 0 \<or> MasterOffset s1 = 0
                 then Done (reply c (int_reply (int connectedReplicas)) s1)
                 else let s2 = fold (\<lambda>r s. reply (rep_conn r) ack_request s) (Replicas s1) s1;
                          deadline = (if 0 < timeout then Some (clock s2 + i64 (timeout * 1000000)) else None)
                      in Done (wait_turn c numreplicas deadline s2))"

end
