(* ===== verification/Dispatch.thy ===== *)
theory Dispatch
  imports Acl_Auth Lists Geo_Handlers Replication
begin

text \<open>
  \<open>server.go\<close> \<open>serveCommands\<close> and \<open>handleConnection\<close>: the loop that reads a line and calls the
  handler it names. The rest of the command is left to the handler, so any line that is not a
  command's name (a length prefix, an argument nobody read) is skipped.
\<close>

section \<open>The dispatcher\<close>

text \<open>What the platform decides: \<open>math\<close>'s functions and the iteration order of the two maps.\<close>

record platform =
  math :: gomath
  keys_order :: "string list \<Rightarrow> string list"
  members_order :: "string list \<Rightarrow> string list"

definition dispatch :: "platform \<Rightarrow> string \<Rightarrow> nat \<Rightarrow> server \<Rightarrow> server outcome" where
  "dispatch P upperLine c s =
     (if upperLine = ''PING'' then HandlePing c s
      else if upperLine = ''ECHO'' then HandleEcho c s
      else if upperLine = ''SET'' then HandleSet c s
      else if upperLine = ''GET'' then HandleGet c s
      else if upperLine = ''ACL'' then HandleACL c s
      else if upperLine = ''AUTH'' then HandleAuth c s
      else if upperLine = ''RPUSH'' then HandleRPush c s
      else if upperLine = ''LRANGE'' then HandleLRange c s
      else if upperLine = ''LPUSH'' then HandleLPush c s
      else if upperLine = ''LLEN'' then HandleLLen c s
      else if upperLine = ''LPOP'' then HandleLPop c s
      else if upperLine = ''BLPOP'' then HandleBLPop c s
      else if upperLine = ''CONFIG'' then HandleConfigGet c s
      else if upperLine = ''KEYS'' then HandleKeys (keys_order P) c s
      else if upperLine = ''INFO'' then HandleInfo c s
      else if upperLine = ''REPLCONF'' then HandleReplConf c s
      else if upperLine = ''PSYNC'' then HandlePsyncMaster c s
      else if upperLine = ''WAIT'' then HandleWait c s
      else if upperLine = ''ZADD'' then HandleZadd c s
      else if upperLine = ''ZRANK'' then HandleZRank c s
      else if upperLine = ''ZRANGE'' then HandleZRange c s
      else if upperLine = ''ZCARD'' then HandleZCard c s
      else if upperLine = ''ZSCORE'' then HandleZScore c s
      else if upperLine = ''ZREM'' then HandleZRem c s
      else if upperLine = ''GEOADD'' then HandleGeoAdd c s
      else if upperLine = ''GEOPOS'' then HandleGeoPos c s
      else if upperLine = ''GEODIST'' then HandleGeoDist (math P) c s
      else if upperLine = ''GEOSEARCH'' then HandleGeoSearch (math P) (members_order P) c s
      else Done s)"

lemma dispatch_words:
  "dispatch P ''PING'' c s = HandlePing c s"
  "dispatch P ''ECHO'' c s = HandleEcho c s"
  "dispatch P ''SET'' c s = HandleSet c s"
  "dispatch P ''GET'' c s = HandleGet c s"
  "dispatch P ''ACL'' c s = HandleACL c s"
  "dispatch P ''AUTH'' c s = HandleAuth c s"
  "dispatch P ''RPUSH'' c s = HandleRPush c s"
  "dispatch P ''LRANGE'' c s = HandleLRange c s"
  "dispatch P ''LPUSH'' c s = HandleLPush c s"
  "dispatch P ''LLEN'' c s = HandleLLen c s"
  "dispatch P ''LPOP'' c s = HandleLPop c s"
  "dispatch P ''BLPOP'' c s = HandleBLPop c s"
  "dispatch P ''CONFIG'' c s = HandleConfigGet c s"
  "dispatch P ''KEYS'' c s = HandleKeys (keys_order P) c s"
  "dispatch P ''INFO'' c s = HandleInfo c s"
  "dispatch P ''REPLCONF'' c s = HandleReplConf c s"
  "dispatch P ''PSYNC'' c s = HandlePsyncMaster c s"
  "dispatch P ''WAIT'' c s = HandleWait c s"
  "dispatch P ''ZADD'' c s = HandleZadd c s"
  "dispatch P ''ZRANK'' c s = HandleZRank c s"
  "dispatch P ''ZRANGE'' c s = HandleZRange c s"
  "dispatch P ''ZCARD'' c s = HandleZCard c s"
  "dispatch P ''ZSCORE'' c s = HandleZScore c s"
  "dispatch P ''ZREM'' c s = HandleZRem c s"
  "dispatch P ''GEOADD'' c s = HandleGeoAdd c s"
  "dispatch P ''GEOPOS'' c s = HandleGeoPos c s"
  "dispatch P ''GEODIST'' c s = HandleGeoDist (math P) c s"
  "dispatch P ''GEOSEARCH'' c s = HandleGeoSearch (math P) (members_order P) c s"
  by (simp_all only: dispatch_def list.inject list.distinct char.inject simp_thms if_True if_False)

section \<open>Handlers only consume input\<close>

definition consumes :: "nat \<Rightarrow> server \<Rightarrow> server outcome \<Rightarrow> bool" where
  "consumes c s r \<longleftrightarrow> rd_size (rd_of c (final r)) \<le> rd_size (rd_of c s)"

named_theorems consumes_intros "each handler consumes its connection's input"

lemma skip_line_size_le: "rd_size r \<le> n \<Longrightarrow> rd_size (skip_line r) \<le> n"
  using skip_line_size le_trans by blast

lemma read_field_size_le: "read_field r = (l, e, r') \<Longrightarrow> rd_size r \<le> n \<Longrightarrow> rd_size r' \<le> n"
  using read_field_size le_trans by blast

lemma read_elems_size_le: "read_elems acc r = (l, e, r') \<Longrightarrow> rd_size r \<le> n \<Longrightarrow> rd_size r' \<le> n"
  using read_elems_size le_trans by blast

lemma rd_of_frame [simp]:
  "rd_of e (put_list k l s) = rd_of e s" "rd_of e (put_zset k z s) = rd_of e s"
  "rd_of e (set_act d a s) = rd_of e s" "rd_of e (set_auth d u s) = rd_of e s"
  "rd_of e (expire_after t k s) = rd_of e s" "rd_of e (mem_delete k s) = rd_of e s"
  "rd_of e (fst (conn_write d x s)) = rd_of e s" "rd_of e (fst (raw_write d x s)) = rd_of e s"
  "rd_of e (SendBLPOPSuccess d key val s) = rd_of e s"
  by (simp_all add: put_list_def put_zset_def set_act_def set_auth_def expire_after_def mem_delete_def
      SendBLPOPSuccess_def) (simp_all add: rd_of_def)

lemma conn_write_rd: "conn_write d x s = (s', ok) \<Longrightarrow> rd_of e s' = rd_of e s"
  by (metis rd_of_frame(7) fst_conv)

lemma final_and_then: "final (and_then r f) = (case r of Done t \<Rightarrow> final (f t) | _ \<Rightarrow> final r)"
  by (cases r) auto

lemmas consume_simps = Let_def consumes_def final_and_then advance_repl_offset_def

lemma consumes_basic [consumes_intros]:
  "consumes c s (HandlePing c s)" "consumes c s (HandleEcho c s)" "consumes c s (HandleGet c s)"
  "consumes c s (HandleConfigGet c s)" "consumes c s (HandleKeys f c s)" "consumes c s (HandleInfo c s)"
  by (auto simp: HandlePing_def HandleEcho_def HandleGet_def HandleConfigGet_def HandleKeys_def HandleInfo_def
      consume_simps conn_write_rd
      intro: read_field_size_le skip_line_size_le
      split: prod.splits option.splits outcome.splits info_val.splits)

lemma set_option_rd: "rd_size (rd_of c (set_option c key s)) \<le> rd_size (rd_of c s)"
  by (auto simp: set_option_def Let_def intro: read_field_size_le split: prod.splits)

lemma set_store_rd: "set_store key v s = Done t \<Longrightarrow> rd_of c t = rd_of c s"
  by (auto simp: set_store_def advance_repl_offset_def split: option.splits info_val.splits if_splits)

lemma set_store_rd_final: "rd_of c (final (set_store key v s)) = rd_of c s"
  by (auto simp: set_store_def advance_repl_offset_def final_and_then split: option.splits info_val.splits if_splits)

lemma consumes_set [consumes_intros]: "consumes c s (HandleSet c s)"
proof -
  have "rd_size (rd_of c (final (and_then (set_store key v (set_rd c r2 s))
      (\<lambda>s2. Done (set_option c key (reply c ok_reply s2)))))) \<le> rd_size r2" for key v r2
    using set_store_rd_final[of c key v "set_rd c r2 s"] set_option_rd[of c key]
    by (cases "set_store key v (set_rd c r2 s)") (auto intro: order_trans[OF set_option_rd])
  note set_steps = order_trans[OF this]
  show ?thesis
    by (auto simp: HandleSet_def consumes_def Let_def set_steps split: prod.splits
        dest!: read_field_size)
qed

lemma consumes_acl [consumes_intros]: "consumes c s (HandleACL c s)" "consumes c s (HandleAuth c s)"
  by (auto simp: HandleACL_def HandleAuth_def acl_whoami_def acl_getuser_def acl_setuser_def
      consume_simps dest!: read_field_size split: prod.splits option.splits)

lemma consumes_lists [consumes_intros]:
  "consumes c s (HandleRPush c s)" "consumes c s (HandleLPush c s)" "consumes c s (HandleLRange c s)"
  "consumes c s (HandleLLen c s)" "consumes c s (HandleLPop c s)" "consumes c s (HandleBLPop c s)"
  by (auto simp: HandleRPush_def HandleLPush_def HandleLRange_def HandleLLen_def HandleLPop_def
      HandleBLPop_def rpush_def lpush_def lpop_run_def blpop_def consume_simps
      dest!: read_field_size read_elems_size split: prod.splits option.splits list.splits)

lemma AddToSortedSet_rd: "rd_of e (final (fst (AddToSortedSet k m x s))) = rd_of e s"
  by (simp add: AddToSortedSet_def Let_def split: option.splits prod.splits)

lemma AddToSortedSet_rd_cases:
  "AddToSortedSet k m x s = (r, n) \<Longrightarrow> rd_of e (final r) = rd_of e s"
  by (metis AddToSortedSet_rd fst_conv)

lemma with_rlock_rd:
  assumes "\<And>z1. rd_size (rd_of c (final (f z1 (put_zset k z1 s)))) \<le> n" "rd_size (rd_of c s) \<le> n"
  shows "rd_size (rd_of c (final (with_rlock k z f s))) \<le> n"
  using assms by (auto simp: with_rlock_def split: option.splits)

lemma consumes_zsets [consumes_intros]:
  "consumes c s (HandleZRank c s)" "consumes c s (HandleZRange c s)"
  "consumes c s (HandleZCard c s)" "consumes c s (HandleZScore c s)" "consumes c s (HandleZRem c s)"
  by (auto simp: HandleZRank_def HandleZRange_def HandleZCard_def HandleZScore_def HandleZRem_def
      zrange_def with_rlock_def consume_simps dest!: read_field_size split: prod.splits option.splits)

lemma consumes_zadd [consumes_intros]: "consumes c s (HandleZadd c s)"
  by (auto simp: HandleZadd_def consume_simps dest!: read_field_size AddToSortedSet_rd_cases[of _ _ _ _ _ _ c]
      split: prod.splits outcome.splits)

lemma consumes_geo [consumes_intros]:
  "consumes c s (HandleGeoAdd c s)" "consumes c s (HandleGeoPos c s)" "consumes c s (HandleGeoDist M c s)"
  by (auto simp: HandleGeoAdd_def HandleGeoPos_def HandleGeoDist_def with_rlock_def consume_simps
      dest!: read_field_size read_elems_size AddToSortedSet_rd_cases[of _ _ _ _ _ _ c]
      split: prod.splits option.splits outcome.splits)

definition skip_word_field :: "rd \<Rightarrow> string \<times> rerr option \<times> rd" where
  "skip_word_field r = read_field (skip_line (skip_line r))"

lemma skip_word_field_size: "skip_word_field r = (l, e, r') \<Longrightarrow> rd_size r' \<le> rd_size r"
  unfolding skip_word_field_def by (metis read_field_size skip_line_size le_trans)

lemma consumes_geosearch [consumes_intros]: "consumes c s (HandleGeoSearch M f c s)"
  unfolding HandleGeoSearch_def skip_word_field_def[symmetric]
  by (auto simp: with_rlock_def consume_simps dest!: read_field_size skip_word_field_size
      split: prod.splits option.splits)

lemma consumes_replication [consumes_intros]:
  "consumes c s (HandleReplConf c s)" "consumes c s (HandleWait c s)"
  by (auto simp: HandleReplConf_def HandleWait_def wait_turn_def consume_simps
      dest!: read_field_size split: prod.splits option.splits info_val.splits)

lemma consumes_psync [consumes_intros]: "consumes c s (HandlePsyncMaster c s)"
  by (auto simp: HandlePsyncMaster_def consume_simps conn_write_rd
      intro: skip_line_size_le split: prod.splits option.splits info_val.splits)

lemma consumes_dispatch: "consumes c s (dispatch P w c s)"
  unfolding dispatch_def by (simp add: consumes_intros) (simp add: consumes_def)

section \<open>serveCommands\<close>

text \<open>
  The start of a session: a connection is logged in as the default user when that user has no
  password; without a user \<open>default\<close> the type assertion panics.
\<close>

definition start_session :: "nat \<Rightarrow> server \<Rightarrow> server outcome" where
  "start_session c s =
     (case UserRegistry s ''default'' of
        None \<Rightarrow> Panic s
      | Some defUser \<Rightarrow>
          Done (set_act c Serving (set_auth c (if Passwords defUser = [] then ''default'' else []) s)))"

text \<open>
  One turn of the loop, and whether it goes on: at the end of the input it returns, after
  another read error it continues.
\<close>

definition serve_step :: "platform \<Rightarrow> nat \<Rightarrow> server \<Rightarrow> bool \<times> server outcome" where
  "serve_step P c s =
     (let (line, err, r) = ReadString (rd_of c s); s1 = set_rd c r s
      in case err of
           Some EOF \<Rightarrow> (False, Done s1)
         | Some IOErr \<Rightarrow> (True, Done s1)
         | None \<Rightarrow> (True, dispatch P (ToUpper (TrimSpace line)) c s1))"

text \<open>
  The loop on the input the connection has: it stops at the end of the input, and when a handler
  waits (\<open>BLPOP\<close>, \<open>WAIT\<close>, a lock) or panics.
\<close>

lemma serve_step_progress:
  assumes "serve_step P c s = (True, Done t)"
  shows "rd_size (rd_of c t) < rd_size (rd_of c s)"
proof -
  obtain line err r where l: "ReadString (rd_of c s) = (line, err, r)" by (metis prod_cases3)
  show ?thesis
  proof (cases err)
    case None
    with assms l have "dispatch P (ToUpper (TrimSpace line)) c (set_rd c r s) = Done t"
      by (simp add: serve_step_def)
    with consumes_dispatch[of c "set_rd c r s" P] have "rd_size (rd_of c t) \<le> rd_size r"
      by (metis consumes_def final.simps(1) rd_of_set_rd)
    with ReadString_size(2)[OF l] None show ?thesis by simp
  next
    case (Some e)
    with assms l have "e = IOErr" "t = set_rd c r s"
      by (auto simp: serve_step_def Let_def split: rerr.splits)
    with ReadString_size(2)[OF l] Some show ?thesis by simp
  qed
qed

function serve_loop :: "platform \<Rightarrow> nat \<Rightarrow> server \<Rightarrow> server outcome" where
  "serve_loop P c s =
     (if act (conns s c) \<noteq> Serving then Done s
      else case serve_step P c s of
             (True, Done s1) \<Rightarrow> serve_loop P c s1
           | (_, r) \<Rightarrow> r)"
  by pat_completeness auto
termination
  by (relation "measure (\<lambda>(P, c, s). rd_size (rd_of c s))")
     (auto dest!: sym[of "(_, _)"] serve_step_progress)

declare serve_loop.simps [simp del]

definition serveCommands :: "platform \<Rightarrow> nat \<Rightarrow> server \<Rightarrow> server outcome" where
  "serveCommands P c s = and_then (start_session c s) (serve_loop P c)"

text \<open>\<open>handleConnection\<close>: a new connection with the input it will have, its session and its loop.\<close>

definition accept_conn :: "nat \<Rightarrow> rd \<Rightarrow> sink \<Rightarrow> server \<Rightarrow> server" where
  "accept_conn c r k s =
     s\<lparr>conns := (conns s)(c := \<lparr>crd = r, cout = k, authUser = [], silent = False, act = Serving\<rparr>)\<rparr>"

definition handleConnection :: "platform \<Rightarrow> nat \<Rightarrow> rd \<Rightarrow> sink \<Rightarrow> server \<Rightarrow> server outcome" where
  "handleConnection P c r k s = serveCommands P c (accept_conn c r k s)"

end
