(* ===== verification/Requests.thy ===== *)
theory Requests
  imports Dispatch
begin

text \<open>
  How the serve loop reads a client's requests, arrays of bulk strings: the header and the length
  of the command's name are lines that name no command and are skipped, the name is dispatched,
  and the handler finds its arguments. The lemmas hold for every split of the stream into chunks.
\<close>

section \<open>Lines that name no command\<close>

lemma ToUpper_marker:
  "m = CHR ''*'' \<or> m = CHR ''$'' \<Longrightarrow> ToUpper (m # s) = m # ToUpper s"
  by (cases s) (auto simp: upper_char_def)

lemma dispatch_marker:
  "m = CHR ''*'' \<or> m = CHR ''$'' \<Longrightarrow> dispatch P (m # w) c s = Done s"
  by (erule disjE) (simp_all add: dispatch_def)

lemma marker_line_arg: "m = CHR ''*'' \<or> m = CHR ''$'' \<Longrightarrow> arg_ok (m # itoa n)"
proof (rule arg_ok_graphic)
  assume "m = CHR ''*'' \<or> m = CHR ''$''"
  then have "graphic m" by (auto simp: graphic_def)
  then show "\<forall>c \<in> set (m # itoa n). graphic c" by (auto intro: itoa_graphic)
qed

lemma dispatch_marker_line:
  assumes "m = CHR ''*'' \<or> m = CHR ''$''"
  shows "dispatch P (ToUpper (TrimSpace (m # itoa n @ crlf))) c s = Done s"
proof -
  have "TrimSpace (m # itoa n @ crlf) = m # itoa n"
    using arg_ok_trim[OF marker_line_arg[OF assms]] by simp
  then show ?thesis using assms by (simp only: ToUpper_marker dispatch_marker)
qed

section \<open>Input that has all arrived\<close>

lemma ReadString_rsrc: "rsrc r = [] \<Longrightarrow> ReadString r = (l, e, r') \<Longrightarrow> rsrc r' = []"
  by (auto simp: ReadString_def split: option.splits prod.splits)

lemma read_field_rsrc:
  assumes "rsrc r = []" "read_field r = (l, e, r')"
  shows "rsrc r' = []"
proof -
  obtain l1 e1 where "ReadString r = (l1, e1, skip_line r)" by (metis prod.collapse skip_line_def)
  with assms show ?thesis unfolding read_field_def using ReadString_rsrc by blast
qed

text \<open>The next bytes, \<open>u\<close>, end where the chunk ends; the chunks \<open>ds\<close> come after.\<close>

definition in_chunk :: "rd \<Rightarrow> string \<Rightarrow> inev list \<Rightarrow> bool" where
  "in_chunk r u ds \<longleftrightarrow> rbuf r = u \<and> rsrc r = ds \<or> rbuf r = [] \<and> rsrc r = Chunk u # ds"

lemma ReadString_in_chunk:
  "in_chunk r (l @ LF # u) ds \<Longrightarrow> LF \<notin> set l \<Longrightarrow> ReadString r = (l @ [LF], None, \<lparr>rbuf = u, rsrc = ds\<rparr>)"
  by (auto simp: in_chunk_def ReadString_def split_line_append)

lemma read_field_in_chunk:
  assumes "in_chunk r (bulk a @ u) ds" "arg_ok a"
  shows "read_field r = (a @ crlf, None, \<lparr>rbuf = u, rsrc = ds\<rparr>)"
proof -
  have "in_chunk r ((''$'' @ itoa (int (length a)) @ [CR]) @ LF # (a @ [CR]) @ LF # u) ds"
    using assms(1) by (simp add: bulk_lines)
  from ReadString_in_chunk[OF this] have "skip_line r = \<lparr>rbuf = (a @ [CR]) @ LF # u, rsrc = ds\<rparr>"
    by (simp add: skip_line_def)
  moreover have "ReadString \<lparr>rbuf = (a @ [CR]) @ LF # u, rsrc = ds\<rparr> = ((a @ [CR]) @ [LF], None, \<lparr>rbuf = u, rsrc = ds\<rparr>)"
    using assms(2) by (intro ReadString_in_chunk) (auto simp: in_chunk_def arg_ok_def)
  ultimately show ?thesis by (simp add: read_field_def crlf_def)
qed

lemma stream_rbuf: "rsrc r = [] \<Longrightarrow> stream r = rbuf r"
  by (simp add: stream_def)

section \<open>One turn of the loop\<close>

lemma serve_loop_unfold:
  "act (conns s c) = Serving \<Longrightarrow>
   serve_loop P c s = (case serve_step P c s of (True, Done s1) \<Rightarrow> serve_loop P c s1 | (_, r) \<Rightarrow> r)"
  by (simp add: serve_loop.simps[of P c s])

lemma serve_loop_parked: "act (conns s c) \<noteq> Serving \<Longrightarrow> serve_loop P c s = Done s"
  by (simp add: serve_loop.simps[of P c s])

lemma serve_loop_line:
  assumes "act (conns s c) = Serving" "input_ok c s" "stream_of c s = l @ LF # t" "LF \<notin> set l"
  obtains r where "stream r = t" "no_errors r" "rsrc (rd_of c s) = [] \<longrightarrow> rsrc r = []"
    "\<forall>u ds. in_chunk (rd_of c s) (l @ LF # u) ds \<longrightarrow> r = \<lparr>rbuf = u, rsrc = ds\<rparr>"
    "serve_loop P c s
      = and_then (dispatch P (ToUpper (TrimSpace (l @ [LF]))) c (set_rd c r s)) (serve_loop P c)"
proof -
  obtain r where r: "ReadString (rd_of c s) = (l @ [LF], None, r)" "stream r = t" "no_errors r"
    using ReadString_line[of "rd_of c s" l t] assms by (auto simp: stream_of_def input_ok_def)
  let ?d = "dispatch P (ToUpper (TrimSpace (l @ [LF]))) c (set_rd c r s)"
  have "serve_step P c s = (True, ?d)" using r by (simp add: serve_step_def)
  then have "serve_loop P c s = and_then ?d (serve_loop P c)"
    using assms(1) by (cases ?d) (simp_all add: serve_loop_unfold)
  moreover have "\<forall>u ds. in_chunk (rd_of c s) (l @ LF # u) ds \<longrightarrow> r = \<lparr>rbuf = u, rsrc = ds\<rparr>"
    using ReadString_in_chunk assms(4) r(1) by auto
  ultimately show ?thesis using that r ReadString_rsrc[OF _ r(1)] by blast
qed

lemma serve_loop_eof:
  assumes "act (conns s c) = Serving" "input_ok c s" "stream_of c s = []"
  shows "serve_loop P c s = Done (set_rd c \<lparr>rbuf = [], rsrc = []\<rparr> s)"
  using assms ReadString_eof[of "rd_of c s"]
  by (simp add: serve_loop_unfold serve_step_def stream_of_def input_ok_def Let_def)

section \<open>One request\<close>

text \<open>
  A connection is at a request when the stream starts with it, or with what is left of it once
  the header and the length line have been read: the option test of \<open>HandleSet\<close> may have read
  them.
\<close>

definition at_request :: "nat \<Rightarrow> server \<Rightarrow> string list \<Rightarrow> string \<Rightarrow> bool" where
  "at_request c s args rest \<longleftrightarrow> input_ok c s \<and> args \<noteq> [] \<and>
     (stream_of c s = resp_array args @ rest \<or> stream_of c s = hd args @ crlf @ bulks (tl args) @ rest)"

lemma serve_loop_marker:
  assumes "act (conns s c) = Serving" "input_ok c s" "stream_of c s = m # itoa n @ crlf @ t"
    "m = CHR ''*'' \<or> m = CHR ''$''"
  obtains r where "stream r = t" "no_errors r" "rsrc (rd_of c s) = [] \<longrightarrow> rsrc r = []"
    "\<forall>u ds. in_chunk (rd_of c s) (m # itoa n @ crlf @ u) ds \<longrightarrow> r = \<lparr>rbuf = u, rsrc = ds\<rparr>"
    "serve_loop P c s = serve_loop P c (set_rd c r s)"
proof -
  have "stream_of c s = (m # itoa n @ [CR]) @ LF # t" "LF \<notin> set (m # itoa n @ [CR])"
    using assms(3,4) itoa_no_LF[of n] by (auto simp: crlf_def)
  then obtain r where "stream r = t" "no_errors r" "rsrc (rd_of c s) = [] \<longrightarrow> rsrc r = []"
    "\<forall>u ds. in_chunk (rd_of c s) ((m # itoa n @ [CR]) @ LF # u) ds \<longrightarrow> r = \<lparr>rbuf = u, rsrc = ds\<rparr>"
    "serve_loop P c s
      = and_then (dispatch P (ToUpper (TrimSpace ((m # itoa n @ [CR]) @ [LF]))) c (set_rd c r s)) (serve_loop P c)"
    using serve_loop_line assms(1,2) by blast
  moreover have "(m # itoa n @ [CR]) @ [LF] = m # itoa n @ crlf" by (simp add: crlf_def)
  ultimately show ?thesis
    using that[of r] dispatch_marker_line[OF assms(4)] by (simp add: crlf_def)
qed

lemma serve_request:
  assumes "act (conns s c) = Serving" "at_request c s (cmd # args) rest" "arg_ok cmd"
  obtains r where "stream r = bulks args @ rest" "no_errors r" "rsrc (rd_of c s) = [] \<longrightarrow> rsrc r = []"
    "\<forall>u ds. in_chunk (rd_of c s) (array_header (int (length (cmd # args))) @ bulk cmd @ u) ds
      \<longrightarrow> stream_of c s = resp_array (cmd # args) @ rest \<longrightarrow> r = \<lparr>rbuf = u, rsrc = ds\<rparr>"
    "serve_loop P c s = and_then (dispatch P (ToUpper cmd) c (set_rd c r s)) (serve_loop P c)"
proof -
  note result = that
  have word: thesis
    if a: "act (conns t c) = Serving" "input_ok c t" "stream_of c t = cmd @ crlf @ bulks args @ rest"
      "serve_loop P c s = serve_loop P c t" "\<And>r. set_rd c r t = set_rd c r s"
      "rsrc (rd_of c s) = [] \<longrightarrow> rsrc (rd_of c t) = []"
      "\<forall>u ds. in_chunk (rd_of c s) (array_header (int (length (cmd # args))) @ bulk cmd @ u) ds
        \<longrightarrow> stream_of c s = resp_array (cmd # args) @ rest \<longrightarrow> in_chunk (rd_of c t) (cmd @ crlf @ u) ds" for t
  proof -
    have "stream_of c t = (cmd @ [CR]) @ LF # bulks args @ rest" "LF \<notin> set (cmd @ [CR])"
      using a(3) assms(3) by (auto simp: crlf_def arg_ok_def)
    then obtain r where "stream r = bulks args @ rest" "no_errors r" "rsrc (rd_of c t) = [] \<longrightarrow> rsrc r = []"
      "\<forall>u ds. in_chunk (rd_of c t) ((cmd @ [CR]) @ LF # u) ds \<longrightarrow> r = \<lparr>rbuf = u, rsrc = ds\<rparr>"
      "serve_loop P c t
        = and_then (dispatch P (ToUpper (TrimSpace ((cmd @ [CR]) @ [LF]))) c (set_rd c r t)) (serve_loop P c)"
      using serve_loop_line a(1,2) by blast
    moreover have "TrimSpace ((cmd @ [CR]) @ [LF]) = cmd"
      using arg_ok_trim[OF assms(3)] by (simp add: crlf_def)
    ultimately show thesis using result[of r] a(4,5,6,7) by (simp add: crlf_def)
  qed
  from assms(2) consider
    (full) "stream_of c s = resp_array (cmd # args) @ rest"
    | (named) "stream_of c s = cmd @ crlf @ bulks args @ rest"
    by (auto simp: at_request_def)
  then show thesis
  proof cases
    case named
    have "length (resp_array (cmd # args)) \<noteq> length (cmd @ crlf @ bulks args)"
      by (simp add: resp_array_def array_header_def bulk_def)
    with named have "stream_of c s \<noteq> resp_array (cmd # args) @ rest" by (metis append_assoc append_same_eq)
    with named assms word[of s] show thesis by (simp add: at_request_def)
  next
    case full
    then have "stream_of c s = CHR ''*'' # itoa (int (length (cmd # args))) @ crlf @ bulks (cmd # args) @ rest"
      by (simp add: resp_array_def array_header_def)
    then obtain r1 where r1: "stream r1 = bulks (cmd # args) @ rest" "no_errors r1"
      "rsrc (rd_of c s) = [] \<longrightarrow> rsrc r1 = []"
      "\<forall>u ds. in_chunk (rd_of c s) (CHR ''*'' # itoa (int (length (cmd # args))) @ crlf @ u) ds \<longrightarrow> r1 = \<lparr>rbuf = u, rsrc = ds\<rparr>"
      "serve_loop P c s = serve_loop P c (set_rd c r1 s)"
      using serve_loop_marker assms(1,2) unfolding at_request_def by blast
    have st: "stream_of c (set_rd c r1 s)
        = CHR ''$'' # itoa (int (length cmd)) @ crlf @ (cmd @ crlf @ bulks args @ rest)"
      using r1 by (simp add: bulk_def)
    have "act (conns (set_rd c r1 s) c) = Serving" "input_ok c (set_rd c r1 s)"
      using assms(1) r1(2) by simp_all
    from serve_loop_marker[OF this st] obtain r2 where r2: "stream r2 = cmd @ crlf @ bulks args @ rest" "no_errors r2"
      "rsrc r1 = [] \<longrightarrow> rsrc r2 = []"
      "\<forall>u ds. in_chunk r1 (CHR ''$'' # itoa (int (length cmd)) @ crlf @ u) ds \<longrightarrow> r2 = \<lparr>rbuf = u, rsrc = ds\<rparr>"
      "serve_loop P c (set_rd c r1 s) = serve_loop P c (set_rd c r2 (set_rd c r1 s))"
      unfolding rd_of_set_rd by blast
    have chunk: "in_chunk r2 (cmd @ crlf @ u) ds"
      if "in_chunk (rd_of c s) (array_header (int (length (cmd # args))) @ bulk cmd @ u) ds" for u ds
    proof -
      have "r1 = \<lparr>rbuf = bulk cmd @ u, rsrc = ds\<rparr>"
        using r1(4) that by (simp add: array_header_def)
      then have "r2 = \<lparr>rbuf = cmd @ crlf @ u, rsrc = ds\<rparr>"
        using r2(4) by (simp add: in_chunk_def bulk_def)
      then show ?thesis by (simp add: in_chunk_def)
    qed
    show thesis
    proof (rule word[of "set_rd c r2 s"])
      show "act (conns (set_rd c r2 s) c) = Serving" "input_ok c (set_rd c r2 s)"
        "stream_of c (set_rd c r2 s) = cmd @ crlf @ bulks args @ rest"
        "\<And>r. set_rd c r (set_rd c r2 s) = set_rd c r s"
        using assms(1) r2(1,2) by simp_all
      show "serve_loop P c s = serve_loop P c (set_rd c r2 s)"
        using r1(5) r2(5) by (simp only: set_rd_set_rd)
      show "rsrc (rd_of c s) = [] \<longrightarrow> rsrc (rd_of c (set_rd c r2 s)) = []"
        using r1(3) r2(3) by (simp only: rd_of_set_rd) blast
    qed (use chunk in \<open>simp only: rd_of_set_rd\<close>, blast)
  qed
qed

text \<open>A line that names no command.\<close>

lemma serve_skipped_word:
  assumes "act (conns s c) = Serving" "input_ok c s" "stream_of c s = w @ crlf @ t" "arg_ok w"
    "\<And>s. dispatch P (ToUpper w) c s = Done s"
  obtains r where "stream r = t" "no_errors r" "serve_loop P c s = serve_loop P c (set_rd c r s)"
proof -
  have "stream_of c s = (w @ [CR]) @ LF # t" "LF \<notin> set (w @ [CR])"
    using assms(3,4) by (auto simp: crlf_def arg_ok_def)
  then obtain r where r: "stream r = t" "no_errors r"
    "serve_loop P c s
      = and_then (dispatch P (ToUpper (TrimSpace ((w @ [CR]) @ [LF]))) c (set_rd c r s)) (serve_loop P c)"
    using serve_loop_line assms(1,2) by blast
  have "TrimSpace ((w @ [CR]) @ [LF]) = w" using arg_ok_trim[OF assms(4)] by (simp add: crlf_def)
  with r that assms(5) show thesis by simp
qed

lemma serve_skipped_bulk:
  assumes "act (conns s c) = Serving" "input_ok c s" "stream_of c s = bulk w @ t" "arg_ok w"
    "\<And>s. dispatch P (ToUpper w) c s = Done s"
  obtains r where "stream r = t" "no_errors r" "serve_loop P c s = serve_loop P c (set_rd c r s)"
proof -
  have "stream_of c s = CHR ''$'' # itoa (int (length w)) @ crlf @ (w @ crlf @ t)"
    using assms(3) by (simp add: bulk_def)
  from serve_loop_marker[OF assms(1,2) this] obtain r1 where r1: "stream r1 = w @ crlf @ t" "no_errors r1"
    "serve_loop P c s = serve_loop P c (set_rd c r1 s)"
    by blast
  have "act (conns (set_rd c r1 s) c) = Serving" "input_ok c (set_rd c r1 s)"
    "stream_of c (set_rd c r1 s) = w @ crlf @ t"
    using assms(1) r1(1,2) by simp_all
  from serve_skipped_word[OF this assms(4,5)] obtain r2 where "stream r2 = t" "no_errors r2"
    "serve_loop P c (set_rd c r1 s) = serve_loop P c (set_rd c r2 (set_rd c r1 s))"
    by blast
  with r1(3) that show thesis by simp
qed

lemma dispatch_number: "dispatch P (ToUpper (itoa n)) c s = Done s"
proof -
  obtain d ds where i: "itoa n = d # ds" by (cases "itoa n") auto
  have "itoa n = CHR ''-'' # ds \<or> is_digit d"
    using i nat_digits_hd[of "nat n"] digit_facts by (auto simp: itoa_def split: if_splits)
  then have d: "d < CHR ''A''" "d \<noteq> CHR 0xC4" "d \<noteq> CHR 0xC5" "upper_char d = d"
    using i by (auto simp: is_digit_def upper_char_def dest: le_less_trans[of d "CHR ''9''" "CHR ''A''"]
        order_trans[of "CHR ''a''" d "CHR ''9''"])
  obtain u us where u: "ToUpper (itoa n) = u # us" "u = d"
    using d i by (cases ds) auto
  have "\<forall>x \<in> set ''ABCDEGIKLPRSWZ''. u \<noteq> x"
    using u(2) d(1) by auto
  then have letters: "u \<noteq> CHR ''A''" "u \<noteq> CHR ''B''" "u \<noteq> CHR ''C''" "u \<noteq> CHR ''E''" "u \<noteq> CHR ''G''"
    "u \<noteq> CHR ''I''" "u \<noteq> CHR ''K''" "u \<noteq> CHR ''L''" "u \<noteq> CHR ''P''" "u \<noteq> CHR ''R''" "u \<noteq> CHR ''S''"
    "u \<noteq> CHR ''W''" "u \<noteq> CHR ''Z''"
    by simp_all
  then show ?thesis unfolding u(1) by (simp add: dispatch_def)
qed

section \<open>A server to run requests on\<close>

text \<open>
  The state of a master after \<open>main\<close>, with one connection 0 on which some input will arrive; the
  examples that accompany the properties run on it.
\<close>

definition client_conn :: "string \<Rightarrow> inev list \<Rightarrow> conn" where
  "client_conn u evs =
     \<lparr>crd = \<lparr>rbuf = [], rsrc = evs\<rparr>, cout = \<lparr>written = [], budget = None\<rparr>, authUser = u, silent = False,
      act = Serving\<rparr>"

definition master_with :: "conn \<Rightarrow> server" where
  "master_with cn =
     (empty_server (\<lambda>_. cn) 0)\<lparr>UserRegistry := [''default'' \<mapsto> default_user],
        ServerInfo := [''role'' \<mapsto> IStr ''master'', ''master_replid'' \<mapsto> IStr ''8371b4fb1155b71f4a04d3e1bc3e18c4a990aeeb'',
          ''master_repl_offset'' \<mapsto> IStr ''0'']\<rparr>"

definition plain_platform :: platform where
  "plain_platform =
     \<lparr>math = \<lparr>mSin = \<lambda>x. x, mCos = \<lambda>x. Fin 1, mAsin = \<lambda>x. x, mSqrt = \<lambda>x. x\<rparr>, keys_order = \<lambda>ks. ks,
      members_order = \<lambda>ms. ms\<rparr>"

lemmas example_defs = master_with_def client_conn_def empty_server_def default_user_def

lemma example_server [simp]:
  "role_is ''master'' (master_with cn)" "out 0 (master_with (client_conn u evs)) = []"
  "stream_of 0 (master_with (client_conn u evs)) = concat (map ev_bytes evs)"
  "input_ok 0 (master_with (client_conn u evs)) \<longleftrightarrow> ReadErr \<notin> set evs"
  "mem (master_with cn) = Map.empty" "timers (master_with cn) = []" "clock (master_with cn) = 0"
  "act (client_conn u evs) = Serving" "authUser (client_conn u evs) = u"
  "crd (client_conn u evs) = \<lparr>rbuf = [], rsrc = evs\<rparr>" "silent (client_conn u evs) = False"
  "healthy 0 (master_with (client_conn u evs))" "Replicas (master_with cn) = []"
  "UserRegistry (master_with cn) = [''default'' \<mapsto> default_user]"
  "ListRegistry (master_with cn) = Map.empty" "ZSetRegistry (master_with cn) = Map.empty"
  "conns (master_with cn) e = cn" "AofFile (master_with cn) = None" "chans (master_with cn) = Map.empty"
  by (simp_all add: example_defs input_ok_def no_errors_def healthy_def rd_of_def stream_of_def
      stream_def out_def mem_def)

section \<open>A client at its prompt\<close>

text \<open>A connection in the serve loop whose input and output are intact, logged in or not.\<close>

definition at_prompt :: "nat \<Rightarrow> server \<Rightarrow> bool" where
  "at_prompt c s \<longleftrightarrow> act (conns s c) = Serving \<and> input_ok c s \<and> healthy c s"

lemma example_at_prompt [simp]: "at_prompt 0 (master_with (client_conn u evs)) \<longleftrightarrow> ReadErr \<notin> set evs"
  by (simp add: at_prompt_def)

lemma at_prompt_set_rd [simp]: "at_prompt c s \<Longrightarrow> no_errors r \<Longrightarrow> at_prompt c (set_rd c r s)"
  by (simp add: at_prompt_def)

lemma at_prompt_reply [simp]: "at_prompt c s \<Longrightarrow> at_prompt c (reply c d s)"
  by (simp add: at_prompt_def)

lemma serve_command:
  assumes "at_prompt c s" "stream_of c s = resp_array (cmd # args) @ rest" "arg_ok cmd" "ToUpper cmd = w"
  obtains r where "stream r = bulks args @ rest" "no_errors r"
    "serve_loop P c s = and_then (dispatch P w c (set_rd c r s)) (serve_loop P c)"
proof -
  have "act (conns s c) = Serving" "at_request c s (cmd # args) rest"
    using assms(1,2) by (simp_all add: at_prompt_def at_request_def)
  from serve_request[OF this assms(3), of P] show thesis using that assms(4) by blast
qed

lemma serve_done:
  assumes "at_prompt c s" "stream_of c s = []"
  shows "serve_loop P c s = Done (set_rd c \<lparr>rbuf = [], rsrc = []\<rparr> s)"
  using assms serve_loop_eof unfolding at_prompt_def by blast

section \<open>The end of a request\<close>

lemma set_act_fields [simp]:
  "ListRegistry (set_act d a s) = ListRegistry s" "ZSetRegistry (set_act d a s) = ZSetRegistry s"
  "chans (set_act d a s) = chans s" "next_chan (set_act d a s) = next_chan s" "clock (set_act d a s) = clock s"
  "out e (set_act d a s) = out e s" "healthy e (set_act d a s) = healthy e s"
  "act (conns (set_act d a s) d) = a"
  "e \<noteq> d \<Longrightarrow> act (conns (set_act d a s) e) = act (conns s e)"
  "authUser (conns (set_act d a s) e) = authUser (conns s e)"
  by (simp_all add: set_act_def out_def healthy_def)

lemma reply_set_rd: "reply c d (set_rd c r s) = set_rd c r (reply c d s)"
  by (cases "conns s c") (simp add: reply_def conn_write_def raw_write_def set_rd_def split: prod.splits)

lemma serve_done_reply:
  assumes "at_prompt c s" "stream r = []" "no_errors r"
  shows "serve_loop P c (reply c d (set_rd c r s)) = Done (set_rd c \<lparr>rbuf = [], rsrc = []\<rparr> (reply c d s))"
proof -
  have "at_prompt c (reply c d (set_rd c r s))" "stream_of c (reply c d (set_rd c r s)) = []"
    using assms by simp_all
  from serve_done[OF this] show ?thesis by (simp add: reply_set_rd)
qed

section \<open>Arguments of a handler\<close>

lemma read_two_fields:
  assumes "no_errors r" "stream r = bulks [a, b] @ t" "arg_ok a" "arg_ok b"
  obtains r1 r2 where "read_field r = (a @ crlf, None, r1)" "read_field r1 = (b @ crlf, None, r2)"
    "stream r2 = t" "no_errors r2"
proof -
  have "stream r = bulk a @ (bulk b @ t)" using assms(2) by simp
  from read_field_bulk[OF assms(1) this assms(3)] obtain r1 where
    r1: "read_field r = (a @ crlf, None, r1)" "stream r1 = bulk b @ t" "no_errors r1" .
  from read_field_bulk[OF r1(3,2) assms(4)] obtain r2 where
    "read_field r1 = (b @ crlf, None, r2)" "stream r2 = t" "no_errors r2" .
  with that r1(1) show thesis by blast
qed

lemma read_three_fields:
  assumes "no_errors r" "stream r = bulks [a, b, d] @ t" "arg_ok a" "arg_ok b" "arg_ok d"
  obtains r1 r2 r3 where "read_field r = (a @ crlf, None, r1)" "read_field r1 = (b @ crlf, None, r2)"
    "read_field r2 = (d @ crlf, None, r3)" "stream r3 = t" "no_errors r3"
proof -
  have "stream r = bulks [a, b] @ (bulk d @ t)" using assms(2) by simp
  from read_two_fields[OF assms(1) this assms(3,4)] obtain r1 r2 where
    r: "read_field r = (a @ crlf, None, r1)" "read_field r1 = (b @ crlf, None, r2)"
      "stream r2 = bulk d @ t" "no_errors r2" .
  from read_field_bulk[OF r(4,3) assms(5)] obtain r3 where
    "read_field r2 = (d @ crlf, None, r3)" "stream r3 = t" "no_errors r3" .
  with that r(1,2) show thesis by blast
qed

end
