(* ===== verification/Store_Properties.thy ===== *)
theory Store_Properties
  imports Requests
begin

text \<open>
  The string store through the wire: what \<open>SET\<close> and \<open>GET\<close> requests do to the store, the replies
  and the rest of the state, for every split of the requests into chunks, and what expiry does.
\<close>

section \<open>SET\<close>

lemma fold_reply_other:
  "c \<notin> rep_conn ` set rs \<Longrightarrow> out c (fold (\<lambda>r s. reply (rep_conn r) d s) rs s) = out c s"
  by (induction rs arbitrary: s) auto

lemma PropagateCommand_other:
  "c \<notin> rep_conn ` set (Replicas s) \<Longrightarrow> out c (PropagateCommand args s) = out c s"
  by (simp add: PropagateCommand_resp fold_reply_other)

text \<open>What a master does with a key and value before it replies.\<close>

definition master_set :: "string \<Rightarrow> string \<Rightarrow> server \<Rightarrow> server" where
  "master_set key value s =
     AppendToAof [''SET'', key, value] (PropagateCommand [''SET'', key, value] (mem_store key value s))"

lemma set_store_master: "role_is ''master'' s \<Longrightarrow> set_store key value s = Done (master_set key value s)"
  by (simp add: set_store_def advance_repl_offset_def master_set_def)

lemma master_set_fields [simp]:
  "UserRegistry (master_set k v s) = UserRegistry s" "ListRegistry (master_set k v s) = ListRegistry s"
  "EnvVariables (master_set k v s) = EnvVariables s" "ServerInfo (master_set k v s) = ServerInfo s"
  "Replicas (master_set k v s) = Replicas s" "ZSetRegistry (master_set k v s) = ZSetRegistry s"
  "chans (master_set k v s) = chans s" "next_chan (master_set k v s) = next_chan s"
  "clock (master_set k v s) = clock s" "timers (master_set k v s) = timers s"
  "mem (master_set k v s) = (mem s)(k \<mapsto> v)" "rd_of e (master_set k v s) = rd_of e s"
  "authUser (conns (master_set k v s) e) = authUser (conns s e)"
  "act (conns (master_set k v s) e) = act (conns s e)"
  by (simp_all add: master_set_def)

lemma master_set_out:
  "c \<notin> rep_conn ` set (Replicas s) \<Longrightarrow> out c (master_set k v s) = out c s"
  "healthy c s \<Longrightarrow> healthy c (master_set k v s)"
  by (simp_all add: master_set_def PropagateCommand_other PropagateCommand_healthy)

lemma HandleSet_request:
  assumes "authed c s" "role_is ''master'' s" "input_ok c s" "stream_of c s = bulk k @ bulk v @ rest"
    "arg_ok k" "arg_ok v"
  obtains r where "stream r = rest" "no_errors r" "rsrc (rd_of c s) = [] \<longrightarrow> rsrc r = []"
    "HandleSet c s = Done (set_option c k (reply c ok_reply (master_set k v (set_rd c r s))))"
proof -
  obtain r1 where r1: "read_field (rd_of c s) = (k @ crlf, None, r1)" "stream r1 = bulk v @ rest" "no_errors r1"
    using read_field_bulk assms(3,4,5) unfolding input_ok_def stream_of_def by blast
  obtain r2 where r2: "read_field r1 = (v @ crlf, None, r2)" "stream r2 = rest" "no_errors r2"
    using read_field_bulk[OF r1(3,2) assms(6)] by blast
  have "rsrc (rd_of c s) = [] \<longrightarrow> rsrc r2 = []"
    using r1 r2 read_field_rsrc by blast
  moreover have "role_is ''master'' (set_rd c r2 s)" using assms(2) by simp
  ultimately show thesis
    using that[of r2] assms r1 r2 by (simp add: HandleSet_def set_store_master)
qed

text \<open>The option test after the reply: nothing left, the next request, or \<open>PX\<close>.\<close>

lemma set_option_nothing:
  "stream_of c s = [] \<Longrightarrow> set_option c k s = s"
  by (simp add: set_option_def stream_of_def stream_def Buffered_def)

lemma marker_not_PX: "ToUpper (TrimSpace (CHR ''$'' # itoa n @ crlf)) \<noteq> ''PX''"
  using arg_ok_trim[OF marker_line_arg[of "CHR ''$''" n]] by (simp add: ToUpper_marker)

lemma set_option_request:
  assumes "input_ok c s" "stream_of c s = resp_array (a # args) @ rest"
  obtains r where "set_option c k s = set_rd c r s" "at_request c (set_rd c r s) (a # args) rest"
    "rsrc (rd_of c s) = [] \<longrightarrow> rsrc r = []"
proof (cases "Buffered (rd_of c s) = 0")
  case True
  then have "set_option c k s = set_rd c (rd_of c s) s" by (simp add: set_option_def)
  with that[of "rd_of c s"] assms show thesis by (simp add: at_request_def)
next
  case False
  let ?n = "itoa (int (length a))"
  have "stream (rd_of c s)
      = (CHR ''*'' # itoa (int (length (a # args))) @ [CR]) @ LF # (bulk a @ bulks args @ rest)"
    using assms(2) by (simp add: stream_of_def resp_array_def array_header_def crlf_def)
  moreover have "LF \<notin> set (CHR ''*'' # itoa (int (length (a # args))) @ [CR])"
    by simp
  ultimately obtain r1 where r1: "skip_line (rd_of c s) = r1" "stream r1 = bulk a @ bulks args @ rest" "no_errors r1"
    using ReadString_line assms(1) unfolding input_ok_def skip_line_def by (metis snd_conv)
  have "stream r1 = (CHR ''$'' # ?n @ [CR]) @ LF # (a @ crlf @ bulks args @ rest)"
    using r1(2) by (simp add: bulk_def crlf_def)
  moreover have "LF \<notin> set (CHR ''$'' # ?n @ [CR])" by simp
  ultimately obtain r2 where r2: "ReadString r1 = ((CHR ''$'' # ?n @ [CR]) @ [LF], None, r2)"
      "stream r2 = a @ crlf @ bulks args @ rest" "no_errors r2"
    using ReadString_line r1(3) by blast
  have rf: "read_field (rd_of c s) = (CHR ''$'' # ?n @ crlf, None, r2)"
    using r1(1) r2(1) by (simp add: read_field_def crlf_def)
  then have "set_option c k s = set_rd c r2 s"
    using False marker_not_PX[of "int (length a)"] by (simp add: set_option_def)
  with that[of r2] r2 rf read_field_rsrc[OF _ rf] show thesis by (auto simp: at_request_def)
qed

lemma set_option_PX:
  assumes "input_ok c s" "rsrc (rd_of c s) = []" "stream_of c s = bulk px @ bulk (itoa ms) @ rest"
    "arg_ok px" "ToUpper px = ''PX''" "in_i64 ms"
  obtains r where "set_option c k s = expire_after (i64 (ms * 1000000)) k (set_rd c r s)"
    "stream r = rest" "no_errors r" "rsrc r = []"
proof -
  obtain r1 where r1: "read_field (rd_of c s) = (px @ crlf, None, r1)" "stream r1 = bulk (itoa ms) @ rest" "no_errors r1"
    using read_field_bulk assms(1,3,4) unfolding input_ok_def stream_of_def by blast
  obtain r2 where r2: "read_field r1 = (itoa ms @ crlf, None, r2)" "stream r2 = rest" "no_errors r2"
    using read_field_bulk[OF r1(3,2) arg_ok_itoa] by blast
  have "rsrc r1 = []" using read_field_rsrc assms(2) r1(1) by blast
  then have "rsrc r2 = []" using read_field_rsrc r2(1) by blast
  moreover have "0 < Buffered (rd_of c s)"
    using assms(2,3) by (simp add: stream_of_def stream_rbuf Buffered_def)
  moreover have "fst (Atoi (itoa ms)) = ms" using Atoi_itoa assms(6) by simp
  ultimately show thesis
    using that[of r2] assms r1 r2 by (simp add: set_option_def)
qed

section \<open>GET\<close>

lemma HandleGet_request:
  assumes "authed c s" "input_ok c s" "stream_of c s = bulk k @ rest" "arg_ok k"
  obtains r where "stream r = rest" "no_errors r" "rsrc (rd_of c s) = [] \<longrightarrow> rsrc r = []"
    "HandleGet c s = Done (reply c (case mem s k of Some v \<Rightarrow> bulk v | None \<Rightarrow> nil_bulk) (set_rd c r s))"
proof -
  obtain r where r: "read_field (rd_of c s) = (k @ crlf, None, r)" "stream r = rest" "no_errors r"
    using read_field_bulk assms(2,3,4) unfolding input_ok_def stream_of_def by blast
  with that[of r] assms read_field_rsrc[OF _ r(1)] show thesis
    by (auto simp: HandleGet_def split: option.splits)
qed

section \<open>Requests of a logged-in client\<close>

definition ready :: "nat \<Rightarrow> server \<Rightarrow> bool" where
  "ready c s \<longleftrightarrow> act (conns s c) = Serving \<and> input_ok c s \<and> healthy c s \<and> authed c s \<and>
     c \<notin> rep_conn ` set (Replicas s)"

text \<open>Equal apart from the store, the connections, the master's offset and the AOF file.\<close>

definition same_rest :: "server \<Rightarrow> server \<Rightarrow> bool" where
  "same_rest s t \<longleftrightarrow> UserRegistry t = UserRegistry s \<and> ListRegistry t = ListRegistry s \<and>
     EnvVariables t = EnvVariables s \<and> ServerInfo t = ServerInfo s \<and> Replicas t = Replicas s \<and>
     ZSetRegistry t = ZSetRegistry s \<and> chans t = chans s \<and> next_chan t = next_chan s \<and>
     clock t = clock s \<and> timers t = timers s"

lemma same_rest_trans: "same_rest s t \<Longrightarrow> same_rest t u \<Longrightarrow> same_rest s u"
  by (simp add: same_rest_def)

lemma ready_set_rd: "ready c s \<Longrightarrow> no_errors r \<Longrightarrow> ready c (set_rd c r s)"
  by (simp add: ready_def)

lemma serve_set:
  assumes "ready c s" "role_is ''master'' s" "at_request c s (setw # k # v # opts) rest"
    "arg_ok setw" "ToUpper setw = ''SET''" "arg_ok k" "arg_ok v"
  obtains t where "ready c t" "stream_of c t = bulks opts @ rest" "mem t = (mem s)(k \<mapsto> v)"
    "out c t = out c s @ ok_reply" "same_rest s t" "rsrc (rd_of c s) = [] \<longrightarrow> rsrc (rd_of c t) = []"
    "serve_loop P c s = serve_loop P c (set_option c k t)"
proof -
  obtain r where r: "stream r = bulks (k # v # opts) @ rest" "no_errors r" "rsrc (rd_of c s) = [] \<longrightarrow> rsrc r = []"
    "serve_loop P c s = and_then (dispatch P ''SET'' c (set_rd c r s)) (serve_loop P c)"
    using serve_request[OF _ assms(3,4)] assms(1,5) unfolding ready_def by metis
  obtain r2 where r2: "stream r2 = bulks opts @ rest" "no_errors r2" "rsrc r = [] \<longrightarrow> rsrc r2 = []"
    "HandleSet c (set_rd c r s) = Done (set_option c k (reply c ok_reply (master_set k v (set_rd c r2 s))))"
    using HandleSet_request[of "set_rd c r s" c k v "bulks opts @ rest"] r assms
    by (auto simp: ready_def)
  let ?t = "reply c ok_reply (master_set k v (set_rd c r2 s))"
  have "serve_loop P c s = serve_loop P c (set_option c k ?t)"
    using r(4) r2(4) by (simp add: dispatch_words)
  moreover have "ready c ?t" "same_rest s ?t" "stream_of c ?t = bulks opts @ rest" "out c ?t = out c s @ ok_reply"
    using assms(1) r2 by (auto simp: ready_def same_rest_def master_set_out stream_of_def input_ok_def)
  ultimately show thesis using that[of ?t] r(3) r2(3) by simp
qed

lemma serve_get:
  assumes "ready c s" "at_request c s [getw, k] rest" "arg_ok getw" "ToUpper getw = ''GET''" "arg_ok k"
  obtains t where "ready c t" "stream_of c t = rest" "mem t = mem s" "same_rest s t"
    "out c t = out c s @ (case mem s k of Some v \<Rightarrow> bulk v | None \<Rightarrow> nil_bulk)"
    "AofFile t = AofFile s" "MasterOffset t = MasterOffset s"
    "serve_loop P c s = serve_loop P c t"
proof -
  obtain r where r: "stream r = bulks [k] @ rest" "no_errors r"
    "serve_loop P c s = and_then (dispatch P ''GET'' c (set_rd c r s)) (serve_loop P c)"
    using serve_request[OF _ assms(2,3)] assms(1,4) unfolding ready_def by metis
  obtain r2 where r2: "stream r2 = rest" "no_errors r2"
    "HandleGet c (set_rd c r s)
      = Done (reply c (case mem s k of Some v \<Rightarrow> bulk v | None \<Rightarrow> nil_bulk) (set_rd c r2 s))"
    using HandleGet_request[of "set_rd c r s" c k rest] r assms by (auto simp: ready_def)
  let ?t = "reply c (case mem s k of Some v \<Rightarrow> bulk v | None \<Rightarrow> nil_bulk) (set_rd c r2 s)"
  have "serve_loop P c s = serve_loop P c ?t" using r(3) r2(3) by (simp add: dispatch_words)
  moreover have "ready c ?t" "same_rest s ?t" "stream_of c ?t = rest" "AofFile ?t = AofFile s"
      "MasterOffset ?t = MasterOffset s"
    using assms(1) r2 by (auto simp: ready_def same_rest_def stream_of_def input_ok_def)
  moreover have "out c ?t = out c s @ (case mem s k of Some v \<Rightarrow> bulk v | None \<Rightarrow> nil_bulk)"
    using assms(1) by (simp add: ready_def)
  ultimately show thesis using that[of ?t] by simp
qed

lemma serve_end:
  assumes "ready c s" "stream_of c s = []"
  obtains t where "serve_loop P c s = Done t" "mem t = mem s" "out c t = out c s" "same_rest s t"
    "AofFile t = AofFile s" "MasterOffset t = MasterOffset s"
proof -
  let ?t = "set_rd c \<lparr>rbuf = [], rsrc = []\<rparr> s"
  have "serve_loop P c s = Done ?t"
    using assms serve_loop_eof unfolding ready_def by blast
  moreover have "same_rest s ?t" by (simp add: same_rest_def)
  ultimately show thesis using that[of ?t] by simp
qed

lemma at_request_full: "input_ok c s \<Longrightarrow> stream_of c s = resp_array (a # args) @ rest \<Longrightarrow> at_request c s (a # args) rest"
  by (simp add: at_request_def)

lemma expire_after_fields [simp]:
  "mem (expire_after d k s) = mem s" "out c (expire_after d k s) = out c s"
  "ServerInfo (expire_after d k s) = ServerInfo s" "clock (expire_after d k s) = clock s"
  "timers (expire_after d k s) = timers s @ [(clock s + d, k)]"
  by (simp_all add: expire_after_def mem_def out_def)

lemma ready_expire_after [simp]: "ready c (expire_after d k s) = ready c s"
  by (simp add: ready_def expire_after_def input_ok_def healthy_def rd_of_def)

lemma serve_set_px:
  assumes "ready c s" "role_is ''master'' s" "rsrc (rd_of c s) = []"
    "at_request c s [setw, k, v, px, itoa ms] rest"
    "arg_ok setw" "ToUpper setw = ''SET''" "arg_ok k" "arg_ok v" "arg_ok px" "ToUpper px = ''PX''" "in_i64 ms"
  obtains t where "ready c t" "stream_of c t = rest" "mem t = (mem s)(k \<mapsto> v)" "ServerInfo t = ServerInfo s"
    "out c t = out c s @ ok_reply" "clock t = clock s" "rsrc (rd_of c t) = []"
    "timers t = timers s @ [(clock s + i64 (ms * 1000000), k)]" "serve_loop P c s = serve_loop P c t"
proof -
  obtain t1 where t1: "ready c t1" "stream_of c t1 = bulks [px, itoa ms] @ rest" "mem t1 = (mem s)(k \<mapsto> v)"
    "out c t1 = out c s @ ok_reply" "same_rest s t1" "rsrc (rd_of c t1) = []"
    "serve_loop P c s = serve_loop P c (set_option c k t1)"
    using serve_set[OF assms(1,2,4-8)] assms(3) by metis
  obtain r where r: "set_option c k t1 = expire_after (i64 (ms * 1000000)) k (set_rd c r t1)"
    "stream r = rest" "no_errors r" "rsrc r = []"
    using set_option_PX[of c t1 px ms rest k] t1 assms(9-11) by (auto simp: ready_def)
  let ?t = "expire_after (i64 (ms * 1000000)) k (set_rd c r t1)"
  have "ready c ?t" using ready_set_rd[OF t1(1) r(3)] by simp
  moreover have "stream_of c ?t = rest" "rsrc (rd_of c ?t) = []"
    using r by (simp_all add: expire_after_def stream_of_def)
  ultimately show thesis using that[of ?t] t1 r by (simp add: same_rest_def)
qed

text \<open>The first pending goroutine, some time later.\<close>

lemma first_timer:
  "timers t = (clock t + d, k) # ts \<Longrightarrow>
   mem (fire_timer 0 (tick e t)) = (if d \<le> e then (mem t)(k := None) else mem t)"
  by (simp add: fire_timer_def tick_def)

section \<open>The example server\<close>

lemma example_ready [simp]:
  "ready 0 (master_with (client_conn u evs)) \<longleftrightarrow> ReadErr \<notin> set evs \<and> u \<noteq> []"
  by (auto simp: ready_def CheckAuth_def)

lemma command_words [simp]:
  "arg_ok ''SET''" "arg_ok ''GET''" "arg_ok ''PX''" "arg_ok ''fruit''" "arg_ok ''apple''" "arg_ok ''pear''"
  "ToUpper ''SET'' = ''SET''" "ToUpper ''GET'' = ''GET''" "ToUpper ''PX'' = ''PX''"
  by (simp_all add: arg_ok_graphic graphic_def upper_char_def)

section \<open>Properties\<close>

text \<open>
  C6: A logged-in client of a master that sends \<open>SET k v\<close> and \<open>GET q\<close> in one stream, however the
  stream is split into chunks, gets \<open>+OK\<close> and then the value of \<open>q\<close> in the updated store (so \<open>v\<close>
  when \<open>q = k\<close>, the old answer for any other key); the store changes at \<open>k\<close> only, no expiry is
  scheduled, and nothing else but the connections, the offset and the AOF file changes.
\<close>

theorem set_then_get:
  assumes "ready c s" "role_is ''master'' s"
    "stream_of c s = resp_array [setw, k, v] @ resp_array [getw, q]"
    "arg_ok setw" "ToUpper setw = ''SET''" "arg_ok getw" "ToUpper getw = ''GET''"
    "arg_ok k" "arg_ok v" "arg_ok q"
  shows "\<exists>t. serve_loop P c s = Done t \<and> mem t = (mem s)(k \<mapsto> v) \<and> same_rest s t \<and>
    out c t = out c s @ ok_reply @ (case ((mem s)(k \<mapsto> v)) q of Some w \<Rightarrow> bulk w | None \<Rightarrow> nil_bulk)"
proof -
  have "at_request c s [setw, k, v] (resp_array [getw, q])"
    using assms(1,3) by (simp add: at_request_def ready_def)
  then obtain t1 where t1: "ready c t1" "stream_of c t1 = resp_array [getw, q]" "mem t1 = (mem s)(k \<mapsto> v)"
    "out c t1 = out c s @ ok_reply" "same_rest s t1" "serve_loop P c s = serve_loop P c (set_option c k t1)"
    using serve_set[of c s setw k v "[]"] assms by (metis append_Nil bulks_simps(1))
  have "input_ok c t1" "stream_of c t1 = resp_array [getw, q] @ []"
    using t1(1,2) by (simp_all add: ready_def)
  then obtain r where r: "set_option c k t1 = set_rd c r t1" "at_request c (set_rd c r t1) [getw, q] []"
    using set_option_request by metis
  have "ready c (set_rd c r t1)" using t1(1) r(2) by (auto simp: ready_def at_request_def)
  then obtain t2 where t2: "ready c t2" "stream_of c t2 = []" "mem t2 = mem t1" "same_rest t1 t2"
    "out c t2 = out c t1 @ (case mem t1 q of Some w \<Rightarrow> bulk w | None \<Rightarrow> nil_bulk)"
    "serve_loop P c (set_rd c r t1) = serve_loop P c t2"
    using serve_get[OF _ r(2) assms(6,7,10), of P] by (auto simp: same_rest_def)
  obtain t3 where "serve_loop P c t2 = Done t3" "mem t3 = mem t2" "out c t3 = out c t2" "same_rest t2 t3"
    using serve_end[OF t2(1,2)] by metis
  with t1 t2 r(1) show ?thesis by (metis append_assoc same_rest_trans)
qed


lemma set_then_get_example:
  "\<exists>t. serve_loop plain_platform 0
      (master_with (client_conn ''default''
        [Chunk (resp_array [''SET'', ''fruit'', ''apple'']), Chunk (resp_array [''GET'', ''fruit''])])) = Done t \<and>
    mem t ''fruit'' = Some ''apple'' \<and> out 0 t = ok_reply @ bulk ''apple''"
  using set_then_get[of 0 "master_with (client_conn ''default''
        [Chunk (resp_array [''SET'', ''fruit'', ''apple'']), Chunk (resp_array [''GET'', ''fruit''])])"
      "''SET''" "''fruit''" "''apple''" "''GET''" "''fruit''" plain_platform] by auto

text \<open>
  C7: \<open>SET k v PX ms\<close> that has arrived whole stores the value and schedules the key's deletion
  \<open>ms\<close> milliseconds later (in the 64-bit nanoseconds of a \<open>Duration\<close>): with no other expiry
  pending, the value is there before that time and the key is gone once the goroutine has run
  after it.
\<close>

theorem set_px_expires:
  assumes "ready c s" "role_is ''master'' s" "rsrc (rd_of c s) = []" "timers s = []"
    "stream_of c s = resp_array [setw, k, v, px, itoa ms]"
    "arg_ok setw" "ToUpper setw = ''SET''" "arg_ok k" "arg_ok v" "arg_ok px" "ToUpper px = ''PX''" "in_i64 ms"
  shows "\<exists>t. serve_loop P c s = Done t \<and> out c t = out c s @ ok_reply \<and> mem t = (mem s)(k \<mapsto> v) \<and>
    (\<forall>e. mem (fire_timer 0 (tick e t))
      = (if i64 (ms * 1000000) \<le> e then (mem t)(k := None) else mem t))"
proof -
  have "at_request c s [setw, k, v, px, itoa ms] []"
    using assms(1,5) by (simp add: at_request_def ready_def)
  from serve_set_px[OF assms(1-3) this assms(6-12)] obtain t1 where
    t1: "ready c t1" "stream_of c t1 = []" "mem t1 = (mem s)(k \<mapsto> v)" "out c t1 = out c s @ ok_reply"
      "clock t1 = clock s" "timers t1 = [(clock s + i64 (ms * 1000000), k)]"
      "serve_loop P c s = serve_loop P c t1"
    using assms(4) by (metis append_Nil)
  obtain t2 where t2: "serve_loop P c t1 = Done t2" "mem t2 = mem t1" "out c t2 = out c t1" "same_rest t1 t2"
    using serve_end[OF t1(1,2)] by metis
  have "timers t2 = [(clock t2 + i64 (ms * 1000000), k)]"
    using t1(5,6) t2(4) by (simp add: same_rest_def)
  with first_timer[OF this] t1 t2 show ?thesis by auto
qed

lemma set_px_expires_example:
  "\<exists>t. serve_loop plain_platform 0
      (master_with ((client_conn ''default'' [])
         \<lparr>crd := \<lparr>rbuf = resp_array [''SET'', ''fruit'', ''apple'', ''PX'', itoa 100], rsrc = []\<rparr>\<rparr>)) = Done t \<and>
    mem (fire_timer 0 (tick 99999999 t)) ''fruit'' = Some ''apple'' \<and>
    mem (fire_timer 0 (tick 100000000 t)) ''fruit'' = None"
  (is "\<exists>t. serve_loop _ _ ?s = _ \<and> _")
proof -
  have "ready 0 ?s" "rsrc (rd_of 0 ?s) = []"
    "stream_of 0 ?s = resp_array [''SET'', ''fruit'', ''apple'', ''PX'', itoa 100]"
    by (auto simp: ready_def example_defs input_ok_def no_errors_def healthy_def rd_of_def stream_of_def
      stream_def CheckAuth_def)
  then show ?thesis
    using set_px_expires[of 0 ?s "''SET''" "''fruit''" "''apple''" "''PX''" 100 plain_platform]
    by (auto simp: in_i64_def i64_id)
qed

text \<open>
  C8: An expiry outlives the value it was set for: after \<open>SET k v PX ms\<close> and then a plain
  \<open>SET k w\<close>, both answered \<open>+OK\<close>, the goroutine of the first command deletes the new value, which
  has no expiry of its own.
\<close>

theorem old_expiry_deletes_new_value:
  assumes "ready c s" "role_is ''master'' s" "rsrc (rd_of c s) = []" "timers s = []"
    "stream_of c s = resp_array [setw, k, v, px, itoa ms] @ resp_array [setw, k, w]"
    "arg_ok setw" "ToUpper setw = ''SET''" "arg_ok k" "arg_ok v" "arg_ok w" "arg_ok px" "ToUpper px = ''PX''"
    "in_i64 ms" "i64 (ms * 1000000) \<le> e"
  shows "\<exists>t. serve_loop P c s = Done t \<and> out c t = out c s @ ok_reply @ ok_reply \<and>
    mem t k = Some w \<and> mem (fire_timer 0 (tick e t)) k = None"
proof -
  have "at_request c s [setw, k, v, px, itoa ms] (resp_array [setw, k, w])"
    using assms(1,5) by (simp add: at_request_def ready_def)
  from serve_set_px[OF assms(1-3) this assms(6-9,11-13)] obtain t1 where
    t1: "ready c t1" "stream_of c t1 = resp_array [setw, k, w]" "mem t1 = (mem s)(k \<mapsto> v)"
      "out c t1 = out c s @ ok_reply" "ServerInfo t1 = ServerInfo s"
      "clock t1 = clock s" "timers t1 = [(clock s + i64 (ms * 1000000), k)]"
      "serve_loop P c s = serve_loop P c t1"
    using assms(4) by (metis append_Nil)
  have "at_request c t1 (setw # k # w # []) []"
    using t1(1,2) by (simp add: at_request_def ready_def)
  moreover have "role_is ''master'' t1" using t1(5) assms(2) by simp
  ultimately obtain t2 where t2: "ready c t2" "stream_of c t2 = []" "mem t2 = (mem t1)(k \<mapsto> w)"
    "out c t2 = out c t1 @ ok_reply" "same_rest t1 t2" "serve_loop P c t1 = serve_loop P c (set_option c k t2)"
    using serve_set[OF t1(1)] assms(6-8,10) by (metis append_Nil bulks_simps(1))
  obtain t3 where t3: "serve_loop P c t2 = Done t3" "mem t3 = mem t2" "out c t3 = out c t2" "same_rest t2 t3"
    using serve_end[OF t2(1,2)] by metis
  have "timers t3 = [(clock t3 + i64 (ms * 1000000), k)]"
    using t1(6,7) t2(5) t3(4) by (simp add: same_rest_def)
  with first_timer[OF this] t1 t2 t3 assms(14) show ?thesis
    by (auto simp: set_option_nothing)
qed

lemma old_expiry_deletes_new_value_example:
  "\<exists>t. serve_loop plain_platform 0
      (master_with ((client_conn ''default'' [])
         \<lparr>crd := \<lparr>rbuf = resp_array [''SET'', ''fruit'', ''apple'', ''PX'', itoa 100]
                       @ resp_array [''SET'', ''fruit'', ''pear''], rsrc = []\<rparr>\<rparr>)) = Done t \<and>
    mem t ''fruit'' = Some ''pear'' \<and> mem (fire_timer 0 (tick 100000000 t)) ''fruit'' = None"
  (is "\<exists>t. serve_loop _ _ ?s = _ \<and> _")
proof -
  have "ready 0 ?s" "rsrc (rd_of 0 ?s) = []"
    "stream_of 0 ?s = resp_array [''SET'', ''fruit'', ''apple'', ''PX'', itoa 100]
       @ resp_array [''SET'', ''fruit'', ''pear'']"
    by (auto simp: ready_def example_defs input_ok_def no_errors_def healthy_def rd_of_def stream_of_def
      stream_def CheckAuth_def)
  then show ?thesis
    using old_expiry_deletes_new_value[of 0 ?s "''SET''" "''fruit''" "''apple''" "''PX''" 100 "''pear''" 100000000
        plain_platform]
    by (auto simp: in_i64_def i64_id)
qed

text \<open>
  C9: Whether \<open>PX\<close> is seen depends on how the request is split: when it arrives in two chunks that
  meet after the value, it is answered \<open>+OK\<close> and the value is stored, as when it arrives whole, but no
  expiry is scheduled: the option's two words are read as unknown commands.
\<close>

theorem px_lost_when_split:
  assumes "ready c s" "role_is ''master'' s"
    "rd_of c s = \<lparr>rbuf = array_header 5 @ bulks [setw, k, v], rsrc = [Chunk (bulks [px, itoa ms])]\<rparr>"
    "arg_ok setw" "ToUpper setw = ''SET''" "arg_ok k" "arg_ok v" "arg_ok px" "ToUpper px = ''PX''"
  shows "\<exists>t. serve_loop P c s = Done t \<and> out c t = out c s @ ok_reply \<and> mem t = (mem s)(k \<mapsto> v) \<and>
    timers t = timers s"
proof -
  have st: "stream_of c s = resp_array [setw, k, v, px, itoa ms] @ []"
    using assms(3) by (simp add: stream_of_def stream_def resp_array_def)
  have "at_request c s (setw # [k, v, px, itoa ms]) []"
    using assms(1) st by (simp add: at_request_def ready_def)
  then obtain r where r: "r = \<lparr>rbuf = bulks [k, v], rsrc = [Chunk (bulks [px, itoa ms])]\<rparr>"
    "serve_loop P c s = and_then (dispatch P ''SET'' c (set_rd c r s)) (serve_loop P c)"
    using serve_request[of s c setw "[k, v, px, itoa ms]" "[]" P] st assms(1,3-5)
    by (auto simp: ready_def in_chunk_def)
  define r2 where "r2 = \<lparr>rbuf = [], rsrc = [Chunk (bulks [px, itoa ms])]\<rparr>"
  have "read_field r = (k @ crlf, None, \<lparr>rbuf = bulk v, rsrc = [Chunk (bulks [px, itoa ms])]\<rparr>)"
    by (rule read_field_in_chunk) (simp_all add: r in_chunk_def assms(6))
  moreover have "read_field \<lparr>rbuf = bulk v, rsrc = [Chunk (bulks [px, itoa ms])]\<rparr> = (v @ crlf, None, r2)"
    unfolding r2_def by (rule read_field_in_chunk) (simp_all add: in_chunk_def assms(7))
  moreover have "role_is ''master'' (set_rd c r2 s)" "authed c s" using assms(1,2) by (simp_all add: ready_def)
  moreover define t where "t = reply c ok_reply (master_set k v (set_rd c r2 s))"
  ultimately have "dispatch P ''SET'' c (set_rd c r s) = Done (set_option c k t)"
    using assms(6,7) by (simp add: dispatch_words HandleSet_def set_store_master)
  moreover have "set_option c k t = t" by (simp add: t_def set_option_def r2_def Buffered_def)
  ultimately have loop: "serve_loop P c s = serve_loop P c t" using r(2) by simp
  have t: "ready c t" "out c t = out c s @ ok_reply" "same_rest s t" "mem t = (mem s)(k \<mapsto> v)"
    "stream_of c t = bulk px @ bulk (itoa ms)"
    using assms(1) by (auto simp: t_def r2_def ready_def same_rest_def master_set_out stream_of_def stream_def
        input_ok_def no_errors_def)
  have "act (conns t c) = Serving" "input_ok c t" using t(1) by (simp_all add: ready_def)
  moreover have "\<And>s. dispatch P (ToUpper px) c s = Done s"
    by (simp add: assms(9) dispatch_def)
  ultimately obtain r4 where r4: "stream r4 = bulk (itoa ms)" "no_errors r4"
    "serve_loop P c t = serve_loop P c (set_rd c r4 t)"
    using serve_skipped_bulk[OF _ _ t(5) assms(8), of P] by blast
  have "act (conns (set_rd c r4 t) c) = Serving" "input_ok c (set_rd c r4 t)"
    "stream_of c (set_rd c r4 t) = bulk (itoa ms) @ []"
    using t(1) r4(1,2) by (simp_all add: ready_def)
  from serve_skipped_bulk[OF this arg_ok_itoa dispatch_number] obtain r6 where r6: "stream r6 = []" "no_errors r6"
    "serve_loop P c (set_rd c r4 t) = serve_loop P c (set_rd c r6 t)"
    by (metis set_rd_set_rd)
  have "ready c (set_rd c r6 t)" "stream_of c (set_rd c r6 t) = []"
    using ready_set_rd[OF t(1) r6(2)] r6(1) by simp_all
  then obtain u where "serve_loop P c (set_rd c r6 t) = Done u" "mem u = mem t" "out c u = out c t"
    "same_rest (set_rd c r6 t) u"
    using serve_end by (metis set_rd_fields(14,15))
  with loop r4(3) r6(3) t show ?thesis by (auto simp: same_rest_def)
qed

lemma px_lost_when_split_example:
  "\<exists>t. serve_loop plain_platform 0
      (master_with ((client_conn ''default'' [])
         \<lparr>crd := \<lparr>rbuf = array_header 5 @ bulks [''SET'', ''fruit'', ''apple''],
                  rsrc = [Chunk (bulks [''PX'', itoa 100])]\<rparr>\<rparr>)) = Done t \<and>
    mem t ''fruit'' = Some ''apple'' \<and> timers t = []"
  (is "\<exists>t. serve_loop _ _ ?s = _ \<and> _")
proof -
  have "ready 0 ?s"
    "rd_of 0 ?s = \<lparr>rbuf = array_header 5 @ bulks [''SET'', ''fruit'', ''apple''], rsrc = [Chunk (bulks [''PX'', itoa 100])]\<rparr>"
    by (auto simp: ready_def example_defs input_ok_def no_errors_def healthy_def rd_of_def CheckAuth_def)
  then show ?thesis
    using px_lost_when_split[of 0 ?s "''SET''" "''fruit''" "''apple''" "''PX''" 100 plain_platform] by auto
qed

end
