(* ===== verification/Auth_Properties.thy ===== *)
theory Auth_Properties
  imports Store_Properties
begin

text \<open>
  Authentication: which commands it guards, what \<open>AUTH\<close> accepts, how \<open>ACL SETUSER\<close> and \<open>AUTH\<close> fit
  together, and where the guard or the user lookup fails.
\<close>

section \<open>The guarded commands\<close>

definition guarded :: "string list" where
  "guarded = [''PING'', ''ECHO'', ''SET'', ''GET'', ''ACL'', ''RPUSH'', ''LRANGE'', ''LPUSH'', ''LLEN'', ''LPOP'',
     ''BLPOP'', ''CONFIG'', ''KEYS'', ''INFO'']"

lemmas guarded_handlers = HandlePing_def HandleEcho_def HandleSet_def HandleGet_def HandleACL_def HandleRPush_def
  HandleLRange_def HandleLPush_def HandleLLen_def HandleLPop_def HandleBLPop_def HandleConfigGet_def
  HandleKeys_def HandleInfo_def

lemma dispatch_guarded: "w \<in> set guarded \<Longrightarrow> \<not> authed c s \<Longrightarrow> dispatch P w c s = Done (reply c noauth_reply s)"
  by (auto simp: guarded_def dispatch_words guarded_handlers)

section \<open>AUTH\<close>

lemma HandleAuth_request:
  assumes "input_ok c s" "stream_of c s = bulk u @ bulk p @ rest" "arg_ok u" "arg_ok p"
  obtains r where "stream r = rest" "no_errors r"
    "HandleAuth c s =
       (case UserRegistry s u of
          None \<Rightarrow> Panic (set_rd c r s)
        | Some ui \<Rightarrow>
            if password_hash p \<in> set (Passwords ui) then Done (reply c ok_reply (set_auth c u (set_rd c r s)))
            else Done (reply c (''-WRONGPASS invalid username-password pair or user is disabled.'' @ crlf)
                   (set_rd c r s)))"
proof -
  obtain r1 where r1: "read_field (rd_of c s) = (u @ crlf, None, r1)" "stream r1 = bulk p @ rest" "no_errors r1"
    using read_field_bulk assms(1,2,3) unfolding input_ok_def stream_of_def by blast
  obtain r2 where r2: "read_field r1 = (p @ crlf, None, r2)" "stream r2 = rest" "no_errors r2"
    using read_field_bulk[OF r1(3,2) assms(4)] by blast
  have "HandleAuth c s =
       (case UserRegistry s u of
          None \<Rightarrow> Panic (set_rd c r2 s)
        | Some ui \<Rightarrow>
            if password_hash p \<in> set (Passwords ui) then Done (reply c ok_reply (set_auth c u (set_rd c r2 s)))
            else Done (reply c (''-WRONGPASS invalid username-password pair or user is disabled.'' @ crlf)
                   (set_rd c r2 s)))"
    using assms(3,4) r1(1) r2(1) by (simp add: HandleAuth_def Let_def)
  from that[OF r2(2,3) this] show thesis .
qed

lemma set_auth_fields [simp]:
  "UserRegistry (set_auth c u s) = UserRegistry s" "authUser (conns (set_auth c u s) e) = (if e = c then u else authUser (conns s e))"
  "act (conns (set_auth c u s) e) = act (conns s e)" "healthy e (set_auth c u s) = healthy e s"
  "out e (set_auth c u s) = out e s" "stream_of e (set_auth c u s) = stream_of e s"
  "input_ok e (set_auth c u s) = input_ok e s" "Replicas (set_auth c u s) = Replicas s"
  "mem (set_auth c u s) = mem s"
  by (auto simp: set_auth_def healthy_def out_def stream_of_def input_ok_def rd_of_def mem_def)

abbreviation wrongpass :: string where
  "wrongpass \<equiv> ''-WRONGPASS invalid username-password pair or user is disabled.'' @ crlf"

lemma serve_auth:
  assumes "at_prompt c s" "stream_of c s = resp_array [authw, u, p] @ rest" "arg_ok authw" "ToUpper authw = ''AUTH''"
    "arg_ok u" "arg_ok p"
  obtains r where "stream r = rest" "no_errors r"
    "UserRegistry s u = None \<longrightarrow> serve_loop P c s = Panic (set_rd c r s)"
    "\<forall>ui. UserRegistry s u = Some ui \<longrightarrow> password_hash p \<in> set (Passwords ui) \<longrightarrow>
       serve_loop P c s = serve_loop P c (reply c ok_reply (set_auth c u (set_rd c r s)))"
    "\<forall>ui. UserRegistry s u = Some ui \<longrightarrow> password_hash p \<notin> set (Passwords ui) \<longrightarrow>
       serve_loop P c s = serve_loop P c (reply c wrongpass (set_rd c r s))"
proof -
  obtain r where r: "stream r = bulks [u, p] @ rest" "no_errors r"
    "serve_loop P c s = and_then (dispatch P ''AUTH'' c (set_rd c r s)) (serve_loop P c)"
    using serve_command[OF assms(1-4)] by blast
  have "input_ok c (set_rd c r s)" "stream_of c (set_rd c r s) = bulk u @ bulk p @ rest"
    using r(1,2) by simp_all
  from HandleAuth_request[OF this assms(5,6)] obtain r2 where r2: "stream r2 = rest" "no_errors r2"
    "HandleAuth c (set_rd c r s) =
       (case UserRegistry s u of
          None \<Rightarrow> Panic (set_rd c r2 s)
        | Some ui \<Rightarrow>
            if password_hash p \<in> set (Passwords ui) then Done (reply c ok_reply (set_auth c u (set_rd c r2 s)))
            else Done (reply c wrongpass (set_rd c r2 s)))"
    unfolding set_rd_set_rd set_rd_fields by blast
  from that[of r2] r(3) r2 show thesis by (simp add: dispatch_words)
qed

section \<open>ACL SETUSER\<close>

lemma HandleACL_setuser:
  assumes "authed c s" "input_ok c s" "stream_of c s = bulks [su, u, ''>'' @ p] @ rest"
    "arg_ok su" "ToUpper su = ''SETUSER''" "arg_ok u" "arg_ok (''>'' @ p)" "arg_ok p"
  obtains r where "stream r = rest" "no_errors r"
    "HandleACL c s =
       (case UserRegistry s u of
          None \<Rightarrow> Done (set_rd c r s)
        | Some ui \<Rightarrow>
            Done (reply c ok_reply ((set_rd c r s)\<lparr>UserRegistry :=
              (UserRegistry s)(u \<mapsto> add_password (password_hash p) ui)\<rparr>)))"
proof -
  have "no_errors (rd_of c s)" "stream (rd_of c s) = bulk su @ (bulk u @ bulk (''>'' @ p) @ rest)"
    using assms(2,3) by (simp_all add: input_ok_def stream_of_def)
  from read_field_bulk[OF this assms(4)] obtain r1 where r1: "read_field (rd_of c s) = (su @ crlf, None, r1)"
      "stream r1 = bulk u @ bulk (''>'' @ p) @ rest" "no_errors r1"
    by blast
  obtain r2 where r2: "read_field r1 = (u @ crlf, None, r2)" "stream r2 = bulk (''>'' @ p) @ rest" "no_errors r2"
    using read_field_bulk[OF r1(3,2) assms(6)] by blast
  obtain r3 where r3: "read_field r2 = ((''>'' @ p) @ crlf, None, r3)" "stream r3 = rest" "no_errors r3"
    using read_field_bulk[OF r2(3,2) assms(7)] by blast
  have "HandleACL c s =
       (case UserRegistry s u of
          None \<Rightarrow> Done (set_rd c r3 s)
        | Some ui \<Rightarrow>
            Done (reply c ok_reply ((set_rd c r3 s)\<lparr>UserRegistry :=
              (UserRegistry s)(u \<mapsto> add_password (password_hash p) ui)\<rparr>)))"
    using assms(1,4-8) r1(1) r2(1) r3(1) by (cases "UserRegistry s u") (simp_all add: HandleACL_def acl_setuser_def CutPrefix_def Let_def)
  from that[OF r3(2,3) this] show thesis .
qed

section \<open>Properties\<close>

lemma auth_words [simp]:
  "arg_ok ''AUTH''" "arg_ok ''ACL''" "arg_ok ''SETUSER''" "arg_ok ''default''" "arg_ok ''secret''" "arg_ok ''>secret''"
  "arg_ok ''get''" "arg_ok ''mallory''" "upper_char CHR ''g'' = CHR ''G''" "upper_char CHR ''e'' = CHR ''E''"
  "upper_char CHR ''t'' = CHR ''T''"
  "ToUpper ''AUTH'' = ''AUTH''" "ToUpper ''ACL'' = ''ACL''" "ToUpper ''SETUSER'' = ''SETUSER''"
  by (simp_all add: arg_ok_graphic graphic_def) code_simp+

text \<open>
  C10: On a connection that is not logged in, each of the guarded commands (\<open>PING\<close>, \<open>ECHO\<close>, \<open>SET\<close>,
  \<open>GET\<close>, \<open>ACL\<close>, the list commands, \<open>CONFIG\<close>, \<open>KEYS\<close>, \<open>INFO\<close>) does nothing but answer \<open>-NOAUTH\<close>: no
  register, list, sorted set, user, replica or file changes, and no other connection sees output.
\<close>

theorem guarded_command_rejected:
  assumes "w \<in> set guarded" "\<not> authed c s"
  shows "\<exists>t. dispatch P w c s = Done t \<and> mem t = mem s \<and> UserRegistry t = UserRegistry s \<and>
    ListRegistry t = ListRegistry s \<and> ZSetRegistry t = ZSetRegistry s \<and> ServerInfo t = ServerInfo s \<and>
    Replicas t = Replicas s \<and> MasterOffset t = MasterOffset s \<and> AofFile t = AofFile s \<and> timers t = timers s \<and>
    chans t = chans s \<and> (\<forall>e. authUser (conns t e) = authUser (conns s e)) \<and>
    (\<forall>e. e \<noteq> c \<longrightarrow> out e t = out e s) \<and> (healthy c s \<longrightarrow> out c t = out c s @ noauth_reply)"
  using dispatch_guarded[OF assms, where P = P] by simp

lemma guarded_command_rejected_example:
  "\<exists>t. dispatch plain_platform ''SET'' 0 (master_with (client_conn [] [])) = Done t \<and>
    mem t = Map.empty \<and> out 0 t = noauth_reply"
  using guarded_command_rejected[where w = "''SET''" and c = 0 and s = "master_with (client_conn [] [])"
      and P = plain_platform]
  by (auto simp: guarded_def CheckAuth_def)

text \<open>
  The refusal leaves the command's arguments in the stream, where they are read as commands: a
  single \<open>GET\<close> request of an unauthenticated client whose argument spells a guarded command is
  answered twice.
\<close>

lemma refused_arguments_run_as_commands:
  assumes "at_prompt c s" "\<not> authed c s" "stream_of c s = resp_array [getw, k]"
    "arg_ok getw" "ToUpper getw \<in> set guarded" "arg_ok k" "ToUpper k \<in> set guarded"
  shows "\<exists>t. serve_loop P c s = Done t \<and> out c t = out c s @ noauth_reply @ noauth_reply"
proof -
  have "stream_of c s = resp_array [getw, k] @ []" using assms(3) by simp
  from serve_command[OF assms(1) this assms(4) refl, of P] obtain r where r: "stream r = bulk k" "no_errors r"
    "serve_loop P c s = and_then (dispatch P (ToUpper getw) c (set_rd c r s)) (serve_loop P c)"
    by auto
  let ?s1 = "reply c noauth_reply (set_rd c r s)"
  have s1: "serve_loop P c s = serve_loop P c ?s1"
    using r(3) dispatch_guarded[OF assms(5), where c = c and s = "set_rd c r s" and P = P] assms(2) by simp
  have "act (conns ?s1 c) = Serving" "input_ok c ?s1"
    "stream_of c ?s1 = CHR ''$'' # itoa (int (length k)) @ crlf @ (k @ crlf)"
    using assms(1) r(1,2) by (simp_all add: at_prompt_def bulk_def)
  from serve_loop_marker[OF this] obtain r1 where r1: "stream r1 = k @ crlf" "no_errors r1"
    "serve_loop P c ?s1 = serve_loop P c (set_rd c r1 ?s1)"
    by blast
  let ?s2 = "set_rd c r1 ?s1"
  have "act (conns ?s2 c) = Serving" "input_ok c ?s2" "stream_of c ?s2 = (k @ [CR]) @ LF # []" "LF \<notin> set (k @ [CR])"
    using assms(1,6) r1(1,2) by (auto simp: at_prompt_def crlf_def arg_ok_def)
  from serve_loop_line[OF this] obtain r2 where r2: "stream r2 = []" "no_errors r2"
    "serve_loop P c ?s2
       = and_then (dispatch P (ToUpper (TrimSpace ((k @ [CR]) @ [LF]))) c (set_rd c r2 ?s2)) (serve_loop P c)"
    by blast
  let ?s3 = "reply c noauth_reply (set_rd c r2 ?s2)"
  have "TrimSpace ((k @ [CR]) @ [LF]) = k" using arg_ok_trim[OF assms(6)] by (simp add: crlf_def)
  then have "serve_loop P c ?s2 = serve_loop P c ?s3"
    using r2(3) dispatch_guarded[OF assms(7), where c = c and s = "set_rd c r2 ?s2" and P = P] assms(2) by simp
  moreover have "serve_loop P c ?s3 = Done (set_rd c \<lparr>rbuf = [], rsrc = []\<rparr> ?s3)"
    using assms(1) r(2) r1(2) r2(1,2) by (intro serve_done) simp_all
  ultimately show ?thesis using s1 r1(3) assms(1) by (simp add: at_prompt_def)
qed

lemma refused_arguments_run_as_commands_example:
  "\<exists>t. serve_loop plain_platform 0 (master_with (client_conn [] [Chunk (resp_array [''GET'', ''get''])])) = Done t \<and>
    out 0 t = noauth_reply @ noauth_reply"
  using refused_arguments_run_as_commands[of 0 "master_with (client_conn [] [Chunk (resp_array [''GET'', ''get''])])"
      "''GET''" "''get''" plain_platform]
  by (auto simp: guarded_def CheckAuth_def)

text \<open>
  C11: \<open>AUTH u p\<close> for a registered user logs the session in as \<open>u\<close> and answers \<open>+OK\<close> exactly when
  the hash of \<open>p\<close> is among the user's passwords; otherwise it answers \<open>-WRONGPASS\<close> and the session
  stays what it was. No password, key or other session changes.
\<close>

theorem auth_checks_password:
  assumes "at_prompt c s" "stream_of c s = resp_array [authw, u, p]" "arg_ok authw" "ToUpper authw = ''AUTH''"
    "arg_ok u" "arg_ok p" "UserRegistry s u = Some ui"
  shows "\<exists>t. serve_loop P c s = Done t \<and> UserRegistry t = UserRegistry s \<and> mem t = mem s \<and>
    (\<forall>e. e \<noteq> c \<longrightarrow> authUser (conns t e) = authUser (conns s e)) \<and>
    (if password_hash p \<in> set (Passwords ui)
     then authUser (conns t c) = u \<and> out c t = out c s @ ok_reply
     else authUser (conns t c) = authUser (conns s c) \<and>
       out c t = out c s @ ''-WRONGPASS invalid username-password pair or user is disabled.'' @ crlf)"
proof -
  have "stream_of c s = resp_array [authw, u, p] @ []" using assms(2) by simp
  from serve_auth[OF assms(1) this assms(3-6)] obtain r where r: "stream r = []" "no_errors r"
    "password_hash p \<in> set (Passwords ui) \<Longrightarrow>
       serve_loop P c s = serve_loop P c (reply c ok_reply (set_auth c u (set_rd c r s)))"
    "password_hash p \<notin> set (Passwords ui) \<Longrightarrow>
       serve_loop P c s = serve_loop P c (reply c wrongpass (set_rd c r s))"
    using assms(7) by metis
  let ?t = "if password_hash p \<in> set (Passwords ui) then reply c ok_reply (set_auth c u (set_rd c r s))
    else reply c wrongpass (set_rd c r s)"
  have "at_prompt c ?t" "stream_of c ?t = []"
    using assms(1) r(1,2) by (simp_all add: at_prompt_def)
  from serve_done[OF this, of P] r(3,4)
  have "serve_loop P c s = Done (set_rd c \<lparr>rbuf = [], rsrc = []\<rparr> ?t)"
    by (simp split: if_splits)
  then show ?thesis using assms(1) by (auto simp: at_prompt_def)
qed

lemma auth_checks_password_example:
  "\<exists>t. serve_loop plain_platform 0
      (master_with (client_conn [] [Chunk (resp_array [''AUTH'', ''default'', ''secret''])])) = Done t \<and>
    authUser (conns t 0) = [] \<and>
    out 0 t = ''-WRONGPASS invalid username-password pair or user is disabled.'' @ crlf"
  using auth_checks_password[of 0 "master_with (client_conn [] [Chunk (resp_array [''AUTH'', ''default'', ''secret''])])"
      "''AUTH''" "''default''" "''secret''" default_user plain_platform]
  by (auto simp: default_user_def)

text \<open>
  \<open>ACL SETUSER u >p\<close> of a logged-in client for a registered user and then \<open>AUTH u p\<close> are both
  answered \<open>+OK\<close>: the session is then the user's, the user has the hash of \<open>p\<close> as a further
  password, and the flag \<open>nopass\<close> is gone if it was there once.
\<close>

lemma setuser_then_auth:
  assumes "at_prompt c s" "authed c s" "UserRegistry s u = Some ui"
    "stream_of c s = resp_array [aclw, su, u, ''>'' @ p] @ resp_array [authw, u, p]"
    "arg_ok aclw" "ToUpper aclw = ''ACL''" "arg_ok su" "ToUpper su = ''SETUSER''" "arg_ok u" "arg_ok p"
    "arg_ok (''>'' @ p)" "arg_ok authw" "ToUpper authw = ''AUTH''"
  shows "\<exists>t ui'. serve_loop P c s = Done t \<and> out c t = out c s @ ok_reply @ ok_reply \<and>
    authUser (conns t c) = u \<and> UserRegistry t = (UserRegistry s)(u \<mapsto> ui') \<and>
    Passwords ui' = Passwords ui @ [password_hash p] \<and> Flags ui' = remove_first (\<lambda>f. f = ''nopass'') (Flags ui)"
proof -
  from serve_command[OF assms(1,4,5,6)] obtain r where
    r: "stream r = bulks [su, u, ''>'' @ p] @ resp_array [authw, u, p]" "no_errors r"
    "serve_loop P c s = and_then (dispatch P ''ACL'' c (set_rd c r s)) (serve_loop P c)"
    by blast
  have "authed c (set_rd c r s)" "input_ok c (set_rd c r s)"
    "stream_of c (set_rd c r s) = bulks [su, u, ''>'' @ p] @ resp_array [authw, u, p]"
    using assms(2) r(1,2) by simp_all
  from HandleACL_setuser[OF this assms(7,8,9,11,10)] obtain r2 where r2:
    "stream r2 = resp_array [authw, u, p]" "no_errors r2"
    "HandleACL c (set_rd c r s) = Done (reply c ok_reply ((set_rd c r2 s)\<lparr>UserRegistry :=
       (UserRegistry s)(u \<mapsto> add_password (password_hash p) ui)\<rparr>))"
    using assms(3) by auto
  let ?s1 = "reply c ok_reply ((set_rd c r2 s)\<lparr>UserRegistry := (UserRegistry s)(u \<mapsto> add_password (password_hash p) ui)\<rparr>)"
  have loop1: "serve_loop P c s = serve_loop P c ?s1"
    using r(3) r2(3) by (simp add: dispatch_words)
  have s1: "at_prompt c ?s1" "stream_of c ?s1 = resp_array [authw, u, p] @ []"
    "UserRegistry ?s1 u = Some (add_password (password_hash p) ui)" "out c ?s1 = out c s @ ok_reply"
    using assms(1) r2(1,2) by (simp_all add: at_prompt_def stream_of_def input_ok_def)
  have hash: "password_hash p \<in> set (Passwords (add_password (password_hash p) ui))"
    by (simp add: add_password_def)
  from serve_auth[OF s1(1,2) assms(12,13,9,10)] obtain r3 where r3: "stream r3 = []" "no_errors r3"
    "serve_loop P c ?s1 = serve_loop P c (reply c ok_reply (set_auth c u (set_rd c r3 ?s1)))"
    using hash s1(3) by metis
  let ?s2 = "reply c ok_reply (set_auth c u (set_rd c r3 ?s1))"
  have "at_prompt c ?s2" "stream_of c ?s2 = []" and h: "healthy c ?s1"
    using s1(1) r3(1,2) by (simp_all add: at_prompt_def)
  from serve_done[OF this(1,2), of P] h loop1 r3(3) s1(4) show ?thesis
    by (intro exI[of _ "set_rd c \<lparr>rbuf = [], rsrc = []\<rparr> ?s2"] exI[of _ "add_password (password_hash p) ui"])
       (simp add: add_password_def)
qed

lemma setuser_then_auth_example:
  "\<exists>t. serve_loop plain_platform 0 (master_with (client_conn ''default''
      [Chunk (resp_array [''ACL'', ''SETUSER'', ''default'', ''>secret''] @ resp_array [''AUTH'', ''default'', ''secret''])]))
     = Done t \<and> out 0 t = ok_reply @ ok_reply"
  using setuser_then_auth[of 0 "master_with (client_conn ''default''
      [Chunk (resp_array [''ACL'', ''SETUSER'', ''default'', ''>secret''] @ resp_array [''AUTH'', ''default'', ''secret''])])"
      "''default''" default_user "''ACL''" "''SETUSER''" "''secret''" "''AUTH''" plain_platform]
  by (auto simp: CheckAuth_def)

text \<open>
  C12: \<open>AUTH\<close> for a user that does not exist, which needs no login, panics and so ends the server
  process.
\<close>

theorem auth_unknown_user_panics:
  assumes "at_prompt c s" "stream_of c s = resp_array [authw, u, p] @ rest" "arg_ok authw"
    "ToUpper authw = ''AUTH''" "arg_ok u" "arg_ok p" "UserRegistry s u = None"
  shows "\<exists>t. serve_loop P c s = Panic t"
proof -
  from serve_auth[OF assms(1-6)] show ?thesis using assms(7) by metis
qed

lemma auth_unknown_user_panics_example:
  "\<exists>t. serve_loop plain_platform 0
      (master_with (client_conn [] [Chunk (resp_array [''AUTH'', ''mallory'', ''secret''])])) = Panic t"
  using auth_unknown_user_panics[of 0 "master_with (client_conn [] [Chunk (resp_array [''AUTH'', ''mallory'', ''secret''])])"
      "''AUTH''" "''mallory''" "''secret''" "[]" plain_platform]
  by auto

text \<open>
  \<open>ACL SETUSER\<close> for a user that does not exist creates no user and sends no reply: the client
  waits for an answer that never comes.
\<close>

lemma setuser_creates_no_user:
  assumes "at_prompt c s" "authed c s" "UserRegistry s u = None"
    "stream_of c s = resp_array [aclw, su, u, ''>'' @ p]" "arg_ok aclw" "ToUpper aclw = ''ACL''"
    "arg_ok su" "ToUpper su = ''SETUSER''" "arg_ok u" "arg_ok p" "arg_ok (''>'' @ p)"
  shows "\<exists>t. serve_loop P c s = Done t \<and> UserRegistry t = UserRegistry s \<and> out c t = out c s"
proof -
  have "stream_of c s = resp_array [aclw, su, u, ''>'' @ p] @ []" using assms(4) by simp
  from serve_command[OF assms(1) this assms(5,6)] obtain r where
    r: "stream r = bulks [su, u, ''>'' @ p] @ []" "no_errors r"
    "serve_loop P c s = and_then (dispatch P ''ACL'' c (set_rd c r s)) (serve_loop P c)"
    by blast
  have "authed c (set_rd c r s)" "input_ok c (set_rd c r s)"
    "stream_of c (set_rd c r s) = bulks [su, u, ''>'' @ p] @ []"
    using assms(2) r(1,2) by simp_all
  from HandleACL_setuser[OF this assms(7,8,9,11,10)] obtain r2 where r2:
    "stream r2 = []" "no_errors r2" "HandleACL c (set_rd c r s) = Done (set_rd c r2 s)"
    using assms(3) by auto
  have "at_prompt c (set_rd c r2 s)" "stream_of c (set_rd c r2 s) = []"
    using assms(1) r2 by simp_all
  from serve_done[OF this, of P] r(3) r2(3) show ?thesis by (simp add: dispatch_words)
qed

lemma setuser_creates_no_user_example:
  "\<exists>t. serve_loop plain_platform 0 (master_with (client_conn ''default''
      [Chunk (resp_array [''ACL'', ''SETUSER'', ''mallory'', ''>secret''])])) = Done t \<and> out 0 t = []"
  using setuser_creates_no_user[of 0 "master_with (client_conn ''default''
      [Chunk (resp_array [''ACL'', ''SETUSER'', ''mallory'', ''>secret''])])"
      "''mallory''" "''ACL''" "''SETUSER''" "''secret''" plain_platform]
  by (auto simp: CheckAuth_def)

end
