(* ===== verification/Rdb.thy ===== *)
theory Rdb
  imports Key_Value "HOL-Library.Word"
begin

unbundle bit_operations_syntax

text \<open>
  \<open>rdb.go\<close>: the reader of RDB files. The file is a buffered reader; the expiry times are absolute
  wall-clock times, so the \<open>clock\<close> of the state is the Unix time in nanoseconds.
\<close>

section \<open>binary.Read\<close>

abbreviation byte_word :: "char \<Rightarrow> 8 word" where
  "byte_word c \<equiv> word_of_nat (of_char c)"

fun le_uint :: "string \<Rightarrow> nat" where
  "le_uint [] = 0"
| "le_uint (b # bs) = of_char b + 256 * le_uint bs"

definition be_uint :: "string \<Rightarrow> nat" where
  "be_uint bs = le_uint (rev bs)"

text \<open>On a read error the variable keeps its initial value 0.\<close>

definition binary_read :: "(string \<Rightarrow> nat) \<Rightarrow> nat \<Rightarrow> rd \<Rightarrow> nat \<times> rd" where
  "binary_read order n r =
     (let (bs, err, r1) = ReadFull n r in (if err = None then order bs else 0, r1))"

section \<open>readLength and readString\<close>

definition readLength :: "rd \<Rightarrow> 32 word \<times> bool \<times> rerr option \<times> rd" where
  "readLength r =
     (case ReadByte r of
        (None, err, r1) \<Rightarrow> (0, False, err, r1)
      | (Some c, err, r1) \<Rightarrow>
          let b = byte_word c;
              format = drop_bit 6 (b AND 0xC0);
              value = b AND 0x3F
          in if format = 0 then (ucast value, False, None, r1)
             else if format = 1
             then (case ReadByte r1 of
                     (None, err, r2) \<Rightarrow> (0, False, err, r2)
                   | (Some nextByte, err, r2) \<Rightarrow>
                       (push_bit 8 (ucast value) OR ucast (byte_word nextByte), False, None, r2))
             else if format = 2
             then (let (len, r2) = binary_read be_uint 4 r1 in (word_of_nat len, False, None, r2))
             else (ucast value, True, None, r1))"

definition signed8 :: "nat \<Rightarrow> int" where
  "signed8 n = (if n < 128 then int n else int n - 256)"

definition readString :: "rd \<Rightarrow> string \<times> rerr option \<times> rd" where
  "readString r =
     (let (length, isSpecial, err, r1) = readLength r
      in if err \<noteq> None then ([], err, r1)
         else if isSpecial \<and> length = 0
         then (let (val, r2) = binary_read le_uint 1 r1 in (itoa (signed8 val), None, r2))
         else if isSpecial \<and> length = 1
         then (let (val, r2) = binary_read le_uint 2 r1 in (itoa (int val), None, r2))
         else if isSpecial \<and> length = 2
         then (let (val, r2) = binary_read le_uint 4 r1 in (itoa (int val), None, r2))
         else (let n = unat length; (strBytes, err, r2) = ReadFull n r1
               in (strBytes @ replicate (n - List.length strBytes) (CHR 0x00), err, r2)))"

section \<open>Expiry times\<close>

text \<open>
  \<open>time.Until\<close> of an instant given in Unix seconds and nanoseconds: the distance from now,
  saturated to the 64-bit \<open>Duration\<close>. \<open>time.Unix\<close> counts seconds from year 1 in an \<open>int64\<close>, which
  wraps.
\<close>

definition unixToInternal :: int where "unixToInternal = 62135596800"

definition time_Until :: "int \<Rightarrow> int \<Rightarrow> int \<Rightarrow> int" where
  "time_Until sec nsec now =
     (let t = (i64 (sec + unixToInternal) - unixToInternal) * 1000000000 + nsec
      in max min_int64 (min max_int64 (t - now)))"

text \<open>Go's division and remainder of integers truncate toward zero.\<close>

definition quot1000 :: "int \<Rightarrow> int" where "quot1000 a = sgn a * (\<bar>a\<bar> div 1000)"
definition rem1000 :: "int \<Rightarrow> int" where "rem1000 a = sgn a * (\<bar>a\<bar> mod 1000)"

text \<open>\<open>time.UnixMilli\<close>; \<open>time.Unix\<close> moves a negative nanosecond part into the seconds, which is the same instant.\<close>

definition until_ms :: "nat \<Rightarrow> int \<Rightarrow> int" where
  "until_ms tteMs now =
     (let ms = i64 (int tteMs) in time_Until (quot1000 ms) (rem1000 ms * 1000000) now)"

definition until_sec :: "nat \<Rightarrow> int \<Rightarrow> int" where
  "until_sec tteSec now = time_Until (i64 (int tteSec)) 0 now"

text \<open>The key is stored and its deletion scheduled, unless its time has passed.\<close>

definition store_expiring :: "string \<Rightarrow> string \<Rightarrow> int \<Rightarrow> server \<Rightarrow> server" where
  "store_expiring key val timeLeft s =
     (if timeLeft \<le> 0 then s else expire_after timeLeft key (mem_store key val s))"

section \<open>Reading makes progress\<close>

lemma read_full_src_size:
  "read_full_src n acc es = (bs, e, r) \<Longrightarrow>
    rd_size r + (if e = None then n else 0)
      \<le> length acc + sum_list (map (\<lambda>e. Suc (length (ev_bytes e))) es)"
proof (induction n acc es rule: read_full_src.induct)
  case (1 n acc)
  then show ?case by (auto simp: rd_size_def split: if_splits)
next
  case (2 n acc e es)
  then show ?case by (cases e) (fastforce simp: rd_size_def split: if_splits)+
qed

lemma ReadFull_size:
  "ReadFull n r = (bs, e, r') \<Longrightarrow> rd_size r' + (if e = None then n else 0) \<le> rd_size r"
  unfolding ReadFull_def by (drule read_full_src_size) (simp add: rd_size_def)

lemma read_full_src_length:
  "read_full_src n acc es = (bs, None, r) \<Longrightarrow> length bs = n"
  by (induction n acc es rule: read_full_src.induct) (auto split: if_splits inev.splits)

lemma ReadFull_length: "ReadFull n r = (bs, None, r') \<Longrightarrow> length bs = n"
  unfolding ReadFull_def by (rule read_full_src_length)

lemma ReadByte_size:
  assumes "ReadByte r = (b, e, r')"
  shows "rd_size r' \<le> rd_size r" "e = None \<Longrightarrow> rd_size r' < rd_size r"
  using assms ReadFull_size[of 1 r]
  by (force simp: ReadByte_def split: prod.splits list.splits)+

lemma binary_read_size: "binary_read order n r = (v, r') \<Longrightarrow> rd_size r' \<le> rd_size r"
  using ReadFull_size[of n r] by (fastforce simp: binary_read_def split: prod.splits if_splits)

lemma readLength_size:
  assumes "readLength r = (l, sp, e, r')"
  shows "rd_size r' \<le> rd_size r"
proof -
  obtain b1 e1 r1 where 1: "ReadByte r = (b1, e1, r1)" by (metis prod_cases3)
  obtain b2 e2 r2 where 2: "ReadByte r1 = (b2, e2, r2)" by (metis prod_cases3)
  obtain n r3 where 3: "binary_read be_uint 4 r1 = (n, r3)" by (metis prod.exhaust)
  have "r' = r1 \<or> r' = r2 \<or> r' = r3"
    using assms unfolding readLength_def Let_def 1 2 3 prod.case
    by (simp only: prod.case 2 3 prod.inject split: option.splits if_splits) blast+
  with ReadByte_size(1)[OF 1] ReadByte_size(1)[OF 2] binary_read_size[OF 3] show ?thesis by auto
qed

lemma readString_size:
  assumes "readString r = (v, e, r')"
  shows "rd_size r' \<le> rd_size r"
proof -
  obtain l sp e1 r1 where l: "readLength r = (l, sp, e1, r1)" by (metis prod_cases4)
  obtain bs e2 r2 where f: "ReadFull (unat l) r1 = (bs, e2, r2)" by (metis prod_cases3)
  obtain n3 r3 where 3: "binary_read le_uint 1 r1 = (n3, r3)" by (metis prod.exhaust)
  obtain n4 r4 where 4: "binary_read le_uint 2 r1 = (n4, r4)" by (metis prod.exhaust)
  obtain n5 r5 where 5: "binary_read le_uint 4 r1 = (n5, r5)" by (metis prod.exhaust)
  have "r' = r1 \<or> r' = r2 \<or> r' = r3 \<or> r' = r4 \<or> r' = r5"
    using assms unfolding readString_def Let_def l f 3 4 5 prod.case
    by (simp only: prod.inject split: if_splits) blast+
  moreover have "rd_size r2 \<le> rd_size r1" using ReadFull_size[OF f] by (simp split: if_splits)
  ultimately show ?thesis
    using readLength_size[OF l] binary_read_size[OF 3] binary_read_size[OF 4] binary_read_size[OF 5]
    by auto
qed

lemma ReadByte_None_size: "(b, None, r') = ReadByte r \<Longrightarrow> rd_size r' < rd_size r"
  using ReadByte_size(2) by metis

lemmas reading_sizes = ReadByte_None_size ReadByte_size(1)[OF sym] readString_size[OF sym]
  readLength_size[OF sym] binary_read_size[OF sym]

section \<open>LoadRDB\<close>

text \<open>
  The loop of \<open>LoadRDB\<close> after the 9-byte header. Metadata, the database selector and the table
  sizes are skipped, errors included; a key or value that cannot be read ends the load.
\<close>

function load_entries :: "rd \<Rightarrow> server \<Rightarrow> server" where
  "load_entries r s =
     (case ReadByte r of
        (b, Some err, r1) \<Rightarrow> s
      | (None, None, r1) \<Rightarrow> s
      | (Some b, None, r1) \<Rightarrow>
          if b = CHR 0xFF then s
          else if b = CHR 0xFA
          then (let (_, _, r2) = readString r1; (_, _, r3) = readString r2 in load_entries r3 s)
          else if b = CHR 0xFE
          then (let (_, _, _, r2) = readLength r1 in load_entries r2 s)
          else if b = CHR 0xFB
          then (let (_, _, _, r2) = readLength r1; (_, _, _, r3) = readLength r2 in load_entries r3 s)
          else if b = CHR 0xFC \<or> b = CHR 0xFD
          then (let (tte, r2) = binary_read le_uint 8 r1;
                    (_, _, r3) = ReadByte r2;
                    (key, err, r4) = readString r3
                in if err \<noteq> None then s
                   else let (val, err, r5) = readString r4
                        in if err \<noteq> None then s
                           else load_entries r5 (store_expiring key val
                             ((if b = CHR 0xFC then until_ms else until_sec) tte (clock s)) s))
          else (let (key, err, r2) = readString r1
                in if err \<noteq> None then s
                   else let (val, err, r3) = readString r2
                        in if err \<noteq> None then s else load_entries r3 (mem_store key val s)))"
  by pat_completeness auto
termination
  by (relation "measure (\<lambda>(r, s). rd_size r)")
     (clarify | (drule reading_sizes)+, simp split: if_splits)+

declare load_entries.simps [simp del]

text \<open>
  \<open>open_file dir filename\<close> is what \<open>os.Open\<close> of the joined path gives. When it fails the reader
  is over a nil file, whose first read fails.
\<close>

definition LoadRDB :: "(string \<Rightarrow> string \<Rightarrow> rd option) \<Rightarrow> string \<Rightarrow> string \<Rightarrow> server \<Rightarrow> server" where
  "LoadRDB open_file dir filename s =
     (if dir = [] \<or> filename = [] then s
      else case open_file dir filename of
             None \<Rightarrow> s
           | Some r \<Rightarrow>
               let (_, err, r1) = ReadFull 9 r
               in if err \<noteq> None then s else load_entries r1 s)"

end
