(* ===== verification/Aof.thy ===== *)
theory Aof
  imports Key_Value
begin

text \<open>
  \<open>utils.go\<close> \<open>AOFParser\<close>: the replay of an append-only file into the string store. The file is a
  buffered reader; \<open>None\<close> stands for a file that cannot be opened.
\<close>

section \<open>Arguments\<close>

text \<open>The inner loop: as many length and argument lines as announced, errors ignored.\<close>

fun aof_args :: "nat \<Rightarrow> rd \<Rightarrow> string list \<times> rd" where
  "aof_args 0 r = ([], r)"
| "aof_args (Suc n) r =
     (let (arg, _, r1) = read_field r; (args, r2) = aof_args n r1 in (TrimSpace arg # args, r2))"

lemma aof_args_size: "aof_args n r = (args, r') \<Longrightarrow> rd_size r' \<le> rd_size r"
  by (induction n arbitrary: r args)
     (fastforce split: prod.splits dest: read_field_size intro: le_trans)+

section \<open>Commands\<close>

text \<open>The only command replayed is \<open>SET\<close>, with its \<open>PX\<close> option; \<open>k\<close> is deleted after \<open>t\<close> milliseconds.\<close>

definition aof_command :: "string list \<Rightarrow> server \<Rightarrow> server" where
  "aof_command args s =
     (if args = [] then s
      else if ToUpper (args ! 0) = ''SET''
      then if 3 \<le> length args
           then let key = args ! 1; val = args ! 2; s1 = mem_store key val s
                in if 5 \<le> length args \<and> ToUpper (args ! 3) = ''PX''
                   then let px = fst (Atoi (args ! 4)) in expire_after (i64 (px * 1000000)) key s1
                   else s1
           else s
      else s)"

lemma line_size: "(l, None, r') = ReadString r \<Longrightarrow> rd_size r' < rd_size r"
  using ReadString_size(2) by (metis option.distinct(1))

section \<open>The file\<close>

function aof_replay :: "rd \<Rightarrow> server \<Rightarrow> server" where
  "aof_replay r s =
     (let (line, err, r1) = ReadString r
      in if err \<noteq> None then s
         else if \<not> HasPrefix line ''*'' then aof_replay r1 s
         else let numArgs = fst (Atoi (TrimSpace (TrimPrefix line ''*'')));
                  (args, r2) = aof_args (nat numArgs) r1
              in aof_replay r2 (aof_command args s))"
  by pat_completeness auto
termination
  by (relation "measure (\<lambda>(r, s). rd_size r)")
     (rule wf_measure | (unfold not_not)?, clarify, (drule line_size aof_args_size[OF sym])+, simp)+

declare aof_replay.simps [simp del]

definition AOFParser :: "rd option \<Rightarrow> server \<Rightarrow> server" where
  "AOFParser file s = (case file of None \<Rightarrow> s | Some r \<Rightarrow> aof_replay r s)"

end
