(* ===== verification/Server.thy ===== *)
theory Server
  imports Dispatch Rdb Aof
begin

text \<open>
  \<open>server.go\<close> \<open>main\<close>: the start of the process from its flags and files, and the process as a whole,
  a step relation whose steps are the turns of the connection goroutines, the waiting \<open>BLPOP\<close> and
  \<open>WAIT\<close> goroutines, the expiry goroutines and the passing of time.
\<close>

section \<open>Flags and files\<close>

record flags =
  flag_dir :: string
  flag_dbfilename :: string
  flag_port :: int
  flag_replicaof :: string
  flag_appendonly :: string
  flag_appenddirname :: string
  flag_appendfilename :: string
  flag_appendfsync :: string

text \<open>
  What the operating system answers: whether the port can be listened on and the master dialled,
  the AOF directory made and the manifest written, the contents of the manifest, the files opened
  for reading, the AOF file opened for appending, and the random numbers.
\<close>

record host =
  listens :: bool
  dials :: bool
  makes_dir :: bool
  manifest_data :: "string option"
  writes_manifest :: bool
  aof_reader :: "string \<Rightarrow> rd option"
  aof_appender :: "string \<Rightarrow> sink option"
  open_rdb :: "string \<Rightarrow> string \<Rightarrow> rd option"
  Intn :: "nat \<Rightarrow> nat"

section \<open>The manifest\<close>

text \<open>The first line of type i whose first two fields are \<open>file\<close> and a name.\<close>

fun manifest_file :: "string list \<Rightarrow> string" where
  "manifest_file [] = []"
| "manifest_file (line # lines) =
     (if Contains line ''type i''
      then let parts = Fields line
           in if 2 \<le> length parts \<and> parts ! 0 = ''file'' then parts ! 1 else manifest_file lines
      else manifest_file lines)"

definition default_aof :: "string \<Rightarrow> string" where
  "default_aof appendfilename = appendfilename @ ''.1.incr.aof''"

definition manifest_content :: "string \<Rightarrow> string" where
  "manifest_content activeFileName = ''file '' @ activeFileName @ '' seq 1 type i'' @ [LF]"

text \<open>The active file, and the manifest to write when there was none that names one.\<close>

definition choose_aof :: "string \<Rightarrow> string option \<Rightarrow> string \<times> string option" where
  "choose_aof appendfilename data =
     (let activeFileName = (case data of None \<Rightarrow> [] | Some d \<Rightarrow> manifest_file (Split LF d))
      in if activeFileName = []
         then (default_aof appendfilename, Some (manifest_content (default_aof appendfilename)))
         else (activeFileName, None))"

section \<open>main\<close>

definition store_flags :: "flags \<Rightarrow> server \<Rightarrow> server" where
  "store_flags F s =
     s\<lparr>EnvVariables := (EnvVariables s)(''dir'' \<mapsto> flag_dir F, ''dbfilename'' \<mapsto> flag_dbfilename F,
         ''appendonly'' \<mapsto> flag_appendonly F, ''appenddirname'' \<mapsto> flag_appenddirname F,
         ''appendfilename'' \<mapsto> flag_appendfilename F, ''appendfsync'' \<mapsto> flag_appendfsync F)\<rparr>"

text \<open>
  The role: a replica connects to its master (connection \<open>mc\<close>) and starts to serve its stream;
  a \<open>replicaof\<close> without a port is an index panic. A master draws its replication id.
\<close>

definition start_role :: "flags \<Rightarrow> host \<Rightarrow> nat \<Rightarrow> server \<Rightarrow> server outcome" where
  "start_role F H mc s =
     (if flag_replicaof F \<noteq> ''master''
      then let s1 = s\<lparr>ServerInfo := (ServerInfo s)(''role'' \<mapsto> IStr ''slave'')\<rparr>;
               replicaofSlice = Split (CHR '' '') (flag_replicaof F)
           in if length replicaofSlice < 2 then Panic s1
              else let s2 = s1\<lparr>ServerInfo := (ServerInfo s1)(''masterHost'' \<mapsto> IStr (replicaofSlice ! 0),
                                ''masterPort'' \<mapsto> IStr (replicaofSlice ! 1))\<rparr>
                   in and_then (ConnectToMaster (dials H) mc (itoa (flag_port F)) s2)
                        (\<lambda>s3. if silent (conns s3 mc) then start_session mc s3 else Done s3)
      else Done (s\<lparr>ServerInfo := (ServerInfo s)(''role'' \<mapsto> IStr ''master'',
                   ''master_replid'' \<mapsto> IStr (RandomString (Intn H) 40),
                   ''master_repl_offset'' \<mapsto> IStr ''0'')\<rparr>))"

text \<open>\<open>log.Fatal\<close> ends the process.\<close>

definition start_aof :: "flags \<Rightarrow> host \<Rightarrow> server \<Rightarrow> server outcome" where
  "start_aof F H s =
     (if \<not> makes_dir H then Panic s
      else let (activeFileName, content) = choose_aof (flag_appendfilename F) (manifest_data H)
           in if content \<noteq> None \<and> \<not> writes_manifest H then Panic s
              else let s1 = AOFParser (aof_reader H activeFileName) s
                   in case aof_appender H activeFileName of
                        None \<Rightarrow> Panic s1
                      | Some file \<Rightarrow> Done (s1\<lparr>AofFile := Some file\<rparr>))"

definition main :: "flags \<Rightarrow> host \<Rightarrow> nat \<Rightarrow> (nat \<Rightarrow> conn) \<Rightarrow> int \<Rightarrow> server outcome" where
  "main F H mc cs now =
     (let s = store_flags F (empty_server cs now)
      in if \<not> listens H then Panic s
         else and_then (start_role F H mc (s\<lparr>UserRegistry := (UserRegistry s)(''default'' \<mapsto> default_user)\<rparr>))
                (\<lambda>s1. if flag_appendonly F = ''yes'' then start_aof F H s1
                      else Done (LoadRDB (open_rdb H) (flag_dir F) (flag_dbfilename F) s1)))"

section \<open>The running process\<close>

text \<open>
  One step of the process. A handler runs as one step; a panic ends the process, so it has no
  successor; a handler that blocks on a lock leaves its goroutine where it is.
\<close>

inductive step :: "platform \<Rightarrow> server \<Rightarrow> server \<Rightarrow> bool" for P :: platform where
  command: "act (conns s c) = Serving \<Longrightarrow> serve_step P c s = (go, Done t) \<Longrightarrow> step P s t"
| pop_value: "step P s (blpop_receive c s)"
| pop_timeout: "step P s (blpop_expire c s)"
| pop_leave: "step P s (blpop_leave c s)"
| wait_again: "step P s (wait_poll c s)"
| wait_timeout: "step P s (wait_expire c s)"
| expire: "step P s (fire_timer i s)"
| time: "0 \<le> d \<Longrightarrow> step P s (tick d s)"
| accepted: "accept_conn c r k s = s1 \<Longrightarrow> start_session c s1 = Done t \<Longrightarrow> step P s t"

abbreviation steps :: "platform \<Rightarrow> server \<Rightarrow> server \<Rightarrow> bool" where
  "steps P \<equiv> (step P)\<^sup>*\<^sup>*"

inductive_cases stepE: "step P s t"

end
