(* ===== verification/List_Properties.thy ===== *)
theory List_Properties
  imports Requests
begin

text \<open>
  The lists: what the pushes, \<open>LRANGE\<close> and \<open>LPOP\<close> compute, through the wire and as functions, the
  queue of waiting \<open>BLPOP\<close> clients, and the index panics.
\<close>

section \<open>Registry access\<close>

lemma put_list_fields [simp]:
  "ListRegistry (put_list k l s) = (ListRegistry s)(k \<mapsto> l)" "conns (put_list k l s) = conns s"
  "chans (put_list k l s) = chans s" "next_chan (put_list k l s) = next_chan s"
  "clock (put_list k l s) = clock s" "mem (put_list k l s) = mem s"
  "ZSetRegistry (put_list k l s) = ZSetRegistry s" "UserRegistry (put_list k l s) = UserRegistry s"
  "out e (put_list k l s) = out e s" "healthy e (put_list k l s) = healthy e s"
  "at_prompt e (put_list k l s) = at_prompt e s" "stream_of e (put_list k l s) = stream_of e s"
  by (simp_all add: put_list_def mem_def out_def healthy_def at_prompt_def input_ok_def stream_of_def rd_of_def)

lemma put_list_set_rd: "put_list k l (set_rd c r s) = set_rd c r (put_list k l s)"
  by (cases s) (simp add: put_list_def set_rd_def)

lemma load_list_put [simp]: "load_list k (put_list k l s) = l"
  by (simp add: load_list_def)

lemma load_list_frame [simp]:
  "load_list k (reply c d s) = load_list k s" "load_list k (set_rd c r s) = load_list k s"
  "load_list k (set_act c a s) = load_list k s"
  by (simp_all add: load_list_def)

section \<open>The queue of waiting clients\<close>

lemma hand_over_elems: "hand_over chs xs cs = (chs', xs', cs', stuck) \<Longrightarrow> \<exists>n. chs' = drop n chs"
proof (induction chs xs cs arbitrary: chs' xs' cs' stuck rule: hand_over.induct)
  case (1 ch chs x xs cs)
  show ?case
  proof (cases "cs ch = None")
    case True
    with "1.prems" have "hand_over chs xs (cs(ch \<mapsto> x)) = (chs', xs', cs', stuck)" by simp
    from "1.IH"[OF _ this] True obtain n where "chs' = drop n chs" by blast
    then show ?thesis by (intro exI[of _ "Suc n"]) simp
  next
    case False
    with "1.prems" show ?thesis by (intro exI[of _ 1]) simp
  qed
qed (auto intro: exI[of _ 0])

text \<open>The channels after one value each has been sent to the clients in front.\<close>

definition deliver :: "nat list \<Rightarrow> string list \<Rightarrow> (nat \<Rightarrow> string option) \<Rightarrow> nat \<Rightarrow> string option" where
  "deliver chs xs cs = (\<lambda>ch. case map_of (zip chs xs) ch of Some x \<Rightarrow> Some x | None \<Rightarrow> cs ch)"

lemma deliver_simps [simp]:
  "deliver [] xs cs = cs" "deliver chs [] cs = cs"
  "deliver (ch # chs) (x # xs) cs = (deliver chs xs cs)(ch \<mapsto> x)"
  by (auto simp: deliver_def fun_eq_iff)

lemma deliver_nth:
  "distinct chs \<Longrightarrow> i < length chs \<Longrightarrow> i < length xs \<Longrightarrow> deliver chs xs cs (chs ! i) = Some (xs ! i)"
proof (induction chs xs arbitrary: i rule: list_induct2')
  case (4 ch chs x xs)
  then show ?case by (cases i) (auto dest: nth_mem)
qed auto

lemma deliver_other: "ch \<notin> set (take (length xs) chs) \<Longrightarrow> deliver chs xs cs ch = cs ch"
  by (induction chs xs rule: list_induct2') auto

lemma hand_over_done:
  assumes "distinct chs" "\<forall>ch \<in> set chs. cs ch = None"
  shows "hand_over chs xs cs = (drop (length xs) chs, drop (length chs) xs, deliver chs xs cs, False)"
  using assms
proof (induction chs xs cs rule: hand_over.induct)
  case (1 ch chs x xs cs)
  have IH: "hand_over chs xs (cs(ch \<mapsto> x)) =
      (drop (length xs) chs, drop (length chs) xs, deliver chs xs (cs(ch \<mapsto> x)), False)"
    using 1(2,3) by (intro 1(1)) auto
  have "map_of (zip chs xs) ch = None"
    using 1(2) by (auto simp: map_of_eq_None_iff dest: set_zip_leftD)
  then have "deliver chs xs (cs(ch \<mapsto> x)) = deliver (ch # chs) (x # xs) cs"
    by (auto simp: fun_eq_iff deliver_def split: option.splits)
  with IH 1(3) show ?case by (auto simp: fun_upd_def)
qed auto

text \<open>A waiting client has a place in one queue only, and its channel is empty as long as it waits.\<close>

definition queue_ok :: "server \<Rightarrow> bool" where
  "queue_ok s \<longleftrightarrow>
     (\<forall>k l. ListRegistry s k = Some l \<longrightarrow> distinct (clients l) \<and>
        (\<forall>ch \<in> set (clients l). ch < next_chan s \<and> chans s ch = None)) \<and>
     (\<forall>k l k' l'. ListRegistry s k = Some l \<longrightarrow> ListRegistry s k' = Some l' \<longrightarrow> k \<noteq> k' \<longrightarrow>
        set (clients l) \<inter> set (clients l') = {})"

lemma queue_ok_load:
  assumes "queue_ok s"
  shows "distinct (clients (load_list k s))" "\<forall>ch \<in> set (clients (load_list k s)). chans s ch = None"
  using assms by (auto simp: queue_ok_def load_list_def new_list_def split: option.splits)

lemma rpush_done:
  assumes "distinct (clients l)" "\<forall>ch \<in> set (clients l). chans s ch = None" "l = load_list k s"
  shows "rpush k xs s = Done (put_list k \<lparr>elements = elements l @ drop (length (clients l)) xs,
      clients = drop (length xs) (clients l)\<rparr>
    (s\<lparr>chans := deliver (clients l) xs (chans s)\<rparr>))"
  using assms(3) hand_over_done[OF assms(1,2), of xs] by (simp add: rpush_def Let_def)

section \<open>Reading the elements\<close>

lemma read_elems_chunk:
  assumes "\<forall>x \<in> set xs. arg_ok x"
  shows "read_elems acc \<lparr>rbuf = bulks xs, rsrc = ds\<rparr> = (acc @ xs, None, \<lparr>rbuf = [], rsrc = ds\<rparr>)"
  using assms
proof (induction xs arbitrary: acc)
  case Nil
  then show ?case by (simp add: read_elems.simps Buffered_def)
next
  case (Cons x xs)
  have "read_field \<lparr>rbuf = bulks (x # xs), rsrc = ds\<rparr> = (x @ crlf, None, \<lparr>rbuf = bulks xs, rsrc = ds\<rparr>)"
    by (rule read_field_in_chunk) (use Cons.prems in \<open>simp_all add: in_chunk_def\<close>)
  then have "read_elems acc \<lparr>rbuf = bulks (x # xs), rsrc = ds\<rparr> = read_elems (acc @ [x]) \<lparr>rbuf = bulks xs, rsrc = ds\<rparr>"
    using Cons.prems by (simp add: read_elems.simps[of acc] Buffered_def)
  with Cons.IH[of "acc @ [x]"] Cons.prems show ?case by simp
qed

text \<open>A request that has arrived in one chunk, with some more bytes \<open>u\<close> behind it or none.\<close>

lemma serve_command_pipelined:
  assumes "at_prompt c s" "in_chunk (rd_of c s) (resp_array (cmd # args) @ u) ds" "arg_ok cmd" "ToUpper cmd = w"
  shows "serve_loop P c s
    = and_then (dispatch P w c (set_rd c \<lparr>rbuf = bulks args @ u, rsrc = ds\<rparr> s)) (serve_loop P c)"
proof -
  let ?rest = "u @ concat (map ev_bytes ds)"
  have st: "stream_of c s = resp_array (cmd # args) @ ?rest"
    using assms(2) by (auto simp: in_chunk_def stream_of_def stream_def)
  then have "act (conns s c) = Serving" "at_request c s (cmd # args) ?rest"
    using assms(1) by (simp_all add: at_prompt_def at_request_def)
  from serve_request[OF this assms(3), of P] obtain r where
    "stream r = bulks args @ ?rest" "no_errors r" "rsrc (rd_of c s) = [] \<longrightarrow> rsrc r = []" and r:
    "\<forall>u ds. in_chunk (rd_of c s) (array_header (int (length (cmd # args))) @ bulk cmd @ u) ds
      \<longrightarrow> stream_of c s = resp_array (cmd # args) @ ?rest \<longrightarrow> r = \<lparr>rbuf = u, rsrc = ds\<rparr>"
    "serve_loop P c s = and_then (dispatch P (ToUpper cmd) c (set_rd c r s)) (serve_loop P c)" .
  have "in_chunk (rd_of c s) (array_header (int (length (cmd # args))) @ bulk cmd @ (bulks args @ u)) ds"
    using assms(2) by (simp add: resp_array_def)
  then have "r = \<lparr>rbuf = bulks args @ u, rsrc = ds\<rparr>" using r(1) st by blast
  then show ?thesis using r(2) assms(4) by blast
qed

lemma serve_command_chunk:
  assumes "at_prompt c s" "in_chunk (rd_of c s) (resp_array (cmd # args)) ds" "arg_ok cmd" "ToUpper cmd = w"
  shows "serve_loop P c s
    = and_then (dispatch P w c (set_rd c \<lparr>rbuf = bulks args, rsrc = ds\<rparr> s)) (serve_loop P c)"
  using serve_command_pipelined[of c s cmd args "[]" ds w P] assms by simp

lemma HandleRPush_chunk:
  assumes "authed c s" "rd_of c s = \<lparr>rbuf = bulk k @ bulks xs, rsrc = ds\<rparr>" "arg_ok k" "\<forall>x \<in> set xs. arg_ok x"
  shows "HandleRPush c s = and_then (rpush k xs (set_rd c \<lparr>rbuf = [], rsrc = ds\<rparr> s))
    (\<lambda>t. Done (reply c (int_reply (int (length (elements (load_list k s)) + length xs))) t))"
proof -
  have "read_field (rd_of c s) = (k @ crlf, None, \<lparr>rbuf = bulks xs, rsrc = ds\<rparr>)"
    by (rule read_field_in_chunk) (simp_all add: assms(2,3) in_chunk_def)
  with assms read_elems_chunk[OF assms(4), of "[]" ds] show ?thesis by (simp add: HandleRPush_def Let_def)
qed

lemma HandleLPush_chunk:
  assumes "authed c s" "rd_of c s = \<lparr>rbuf = bulk k @ bulks xs, rsrc = ds\<rparr>" "arg_ok k" "\<forall>x \<in> set xs. arg_ok x"
  shows "HandleLPush c s =
    (let t = lpush k xs (set_rd c \<lparr>rbuf = [], rsrc = ds\<rparr> s)
     in Done (reply c (int_reply (int (length (elements (load_list k t))))) t))"
proof -
  have "read_field (rd_of c s) = (k @ crlf, None, \<lparr>rbuf = bulks xs, rsrc = ds\<rparr>)"
    by (rule read_field_in_chunk) (simp_all add: assms(2,3) in_chunk_def)
  with assms read_elems_chunk[OF assms(4), of "[]" ds] show ?thesis by (simp add: HandleLPush_def Let_def)
qed

lemma fold_cons: "fold (\<lambda>x xs. x # xs) ys zs = rev ys @ zs"
  by (induction ys arbitrary: zs) auto

lemma HandleLRange_request:
  assumes "authed c s" "input_ok c s" "stream_of c s = bulks [k, itoa i, itoa j] @ rest" "arg_ok k"
    "in_i64 i" "in_i64 j"
  obtains r where "stream r = rest" "no_errors r"
    "HandleLRange c s =
      (case ListRegistry s k of
         None \<Rightarrow> Done (reply c empty_array (set_rd c r s))
       | Some l \<Rightarrow> (case lrange (elements l) i j of
           None \<Rightarrow> Panic (set_rd c r s)
         | Some response \<Rightarrow> Done (reply c response (set_rd c r s))))"
proof -
  have "no_errors (rd_of c s)" "stream (rd_of c s) = bulk k @ (bulk (itoa i) @ bulk (itoa j) @ rest)"
    using assms(2,3) by (simp_all add: input_ok_def stream_of_def)
  from read_field_bulk[OF this assms(4)] obtain r1 where r1: "read_field (rd_of c s) = (k @ crlf, None, r1)"
      "stream r1 = bulk (itoa i) @ bulk (itoa j) @ rest" "no_errors r1"
    by blast
  from read_field_bulk[OF r1(3,2) arg_ok_itoa] obtain r2 where r2: "read_field r1 = (itoa i @ crlf, None, r2)"
      "stream r2 = bulk (itoa j) @ rest" "no_errors r2"
    by blast
  from read_field_bulk[OF r2(3,2) arg_ok_itoa] obtain r3 where r3: "read_field r2 = (itoa j @ crlf, None, r3)"
      "stream r3 = rest" "no_errors r3"
    by blast
  have "HandleLRange c s =
      (case ListRegistry s k of
         None \<Rightarrow> Done (reply c empty_array (set_rd c r3 s))
       | Some l \<Rightarrow> (case lrange (elements l) i j of
           None \<Rightarrow> Panic (set_rd c r3 s)
         | Some response \<Rightarrow> Done (reply c response (set_rd c r3 s))))"
    using assms(1,4-6) r1(1) r2(1) r3(1) by (simp add: HandleLRange_def Let_def)
  from that[OF r3(2,3) this] show thesis .
qed

section \<open>LRANGE as a function\<close>

text \<open>The index an argument stands for, on a list of \<open>n\<close> elements.\<close>

definition clamp_index :: "int \<Rightarrow> int \<Rightarrow> int" where
  "clamp_index n i = min (if i < 0 then max 0 (i + n) else i) (n - 1)"

lemma lrange_slice:
  assumes "xs \<noteq> []" "in_i64 i" "in_i64 j" "in_i64 (int (length xs))"
    "clamp_index (int (length xs)) i = a" "clamp_index (int (length xs)) j = b"
  shows "lrange xs i j = Some (array_header (b - a + 1) @ bulks (take (nat (b - a + 1)) (drop (nat a) xs)))"
proof -
  let ?n = "int (length xs)"
  have n: "0 < ?n" using assms(1) by simp
  have wrap: "i64 (m + ?n) = m + ?n" if "in_i64 m" "m < 0" for m
    using that assms(4) n by (intro i64_id) (auto simp: in_i64_def)
  have ij: "(if i < 0 then max 0 (i64 (i + ?n)) else i) = (if i < 0 then max 0 (i + ?n) else i)"
    "(if j < 0 then max 0 (i64 (j + ?n)) else j) = (if j < 0 then max 0 (j + ?n) else j)"
    using wrap assms(2,3) by auto
  have ab: "0 \<le> a" "b < ?n" "a < ?n" "0 \<le> b" using n assms(5,6) by (auto simp: clamp_index_def)
  have "those (map (\<lambda>i. if 0 \<le> i \<and> i < ?n then Some (bulk (xs ! nat i)) else None) [a..b])
      = Some (map (\<lambda>i. bulk (xs ! nat i)) [a..b])"
    using ab by (intro those_map_Some) auto
  then show ?thesis
    unfolding lrange_def Let_def ij clamp_index_def[symmetric] assms(5,6)
    using upto_nths[OF ab(1,2), of bulk] by (simp only: option.map bulks_def)
qed


section \<open>Pushes and ranges through the wire\<close>

lemma chans_update_frame [simp]:
  "load_list k (s\<lparr>chans := x\<rparr>) = load_list k s" "out e (s\<lparr>chans := x\<rparr>) = out e s"
  "healthy e (s\<lparr>chans := x\<rparr>) = healthy e s" "at_prompt e (s\<lparr>chans := x\<rparr>) = at_prompt e s"
  "rd_of e (s\<lparr>chans := x\<rparr>) = rd_of e s"
  by (simp_all add: load_list_def out_def healthy_def at_prompt_def input_ok_def rd_of_def)

lemma set_rd_chans: "(set_rd c r s)\<lparr>chans := x\<rparr> = set_rd c r (s\<lparr>chans := x\<rparr>)"
  by (cases s) (simp add: set_rd_def)

lemma chans_same [simp]: "chans s = x \<Longrightarrow> s\<lparr>chans := x\<rparr> = s"
  by simp

lemma serve_rpush:
  assumes "at_prompt c s" "authed c s" "queue_ok s" "in_chunk (rd_of c s) (resp_array (rp # k # xs)) ds"
    "arg_ok rp" "ToUpper rp = ''RPUSH''" "arg_ok k" "\<forall>x \<in> set xs. arg_ok x"
  defines "l \<equiv> load_list k s"
  shows "serve_loop P c s = serve_loop P c (reply c (int_reply (int (length (elements l) + length xs)))
     (put_list k \<lparr>elements = elements l @ drop (length (clients l)) xs, clients = drop (length xs) (clients l)\<rparr>
       ((set_rd c \<lparr>rbuf = [], rsrc = ds\<rparr> s)\<lparr>chans := deliver (clients l) xs (chans s)\<rparr>)))"
proof -
  let ?s = "set_rd c \<lparr>rbuf = bulk k @ bulks xs, rsrc = ds\<rparr> s"
  have "HandleRPush c ?s = and_then (rpush k xs (set_rd c \<lparr>rbuf = [], rsrc = ds\<rparr> s))
      (\<lambda>t. Done (reply c (int_reply (int (length (elements l) + length xs))) t))"
    using HandleRPush_chunk[where c = c and s = ?s and k = k and xs = xs and ds = ds] assms by simp
  moreover have "rpush k xs (set_rd c \<lparr>rbuf = [], rsrc = ds\<rparr> s)
      = Done (put_list k \<lparr>elements = elements l @ drop (length (clients l)) xs, clients = drop (length xs) (clients l)\<rparr>
         ((set_rd c \<lparr>rbuf = [], rsrc = ds\<rparr> s)\<lparr>chans := deliver (clients l) xs (chans s)\<rparr>))"
    using rpush_done[of l "set_rd c \<lparr>rbuf = [], rsrc = ds\<rparr> s" k xs] queue_ok_load[OF assms(3), of k]
    by (simp add: l_def)
  ultimately show ?thesis
    using serve_command_chunk[OF assms(1,4,5,6), of P] by (simp add: dispatch_words)
qed

lemma serve_lrange:
  assumes "at_prompt c s" "authed c s" "stream_of c s = resp_array [lr, k, itoa i, itoa j] @ rest"
    "arg_ok lr" "ToUpper lr = ''LRANGE''" "arg_ok k" "in_i64 i" "in_i64 j"
  obtains r where "stream r = rest" "no_errors r"
    "serve_loop P c s = (case ListRegistry s k of
       None \<Rightarrow> serve_loop P c (reply c empty_array (set_rd c r s))
     | Some l \<Rightarrow> (case lrange (elements l) i j of
         None \<Rightarrow> Panic (set_rd c r s)
       | Some response \<Rightarrow> serve_loop P c (reply c response (set_rd c r s))))"
proof -
  from serve_command[OF assms(1,3,4,5)] obtain r where r: "stream r = bulks [k, itoa i, itoa j] @ rest" "no_errors r"
    "serve_loop P c s = and_then (dispatch P ''LRANGE'' c (set_rd c r s)) (serve_loop P c)"
    by blast
  have "authed c (set_rd c r s)" "input_ok c (set_rd c r s)" "stream_of c (set_rd c r s) = bulks [k, itoa i, itoa j] @ rest"
    using assms(2) r(1,2) by simp_all
  from HandleLRange_request[OF this assms(6-8)] obtain r' where "stream r' = rest" "no_errors r'"
    "HandleLRange c (set_rd c r s) = (case ListRegistry (set_rd c r s) k of
       None \<Rightarrow> Done (reply c empty_array (set_rd c r' (set_rd c r s)))
     | Some l \<Rightarrow> (case lrange (elements l) i j of
         None \<Rightarrow> Panic (set_rd c r' (set_rd c r s))
       | Some response \<Rightarrow> Done (reply c response (set_rd c r' (set_rd c r s)))))" .
  with r(3) that[of r'] show thesis
    by (simp add: dispatch_words split: option.splits)
qed

lemma clamp_index_bounds:
  assumes "0 < n" shows "0 \<le> clamp_index n i" "clamp_index n i < n"
  using assms by (simp_all add: clamp_index_def)

lemma slice_length:
  assumes "0 \<le> a" "b < int (length ys)"
  shows "length (take (nat (b - a + 1)) (drop (nat a) ys)) = nat (b - a + 1)"
  using assms by simp

lemma lrange_resp_array:
  assumes "xs \<noteq> []" "in_i64 i" "in_i64 j" "in_i64 (int (length xs))"
    "clamp_index (int (length xs)) i = a" "clamp_index (int (length xs)) j = b" "a \<le> b + 1"
  shows "lrange xs i j = Some (resp_array (take (nat (b - a + 1)) (drop (nat a) xs)))"
proof -
  have "0 \<le> a" "b < int (length xs)"
    using assms(1) clamp_index_bounds unfolding assms(5,6)[symmetric] by simp_all
  from slice_length[OF this] lrange_slice[OF assms(1-6)] assms(7) show ?thesis
    by (simp add: resp_array_def del: length_take)
qed

lemma lrange_reversed:
  assumes "xs \<noteq> []" "in_i64 i" "in_i64 j" "in_i64 (int (length xs))"
    "clamp_index (int (length xs)) i = a" "clamp_index (int (length xs)) j = b" "b + 1 < a"
  shows "lrange xs i j = Some (''*-'' @ itoa (a - b - 1) @ crlf)"
proof -
  have "b - a + 1 = - (a - b - 1)" "0 < a - b - 1" using assms(7) by simp_all
  then have "array_header (b - a + 1) = ''*-'' @ itoa (a - b - 1) @ crlf"
    by (simp add: array_header_def itoa_def algebra_simps)
  then show ?thesis using lrange_slice[OF assms(1-6)] assms(7) by (simp add: bulks_def)
qed

text \<open>
  What \<open>LRANGE\<close> answers for the clamped indices \<open>a\<close> and \<open>b\<close> of a non-empty list: the elements from
  \<open>a\<close> to \<open>b\<close>, none for \<open>a = b + 1\<close>, and an array header with a negative count for a start that lies
  further behind the end.
\<close>

definition range_reply :: "int \<Rightarrow> int \<Rightarrow> string list \<Rightarrow> string" where
  "range_reply a b ys = (if b + 1 < a then ''*-'' @ itoa (a - b - 1) @ crlf
     else resp_array (take (nat (b - a + 1)) (drop (nat a) ys)))"

text \<open>
  C13: A client that sends \<open>RPUSH k x1 .. xn\<close> and then \<open>LRANGE k i j\<close> (each in one piece), with no client
  waiting for the list. If the list is then not empty, the client gets its new length and exactly the
  elements from index \<open>i\<close> to \<open>j\<close> of the old list followed by the new elements, in order, with
  negative indices counted from the end and both clamped to the list; for a start index that lies
  two or more behind the end index it gets, instead of the empty array, an array header with a
  negative count. If the list is empty (an \<open>RPUSH\<close> of no elements to an absent or emptied list) the
  client gets the length \<open>0\<close> and the \<open>LRANGE\<close> panics, which ends the server.
\<close>

theorem rpush_then_lrange:
  assumes "at_prompt c s" "authed c s" "queue_ok s" "clients (load_list k s) = []"
    "rd_of c s = \<lparr>rbuf = [], rsrc = [Chunk (resp_array (rp # k # xs)), Chunk (resp_array [lr, k, itoa i, itoa j])]\<rparr>"
    "arg_ok rp" "ToUpper rp = ''RPUSH''" "arg_ok lr" "ToUpper lr = ''LRANGE''" "arg_ok k" "\<forall>x \<in> set xs. arg_ok x"
    "in_i64 i" "in_i64 j" "ys = elements (load_list k s) @ xs" "in_i64 (int (length ys))"
  shows "if ys = [] then \<exists>t. serve_loop P c s = Panic t \<and> out c t = out c s @ int_reply 0
    else \<exists>t. serve_loop P c s = Done t \<and> load_list k t = \<lparr>elements = ys, clients = []\<rparr> \<and>
      out c t = out c s @ int_reply (int (length ys))
        @ range_reply (clamp_index (int (length ys)) i) (clamp_index (int (length ys)) j) ys"
proof -
  let ?ds = "[Chunk (resp_array [lr, k, itoa i, itoa j])]"
  let ?s = "reply c (int_reply (int (length ys))) (put_list k \<lparr>elements = ys, clients = []\<rparr>
      (set_rd c \<lparr>rbuf = [], rsrc = ?ds\<rparr> s))"
  have "in_chunk (rd_of c s) (resp_array (rp # k # xs)) ?ds" using assms(5) by (simp add: in_chunk_def)
  from serve_rpush[OF assms(1,2,3) this assms(6,7,10,11), of P]
  have 1: "serve_loop P c s = serve_loop P c ?s" using assms(4,14) by simp
  have "at_prompt c ?s" "authed c ?s" "stream_of c ?s = resp_array [lr, k, itoa i, itoa j] @ []"
    using assms(1,2) by (simp_all add: no_errors_def stream_of_def stream_def)
  from serve_lrange[OF this assms(8-10,12,13), of P] obtain r where r: "stream r = []" "no_errors r"
    "serve_loop P c ?s = (case lrange ys i j of
         None \<Rightarrow> Panic (set_rd c r ?s)
       | Some response \<Rightarrow> serve_loop P c (reply c response (set_rd c r ?s)))"
    by auto
  show ?thesis
  proof (cases "ys = []")
    case True
    then have "lrange ys i j = None" by (simp add: lrange_def Let_def)
    with r(3) 1 True assms(1) show ?thesis by (simp add: at_prompt_def)
  next
    case False
    let ?rep = "range_reply (clamp_index (int (length ys)) i) (clamp_index (int (length ys)) j) ys"
    have "lrange ys i j = Some ?rep"
      using lrange_resp_array[OF False assms(12,13,15) refl refl] lrange_reversed[OF False assms(12,13,15) refl refl]
      by (auto simp: range_reply_def)
    with r(3) have 2: "serve_loop P c ?s = serve_loop P c (reply c ?rep (set_rd c r ?s))" by simp
    have "at_prompt c (reply c ?rep (set_rd c r ?s))" "stream_of c (reply c ?rep (set_rd c r ?s)) = []"
      using \<open>at_prompt c ?s\<close> r(1,2) by simp_all
    from serve_done[OF this, of P] 1 2 False assms(1) show ?thesis
      by (simp add: at_prompt_def load_list_def)
  qed
qed

text \<open>
  \<open>LRANGE\<close> on a non-empty list whose start index lies behind its end index by two or more
  answers an array header with a negative count instead of the empty array (for a difference of
  two, the null array \<open>*-1\<close>).
\<close>

lemma lrange_reversed_negative_header:
  assumes "at_prompt c s" "authed c s" "stream_of c s = resp_array [lr, k, itoa i, itoa j]"
    "arg_ok lr" "ToUpper lr = ''LRANGE''" "arg_ok k" "in_i64 i" "in_i64 j"
    "ListRegistry s k = Some l" "elements l \<noteq> []" "in_i64 (int (length (elements l)))"
    "clamp_index (int (length (elements l))) i = a" "clamp_index (int (length (elements l))) j = b" "b + 1 < a"
  shows "\<exists>t. serve_loop P c s = Done t \<and> out c t = out c s @ ''*-'' @ itoa (a - b - 1) @ crlf"
proof -
  have "stream_of c s = resp_array [lr, k, itoa i, itoa j] @ []" using assms(3) by simp
  from serve_lrange[OF assms(1,2) this assms(4-8), of P] obtain r where r: "stream r = []" "no_errors r"
    "serve_loop P c s = (case ListRegistry s k of
       None \<Rightarrow> serve_loop P c (reply c empty_array (set_rd c r s))
     | Some l \<Rightarrow> (case lrange (elements l) i j of
         None \<Rightarrow> Panic (set_rd c r s)
       | Some response \<Rightarrow> serve_loop P c (reply c response (set_rd c r s))))" .
  have "lrange (elements l) i j = Some (''*-'' @ itoa (a - b - 1) @ crlf)"
    by (rule lrange_reversed[OF assms(10,7,8,11,12,13,14)])
  with r assms(9) serve_done_reply[OF assms(1) r(1,2), of P] assms(1) show ?thesis
    by (simp add: at_prompt_def)
qed

text \<open>
  \<open>LRANGE\<close> on a list that exists and has become empty panics, whatever the indices (given as
  64-bit integers), and so ends the server.
\<close>

lemma lrange_emptied_list_panics:
  assumes "at_prompt c s" "authed c s" "stream_of c s = resp_array [lr, k, itoa i, itoa j] @ rest"
    "arg_ok lr" "ToUpper lr = ''LRANGE''" "arg_ok k" "in_i64 i" "in_i64 j"
    "ListRegistry s k = Some l" "elements l = []"
  shows "\<exists>t. serve_loop P c s = Panic t"
proof -
  have "lrange [] i j = None" by (simp add: lrange_def Let_def)
  with serve_lrange[OF assms(1-8), of P] assms(9,10) show ?thesis by (metis option.simps(4,5))
qed

section \<open>LPOP\<close>

lemma fold_bulks: "fold (\<lambda>e resp. resp @ bulk e) xs acc = acc @ bulks xs"
  by (induction xs arbitrary: acc) auto

text \<open>What \<open>LPOP\<close> answers for \<open>n\<close> popped elements.\<close>

definition popped_reply :: "nat \<Rightarrow> string list \<Rightarrow> string" where
  "popped_reply n xs = (if n = 1 then bulk (hd xs) else resp_array (take n xs))"

lemma lpop_popped:
  assumes "n \<le> length xs"
  shows "lpop xs (int n) = Some (popped_reply n xs, drop n xs)"
proof (cases "n = 1")
  case True
  with assms show ?thesis by (cases xs) (auto simp: lpop_def popped_reply_def)
next
  case False
  then have "int n \<noteq> 1" by simp
  with False assms show ?thesis
    by (simp add: lpop_def popped_reply_def fold_bulks resp_array_def Let_def min_def)
qed

lemma lpop_run_cases:
  "ListRegistry s k = Some l \<Longrightarrow> n \<le> length (elements l) \<Longrightarrow> lpop_run c k (int n) s
    = Done (reply c (popped_reply n (elements l)) (put_list k (l\<lparr>elements := drop n (elements l)\<rparr>) s))"
  "ListRegistry s k = Some l \<Longrightarrow> length (elements l) < n \<Longrightarrow> lpop_run c k (int n) s = Panic s"
  "ListRegistry s k = None \<Longrightarrow> lpop_run c k (int n) s = Done (reply c nil_bulk s)"
  by (simp_all add: lpop_run_def lpop_popped) (simp add: lpop_def)

lemma HandleLPop_rest:
  assumes "authed c s" "in_chunk (rd_of c s) (bulk k @ u) ds" "arg_ok k"
  shows "HandleLPop c s =
    (if u = [] then lpop_run c k 1 (set_rd c \<lparr>rbuf = [], rsrc = ds\<rparr> s)
     else let (argStr, err, r2) = read_field \<lparr>rbuf = u, rsrc = ds\<rparr>; s1 = set_rd c r2 s
          in if err \<noteq> None then Done s1
             else (case Atoi (TrimSpace (TrimPrefix argStr ''$'')) of
                     (arg, Some e) \<Rightarrow> Done s1
                   | (arg, None) \<Rightarrow> lpop_run c k arg s1))"
  using assms read_field_in_chunk[OF assms(2,3)] 
  by (auto simp: HandleLPop_def Buffered_def Let_def split: prod.splits option.splits)

lemma TrimPrefix_itoa: "TrimPrefix (itoa n @ x) ''$'' = itoa n @ x"
proof -
  obtain d ds where i: "itoa n = d # ds" by (cases "itoa n") auto
  have "itoa n = CHR ''-'' # ds \<or> is_digit d"
    using i nat_digits_hd[of "nat n"] digit_facts by (auto simp: itoa_def split: if_splits)
  then have "d \<noteq> CHR ''$''" using i by (auto simp: is_digit_def)
  then show ?thesis using i by (simp add: TrimPrefix_def HasPrefix_def)
qed

text \<open>The count of an \<open>LPOP\<close>, given or not, when the request is all that is buffered.\<close>

definition lpop_count :: "int option \<Rightarrow> int" where
  "lpop_count a = (case a of None \<Rightarrow> 1 | Some n \<Rightarrow> n)"

definition lpop_request :: "string \<Rightarrow> string \<Rightarrow> int option \<Rightarrow> string" where
  "lpop_request lp k a = resp_array (lp # k # (case a of None \<Rightarrow> [] | Some n \<Rightarrow> [itoa n]))"

lemma serve_lpop_run:
  assumes "at_prompt c s" "authed c s" "in_chunk (rd_of c s) (lpop_request lp k a) []"
    "arg_ok lp" "ToUpper lp = ''LPOP''" "arg_ok k" "in_i64 (lpop_count a)"
  shows "serve_loop P c s
    = and_then (lpop_run c k (lpop_count a) (set_rd c \<lparr>rbuf = [], rsrc = []\<rparr> s)) (serve_loop P c)"
proof -
  define u where "u = bulks (case a of None \<Rightarrow> [] | Some n \<Rightarrow> [itoa n])"
  let ?s = "set_rd c \<lparr>rbuf = bulk k @ u, rsrc = []\<rparr> s" and ?e = "set_rd c \<lparr>rbuf = [], rsrc = []\<rparr> s"
  have 1: "serve_loop P c s = and_then (HandleLPop c ?s) (serve_loop P c)"
    using serve_command_chunk[OF assms(1) assms(3)[unfolded lpop_request_def] assms(4,5), of P]
    by (simp add: dispatch_words u_def)
  have "in_chunk (rd_of c ?s) (bulk k @ u) []" "authed c ?s" using assms(2) by (simp_all add: in_chunk_def)
  note H = HandleLPop_rest[OF this(2,1) assms(6)]
  have "HandleLPop c ?s = lpop_run c k (lpop_count a) ?e"
  proof (cases a)
    case None
    then show ?thesis using H by (simp add: u_def lpop_count_def)
  next
    case (Some n)
    then have "read_field \<lparr>rbuf = u, rsrc = []\<rparr> = (itoa n @ crlf, None, \<lparr>rbuf = [], rsrc = []\<rparr>)"
      by (intro read_field_in_chunk) (simp_all add: u_def in_chunk_def)
    then show ?thesis using H Some assms(7) by (simp add: u_def bulk_def TrimPrefix_itoa lpop_count_def)
  qed
  with 1 show ?thesis by simp
qed

lemma serve_lpop:
  assumes "at_prompt c s" "authed c s" "ListRegistry s k = Some l" "n \<le> length (elements l)"
    "in_chunk (rd_of c s) (resp_array (lp # k # (if n = 1 then [] else [itoa (int n)]))) []"
    "arg_ok lp" "ToUpper lp = ''LPOP''" "arg_ok k" "in_i64 (int n)"
  shows "serve_loop P c s = serve_loop P c (reply c (popped_reply n (elements l))
    (set_rd c \<lparr>rbuf = [], rsrc = []\<rparr> (put_list k (l\<lparr>elements := drop n (elements l)\<rparr>) s)))"
proof -
  define a where "a = (if n = 1 then None else Some (int n))"
  then have "lpop_count a = int n" "lpop_request lp k a = resp_array (lp # k # (if n = 1 then [] else [itoa (int n)]))"
    by (simp_all add: lpop_count_def lpop_request_def)
  with serve_lpop_run[OF assms(1,2) _ assms(6-8), of a P] assms(3-5,9) show ?thesis
    by (simp add: lpop_run_cases put_list_set_rd)
qed

text \<open>
  C39: \<open>LPOP k\<close> and \<open>LPOP k n\<close>, for any 64-bit \<open>n\<close>, with nothing else buffered, on a connection that is
  logged in. Without a list under \<open>k\<close> the answer is the null string and no list changes. If the list
  has \<open>n\<close> elements (one without a count) they are taken off its front and answered, a single one as
  a string and otherwise as an array, and what is left keeps its order and its waiting clients. A
  count that is negative or larger than the list panics before any answer, which ends the server.
\<close>

theorem lpop_takes_front:
  assumes "at_prompt c s" "authed c s" "in_chunk (rd_of c s) (lpop_request lp k a) []"
    "arg_ok lp" "ToUpper lp = ''LPOP''" "arg_ok k" "in_i64 (lpop_count a)" "n = lpop_count a"
  shows "case ListRegistry s k of
      None \<Rightarrow> \<exists>t. serve_loop P c s = Done t \<and> ListRegistry t = ListRegistry s \<and> out c t = out c s @ nil_bulk
    | Some l \<Rightarrow>
        if 0 \<le> n \<and> n \<le> int (length (elements l))
        then \<exists>t. serve_loop P c s = Done t \<and>
          ListRegistry t = (ListRegistry s)(k \<mapsto> l\<lparr>elements := drop (nat n) (elements l)\<rparr>) \<and>
          out c t = out c s @ (if n = 1 then bulk (elements l ! 0) else resp_array (take (nat n) (elements l)))
        else \<exists>t. serve_loop P c s = Panic t \<and> out c t = out c s"
proof -
  let ?e = "\<lparr>rbuf = [], rsrc = []\<rparr>"
  note run = serve_lpop_run[OF assms(1-7), of P, folded assms(8)]
  have e: "stream ?e = []" "no_errors ?e" by (simp_all add: stream_def no_errors_def)
  show ?thesis
  proof (cases "ListRegistry s k")
    case None
    then show ?thesis using run serve_done_reply[OF assms(1) e, of P] assms(1)
      by (simp add: lpop_run_def at_prompt_def)
  next
    case (Some l)
    show ?thesis
    proof (cases "0 \<le> n \<and> n \<le> int (length (elements l))")
      case True
      define m where "m = nat n"
      have m: "n = int m" "m \<le> length (elements l)" using True by (simp_all add: m_def nat_le_iff)
      have "popped_reply m (elements l) = (if n = 1 then bulk (elements l ! 0) else resp_array (take (nat n) (elements l)))"
        using m by (cases "elements l") (auto simp: popped_reply_def)
      moreover have "serve_loop P c s = serve_loop P c (reply c (popped_reply m (elements l))
          (set_rd c ?e (put_list k (l\<lparr>elements := drop m (elements l)\<rparr>) s)))"
        using run Some m by (simp add: lpop_run_cases put_list_set_rd)
      moreover have "at_prompt c (put_list k (l\<lparr>elements := drop m (elements l)\<rparr>) s)" using assms(1) by simp
      ultimately show ?thesis using serve_done_reply[of c _ ?e P] e assms(1) Some True m
        by (simp add: at_prompt_def)
    next
      case False
      then have "lpop (elements l) n = None" by (auto simp: lpop_def)
      with run Some False assms(1) show ?thesis by (simp add: lpop_run_def at_prompt_def)
    qed
  qed
qed

text \<open>
  A request that is already buffered behind \<open>LPOP k\<close> is taken for its count: the length line of
  its command's name. So \<open>LPOP k\<close> with another command of \<open>n\<close> letters behind it pops \<open>n\<close> elements
  (and panics when the list has fewer).
\<close>

lemma lpop_takes_count_from_next_request:
  assumes "at_prompt c s" "authed c s" "ListRegistry s k = Some l"
    "in_chunk (rd_of c s) (resp_array [lp, k] @ resp_array (cmd # args)) ds"
    "arg_ok lp" "ToUpper lp = ''LPOP''" "arg_ok k" "in_i64 (int (length cmd))"
  shows "if length cmd \<le> length (elements l)
    then \<exists>r. stream r = cmd @ crlf @ bulks args @ concat (map ev_bytes ds) \<and>
      serve_loop P c s = serve_loop P c (set_rd c r (reply c (popped_reply (length cmd) (elements l))
        (put_list k (l\<lparr>elements := drop (length cmd) (elements l)\<rparr>) s)))
    else \<exists>t. serve_loop P c s = Panic t"
proof -
  define u where "u = resp_array (cmd # args)"
  define r where "r = \<lparr>rbuf = cmd @ crlf @ bulks args, rsrc = ds\<rparr>"
  let ?s = "set_rd c \<lparr>rbuf = bulk k @ u, rsrc = ds\<rparr> s"
  have u: "u = (CHR ''*'' # itoa (int (length (cmd # args))) @ [CR]) @ LF # (CHR ''$'' # itoa (int (length cmd)) @ [CR])
      @ LF # (cmd @ crlf @ bulks args)"
    by (simp add: u_def resp_array_def array_header_def bulk_def crlf_def)
  have "skip_line \<lparr>rbuf = u, rsrc = ds\<rparr> = \<lparr>rbuf = (CHR ''$'' # itoa (int (length cmd)) @ [CR])
      @ LF # (cmd @ crlf @ bulks args), rsrc = ds\<rparr>"
    unfolding skip_line_def u by (subst ReadString_in_chunk) (auto simp: in_chunk_def)
  then have rf: "read_field \<lparr>rbuf = u, rsrc = ds\<rparr> = (CHR ''$'' # itoa (int (length cmd)) @ crlf, None, r)"
    unfolding read_field_def by (subst ReadString_in_chunk) (auto simp: in_chunk_def crlf_def r_def)
  have "in_chunk (rd_of c ?s) (bulk k @ u) ds" "authed c ?s" using assms(2) by (simp_all add: in_chunk_def)
  from HandleLPop_rest[OF this(2,1) assms(7)] rf assms(8)
  have H: "HandleLPop c ?s = lpop_run c k (int (length cmd)) (set_rd c r s)"
    by (simp add: u_def resp_array_def array_header_def TrimPrefix_def HasPrefix_def)
  have 1: "serve_loop P c s = and_then (HandleLPop c ?s) (serve_loop P c)"
    using serve_command_pipelined[of c s lp "[k]" u ds "''LPOP''" P] assms(1,4,5,6)
    by (simp add: dispatch_words u_def)
  show ?thesis
    using 1 assms(3) unfolding H
    by (auto simp: lpop_run_cases reply_set_rd put_list_set_rd r_def stream_def intro!: exI[of _ r])
qed

section \<open>Waiting clients\<close>

text \<open>
  A client of connection \<open>d\<close> waits in \<open>BLPOP k\<close> at place \<open>i\<close> of the list's queue.
\<close>

definition waits_at :: "nat \<Rightarrow> nat \<Rightarrow> string \<Rightarrow> server \<Rightarrow> bool" where
  "waits_at d i k s \<longleftrightarrow> (\<exists>dl. i < length (clients (load_list k s)) \<and>
     act (conns s d) = PopWait (clients (load_list k s) ! i) k dl)"

definition pop_reply :: "string \<Rightarrow> string \<Rightarrow> string" where
  "pop_reply k x = resp_array [k, x]"

lemma SendBLPOPSuccess_reply: "SendBLPOPSuccess c k x s = reply c (pop_reply k x) s"
proof -
  have "itoa 2 = ''2''" by code_simp
  then show ?thesis
    by (simp add: SendBLPOPSuccess_def pop_reply_def resp_array_def array_header_def bulk_def crlf_def)
qed

text \<open>
  C14: \<open>RPUSH k x1 .. xn\<close> serves the clients that wait in \<open>BLPOP k\<close> in the order they came: the client
  at place \<open>i < n\<close> of the queue, when its goroutine runs, answers \<open>[k, x(i+1)]\<close> and serves commands
  again; what is left goes to the end of the list, and the pushing client gets the list's length
  plus the number of elements.
\<close>

theorem rpush_serves_waiting_clients:
  assumes "at_prompt c s" "authed c s" "queue_ok s" "in_chunk (rd_of c s) (resp_array (rp # k # xs)) []"
    "arg_ok rp" "ToUpper rp = ''RPUSH''" "arg_ok k" "\<forall>x \<in> set xs. arg_ok x" "l = load_list k s"
    "waits_at d i k s" "i < length xs" "d \<noteq> c" "healthy d s"
  shows "\<exists>t. serve_loop P c s = Done t \<and>
    load_list k t = \<lparr>elements = elements l @ drop (length (clients l)) xs, clients = drop (length xs) (clients l)\<rparr> \<and>
    out c t = out c s @ int_reply (int (length (elements l) + length xs)) \<and>
    out d (blpop_receive d t) = out d s @ pop_reply k (xs ! i) \<and> act (conns (blpop_receive d t) d) = Serving"
proof -
  let ?r = "\<lparr>rbuf = [], rsrc = []\<rparr>" and ?n = "int_reply (int (length (elements l) + length xs))"
  let ?s = "put_list k \<lparr>elements = elements l @ drop (length (clients l)) xs, clients = drop (length xs) (clients l)\<rparr>
       (s\<lparr>chans := deliver (clients l) xs (chans s)\<rparr>)"
  have 1: "serve_loop P c s = serve_loop P c (reply c ?n (set_rd c ?r ?s))"
    using serve_rpush[OF assms(1-8), of P] assms(9) by (simp add: put_list_set_rd set_rd_chans)
  have "at_prompt c ?s" using assms(1) by simp
  from serve_done_reply[OF this, of ?r P ?n] 1
  have 2: "serve_loop P c s = Done (set_rd c ?r (reply c ?n ?s))"
    by (simp add: stream_def no_errors_def)
  let ?t = "set_rd c ?r (reply c ?n ?s)"
  obtain dl where w: "i < length (clients l)" "act (conns s d) = PopWait (clients l ! i) k dl"
    using assms(9,10) by (auto simp: waits_at_def)
  have "chans ?t (clients l ! i) = Some (xs ! i)"
    using deliver_nth[of "clients l" i xs] queue_ok_load(1)[OF assms(3)] w(1) assms(9,11) by simp
  moreover have "act (conns ?t d) = PopWait (clients l ! i) k dl" "healthy d ?t"
    "out d ?t = out d s" "out c ?t = out c s @ ?n" "load_list k ?t = load_list k ?s"
    using w(2) assms(1,12,13) by (simp_all add: at_prompt_def)
  ultimately show ?thesis
    using 2 by (simp add: blpop_receive_def SendBLPOPSuccess_reply)
qed

text \<open>
  C24: A \<open>BLPOP\<close> that times out can lose a pushed value: when a \<open>RPUSH k x\<close> takes the client's channel
  from the queue after the deadline was seen and before the client has left the queue, the value
  goes to the channel nobody reads any more; the popping client gets the null array, the pushing
  client a list length that counts \<open>x\<close>, and the list does not contain \<open>x\<close>.
\<close>

theorem blpop_timeout_loses_value:
  assumes "at_prompt c s" "authed c s" "queue_ok s" "in_chunk (rd_of c s) (resp_array [rp, k, x]) []"
    "arg_ok rp" "ToUpper rp = ''RPUSH''" "arg_ok k" "arg_ok x"
    "load_list k s = \<lparr>elements = [], clients = ch # chs\<rparr>" "act (conns s d) = PopWait ch k (Some dl)"
    "dl \<le> clock s" "d \<noteq> c" "healthy d s"
  shows "\<exists>t. serve_loop P c (blpop_expire d s) = Done t \<and> out c t = out c s @ int_reply 1 \<and>
    elements (load_list k (blpop_leave d t)) = [] \<and> out d (blpop_leave d t) = out d s @ nil_array \<and>
    act (conns (blpop_leave d t) d) = Serving \<and> chans (blpop_leave d t) ch = Some x"
proof -
  let ?e = "set_act d (PopExpired ch k) s" and ?r = "\<lparr>rbuf = [], rsrc = []\<rparr>"
  let ?s = "put_list k \<lparr>elements = [], clients = chs\<rparr> (?e\<lparr>chans := (chans s)(ch \<mapsto> x)\<rparr>)"
  have e: "blpop_expire d s = ?e" using assms(10,11) by (simp add: blpop_expire_def)
  have rd: "rd_of c ?e = rd_of c s" by simp
  have prompt: "at_prompt c ?e" using assms(1,12) rd by (simp add: at_prompt_def input_ok_def)
  have "queue_ok ?e" using assms(3) by (simp add: queue_ok_def)
  from serve_rpush[OF prompt _ this, of rp k "[x]" "[]" P] rd assms(2,4-9,12)
  have 1: "serve_loop P c ?e = serve_loop P c (reply c (int_reply 1) (set_rd c ?r ?s))"
    by (simp add: put_list_set_rd set_rd_chans)
  have "at_prompt c ?s" using prompt by simp
  from serve_done_reply[OF this, of ?r P "int_reply 1"] 1 e
  have 2: "serve_loop P c (blpop_expire d s) = Done (set_rd c ?r (reply c (int_reply 1) ?s))"
    by (simp add: stream_def no_errors_def)
  let ?t = "set_rd c ?r (reply c (int_reply 1) ?s)"
  have "act (conns ?t d) = PopExpired ch k" "healthy d ?t" "out d ?t = out d s" "out c ?t = out c s @ int_reply 1"
    "load_list k ?t = \<lparr>elements = [], clients = chs\<rparr>" "chans ?t = (chans s)(ch \<mapsto> x)"
    using assms(1,12,13) by (simp_all add: at_prompt_def)
  then show ?thesis using 2 by (simp add: blpop_leave_def Let_def)
qed

lemma lpush_frame [simp]:
  "out e (lpush k xs s) = out e s" "healthy e (lpush k xs s) = healthy e s" "at_prompt e (lpush k xs s) = at_prompt e s"
  "chans (lpush k xs s) = chans s" "conns (lpush k xs s) = conns s"
  "load_list k (lpush k xs s)
    = \<lparr>elements = rev xs @ elements (load_list k s), clients = clients (load_list k s)\<rparr>"
  by (cases "load_list k s"; simp add: lpush_def fold_cons Let_def)+

lemma lpush_set_rd: "lpush k xs (set_rd c r s) = set_rd c r (lpush k xs s)"
  by (simp add: lpush_def put_list_set_rd Let_def)

text \<open>
  \<open>LPUSH k x1 .. xn\<close> puts the elements in front of the list, the last one first, and answers the
  new length; but it does not wake a client that waits in \<open>BLPOP k\<close>, which goes on waiting (its
  goroutine's receive does nothing) although the list has elements.
\<close>

lemma lpush_leaves_clients_waiting:
  assumes "at_prompt c s" "authed c s" "queue_ok s" "in_chunk (rd_of c s) (resp_array (lp # k # xs)) []"
    "arg_ok lp" "ToUpper lp = ''LPUSH''" "arg_ok k" "\<forall>x \<in> set xs. arg_ok x" "waits_at d i k s" "d \<noteq> c"
  shows "\<exists>t. serve_loop P c s = Done t \<and> waits_at d i k t \<and> blpop_receive d t = t \<and>
    elements (load_list k t) = rev xs @ elements (load_list k s) \<and>
    out c t = out c s @ int_reply (int (length xs + length (elements (load_list k s))))"
proof -
  let ?s = "set_rd c \<lparr>rbuf = bulk k @ bulks xs, rsrc = []\<rparr> s" and ?r = "\<lparr>rbuf = [], rsrc = []\<rparr>"
  let ?n = "int_reply (int (length xs + length (elements (load_list k s))))"
  have "serve_loop P c s = serve_loop P c (reply c ?n (set_rd c ?r (lpush k xs s)))"
    using serve_command_chunk[OF assms(1,4,5,6), of P] assms(2,7,8)
      HandleLPush_chunk[where c = c and s = ?s and k = k and xs = xs and ds = "[]"]
    by (simp add: dispatch_words Let_def lpush_set_rd)
  moreover have "at_prompt c (lpush k xs s)" using assms(1) by simp
  ultimately have 1: "serve_loop P c s = Done (set_rd c ?r (reply c ?n (lpush k xs s)))"
    using serve_done_reply[of c "lpush k xs s" ?r P ?n] by (simp add: stream_def no_errors_def)
  obtain dl where w: "i < length (clients (load_list k s))"
    "act (conns s d) = PopWait (clients (load_list k s) ! i) k dl"
    using assms(9) by (auto simp: waits_at_def)
  then have "chans s (clients (load_list k s) ! i) = None" using queue_ok_load(2)[OF assms(3), of k] nth_mem by blast
  with 1 w assms(1) show ?thesis
    by (auto simp: at_prompt_def waits_at_def blpop_receive_def)
qed

section \<open>Examples\<close>

text \<open>A master with one list, a client on connection 0 and another one in activity \<open>a\<close> on connection 1.\<close>

definition list_server :: "inev list \<Rightarrow> activity \<Rightarrow> llist \<Rightarrow> server" where
  "list_server evs a l = (master_with (client_conn ''default'' evs))
     \<lparr>ListRegistry := [''queue'' \<mapsto> l], next_chan := 10, clock := 5,
      conns := (\<lambda>e. if e = 0 then client_conn ''default'' evs else (client_conn ''default'' [])\<lparr>act := a\<rparr>)\<rparr>"

lemma list_server [simp]:
  "at_prompt 0 (list_server evs a l) \<longleftrightarrow> ReadErr \<notin> set evs" "authed 0 (list_server evs a l)"
  "rd_of 0 (list_server evs a l) = \<lparr>rbuf = [], rsrc = evs\<rparr>"
  "stream_of 0 (list_server evs a l) = concat (map ev_bytes evs)"
  "ListRegistry (list_server evs a l) = [''queue'' \<mapsto> l]" "load_list ''queue'' (list_server evs a l) = l"
  "act (conns (list_server evs a l) (Suc 0)) = a" "clock (list_server evs a l) = 5"
  "healthy e (list_server evs a l)" "out e (list_server evs a l) = []"
  "queue_ok (list_server evs a l) \<longleftrightarrow> distinct (clients l) \<and> (\<forall>ch \<in> set (clients l). ch < 10)"
  by (auto simp: list_server_def example_defs at_prompt_def input_ok_def no_errors_def healthy_def rd_of_def
      CheckAuth_def stream_of_def stream_def load_list_def out_def queue_ok_def)

lemma waits_at_list_server [simp]:
  "waits_at (Suc 0) i ''queue'' (list_server evs a l)
    \<longleftrightarrow> i < length (clients l) \<and> (\<exists>dl. a = PopWait (clients l ! i) ''queue'' dl)"
  by (auto simp: waits_at_def)

lemma list_words [simp]:
  "arg_ok ''RPUSH''" "arg_ok ''LPUSH''" "arg_ok ''LRANGE''" "arg_ok ''LPOP''" "arg_ok ''queue''"
  "arg_ok ''a''" "arg_ok ''b''" "arg_ok ''c''" "arg_ok ''x''" "arg_ok ''y''" "arg_ok ''z''"
  by (rule arg_ok_graphic, simp add: graphic_def)+

lemma rpush_then_lrange_example:
  "(\<exists>t. serve_loop plain_platform 0
      (list_server [Chunk (resp_array [''RPUSH'', ''queue'', ''b'', ''c'']),
                    Chunk (resp_array [''LRANGE'', ''queue'', itoa (-2), itoa 5])] Serving
        \<lparr>elements = [''a''], clients = []\<rparr>) = Done t \<and> out 0 t = int_reply 3 @ resp_array [''b'', ''c''])
   \<and> (\<exists>t. serve_loop plain_platform 0
      (list_server [Chunk (resp_array [''RPUSH'', ''queue'', ''b'', ''c'']),
                    Chunk (resp_array [''LRANGE'', ''queue'', itoa 2, itoa 0])] Serving
        \<lparr>elements = [''a''], clients = []\<rparr>) = Done t \<and> out 0 t = int_reply 3 @ ''*-'' @ itoa 1 @ crlf)
   \<and> (\<exists>t. serve_loop plain_platform 0
      (list_server [Chunk (resp_array [''RPUSH'', ''queue'']),
                    Chunk (resp_array [''LRANGE'', ''queue'', itoa 0, itoa 0])] Serving
        \<lparr>elements = [], clients = []\<rparr>) = Panic t \<and> out 0 t = int_reply 0)"
  (is "?slice \<and> ?reversed \<and> ?empty")
proof (intro conjI)
  show ?slice
    using rpush_then_lrange[where P = plain_platform and c = 0 and rp = "''RPUSH''" and lr = "''LRANGE''"
        and k = "''queue''" and xs = "[''b'', ''c'']" and i = "-2" and j = 5 and ys = "[''a'', ''b'', ''c'']"
        and s = "list_server [Chunk (resp_array [''RPUSH'', ''queue'', ''b'', ''c'']),
                      Chunk (resp_array [''LRANGE'', ''queue'', itoa (-2), itoa 5])] Serving
          \<lparr>elements = [''a''], clients = []\<rparr>"]
    by (auto simp: in_i64_def clamp_index_def range_reply_def)
  show ?reversed
    using rpush_then_lrange[where P = plain_platform and c = 0 and rp = "''RPUSH''" and lr = "''LRANGE''"
        and k = "''queue''" and xs = "[''b'', ''c'']" and i = 2 and j = 0 and ys = "[''a'', ''b'', ''c'']"
        and s = "list_server [Chunk (resp_array [''RPUSH'', ''queue'', ''b'', ''c'']),
                      Chunk (resp_array [''LRANGE'', ''queue'', itoa 2, itoa 0])] Serving
          \<lparr>elements = [''a''], clients = []\<rparr>"]
    by (auto simp: in_i64_def clamp_index_def range_reply_def)
  show ?empty
    using rpush_then_lrange[where P = plain_platform and c = 0 and rp = "''RPUSH''" and lr = "''LRANGE''"
        and k = "''queue''" and xs = "[]" and i = 0 and j = 0 and ys = "[]"
        and s = "list_server [Chunk (resp_array [''RPUSH'', ''queue'']),
                      Chunk (resp_array [''LRANGE'', ''queue'', itoa 0, itoa 0])] Serving
          \<lparr>elements = [], clients = []\<rparr>"]
    by (auto simp: in_i64_def)
qed

lemma lrange_reversed_negative_header_example:
  "\<exists>t. serve_loop plain_platform 0
      (list_server [Chunk (resp_array [''LRANGE'', ''queue'', itoa 2, itoa 0])] Serving
        \<lparr>elements = [''a'', ''b'', ''c''], clients = []\<rparr>) = Done t \<and> out 0 t = ''*-'' @ itoa 1 @ crlf"
  using lrange_reversed_negative_header[where P = plain_platform and c = 0 and lr = "''LRANGE''" and k = "''queue''"
      and i = 2 and j = 0 and a = 2 and b = 0 and l = "\<lparr>elements = [''a'', ''b'', ''c''], clients = []\<rparr>"
      and s = "list_server [Chunk (resp_array [''LRANGE'', ''queue'', itoa 2, itoa 0])] Serving
        \<lparr>elements = [''a'', ''b'', ''c''], clients = []\<rparr>"]
  by (auto simp: in_i64_def clamp_index_def)

lemma lrange_emptied_list_panics_example:
  "\<exists>t. serve_loop plain_platform 0
      (list_server [Chunk (resp_array [''LRANGE'', ''queue'', itoa 0, itoa (-1)])] Serving
        \<lparr>elements = [], clients = []\<rparr>) = Panic t"
  using lrange_emptied_list_panics[where P = plain_platform and c = 0 and lr = "''LRANGE''" and k = "''queue''"
      and i = 0 and j = "-1" and l = "\<lparr>elements = [], clients = []\<rparr>" and rest = "[]"
      and s = "list_server [Chunk (resp_array [''LRANGE'', ''queue'', itoa 0, itoa (-1)])] Serving
        \<lparr>elements = [], clients = []\<rparr>"]
  by (auto simp: in_i64_def)

lemma lpop_takes_front_example:
  "(\<exists>t. serve_loop plain_platform 0
      (list_server [Chunk (lpop_request ''LPOP'' ''queue'' (Some 2))] Serving
        \<lparr>elements = [''a'', ''b'', ''c''], clients = []\<rparr>) = Done t \<and>
    out 0 t = resp_array [''a'', ''b''] \<and> load_list ''queue'' t = \<lparr>elements = [''c''], clients = []\<rparr>)
   \<and> (\<exists>t. serve_loop plain_platform 0
      (list_server [Chunk (lpop_request ''LPOP'' ''queue'' None)] Serving
        \<lparr>elements = [], clients = []\<rparr>) = Panic t \<and> out 0 t = [])"
  using lpop_takes_front[where P = plain_platform and c = 0 and lp = "''LPOP''" and k = "''queue''" and n = 2
      and a = "Some 2" and s = "list_server [Chunk (lpop_request ''LPOP'' ''queue'' (Some 2))] Serving
        \<lparr>elements = [''a'', ''b'', ''c''], clients = []\<rparr>"]
    lpop_takes_front[where P = plain_platform and c = 0 and lp = "''LPOP''" and k = "''queue''" and n = 1
      and a = None and s = "list_server [Chunk (lpop_request ''LPOP'' ''queue'' None)] Serving
        \<lparr>elements = [], clients = []\<rparr>"]
  by (auto simp: in_i64_def in_chunk_def load_list_def lpop_count_def)

lemma lpop_takes_count_from_next_request_example:
  "\<exists>r. serve_loop plain_platform 0
      (list_server [Chunk (resp_array [''LPOP'', ''queue''] @ resp_array [''GET'', ''k''])] Serving
        \<lparr>elements = [''a'', ''b'', ''c'', ''d''], clients = []\<rparr>)
    = serve_loop plain_platform 0 (set_rd 0 r (reply 0 (popped_reply 3 [''a'', ''b'', ''c'', ''d''])
        (put_list ''queue'' \<lparr>elements = [''d''], clients = []\<rparr>
          (list_server [Chunk (resp_array [''LPOP'', ''queue''] @ resp_array [''GET'', ''k''])] Serving
        \<lparr>elements = [''a'', ''b'', ''c'', ''d''], clients = []\<rparr>))))"
  using lpop_takes_count_from_next_request[where P = plain_platform and c = 0 and lp = "''LPOP''" and k = "''queue''"
      and l = "\<lparr>elements = [''a'', ''b'', ''c'', ''d''], clients = []\<rparr>" and cmd = "''GET''" and args = "[''k'']"
      and ds = "[]"
      and s = "list_server [Chunk (resp_array [''LPOP'', ''queue''] @ resp_array [''GET'', ''k''])] Serving
        \<lparr>elements = [''a'', ''b'', ''c'', ''d''], clients = []\<rparr>"]
  by (auto simp: in_i64_def in_chunk_def numeral_3_eq_3)

lemma rpush_serves_waiting_clients_example:
  "\<exists>t. serve_loop plain_platform 0
      (list_server [Chunk (resp_array [''RPUSH'', ''queue'', ''x'', ''y'', ''z''])] (PopWait 7 ''queue'' None)
        \<lparr>elements = [], clients = [4, 7]\<rparr>) = Done t \<and>
    out 1 (blpop_receive 1 t) = pop_reply ''queue'' ''y'' \<and> load_list ''queue'' t = \<lparr>elements = [''z''], clients = []\<rparr>"
  using rpush_serves_waiting_clients[where P = plain_platform and c = 0 and rp = "''RPUSH''" and k = "''queue''"
      and xs = "[''x'', ''y'', ''z'']" and d = 1 and i = 1 and l = "\<lparr>elements = [], clients = [4, 7]\<rparr>"
      and s = "list_server [Chunk (resp_array [''RPUSH'', ''queue'', ''x'', ''y'', ''z''])] (PopWait 7 ''queue'' None)
        \<lparr>elements = [], clients = [4, 7]\<rparr>"]
  by (auto simp: in_chunk_def)

lemma blpop_timeout_loses_value_example:
  "\<exists>t. serve_loop plain_platform 0 (blpop_expire 1
      (list_server [Chunk (resp_array [''RPUSH'', ''queue'', ''x''])] (PopWait 7 ''queue'' (Some 3))
        \<lparr>elements = [], clients = [7]\<rparr>)) = Done t \<and>
    out 0 t = int_reply 1 \<and> out 1 (blpop_leave 1 t) = nil_array \<and> elements (load_list ''queue'' (blpop_leave 1 t)) = []"
  using blpop_timeout_loses_value[where P = plain_platform and c = 0 and rp = "''RPUSH''" and k = "''queue''"
      and x = "''x''" and d = 1 and ch = 7 and chs = "[]" and dl = 3
      and s = "list_server [Chunk (resp_array [''RPUSH'', ''queue'', ''x''])] (PopWait 7 ''queue'' (Some 3))
        \<lparr>elements = [], clients = [7]\<rparr>"]
  by (auto simp: in_chunk_def)

lemma lpush_leaves_clients_waiting_example:
  "\<exists>t. serve_loop plain_platform 0
      (list_server [Chunk (resp_array [''LPUSH'', ''queue'', ''x''])] (PopWait 7 ''queue'' None)
        \<lparr>elements = [], clients = [7]\<rparr>) = Done t \<and>
    waits_at 1 0 ''queue'' t \<and> elements (load_list ''queue'' t) = [''x'']"
  using lpush_leaves_clients_waiting[where P = plain_platform and c = 0 and lp = "''LPUSH''" and k = "''queue''"
      and xs = "[''x'']" and d = 1 and i = 0
      and s = "list_server [Chunk (resp_array [''LPUSH'', ''queue'', ''x''])] (PopWait 7 ''queue'' None)
        \<lparr>elements = [], clients = [7]\<rparr>"]
  by (auto simp: in_chunk_def)

end
