(* ===== verification/Tester_Sorted_Set.thy ===== *)
theory Tester_Sorted_Set
  imports Sorted_Sets "HOL-Library.Product_Lexorder"
begin

text \<open>
  The tester's own sorted set (\<open>redis-tester/internal/data_structures/sorted_set\<close>), the oracle it
  checks the server's answers against: a slice that is re-sorted after every insertion. The order
  of \<open>sort.Slice\<close> on keys that are not \<open>NaN\<close> is that of the keys; where keys are equal it is the
  library's business.
\<close>

record SortedSetMember =
  MemberName :: string
  MemberScore :: float64

text \<open>The comparison of the method \<open>sort\<close>.\<close>

definition member_less :: "SortedSetMember \<Rightarrow> SortedSetMember \<Rightarrow> bool" where
  "member_less a b =
     (if \<not> feq (MemberScore a) (MemberScore b) then flt (MemberScore a) (MemberScore b)
      else MemberName a < MemberName b)"

text \<open>A sorting function for that comparison: insertion before the first member that is not smaller.\<close>

fun insert_member :: "SortedSetMember \<Rightarrow> SortedSetMember list \<Rightarrow> SortedSetMember list" where
  "insert_member m [] = [m]"
| "insert_member m (x # xs) = (if member_less x m then x # insert_member m xs else m # x # xs)"

definition sort_members :: "SortedSetMember list \<Rightarrow> SortedSetMember list" where
  "sort_members ms = foldr insert_member ms []"

definition NewSortedSet :: "SortedSetMember list" where
  "NewSortedSet = []"

definition AddMember :: "SortedSetMember \<Rightarrow> SortedSetMember list \<Rightarrow> SortedSetMember list" where
  "AddMember m members = sort_members (members @ [m])"

definition RemoveMember :: "string \<Rightarrow> SortedSetMember list \<Rightarrow> SortedSetMember list" where
  "RemoveMember name members = remove_first (\<lambda>m. MemberName m = name) members"

definition Size :: "SortedSetMember list \<Rightarrow> int" where
  "Size members = int (length members)"

definition GetMemberNames :: "SortedSetMember list \<Rightarrow> string list" where
  "GetMemberNames members = map MemberName members"

text \<open>
  The random words and scores are parameters; \<open>scores ! i\<close> is the \<open>i\<close>-th score drawn.
\<close>

definition GenerateSortedSetWithRandomMembers ::
  "nat \<Rightarrow> nat \<Rightarrow> (nat \<Rightarrow> string) \<Rightarrow> (nat \<Rightarrow> float64) \<Rightarrow> SortedSetMember list"
where
  "GenerateSortedSetWithRandomMembers count same words scores =
     (let sameScoreCount = min same count; differentScoresCount = count - sameScoreCount;
          ss = fold (\<lambda>i. AddMember \<lparr>MemberName = words i, MemberScore = scores i\<rparr>)
                 [0..<differentScoresCount] NewSortedSet;
          baseScore = scores differentScoresCount
      in fold (\<lambda>i. AddMember \<lparr>MemberName = words (differentScoresCount + i), MemberScore = baseScore\<rparr>)
           [0..<sameScoreCount] ss)"

end
