(* ===== verification/Sorted_Set_Properties.thy ===== *)
theory Sorted_Set_Properties
  imports Requests Tester_Sorted_Set
begin

text \<open>
  The sorted sets. \<open>ordered_scores\<close> is the contract both implementations have: the server's
  \<open>SortedSet\<close>, a map and a slice that is searched by bisection, and the tester's, a slice sorted
  after every insertion. What the contract gives (the order is determined by the content, the rank
  is a count) is proved once in it.
\<close>

section \<open>Entries in order\<close>

definition entry_key :: "string \<times> float64 \<Rightarrow> fkey \<times> string" where
  "entry_key p = (fkey_of (snd p), fst p)"

text \<open>Entries with distinct names and without \<open>NaN\<close>, by ascending score and then name.\<close>

definition in_order :: "(string \<times> float64) list \<Rightarrow> bool" where
  "in_order ps \<longleftrightarrow> distinct (map fst ps) \<and> NaN \<notin> snd ` set ps \<and> sorted_wrt (\<lambda>p q. entry_key p < entry_key q) ps"

lemma map_of_filter_fst: "map_of (filter (\<lambda>p. fst p \<noteq> k) ps) = (map_of ps)(k := None)"
  by (induction ps) (auto simp: fun_eq_iff)

lemma option_ext: "(\<And>x. a = Some x \<longleftrightarrow> b = Some x) \<Longrightarrow> a = b"
  by (cases a; cases b) auto

lemma in_order_Nil [simp]: "in_order []"
  by (simp add: in_order_def)

lemma in_order_keys: "in_order ps \<Longrightarrow> sorted_wrt (<) (map entry_key ps)"
  by (simp add: in_order_def sorted_wrt_map)

lemma in_order_map_of:
  assumes "in_order ps" shows "set ps = {p. map_of ps (fst p) = Some (snd p)}"
  using assms by (auto simp: in_order_def)

text \<open>The content determines the order.\<close>

lemma in_order_unique:
  assumes "in_order ps" "in_order qs" "map_of ps = map_of qs"
  shows "ps = qs"
proof -
  have same: "set ps = set qs" using assms by (simp add: in_order_map_of)
  have inj: "inj_on entry_key (set ps)"
    using assms(1) by (auto simp: in_order_def inj_on_def entry_key_def distinct_map dest: inj_onD)
  have "sorted_wrt (<) (map entry_key ps)" "sorted_wrt (<) (map entry_key qs)"
    "set (map entry_key ps) = set (map entry_key qs)"
    using assms(1,2) in_order_keys same by auto
  then have "map entry_key ps = map entry_key qs"
    by (simp add: strict_sorted_equal)
  then show ?thesis using map_inj_on[of entry_key ps qs] inj same by simp
qed

text \<open>The rank is the number of smaller entries.\<close>

lemma in_order_rank:
  assumes "in_order ps" "map_of ps k = Some x"
  shows "find_index (\<lambda>p. fst p = k) ps = Some (card {p \<in> set ps. entry_key p < entry_key (k, x)})"
  using assms
proof (induction ps)
  case (Cons p ps)
  have p: "fst p \<notin> fst ` set ps" "\<forall>q \<in> set ps. entry_key p < entry_key q" "in_order ps"
    using Cons.prems(1) by (auto simp: in_order_def)
  show ?case
  proof (cases "fst p = k")
    case True
    then have "entry_key (k, x) = entry_key p" using Cons.prems(2) by (cases p) simp
    then have "{q \<in> set (p # ps). entry_key q < entry_key (k, x)} = {}" using p(2) by auto
    with True show ?thesis by (simp only: find_index.simps simp_thms if_True card.empty)
  next
    case False
    then have "map_of ps k = Some x" using Cons.prems(2) by (cases p) simp
    from Cons.IH[OF p(3) this] have "find_index (\<lambda>p. fst p = k) ps = Some (card {q \<in> set ps. entry_key q < entry_key (k, x)})" .
    moreover have "entry_key p < entry_key (k, x)" using p(2) \<open>map_of ps k = Some x\<close> map_of_SomeD by fastforce
    then have "{q \<in> set (p # ps). entry_key q < entry_key (k, x)} = insert p {q \<in> set ps. entry_key q < entry_key (k, x)}"
      by auto
    moreover have "p \<notin> set ps" using p(1) by auto
    ultimately show ?thesis using False by simp
  qed
qed simp

section \<open>Operations and what they mean\<close>

datatype zop = ZAdd string float64 | ZRem string

text \<open>A run of operations, given an implementation of the two.\<close>

primrec apply_zop :: "(string \<Rightarrow> float64 \<Rightarrow> 'z \<Rightarrow> 'z) \<Rightarrow> (string \<Rightarrow> 'z \<Rightarrow> 'z) \<Rightarrow> zop \<Rightarrow> 'z \<Rightarrow> 'z" where
  "apply_zop add remove (ZAdd k x) z = add k x z"
| "apply_zop add remove (ZRem k) z = remove k z"

text \<open>The specification: a map from names to scores.\<close>

fun spec_zop :: "zop \<Rightarrow> (string \<rightharpoonup> float64) \<Rightarrow> (string \<rightharpoonup> float64)" where
  "spec_zop (ZAdd k x) m = m(k \<mapsto> x)"
| "spec_zop (ZRem k) m = m(k := None)"

definition spec_run :: "zop list \<Rightarrow> string \<rightharpoonup> float64" where
  "spec_run ops = fold spec_zop ops Map.empty"

definition no_nan :: "zop list \<Rightarrow> bool" where
  "no_nan ops \<longleftrightarrow> (\<forall>k. ZAdd k NaN \<notin> set ops)"

section \<open>The contract\<close>

locale ordered_scores =
  fixes entries :: "'z \<Rightarrow> (string \<times> float64) list"
    and ok :: "'z \<Rightarrow> bool"
    and fresh :: 'z
    and add :: "string \<Rightarrow> float64 \<Rightarrow> 'z \<Rightarrow> 'z"
    and remove :: "string \<Rightarrow> 'z \<Rightarrow> 'z"
  assumes ok_fresh: "ok fresh" "entries fresh = []"
    and ok_add: "ok z \<Longrightarrow> x \<noteq> NaN \<Longrightarrow> ok (add k x z)"
    and ok_remove: "ok z \<Longrightarrow> ok (remove k z)"
    and ok_in_order: "ok z \<Longrightarrow> in_order (entries z)"
    and lookup_add: "ok z \<Longrightarrow> x \<noteq> NaN \<Longrightarrow> map_of (entries (add k x z)) = (map_of (entries z))(k \<mapsto> x)"
    and lookup_remove: "ok z \<Longrightarrow> map_of (entries (remove k z)) = (map_of (entries z))(k := None)"
begin

lemma run_from:
  assumes "ok z" "no_nan ops"
  shows "ok (fold (apply_zop add remove) ops z) \<and> map_of (entries (fold (apply_zop add remove) ops z))
    = fold spec_zop ops (map_of (entries z))"
  using assms
proof (induction ops arbitrary: z)
  case (Cons op ops)
  have "no_nan ops" using Cons.prems(2) by (auto simp: no_nan_def)
  moreover have "ok (apply_zop add remove op z) \<and> map_of (entries (apply_zop add remove op z))
      = spec_zop op (map_of (entries z))"
    using Cons.prems by (cases op) (auto simp: no_nan_def ok_add ok_remove lookup_add lookup_remove)
  ultimately show ?case using Cons.IH by simp
qed simp

text \<open>Every run implements the specification.\<close>

lemma run:
  assumes "no_nan ops"
  shows "ok (fold (apply_zop add remove) ops fresh)"
    "map_of (entries (fold (apply_zop add remove) ops fresh)) = spec_run ops"
    "in_order (entries (fold (apply_zop add remove) ops fresh))"
  using run_from[OF ok_fresh(1) assms] ok_fresh(2) ok_in_order by (simp_all add: spec_run_def)

lemma rank:
  assumes "ok z" "map_of (entries z) k = Some x"
  shows "find_index (\<lambda>p. fst p = k) (entries z) = Some (card {p \<in> set (entries z). entry_key p < entry_key (k, x)})"
  using in_order_rank ok_in_order assms by blast

lemma entries_add_remove:
  assumes "ok z" "x \<noteq> NaN" "map_of (entries z) k = None"
  shows "entries (remove k (add k x z)) = entries z"
  using assms by (intro in_order_unique ok_in_order ok_remove ok_add)
    (simp_all add: lookup_add lookup_remove ok_add fun_upd_idem)

lemma entries_add_commute:
  assumes "ok z" "x \<noteq> NaN" "y \<noteq> NaN" "k \<noteq> m"
  shows "entries (add k x (add m y z)) = entries (add m y (add k x z))"
  using assms by (intro in_order_unique ok_in_order ok_remove ok_add)
    (auto simp: lookup_add ok_add fun_upd_twist)

end

section \<open>The server's sorted set\<close>

definition zset_entries :: "sorted_set \<Rightarrow> (string \<times> float64) list" where
  "zset_entries z = map (\<lambda>e. (Name e, Score e)) (Order z)"

text \<open>The map and the slice hold the same elements. This holds whatever the scores are.\<close>

definition zset_agrees :: "sorted_set \<Rightarrow> bool" where
  "zset_agrees z \<longleftrightarrow> distinct (map fst (Elements z)) \<and> distinct (map Name (Order z)) \<and>
     set (zset_entries z) = set (Elements z)"

definition zset_ok :: "sorted_set \<Rightarrow> bool" where
  "zset_ok z \<longleftrightarrow> zset_agrees z \<and> in_order (zset_entries z)"

lemma zset_entries_names: "map fst (zset_entries z) = map Name (Order z)"
  by (simp add: zset_entries_def)

lemma zset_agrees_lookup:
  assumes "zset_agrees z" shows "map_of (zset_entries z) = map_of (Elements z)"
  using assms by (intro map_of_inject_set[THEN iffD2]) (simp_all add: zset_agrees_def zset_entries_names)

lemma zset_agrees_names:
  assumes "zset_agrees z" shows "Name ` set (Order z) = dom (map_of (Elements z))"
proof -
  have "Name ` set (Order z) = fst ` set (zset_entries z)" by (simp add: zset_entries_def image_image)
  then show ?thesis using assms by (simp add: zset_agrees_def dom_map_of_conv_image_fst)
qed

lemma AList_sets:
  assumes "distinct (map fst al)"
  shows "set (AList.update k v al) = insert (k, v) {p \<in> set al. fst p \<noteq> k}"
    "set (AList.delete k al) = {p \<in> set al. fst p \<noteq> k}"
proof -
  have content: "set xs = {(a, b). map_of xs a = Some b}" if "distinct (map fst xs)" for xs :: "('a \<times> 'b) list"
    using that by auto
  show "set (AList.update k v al) = insert (k, v) {p \<in> set al. fst p \<noteq> k}"
    unfolding content[OF assms] content[OF distinct_update[OF assms]] map_of_AList_update by (auto split: if_splits)
  show "set (AList.delete k al) = {p \<in> set al. fst p \<noteq> k}"
    unfolding content[OF assms] content[OF distinct_delete[OF assms]] map_of_AList_delete by (auto split: if_splits)
qed

lemma image_filter: "(\<And>e. P (f e) = Q e) \<Longrightarrow> f ` set (filter Q xs) = {p \<in> f ` set xs. P p}"
  by auto

lemma remove_name_filter:
  "zset_agrees z \<Longrightarrow> remove_first (\<lambda>e. Name e = k) (Order z) = filter (\<lambda>e. Name e \<noteq> k) (Order z)"
  by (simp add: zset_agrees_def remove_first_filter)

text \<open>Removing the name first is what both branches of \<open>AddToSortedSet\<close> amount to.\<close>

lemma zset_add_alt:
  assumes "zset_agrees z"
  shows "zset_add k x z =
    (let order = filter (\<lambda>e. Name e \<noteq> k) (Order z);
         index = Search (length order) (\<lambda>i. not_before x k (order ! i))
     in (z\<lparr>Elements := AList.update k x (Elements z), Order := insert_at index \<lparr>Name = k, Score = x\<rparr> order\<rparr>,
         if map_of (Elements z) k = None then 1 else 0))"
proof (cases "map_of (Elements z) k = None")
  case True
  then have "\<forall>e \<in> set (Order z). Name e \<noteq> k"
    using zset_agrees_names[OF assms] by (metis domIff image_eqI)
  then have "filter (\<lambda>e. Name e \<noteq> k) (Order z) = Order z" by (simp add: filter_id_conv)
  with True show ?thesis by (simp add: zset_add_def Let_def)
next
  case False
  then show ?thesis by (simp add: zset_add_def Let_def remove_name_filter[OF assms])
qed

lemma filter_entries: "(\<lambda>e. (Name e, Score e)) ` set (filter (\<lambda>e. Name e \<noteq> k) (Order z)) = {p \<in> set (zset_entries z). fst p \<noteq> k}"
  unfolding zset_entries_def set_map by (rule image_filter) simp

lemma zset_add_agrees:
  assumes "zset_agrees z" shows "zset_agrees (fst (zset_add k x z))"
proof -
  let ?o = "filter (\<lambda>e. Name e \<noteq> k) (Order z)"
  have z: "set (zset_entries z) = set (Elements z)" "distinct (map fst (Elements z))" "distinct (map Name (Order z))"
    using assms by (simp_all add: zset_agrees_def)
  have "distinct (map Name ?o)" using z(3) by (rule distinct_map_filter)
  moreover have "k \<notin> Name ` set ?o" by auto
  ultimately have "distinct (map Name (insert_at i \<lparr>Name = k, Score = x\<rparr> ?o))" for i
    using distinct_map_insert_at[of Name ?o "\<lparr>Name = k, Score = x\<rparr>"] by simp
  then show ?thesis
    using z filter_entries[of k z]
    by (simp add: zset_add_alt[OF assms] Let_def zset_agrees_def zset_entries_def AList_sets)
qed

lemma zset_remove_agrees:
  assumes "zset_agrees z" shows "zset_agrees (zset_remove k z)"
proof -
  have z: "set (zset_entries z) = set (Elements z)" "distinct (map fst (Elements z))" "distinct (map Name (Order z))"
    using assms by (simp_all add: zset_agrees_def)
  have "distinct (map Name (filter (\<lambda>e. Name e \<noteq> k) (Order z)))" using z(3) by (rule distinct_map_filter)
  then show ?thesis
    using z filter_entries[of k z]
    by (simp add: zset_remove_def remove_name_filter[OF assms] zset_agrees_def zset_entries_def AList_sets)
qed

text \<open>Bisection finds the place of the new element in an ordered slice.\<close>

lemma not_before_key:
  assumes "x \<noteq> NaN" "Score e \<noteq> NaN"
  shows "not_before x k e \<longleftrightarrow> entry_key (k, x) \<le> entry_key (Name e, Score e)"
  using assms by (auto simp: not_before_def entry_key_def feq_def flt_def less_eq_prod_def)

lemma insert_at_in_order:
  fixes ps :: "(string \<times> float64) list"
  assumes "in_order ps" "x \<noteq> NaN" "k \<notin> fst ` set ps"
    "\<And>i. i < length ps \<Longrightarrow> f i \<longleftrightarrow> entry_key (k, x) \<le> entry_key (ps ! i)"
  shows "in_order (insert_at (Search (length ps) f) (k, x) ps)"
proof -
  let ?i = "Search (length ps) f"
  have srt: "entry_key (ps ! a) < entry_key (ps ! b)" if "a < b" "b < length ps" for a b
    using assms(1) that by (auto simp: in_order_def sorted_wrt_iff_nth_less)
  have mono: "f b" if "a \<le> b" "b < length ps" "f a" for a b
    using that assms(4)[of a] assms(4)[of b] srt[of a b] by (cases "a = b") auto
  have S1: "\<not> f j" if "j < ?i" for j
    by (rule Search_least(1)[of "length ps" f]) (use mono that in blast)+
  have S2: "f j" if "?i \<le> j" "j < length ps" for j
    by (rule Search_least(2)[of "length ps" f]) (use mono that in blast)+
  have key: "entry_key (ps ! j) \<noteq> entry_key (k, x)" if "j < length ps" for j
    using assms(3) nth_mem[OF that] by (auto simp: entry_key_def)
  have below: "entry_key p < entry_key (k, x)" if p: "p \<in> set (take ?i ps)" for p
  proof -
    from p obtain j where "j < ?i" "j < length ps" "p = ps ! j" by (auto simp: in_set_conv_nth)
    then show ?thesis using S1[of j] assms(4)[of j] by auto
  qed
  have above: "entry_key (k, x) < entry_key p" if p: "p \<in> set (drop ?i ps)" for p
  proof -
    from p obtain j where "j < length ps - ?i" "p = ps ! (?i + j)" by (auto simp: in_set_conv_nth)
    then have j: "?i + j < length ps" by simp
    then have "entry_key (k, x) \<le> entry_key p" "entry_key p \<noteq> entry_key (k, x)"
      using S2[of "?i + j"] assms(4)[OF j] key[OF j] \<open>p = _\<close> by simp_all
    then show ?thesis by simp
  qed
  have parts: "sorted_wrt (\<lambda>p q. entry_key p < entry_key q) (take ?i ps @ drop ?i ps)"
    using assms(1) by (simp add: in_order_def)
  have "distinct (map fst (insert_at ?i (k, x) ps))"
    using assms(1,3) by (intro distinct_map_insert_at) (simp_all add: in_order_def)
  moreover have "sorted_wrt (\<lambda>p q. entry_key p < entry_key q) (insert_at ?i (k, x) ps)"
    using parts below above unfolding insert_at_def sorted_wrt_append by auto
  moreover have "NaN \<notin> snd ` set (insert_at ?i (k, x) ps)"
    using assms(1,2) by (auto simp: in_order_def)
  ultimately show ?thesis by (simp add: in_order_def)
qed

lemma in_order_filter: "in_order ps \<Longrightarrow> in_order (filter P ps)"
  by (auto simp: in_order_def distinct_map_filter sorted_wrt_filter)

lemma zset_add_entries:
  assumes "zset_ok z" "x \<noteq> NaN"
  shows "in_order (zset_entries (fst (zset_add k x z)))"
proof -
  let ?o = "filter (\<lambda>e. Name e \<noteq> k) (Order z)" and ?f = "\<lambda>e. (Name e, Score e)"
  let ?ps = "map ?f ?o" and ?g = "\<lambda>i. not_before x k (?o ! i)"
  have "?ps = filter (\<lambda>p. fst p \<noteq> k) (zset_entries z)" by (simp add: zset_entries_def filter_map o_def)
  then have ord: "in_order ?ps" using assms(1) by (simp add: zset_ok_def in_order_filter)
  have "in_order (insert_at (Search (length ?ps) ?g) (k, x) ?ps)"
  proof (rule insert_at_in_order[OF ord assms(2)])
    fix i assume i: "i < length ?ps"
    then have "?o ! i \<in> set ?o" by (intro nth_mem) simp
    then have "Score (?o ! i) \<noteq> NaN" using ord by (auto simp: in_order_def image_iff)
    then show "?g i \<longleftrightarrow> entry_key (k, x) \<le> entry_key (?ps ! i)" using not_before_key[OF assms(2)] i by simp
  qed auto
  moreover have "zset_agrees z" using assms(1) by (simp add: zset_ok_def)
  ultimately show ?thesis
    by (simp add: zset_add_alt Let_def zset_entries_def insert_at_def take_map drop_map)
qed

interpretation server_set: ordered_scores zset_entries zset_ok new_zset "\<lambda>k x z. fst (zset_add k x z)" zset_remove
proof
  show "zset_ok new_zset" "zset_entries new_zset = []"
    by (simp_all add: zset_ok_def zset_agrees_def zset_entries_def new_zset_def)
  fix z k assume z: "zset_ok z"
  then have a: "zset_agrees z" by (simp add: zset_ok_def)
  show "in_order (zset_entries z)" using z by (simp add: zset_ok_def)
  have "zset_entries (zset_remove k z) = filter (\<lambda>p. fst p \<noteq> k) (zset_entries z)"
    using a by (simp add: zset_remove_def remove_name_filter zset_entries_def filter_map o_def)
  then show "zset_ok (zset_remove k z)"
    using z zset_remove_agrees[OF a] in_order_filter by (simp add: zset_ok_def)
  show "map_of (zset_entries (zset_remove k z)) = (map_of (zset_entries z))(k := None)"
    using zset_agrees_lookup[OF zset_remove_agrees[OF a]] zset_agrees_lookup[OF a] by (simp add: zset_remove_def)
  fix x :: float64 assume x: "x \<noteq> NaN"
  show "zset_ok (fst (zset_add k x z))"
    using zset_add_agrees[OF a] zset_add_entries[OF z x] by (simp add: zset_ok_def)
  show "map_of (zset_entries (fst (zset_add k x z))) = (map_of (zset_entries z))(k \<mapsto> x)"
    using zset_agrees_lookup[OF zset_add_agrees[OF a]] zset_agrees_lookup[OF a] by (simp add: zset_add_def Let_def)
qed

section \<open>The tester's sorted set\<close>

definition member_entries :: "SortedSetMember list \<Rightarrow> (string \<times> float64) list" where
  "member_entries ms = map (\<lambda>m. (MemberName m, MemberScore m)) ms"

text \<open>The tester has no update: an element that is there is removed first.\<close>

definition put_member :: "string \<Rightarrow> float64 \<Rightarrow> SortedSetMember list \<Rightarrow> SortedSetMember list" where
  "put_member k x ms = AddMember \<lparr>MemberName = k, MemberScore = x\<rparr> (RemoveMember k ms)"

lemma member_less_key:
  assumes "MemberScore a \<noteq> NaN" "MemberScore b \<noteq> NaN"
  shows "member_less a b \<longleftrightarrow> entry_key (MemberName a, MemberScore a) < entry_key (MemberName b, MemberScore b)"
  using assms by (auto simp: member_less_def entry_key_def feq_def flt_def less_prod_def)

lemma insert_member_entries:
  assumes "in_order (member_entries ms)" "MemberScore m \<noteq> NaN" "MemberName m \<notin> MemberName ` set ms"
  shows "in_order (member_entries (insert_member m ms)) \<and> set (insert_member m ms) = insert m (set ms)"
  using assms
proof (induction ms)
  case Nil
  then show ?case by (simp add: member_entries_def in_order_def)
next
  case (Cons y ms)
  have y: "MemberScore y \<noteq> NaN" "in_order (member_entries ms)" "MemberName y \<notin> MemberName ` set ms"
    "\<forall>q \<in> set ms. entry_key (MemberName y, MemberScore y) < entry_key (MemberName q, MemberScore q)"
    "NaN \<notin> MemberScore ` set ms"
    using Cons.prems(1) by (auto simp: in_order_def member_entries_def image_image o_def)
  note less = member_less_key[OF y(1) Cons.prems(2)]
  have IH: "in_order (member_entries (insert_member m ms))" "set (insert_member m ms) = insert m (set ms)"
    using Cons.IH[OF y(2) Cons.prems(2)] Cons.prems(3) by auto
  show ?case
  proof (cases "member_less y m")
    case True
    then show ?thesis
      using IH y less Cons.prems(2,3) by (auto simp: in_order_def member_entries_def image_image o_def)
  next
    case False
    have "entry_key (MemberName m, MemberScore m) \<noteq> entry_key (MemberName y, MemberScore y)"
      using Cons.prems(3) by (auto simp: entry_key_def)
    with False less have "entry_key (MemberName m, MemberScore m) < entry_key (MemberName y, MemberScore y)" by auto
    moreover from this y(4) have "\<forall>q \<in> set ms. entry_key (MemberName m, MemberScore m) < entry_key (MemberName q, MemberScore q)"
      by (metis order.strict_trans)
    ultimately show ?thesis
      using False y Cons.prems by (auto simp: in_order_def member_entries_def image_image o_def)
  qed
qed

lemma sort_members_entries:
  "distinct (map MemberName ms) \<Longrightarrow> NaN \<notin> MemberScore ` set ms
    \<Longrightarrow> in_order (member_entries (sort_members ms)) \<and> set (sort_members ms) = set ms"
  unfolding sort_members_def
proof (induction ms)
  case Nil
  then show ?case by (simp add: member_entries_def)
next
  case (Cons m ms)
  then have IH: "in_order (member_entries (foldr insert_member ms []))" "set (foldr insert_member ms []) = set ms"
    by auto
  with insert_member_entries[OF IH(1), of m] Cons.prems show ?case by auto
qed

lemma map_of_member_entries:
  assumes "in_order (member_entries ms)"
  shows "map_of (member_entries ms) k = Some x \<longleftrightarrow> (k, x) \<in> (\<lambda>m. (MemberName m, MemberScore m)) ` set ms"
  using assms by (simp add: in_order_def member_entries_def image_comp)

lemma RemoveMember_filter:
  "distinct (map MemberName ms) \<Longrightarrow> RemoveMember k ms = filter (\<lambda>m. MemberName m \<noteq> k) ms"
  by (simp add: RemoveMember_def remove_first_filter)

lemma member_entries_facts:
  assumes "in_order (member_entries ms)"
  shows "distinct (map MemberName ms)" "NaN \<notin> MemberScore ` set ms"
  using assms by (auto simp: in_order_def member_entries_def image_image o_def)

lemma put_member_entries:
  assumes "in_order (member_entries ms)" "x \<noteq> NaN"
  shows "in_order (member_entries (put_member k x ms))"
    "set (put_member k x ms) = insert \<lparr>MemberName = k, MemberScore = x\<rparr> (set (filter (\<lambda>m. MemberName m \<noteq> k) ms))"
proof -
  note facts = member_entries_facts[OF assms(1)]
  let ?ms = "filter (\<lambda>m. MemberName m \<noteq> k) ms @ [\<lparr>MemberName = k, MemberScore = x\<rparr>]"
  have "distinct (map MemberName ?ms)" "NaN \<notin> MemberScore ` set ?ms"
    using facts assms(2) by (auto simp: distinct_map_filter)
  from sort_members_entries[OF this]
  show "in_order (member_entries (put_member k x ms))"
    "set (put_member k x ms) = insert \<lparr>MemberName = k, MemberScore = x\<rparr> (set (filter (\<lambda>m. MemberName m \<noteq> k) ms))"
    by (simp_all add: put_member_def AddMember_def RemoveMember_filter[OF facts(1)])
qed

interpretation tester_set: ordered_scores member_entries "\<lambda>ms. in_order (member_entries ms)" NewSortedSet
  put_member RemoveMember
proof
  show "in_order (member_entries NewSortedSet)" "member_entries NewSortedSet = []"
    by (simp_all add: NewSortedSet_def member_entries_def)
  fix ms k assume ms: "in_order (member_entries ms)"
  have e: "member_entries (RemoveMember k ms) = filter (\<lambda>p. fst p \<noteq> k) (member_entries ms)"
    using member_entries_facts(1)[OF ms] by (simp add: RemoveMember_filter member_entries_def filter_map o_def)
  then show r: "in_order (member_entries (RemoveMember k ms))" using ms in_order_filter by simp
  show "map_of (member_entries (RemoveMember k ms)) = (map_of (member_entries ms))(k := None)"
    unfolding e by (auto simp: map_of_filter_fst)
  fix x :: float64 assume x: "x \<noteq> NaN"
  note p = put_member_entries[OF ms x, of k]
  show "in_order (member_entries (put_member k x ms))" by (rule p(1))
  show "map_of (member_entries (put_member k x ms)) = (map_of (member_entries ms))(k \<mapsto> x)"
  proof (intro ext option_ext)
    fix a y
    show "map_of (member_entries (put_member k x ms)) a = Some y \<longleftrightarrow> ((map_of (member_entries ms))(k \<mapsto> x)) a = Some y"
      using map_of_member_entries[OF p(1)] map_of_member_entries[OF ms] p(2) by auto
  qed
qed

section \<open>The set as a map in order\<close>

text \<open>
  C18: Any sequence of insertions (\<open>AddToSortedSet\<close>) and removals (\<open>ZREM\<close>) of scores that are not
  \<open>NaN\<close>, from the empty set on, gives the map of names to scores that the sequence describes, and
  the slice \<open>Order\<close> holds exactly the map's elements by ascending score and then name.
\<close>

theorem sorted_set_refines_map:
  assumes "no_nan ops" "z = fold (apply_zop (\<lambda>k x z. fst (zset_add k x z)) zset_remove) ops new_zset"
  shows "map_of (Elements z) = spec_run ops \<and> set (zset_entries z) = set (Elements z) \<and> in_order (zset_entries z)"
proof -
  have "zset_ok z" "map_of (zset_entries z) = spec_run ops" using server_set.run[OF assms(1)] assms(2) by simp_all
  then show ?thesis using zset_agrees_lookup by (auto simp: zset_ok_def zset_agrees_def)
qed

lemma sorted_set_refines_map_example:
  "map_of (Elements (fold (apply_zop (\<lambda>k x z. fst (zset_add k x z)) zset_remove)
      [ZAdd ''a'' (Fin 2), ZAdd ''b'' (Fin 1), ZAdd ''a'' (Fin 0), ZRem ''b''] new_zset)) = [''a'' \<mapsto> Fin 0]"
  using sorted_set_refines_map[of "[ZAdd ''a'' (Fin 2), ZAdd ''b'' (Fin 1), ZAdd ''a'' (Fin 0), ZRem ''b'']"]
  by (auto simp: no_nan_def spec_run_def fun_eq_iff)

text \<open>
  C19: The server's sorted set, kept by bisection, and the one the tester compares it with, re-sorted
  after every insertion, list the same names in the same order after any sequence of insertions,
  updates and removals without \<open>NaN\<close>.
\<close>

theorem sorted_set_matches_tester:
  assumes "no_nan ops"
  shows "map Name (Order (fold (apply_zop (\<lambda>k x z. fst (zset_add k x z)) zset_remove) ops new_zset))
    = GetMemberNames (fold (apply_zop put_member RemoveMember) ops NewSortedSet)"
proof -
  have "zset_entries (fold (apply_zop (\<lambda>k x z. fst (zset_add k x z)) zset_remove) ops new_zset)
      = member_entries (fold (apply_zop put_member RemoveMember) ops NewSortedSet)"
    by (rule in_order_unique) (simp_all add: server_set.run[OF assms] tester_set.run[OF assms])
  then have "map fst (zset_entries (fold (apply_zop (\<lambda>k x z. fst (zset_add k x z)) zset_remove) ops new_zset))
      = map fst (member_entries (fold (apply_zop put_member RemoveMember) ops NewSortedSet))" by simp
  then show ?thesis by (simp add: zset_entries_names member_entries_def GetMemberNames_def o_def)
qed

lemma sorted_set_matches_tester_example:
  "map Name (Order (fold (apply_zop (\<lambda>k x z. fst (zset_add k x z)) zset_remove)
      [ZAdd ''b'' (Fin 1), ZAdd ''a'' (Fin 1), ZAdd ''c'' (Fin 0)] new_zset)) = [''c'', ''a'', ''b'']"
proof -
  have "no_nan [ZAdd ''b'' (Fin 1), ZAdd ''a'' (Fin 1), ZAdd ''c'' (Fin 0)]" by (simp add: no_nan_def)
  moreover have "GetMemberNames (fold (apply_zop put_member RemoveMember)
      [ZAdd ''b'' (Fin 1), ZAdd ''a'' (Fin 1), ZAdd ''c'' (Fin 0)] NewSortedSet) = [''c'', ''a'', ''b'']"
    by code_simp
  ultimately show ?thesis by (simp only: sorted_set_matches_tester)
qed

section \<open>Through the wire\<close>

lemma put_zset_fields [simp]:
  "ZSetRegistry (put_zset k z s) = (ZSetRegistry s)(k \<mapsto> z)" "conns (put_zset k z s) = conns s"
  "out e (put_zset k z s) = out e s" "healthy e (put_zset k z s) = healthy e s"
  "at_prompt e (put_zset k z s) = at_prompt e s" "mem (put_zset k z s) = mem s"
  "load_zset k (put_zset k z s) = z" "ListRegistry (put_zset k z s) = ListRegistry s"
  "chans (put_zset k z s) = chans s" "next_chan (put_zset k z s) = next_chan s"
  "put_zset k z (put_zset k z' s) = put_zset k z s"
  by (simp_all add: put_zset_def mem_def out_def healthy_def at_prompt_def input_ok_def rd_of_def load_zset_def)

lemma put_zset_set_rd: "put_zset k z (set_rd c r s) = set_rd c r (put_zset k z s)"
  by (cases s) (simp add: put_zset_def set_rd_def)

lemma load_zset_frame [simp]:
  "load_zset k (reply c d s) = load_zset k s" "load_zset k (set_rd c r s) = load_zset k s"
  by (simp_all add: load_zset_def)

text \<open>No goroutine holds or waits for the set's lock.\<close>

definition unlocked :: "sorted_set \<Rightarrow> bool" where
  "unlocked z \<longleftrightarrow> readers z = 0 \<and> \<not> writer z \<and> \<not> writer_waits z"

lemma lock_cycle [simp]:
  "unlocked z \<Longrightarrow> lock z = Some (z\<lparr>writer := True\<rparr>)" "unlocked z \<Longrightarrow> rlock z = Some (z\<lparr>readers := 1\<rparr>)"
  "unlocked new_zset"
  by (simp_all add: unlocked_def lock_def rlock_def new_zset_def)

lemma zset_add_lock:
  "fst (zset_add k x (z\<lparr>writer := b\<rparr>)) = (fst (zset_add k x z))\<lparr>writer := b\<rparr>"
  "snd (zset_add k x (z\<lparr>writer := b\<rparr>)) = snd (zset_add k x z)"
  "readers (fst (zset_add k x z)) = readers z" "writer (fst (zset_add k x z)) = writer z"
  "writer_waits (fst (zset_add k x z)) = writer_waits z"
  by (simp_all add: zset_add_def Let_def)

lemma AddToSortedSet_unlocked:
  assumes "unlocked (load_zset k s)"
  shows "AddToSortedSet k m x s =
    (Done (put_zset k (fst (zset_add m x (load_zset k s))) s), snd (zset_add m x (load_zset k s)))"
proof -
  have "unlock ((fst (zset_add m x (load_zset k s)))\<lparr>writer := True\<rparr>) = fst (zset_add m x (load_zset k s))"
    using assms by (simp add: unlock_def unlocked_def zset_add_lock)
  then show ?thesis using assms zset_add_lock(1,2)[where k = m and x = x and z = "load_zset k s" and b = True]
    by (simp add: AddToSortedSet_def Let_def prod.case_eq_if)
qed

lemma serve_zadd:
  assumes "at_prompt c s" "stream_of c s = resp_array [zadd, k, sc, m] @ rest"
    "arg_ok zadd" "ToUpper zadd = ''ZADD''" "arg_ok k" "arg_ok sc" "arg_ok m"
  obtains r where "stream r = rest" "no_errors r"
    "serve_loop P c s =
      (let (result, added) = AddToSortedSet k m (ParseFloat sc) (set_rd c r s)
       in and_then result (\<lambda>t. serve_loop P c (reply c (int_reply added) t)))"
proof -
  from serve_command[OF assms(1,2,3,4), of P] obtain r0 where r0: "stream r0 = bulks [k, sc, m] @ rest" "no_errors r0"
    "serve_loop P c s = and_then (dispatch P ''ZADD'' c (set_rd c r0 s)) (serve_loop P c)" .
  from read_three_fields[OF r0(2,1) assms(5-7)] obtain r1 r2 r where
    r: "read_field r0 = (k @ crlf, None, r1)" "read_field r1 = (sc @ crlf, None, r2)"
      "read_field r2 = (m @ crlf, None, r)" "stream r = rest" "no_errors r" .
  have "HandleZadd c (set_rd c r0 s) =
      (let (result, added) = AddToSortedSet k m (ParseFloat sc) (set_rd c r s)
       in and_then result (\<lambda>t. Done (reply c (int_reply added) t)))"
    using r(1-3) assms(5-7) by (simp add: HandleZadd_def)
  then have "serve_loop P c s =
      (let (result, added) = AddToSortedSet k m (ParseFloat sc) (set_rd c r s)
       in and_then result (\<lambda>t. serve_loop P c (reply c (int_reply added) t)))"
    using r0(3) by (cases "fst (AddToSortedSet k m (ParseFloat sc) (set_rd c r s))")
      (simp_all add: dispatch_words Let_def prod.case_eq_if)
  with that r(4,5) show thesis by blast
qed

text \<open>The read commands: what they do once the arguments are read.\<close>

definition zscore_run :: "nat \<Rightarrow> string \<Rightarrow> string \<Rightarrow> server \<Rightarrow> server outcome" where
  "zscore_run c k m s =
     (case ZSetRegistry s k of
        None \<Rightarrow> Done (reply c nil_bulk s)
      | Some z \<Rightarrow> with_rlock k z (\<lambda>z s.
          case map_of (Elements z) m of
            None \<Rightarrow> Done (reply c nil_bulk s)
          | Some element \<Rightarrow> Done (reply c (bulk (FormatShortest element)) (put_zset k (runlock z) s))) s)"

definition zrank_run :: "nat \<Rightarrow> string \<Rightarrow> string \<Rightarrow> server \<Rightarrow> server outcome" where
  "zrank_run c k m s =
     (case ZSetRegistry s k of
        None \<Rightarrow> Done (reply c nil_bulk s)
      | Some z \<Rightarrow> with_rlock k z (\<lambda>z s.
          if map_of (Elements z) m = None then Done (reply c nil_bulk s)
          else case find_index (\<lambda>e. Name e = m) (Order z) of
                 Some rank \<Rightarrow> Done (reply c (int_reply (int rank)) s)
               | None \<Rightarrow> Done (put_zset k (runlock z) s)) s)"

lemma serve_two_args:
  assumes "at_prompt c s" "stream_of c s = resp_array [w, k, m] @ rest" "arg_ok w" "ToUpper w = W" "arg_ok k" "arg_ok m"
    "\<And>s r1 r2. read_field (rd_of c s) = (k @ crlf, None, r1) \<Longrightarrow> read_field r1 = (m @ crlf, None, r2)
      \<Longrightarrow> dispatch P W c s = run (set_rd c r2 s)"
  obtains r where "stream r = rest" "no_errors r"
    "serve_loop P c s = and_then (run (set_rd c r s)) (serve_loop P c)"
proof -
  from serve_command[OF assms(1,2,3,4), of P] obtain r0 where r0: "stream r0 = bulks [k, m] @ rest" "no_errors r0"
    "serve_loop P c s = and_then (dispatch P W c (set_rd c r0 s)) (serve_loop P c)" .
  from read_two_fields[OF r0(2,1) assms(5,6)] obtain r1 r where
    r: "read_field r0 = (k @ crlf, None, r1)" "read_field r1 = (m @ crlf, None, r)" "stream r = rest" "no_errors r" .
  have "dispatch P W c (set_rd c r0 s) = run (set_rd c r (set_rd c r0 s))"
    using r(1,2) by (intro assms(7)) simp_all
  with r0(3) that r(3,4) show thesis by simp
qed

lemma serve_zscore:
  assumes "at_prompt c s" "stream_of c s = resp_array [w, k, m] @ rest" "arg_ok w" "ToUpper w = ''ZSCORE''"
    "arg_ok k" "arg_ok m"
  obtains r where "stream r = rest" "no_errors r"
    "serve_loop P c s = and_then (zscore_run c k m (set_rd c r s)) (serve_loop P c)"
  by (rule serve_two_args[OF assms, of P "zscore_run c k m"])
    (use that assms(5,6) in \<open>auto simp: dispatch_words HandleZScore_def zscore_run_def Let_def cong: option.case_cong if_cong\<close>)

lemma serve_zrank:
  assumes "at_prompt c s" "stream_of c s = resp_array [w, k, m] @ rest" "arg_ok w" "ToUpper w = ''ZRANK''"
    "arg_ok k" "arg_ok m"
  obtains r where "stream r = rest" "no_errors r"
    "serve_loop P c s = and_then (zrank_run c k m (set_rd c r s)) (serve_loop P c)"
  by (rule serve_two_args[OF assms, of P "zrank_run c k m"])
    (use that assms(5,6) in \<open>auto simp: dispatch_words HandleZRank_def zrank_run_def Let_def cong: option.case_cong if_cong\<close>)

text \<open>
  C20: \<open>ZADD k x m\<close> and then \<open>ZSCORE k m\<close>, on any connection (these commands ask for no login), when
  nobody holds the set's lock: the first answers 1 if \<open>m\<close> is new and 0 otherwise, the second the
  shortest decimal of the score that \<open>x\<close> parses to; no other set changes, and the lock is free again.
\<close>

theorem zadd_then_zscore:
  assumes "at_prompt c s" "stream_of c s = resp_array [zadd, k, sc, m] @ resp_array [zscore, k, m]"
    "arg_ok zadd" "ToUpper zadd = ''ZADD''" "arg_ok zscore" "ToUpper zscore = ''ZSCORE''"
    "arg_ok k" "arg_ok sc" "arg_ok m" "unlocked (load_zset k s)"
  shows "\<exists>t. serve_loop P c s = Done t \<and> unlocked (load_zset k t) \<and>
    map_of (Elements (load_zset k t)) = (map_of (Elements (load_zset k s)))(m \<mapsto> ParseFloat sc) \<and>
    (\<forall>q. q \<noteq> k \<longrightarrow> ZSetRegistry t q = ZSetRegistry s q) \<and>
    out c t = out c s @ int_reply (if map_of (Elements (load_zset k s)) m = None then 1 else 0)
      @ bulk (FormatShortest (ParseFloat sc))"
proof -
  let ?z = "fst (zset_add m (ParseFloat sc) (load_zset k s))" and ?n = "snd (zset_add m (ParseFloat sc) (load_zset k s))"
  from serve_zadd[OF assms(1-4,7-9), of P] AddToSortedSet_unlocked assms(10) obtain r where
    r: "stream r = resp_array [zscore, k, m]" "no_errors r"
      "serve_loop P c s = serve_loop P c (reply c (int_reply ?n) (put_zset k ?z (set_rd c r s)))"
    by auto
  let ?s = "reply c (int_reply ?n) (put_zset k ?z (set_rd c r s))"
  have "at_prompt c ?s" "stream_of c ?s = resp_array [zscore, k, m] @ []"
    using assms(1) r(1,2) by (simp_all add: put_zset_set_rd)
  from serve_zscore[OF this assms(5-7,9), of P] obtain r' where
    r': "stream r' = []" "no_errors r'" "serve_loop P c ?s = and_then (zscore_run c k m (set_rd c r' ?s)) (serve_loop P c)" .
  have un: "unlocked ?z" using assms(10) by (simp add: unlocked_def zset_add_lock)
  then have "runlock (?z\<lparr>readers := 1\<rparr>) = ?z" by (simp add: runlock_def unlocked_def)
  moreover have look: "map_of (Elements ?z) = (map_of (Elements (load_zset k s)))(m \<mapsto> ParseFloat sc)"
    by (simp add: zset_add_def Let_def)
  ultimately have "zscore_run c k m (set_rd c r' ?s)
      = Done (reply c (bulk (FormatShortest (ParseFloat sc))) (set_rd c r' (put_zset k ?z ?s)))"
    using un by (simp add: zscore_run_def with_rlock_def put_zset_set_rd)
  with r' serve_done_reply[of c "put_zset k ?z ?s"] \<open>at_prompt c ?s\<close> r(3)
  have "serve_loop P c s = Done (set_rd c \<lparr>rbuf = [], rsrc = []\<rparr>
      (reply c (bulk (FormatShortest (ParseFloat sc))) (put_zset k ?z ?s)))" by simp
  moreover have "?n = (if map_of (Elements (load_zset k s)) m = None then 1 else 0)"
    by (simp add: zset_add_def Let_def)
  ultimately show ?thesis using un look assms(1) by (simp add: at_prompt_def)
qed

lemma find_index_map: "find_index p (map f xs) = find_index (p \<circ> f) xs"
  by (induction xs) auto

lemma find_index_entries: "find_index (\<lambda>p. fst p = m) (zset_entries z) = find_index (\<lambda>e. Name e = m) (Order z)"
  by (simp add: zset_entries_def find_index_map o_def)

text \<open>
  C21: \<open>ZRANK k m\<close> answers the number of elements of the set that come before \<open>m\<close>: those with a
  smaller score, or the same score and a smaller name; the null bulk string when \<open>m\<close> is not in it.
  The set is in agreement with itself and holds no \<open>NaN\<close>, and nobody holds its lock.
\<close>

theorem zrank_counts_smaller:
  assumes "at_prompt c s" "stream_of c s = resp_array [w, k, m]" "arg_ok w" "ToUpper w = ''ZRANK''"
    "arg_ok k" "arg_ok m" "ZSetRegistry s k = Some z" "unlocked z" "zset_ok z"
  shows "\<exists>t. serve_loop P c s = Done t \<and> out c t = out c s @
    (case map_of (Elements z) m of
       None \<Rightarrow> nil_bulk
     | Some x \<Rightarrow> int_reply (int (card {p \<in> set (Elements z). entry_key p < entry_key (m, x)})))"
proof -
  let ?d = "case map_of (Elements z) m of None \<Rightarrow> nil_bulk
     | Some x \<Rightarrow> int_reply (int (card {p \<in> set (Elements z). entry_key p < entry_key (m, x)}))"
  have a: "zset_agrees z" using assms(9) by (simp add: zset_ok_def)
  have "stream_of c s = resp_array [w, k, m] @ []" using assms(2) by simp
  from serve_zrank[OF assms(1) this assms(3-6), of P] obtain r where
    r: "stream r = []" "no_errors r" "serve_loop P c s = and_then (zrank_run c k m (set_rd c r s)) (serve_loop P c)" .
  have "find_index (\<lambda>e. Name e = m) (Order z) = Some (card {p \<in> set (Elements z). entry_key p < entry_key (m, x)})"
    if "map_of (Elements z) m = Some x" for x
    using server_set.rank[OF assms(9), of m x] that a zset_agrees_lookup[OF a]
    by (simp add: find_index_entries zset_agrees_def)
  then have "zrank_run c k m (set_rd c r s) = Done (reply c ?d (set_rd c r (put_zset k (z\<lparr>readers := 1\<rparr>) s)))"
    using assms(7,8) by (auto simp: zrank_run_def with_rlock_def put_zset_set_rd split: option.splits)
  with r serve_done_reply[of c "put_zset k (z\<lparr>readers := 1\<rparr>) s" r P ?d] assms(1)
  have "serve_loop P c s
      = Done (set_rd c \<lparr>rbuf = [], rsrc = []\<rparr> (reply c ?d (put_zset k (z\<lparr>readers := 1\<rparr>) s)))" by simp
  moreover have "healthy c s" using assms(1) by (simp add: at_prompt_def)
  ultimately show ?thesis by simp
qed

lemma reply_other_conn: "e \<noteq> c \<Longrightarrow> conns (reply c d s) e = conns s e"
  by (simp add: reply_def conn_write_def raw_write_def split: prod.splits)

text \<open>
  C23: \<open>ZRANK\<close> on a set that exists never gives its read lock back: the next \<open>ZADD\<close> to the set, on any
  connection, waits for ever, and so does every later reader of the set.
\<close>

theorem zrank_blocks_writers:
  assumes "at_prompt c s" "stream_of c s = resp_array [w, k, m]" "arg_ok w" "ToUpper w = ''ZRANK''"
    "arg_ok k" "arg_ok m" "ZSetRegistry s k = Some z" "unlocked z" "zset_agrees z"
    "at_prompt d s" "d \<noteq> c" "stream_of d s = resp_array [zadd, k, sc, q]" "arg_ok zadd" "ToUpper zadd = ''ZADD''"
    "arg_ok sc" "arg_ok q"
  shows "\<exists>t u. serve_loop P c s = Done t \<and> serve_loop P d t = Blocked u \<and> out d u = out d s \<and>
    (\<forall>e f r. with_rlock k (load_zset k u) f r = Blocked r)"
proof -
  let ?z = "z\<lparr>readers := 1\<rparr>"
  have "stream_of c s = resp_array [w, k, m] @ []" using assms(2) by simp
  from serve_zrank[OF assms(1) this assms(3-6), of P] obtain r where
    r: "stream r = []" "no_errors r" "serve_loop P c s = and_then (zrank_run c k m (set_rd c r s)) (serve_loop P c)" .
  have "\<exists>d. zrank_run c k m (set_rd c r s) = Done (reply c d (set_rd c r (put_zset k ?z s)))"
  proof (cases "map_of (Elements z) m")
    case None
    then show ?thesis using assms(7,8) by (auto simp: zrank_run_def with_rlock_def put_zset_set_rd)
  next
    case (Some x)
    then have "m \<in> Name ` set (Order z)" using zset_agrees_names[OF assms(9)] by auto
    then have "find_index (\<lambda>e. Name e = m) (Order z) \<noteq> None" by (auto simp: find_index_None)
    with Some show ?thesis using assms(7,8) by (auto simp: zrank_run_def with_rlock_def put_zset_set_rd)
  qed
  then obtain x where x: "zrank_run c k m (set_rd c r s) = Done (reply c x (set_rd c r (put_zset k ?z s)))" by blast
  let ?t = "set_rd c \<lparr>rbuf = [], rsrc = []\<rparr> (reply c x (put_zset k ?z s))"
  have t: "serve_loop P c s = Done ?t"
    using r x serve_done_reply[of c "put_zset k ?z s" r P x] assms(1) by simp
  have "conns ?t d = conns s d" using assms(11) by (simp add: set_rd_def reply_other_conn)
  moreover have "load_zset k ?t = ?z" by simp
  ultimately have conn: "conns ?t d = conns s d" "load_zset k ?t = ?z" .
  then have "at_prompt d ?t" "stream_of d ?t = resp_array [zadd, k, sc, q] @ []" "out d ?t = out d s"
    using assms(10,12) by (simp_all add: at_prompt_def input_ok_def rd_of_def healthy_def stream_of_def out_def)
  note dt = this
  from serve_zadd[OF dt(1,2) assms(13,14,5,15,16), of P] obtain r' where
    r': "serve_loop P d ?t =
      (let (result, added) = AddToSortedSet k q (ParseFloat sc) (set_rd d r' ?t)
       in and_then result (\<lambda>t. serve_loop P d (reply d (int_reply added) t)))" by blast
  have "AddToSortedSet k q (ParseFloat sc) (set_rd d r' ?t)
      = (Blocked (put_zset k (?z\<lparr>writer_waits := True\<rparr>) (set_rd d r' ?t)), 0)"
    using conn(2) by (simp add: AddToSortedSet_def lock_def Let_def)
  with r' have "serve_loop P d ?t = Blocked (put_zset k (?z\<lparr>writer_waits := True\<rparr>) (set_rd d r' ?t))" by simp
  with t dt(3) show ?thesis by (simp add: with_rlock_def rlock_def)
qed

text \<open>The index an argument of \<open>ZRANGE\<close> stands for: a negative one counts from the end.\<close>

definition zrange_index :: "int \<Rightarrow> int \<Rightarrow> int" where
  "zrange_index n i = (if i < 0 then max 0 (n + i) else i)"

lemma zrange_bounds_index:
  assumes "in_i64 i" "in_i64 j" "in_i64 (int n)"
  shows "zrange_bounds n i j = (zrange_index (int n) i, zrange_index (int n) j)"
proof -
  have "i64 (int n + m) = int n + m" if "in_i64 m" "m < 0" for m
    using that assms(3) by (intro i64_id) (auto simp: in_i64_def)
  then show ?thesis using assms by (simp add: zrange_bounds_def zrange_index_def)
qed

lemma zset_agrees_length:
  assumes "zset_agrees z" shows "length (Order z) = length (Elements z)"
proof -
  have "distinct (map fst (zset_entries z))" "distinct (map fst (Elements z))" "set (zset_entries z) = set (Elements z)"
    using assms by (simp_all add: zset_agrees_def zset_entries_names)
  then have "length (map fst (zset_entries z)) = length (map fst (Elements z))"
    by (metis distinct_card list.set_map)
  then show ?thesis by (simp add: zset_entries_def)
qed

lemma zrange_response_slice:
  assumes "0 \<le> a" "a \<le> b" "b < int (length order)"
  shows "zrange_response order a b = Some (resp_array (take (nat (b - a + 1)) (drop (nat a) (map Name order))))"
proof -
  have "those (map (\<lambda>i. if 0 \<le> i \<and> i < int (length order) then Some (bulk (Name (order ! nat i))) else None) [a..b])
      = Some (map (\<lambda>i. bulk (Name (order ! nat i))) [a..b])"
    using assms by (intro those_map_Some) auto
  moreover have "map (\<lambda>i. bulk (Name (order ! nat i))) [a..b]
      = map (\<lambda>e. bulk (Name e)) (take (nat (b - a + 1)) (drop (nat a) order))"
    using upto_nths[of a b order "\<lambda>e. bulk (Name e)"] assms by simp
  moreover have "nat (b - a + 1) \<le> length order - nat a" using assms by simp
  then have "length (take (nat (b - a + 1)) (drop (nat a) (map Name order))) = nat (b - a + 1)" by simp
  ultimately show ?thesis
    using assms(2) by (simp add: zrange_response_def resp_array_def bulks_def take_map drop_map o_def del: length_take)
qed

lemma HandleZRange_fields:
  assumes "read_field (rd_of c s) = (k @ crlf, None, r1)" "read_field r1 = (itoa i @ crlf, None, r2)"
    "read_field r2 = (itoa j @ crlf, None, r3)" "arg_ok k" "in_i64 i" "in_i64 j"
  shows "HandleZRange c s = (case ZSetRegistry s k of
      None \<Rightarrow> Done (reply c empty_array (set_rd c r3 s))
    | Some z \<Rightarrow> with_rlock k z (zrange c k i j) (set_rd c r3 s))"
  using assms by (simp add: HandleZRange_def Let_def cong: option.case_cong)

text \<open>
  C22: \<open>ZRANGE k i j\<close> answers the names at the ranks from \<open>i\<close> to \<open>j\<close>, in rank order, where negative
  indices count from the end and \<open>j\<close> is cut at the last rank, and the empty array when that range is
  empty. But the read lock is given back only in the first case: after an empty range the set can no
  longer be written.
\<close>

theorem zrange_slice:
  assumes "at_prompt c s" "stream_of c s = resp_array [w, k, itoa i, itoa j]" "arg_ok w" "ToUpper w = ''ZRANGE''"
    "arg_ok k" "in_i64 i" "in_i64 j" "ZSetRegistry s k = Some z" "unlocked z" "zset_agrees z"
    "in_i64 (int (length (Elements z)))" "zrange_index (int (length (Elements z))) i = a"
    "min (zrange_index (int (length (Elements z))) j) (int (length (Elements z)) - 1) = b"
  shows "\<exists>t. serve_loop P c s = Done t \<and>
    (if a \<le> b
     then out c t = out c s @ resp_array (take (nat (b - a + 1)) (drop (nat a) (map Name (Order z)))) \<and> load_zset k t = z
     else out c t = out c s @ empty_array \<and> readers (load_zset k t) = 1 \<and> lock (load_zset k t) = None)"
proof -
  let ?n = "int (length (Elements z))" and ?z = "z\<lparr>readers := 1\<rparr>"
  have "stream_of c s = resp_array [w, k, itoa i, itoa j] @ []" using assms(2) by simp
  from serve_command[OF assms(1) this assms(3,4), of P] obtain r0 where
    r0: "stream r0 = bulks [k, itoa i, itoa j] @ []" "no_errors r0"
      "serve_loop P c s = and_then (dispatch P ''ZRANGE'' c (set_rd c r0 s)) (serve_loop P c)" .
  from read_three_fields[OF r0(2,1) assms(5) arg_ok_itoa arg_ok_itoa] obtain r1 r2 r where
    r: "read_field r0 = (k @ crlf, None, r1)" "read_field r1 = (itoa i @ crlf, None, r2)"
      "read_field r2 = (itoa j @ crlf, None, r)" "stream r = []" "no_errors r" .
  note len = zset_agrees_length[OF assms(10)]
  have a: "0 \<le> a" using assms(12) by (auto simp: zrange_index_def)
  have run: "dispatch P ''ZRANGE'' c (set_rd c r0 s) = zrange c k i j ?z (put_zset k ?z (set_rd c r s))"
    using HandleZRange_fields[of c "set_rd c r0 s" k r1 i r2 j r] r(1-3) assms(5-9)
    by (simp add: dispatch_words with_rlock_def)
  show ?thesis
  proof (cases "a \<le> b")
    case True
    let ?d = "resp_array (take (nat (b - a + 1)) (drop (nat a) (map Name (Order z))))"
    have "b < int (length (Order z))" using assms(13) len by simp
    from zrange_response_slice[OF a True this] have "zrange_response (Order z) a b = Some ?d" .
    moreover have "\<not> (?n \<le> a \<or> zrange_index ?n j < a)" using True assms(13) by auto
    moreover have "runlock ?z = z" using assms(9) by (simp add: runlock_def unlocked_def)
    ultimately have "zrange c k i j ?z (put_zset k ?z (set_rd c r s)) = Done (reply c ?d (set_rd c r (put_zset k z s)))"
      using zrange_bounds_index[OF assms(6,7,11)] assms(12,13) by (simp add: zrange_def put_zset_set_rd)
    with run r0(3) serve_done_reply[of c "put_zset k z s" r P ?d] r(4,5) assms(1)
    have "serve_loop P c s = Done (set_rd c \<lparr>rbuf = [], rsrc = []\<rparr> (reply c ?d (put_zset k z s)))" by simp
    with True assms(1) show ?thesis by (auto simp: at_prompt_def)
  next
    case False
    then have "?n \<le> a \<or> zrange_index ?n j < a" using assms(13) by (auto simp: min_def split: if_splits)
    then have "zrange c k i j ?z (put_zset k ?z (set_rd c r s)) = Done (reply c empty_array (set_rd c r (put_zset k ?z s)))"
      using zrange_bounds_index[OF assms(6,7,11)] assms(12) by (auto simp: zrange_def put_zset_set_rd)
    with run r0(3) serve_done_reply[of c "put_zset k ?z s" r P empty_array] r(4,5) assms(1)
    have "serve_loop P c s = Done (set_rd c \<lparr>rbuf = [], rsrc = []\<rparr> (reply c empty_array (put_zset k ?z s)))" by simp
    with False assms(1) show ?thesis by (auto simp: at_prompt_def lock_def)
  qed
qed

section \<open>Examples\<close>

text \<open>A master with one sorted set and two connections that are not logged in.\<close>

definition zset_server :: "inev list \<Rightarrow> inev list \<Rightarrow> sorted_set \<Rightarrow> server" where
  "zset_server evs evs' z = (master_with (client_conn [] evs))
     \<lparr>ZSetRegistry := [''board'' \<mapsto> z], conns := (\<lambda>e. if e = 0 then client_conn [] evs else client_conn [] evs')\<rparr>"

lemma zset_server [simp]:
  "at_prompt 0 (zset_server evs evs' z) \<longleftrightarrow> ReadErr \<notin> set evs"
  "at_prompt (Suc 0) (zset_server evs evs' z) \<longleftrightarrow> ReadErr \<notin> set evs'"
  "stream_of 0 (zset_server evs evs' z) = concat (map ev_bytes evs)"
  "stream_of (Suc 0) (zset_server evs evs' z) = concat (map ev_bytes evs')"
  "ZSetRegistry (zset_server evs evs' z) = [''board'' \<mapsto> z]" "load_zset ''board'' (zset_server evs evs' z) = z"
  "out e (zset_server evs evs' z) = []"
  by (auto simp: zset_server_def example_defs at_prompt_def input_ok_def no_errors_def healthy_def rd_of_def
      stream_of_def stream_def load_zset_def out_def)

lemma new_zset_empty [simp]: "Elements new_zset = []"
  by (simp add: new_zset_def)

lemma zset_words [simp]:
  "arg_ok ''ZADD''" "arg_ok ''ZSCORE''" "arg_ok ''ZRANK''" "arg_ok ''ZRANGE''" "arg_ok ''board''" "arg_ok ''ann''"
  "arg_ok ''bob''" "arg_ok ''2.5''"
  by (rule arg_ok_graphic, simp add: graphic_def)+

definition board :: sorted_set where
  "board = \<lparr>Elements = [(''bob'', Fin 1), (''ann'', Fin 1)],
     Order = [\<lparr>Name = ''ann'', Score = Fin 1\<rparr>, \<lparr>Name = ''bob'', Score = Fin 1\<rparr>],
     readers = 0, writer = False, writer_waits = False\<rparr>"

lemma board [simp]: "unlocked board" "zset_agrees board" "zset_ok board" "length (Elements board) = 2"
  "map Name (Order board) = [''ann'', ''bob'']" "map_of (Elements board) ''bob'' = Some (Fin 1)"
  "set (Elements board) = {(''bob'', Fin 1), (''ann'', Fin 1)}"
proof -
  show "zset_agrees board" by (auto simp: board_def zset_agrees_def zset_entries_def)
  then show "zset_ok board"
    by (simp add: board_def zset_ok_def zset_entries_def in_order_def entry_key_def less_prod_def)
qed (simp_all add: board_def unlocked_def)

lemma zadd_then_zscore_example:
  "\<exists>t. serve_loop plain_platform 0 (zset_server [Chunk (resp_array [''ZADD'', ''board'', ''2.5'', ''ann'']
      @ resp_array [''ZSCORE'', ''board'', ''ann''])] [] new_zset) = Done t \<and>
    out 0 t = int_reply 1 @ bulk (FormatShortest (ParseFloat ''2.5''))"
  using zadd_then_zscore[where P = plain_platform and c = 0 and zadd = "''ZADD''" and zscore = "''ZSCORE''"
      and k = "''board''" and m = "''ann''" and sc = "''2.5''"
      and s = "zset_server [Chunk (resp_array [''ZADD'', ''board'', ''2.5'', ''ann'']
    @ resp_array [''ZSCORE'', ''board'', ''ann''])] [] new_zset"]
  by auto

lemma zrank_counts_smaller_example:
  "\<exists>t. serve_loop plain_platform 0 (zset_server [Chunk (resp_array [''ZRANK'', ''board'', ''bob''])] [] board) = Done t \<and>
    out 0 t = int_reply 1"
proof -
  have "{p. (p = (''bob'', Fin 1) \<or> p = (''ann'', Fin 1)) \<and> entry_key p < entry_key (''bob'', Fin 1)} = {(''ann'', Fin 1)}"
    by (auto simp: entry_key_def less_prod_def)
  then show ?thesis
    using zrank_counts_smaller[where P = plain_platform and c = 0 and w = "''ZRANK''" and k = "''board''" and m = "''bob''"
        and z = board and s = "zset_server [Chunk (resp_array [''ZRANK'', ''board'', ''bob''])] [] board"]
    by auto
qed

lemma zrank_blocks_writers_example:
  "\<exists>t u. serve_loop plain_platform 0 (zset_server [Chunk (resp_array [''ZRANK'', ''board'', ''bob''])]
      [Chunk (resp_array [''ZADD'', ''board'', ''2.5'', ''ann''])] board) = Done t \<and>
    serve_loop plain_platform 1 t = Blocked u"
  using zrank_blocks_writers[where P = plain_platform and c = 0 and w = "''ZRANK''" and k = "''board''" and m = "''bob''"
      and z = board and d = 1 and zadd = "''ZADD''" and sc = "''2.5''" and q = "''ann''"
      and s = "zset_server [Chunk (resp_array [''ZRANK'', ''board'', ''bob''])]
      [Chunk (resp_array [''ZADD'', ''board'', ''2.5'', ''ann''])] board"]
  by auto

lemma zrange_slice_example:
  "\<exists>t. serve_loop plain_platform 0 (zset_server [Chunk (resp_array [''ZRANGE'', ''board'', itoa 0, itoa (-1)])] [] board)
      = Done t \<and> out 0 t = resp_array [''ann'', ''bob'']"
  using zrange_slice[where P = plain_platform and c = 0 and w = "''ZRANGE''" and k = "''board''" and i = 0 and j = "-1"
      and a = 0 and b = 1 and z = board
      and s = "zset_server [Chunk (resp_array [''ZRANGE'', ''board'', itoa 0, itoa (-1)])] [] board"]
  by (auto simp: zrange_index_def in_i64_def)

end
