(* ===== verification/Process_Invariants.thy ===== *)
theory Process_Invariants
  imports Server List_Properties Sorted_Set_Properties
begin

text \<open>
  Invariants of the running process: what holds at its start and after every step of every
  goroutine. The generic part is a locale whose laws are the obligations of an invariant, one per
  kind of step; it is interpreted for the queues of waiting clients and for the sorted sets.
\<close>

section \<open>Invariants of the step relation\<close>

locale step_invariant =
  fixes P :: platform and I :: "server \<Rightarrow> bool"
  assumes keeps_dispatch: "I s \<Longrightarrow> dispatch P w c s = Done t \<Longrightarrow> I t"
    and keeps_read: "I s \<Longrightarrow> I (set_rd c r s)"
    and keeps_receive: "I s \<Longrightarrow> I (blpop_receive c s)"
    and keeps_timeout: "I s \<Longrightarrow> I (blpop_expire c s)"
    and keeps_leave: "I s \<Longrightarrow> I (blpop_leave c s)"
    and keeps_poll: "I s \<Longrightarrow> I (wait_poll c s)"
    and keeps_wait_end: "I s \<Longrightarrow> I (wait_expire c s)"
    and keeps_timer: "I s \<Longrightarrow> I (fire_timer i s)"
    and keeps_tick: "I s \<Longrightarrow> I (tick d s)"
    and keeps_accept: "I s \<Longrightarrow> I (accept_conn c r k s)"
    and keeps_session: "I s \<Longrightarrow> start_session c s = Done t \<Longrightarrow> I t"
begin

lemma keeps_serve_step:
  assumes "I s" "serve_step P c s = (go, Done t)" shows "I t"
  using assms
  by (auto simp: serve_step_def Let_def intro: keeps_read keeps_dispatch[OF keeps_read]
      split: prod.splits option.splits rerr.splits if_splits)

lemma keeps_step: "step P s t \<Longrightarrow> I s \<Longrightarrow> I t"
  by (induction rule: step.induct)
    (blast intro: keeps_serve_step keeps_receive keeps_timeout keeps_leave keeps_poll keeps_wait_end keeps_timer
      keeps_tick keeps_accept keeps_session)+

lemma keeps_steps: "steps P s t \<Longrightarrow> I s \<Longrightarrow> I t"
  by (induction rule: rtranclp_induct) (blast intro: keeps_step)+

lemma keeps_serve_loop: "serve_loop P c s = Done t \<Longrightarrow> I s \<Longrightarrow> I t"
proof (induction P\<equiv>P c s arbitrary: t rule: serve_loop.induct)
  case (1 c s)
  show ?case
  proof (cases "act (conns s c) = Serving")
    case False
    then show ?thesis using "1.prems" by (simp add: serve_loop_parked)
  next
    case True
    obtain go r where r: "serve_step P c s = (go, r)" by (cases "serve_step P c s")
    with "1.prems"(1) serve_loop_unfold[OF True, of P] have "(case (go, r) of (True, Done s1) \<Rightarrow> serve_loop P c s1 | (_, r) \<Rightarrow> r) = Done t"
      by simp
    then consider s1 where "go" "r = Done s1" "serve_loop P c s1 = Done t" | "r = Done t"
      by (cases go; cases r) auto
    then show ?thesis
    proof cases
      case 1
      have "I s1" using keeps_serve_step "1.prems"(2) r 1(2) by blast
      then show ?thesis using "1.hyps"[of go r s1] True r 1 by simp
    next
      case 2
      then show ?thesis using keeps_serve_step "1.prems"(2) r by blast
    qed
  qed
qed

end


section \<open>What the handlers leave alone\<close>

definition list_part :: "server \<Rightarrow> (string \<rightharpoonup> llist) \<times> (nat \<Rightarrow> string option) \<times> nat" where
  "list_part s = (ListRegistry s, chans s, next_chan s)"

definition keeps_lists :: "server \<Rightarrow> server outcome \<Rightarrow> bool" where
  "keeps_lists s r \<longleftrightarrow> list_part (final r) = list_part s"

definition keeps_zsets :: "server \<Rightarrow> server outcome \<Rightarrow> bool" where
  "keeps_zsets s r \<longleftrightarrow> ZSetRegistry (final r) = ZSetRegistry s"

named_theorems frame_intros "what a handler leaves unchanged"

lemma state_frame [simp]:
  "list_part (set_rd c r s) = list_part s" "list_part (reply c d s) = list_part s"
  "list_part (set_auth c u s) = list_part s" "list_part (set_act c a s) = list_part s"
  "list_part (put_zset k z s) = list_part s" "list_part (expire_after t k s) = list_part s"
  "list_part (mem_store k v s) = list_part s" "list_part (mem_delete k s) = list_part s"
  "list_part (set_silent c s) = list_part s" "list_part (PropagateCommand args s) = list_part s"
  "list_part (AppendToAof args s) = list_part s" "list_part (fst (conn_write c d s)) = list_part s"
  "list_part (fst (raw_write c d s)) = list_part s"
  "list_part (fold (\<lambda>r s. reply (rep_conn r) d s) rs s) = list_part s"
  by (simp_all add: list_part_def put_zset_def expire_after_def set_auth_def set_silent_def set_act_def
      mem_delete_def mem_store_def)

lemma zset_frame [simp]:
  "ZSetRegistry (set_auth c u s) = ZSetRegistry s" "ZSetRegistry (expire_after t k s) = ZSetRegistry s"
  "ZSetRegistry (set_silent c s) = ZSetRegistry s"
  by (simp_all add: set_auth_def expire_after_def set_silent_def)

lemma update_frame [simp]:
  "list_part (s\<lparr>ServerInfo := i\<rparr>) = list_part s" "list_part (s\<lparr>Replicas := rs\<rparr>) = list_part s"
  "list_part (s\<lparr>UserRegistry := us\<rparr>) = list_part s" "list_part (s\<lparr>EnvVariables := e\<rparr>) = list_part s"
  "list_part (s\<lparr>AofFile := f\<rparr>) = list_part s" "list_part (s\<lparr>clock := t\<rparr>) = list_part s"
  "list_part (s\<lparr>timers := ts\<rparr>) = list_part s" "list_part (s\<lparr>conns := cs\<rparr>) = list_part s"
  "list_part (s\<lparr>ZSetRegistry := zs\<rparr>) = list_part s" "list_part (s\<lparr>ServerMemory := m\<rparr>) = list_part s"
  by (simp_all add: list_part_def)

lemma conn_write_frame: "conn_write c d s = (s', ok) \<Longrightarrow> list_part s' = list_part s \<and> ZSetRegistry s' = ZSetRegistry s"
  by (metis state_frame(12) conn_write_fields(8) fst_conv)

lemmas frame_defs = keeps_lists_def keeps_zsets_def Let_def final_and_then advance_repl_offset_def

lemma frame_basic [frame_intros]:
  "keeps_lists s (HandlePing c s)" "keeps_zsets s (HandlePing c s)"
  "keeps_lists s (HandleEcho c s)" "keeps_zsets s (HandleEcho c s)"
  "keeps_lists s (HandleGet c s)" "keeps_zsets s (HandleGet c s)"
  "keeps_lists s (HandleConfigGet c s)" "keeps_zsets s (HandleConfigGet c s)"
  "keeps_lists s (HandleKeys f c s)" "keeps_zsets s (HandleKeys f c s)"
  "keeps_lists s (HandleInfo c s)" "keeps_zsets s (HandleInfo c s)"
  by (auto simp: HandlePing_def HandleEcho_def HandleGet_def HandleConfigGet_def HandleKeys_def HandleInfo_def
      frame_defs dest!: conn_write_frame split: prod.splits option.splits outcome.splits info_val.splits)

lemma set_option_frame [simp]:
  "list_part (set_option c key s) = list_part s" "ZSetRegistry (set_option c key s) = ZSetRegistry s"
  by (auto simp: set_option_def Let_def split: prod.splits)

lemma frame_set [frame_intros]: "keeps_lists s (HandleSet c s)" "keeps_zsets s (HandleSet c s)"
  by (auto simp: HandleSet_def set_store_def frame_defs split: prod.splits option.splits outcome.splits info_val.splits)

lemma frame_acl [frame_intros]:
  "keeps_lists s (HandleACL c s)" "keeps_zsets s (HandleACL c s)"
  "keeps_lists s (HandleAuth c s)" "keeps_zsets s (HandleAuth c s)"
  by (auto simp: HandleACL_def HandleAuth_def acl_whoami_def acl_getuser_def acl_setuser_def frame_defs
      split: prod.splits option.splits)

lemma put_list_zsets [simp]: "ZSetRegistry (put_list k l s) = ZSetRegistry s"
  by (simp add: put_list_def)

lemma frame_lists [frame_intros]:
  "keeps_lists s (HandleLRange c s)" "keeps_lists s (HandleLLen c s)"
  "keeps_zsets s (HandleRPush c s)" "keeps_zsets s (HandleLPush c s)" "keeps_zsets s (HandleLRange c s)"
  "keeps_zsets s (HandleLLen c s)" "keeps_zsets s (HandleLPop c s)" "keeps_zsets s (HandleBLPop c s)"
  by (auto simp: HandleRPush_def HandleLPush_def HandleLRange_def HandleLLen_def HandleLPop_def
      HandleBLPop_def rpush_def lpush_def lpop_run_def blpop_def SendBLPOPSuccess_reply frame_defs
      split: prod.splits option.splits list.splits)

lemma AddToSortedSet_frame: "AddToSortedSet k m x s = (r, n) \<Longrightarrow> list_part (final r) = list_part s"
  by (auto simp: AddToSortedSet_def Let_def split: option.splits prod.splits)

lemma frame_zsets [frame_intros]:
  "keeps_lists s (HandleZRank c s)" "keeps_lists s (HandleZRange c s)" "keeps_lists s (HandleZCard c s)"
  "keeps_lists s (HandleZScore c s)" "keeps_lists s (HandleZRem c s)"
  by (auto simp: HandleZRank_def HandleZRange_def HandleZCard_def HandleZScore_def HandleZRem_def
      zrange_def with_rlock_def frame_defs split: prod.splits option.splits)

lemma frame_zadd [frame_intros]: "keeps_lists s (HandleZadd c s)"
  by (auto simp: HandleZadd_def frame_defs dest!: AddToSortedSet_frame split: prod.splits outcome.splits)

lemma frame_geo [frame_intros]:
  "keeps_lists s (HandleGeoAdd c s)" "keeps_lists s (HandleGeoPos c s)" "keeps_lists s (HandleGeoDist M c s)"
  by (auto simp: HandleGeoAdd_def HandleGeoPos_def HandleGeoDist_def with_rlock_def frame_defs
      dest!: AddToSortedSet_frame split: prod.splits option.splits outcome.splits)

lemma frame_geosearch [frame_intros]: "keeps_lists s (HandleGeoSearch M f c s)"
  unfolding HandleGeoSearch_def skip_word_field_def[symmetric]
  by (auto simp: with_rlock_def frame_defs split: prod.splits option.splits)

lemma frame_replication [frame_intros]:
  "keeps_lists s (HandleReplConf c s)" "keeps_zsets s (HandleReplConf c s)"
  "keeps_lists s (HandleWait c s)" "keeps_zsets s (HandleWait c s)"
  "keeps_lists s (HandlePsyncMaster c s)" "keeps_zsets s (HandlePsyncMaster c s)"
  by (auto simp: HandleReplConf_def HandleWait_def wait_turn_def HandlePsyncMaster_def frame_defs
      dest!: conn_write_frame split: prod.splits option.splits info_val.splits)

section \<open>The queues of waiting clients\<close>

lemma queue_ok_part: "list_part s = list_part t \<Longrightarrow> queue_ok s = queue_ok t"
  by (simp add: list_part_def queue_ok_def)

lemma queue_disjoint:
  assumes "queue_ok s" "ListRegistry s k' = Some l'" "k' \<noteq> k"
  shows "set (clients (load_list k s)) \<inter> set (clients l') = {}"
  using assms unfolding queue_ok_def load_list_def
  by (cases "ListRegistry s k") (auto simp: new_list_def)

lemma queue_ok_put:
  assumes "queue_ok s" "distinct (clients l)" "set (clients l) \<subseteq> set (clients (load_list k s))"
  shows "queue_ok (put_list k l s)"
proof -
  note queue_disjoint[OF assms(1)]
  moreover have "ch < next_chan s \<and> chans s ch = None" if "ch \<in> set (clients (load_list k s))" for ch
    using assms(1) that by (cases "ListRegistry s k") (auto simp: queue_ok_def load_list_def new_list_def)
  ultimately show ?thesis using assms unfolding queue_ok_def by (auto split: if_splits) blast+
qed

lemma queue_ok_rpush:
  assumes "queue_ok s" "rpush k xs s = Done t" shows "queue_ok t"
proof -
  let ?l = "load_list k s"
  let ?t = "put_list k \<lparr>elements = elements ?l @ drop (length (clients ?l)) xs, clients = drop (length xs) (clients ?l)\<rparr>
    (s\<lparr>chans := deliver (clients ?l) xs (chans s)\<rparr>)"
  note l = queue_ok_load[OF assms(1), of k]
  have t: "t = ?t" using rpush_done[OF l refl, of xs] assms(2) by simp
  have q: "queue_ok (put_list k \<lparr>elements = elements ?l @ drop (length (clients ?l)) xs, clients = drop (length xs) (clients ?l)\<rparr> s)"
    using l(1) by (intro queue_ok_put assms(1)) (auto dest: in_set_dropD)
  have "deliver (clients ?l) xs (chans s) ch = None"
    if "ListRegistry ?t k' = Some l'" "ch \<in> set (clients l')" for k' l' ch
  proof -
    have "ch \<notin> set (take (length xs) (clients ?l))"
    proof (cases "k' = k")
      case True
      then have "ch \<in> set (drop (length xs) (clients ?l))" using that by auto
      then show ?thesis using l(1) by (metis append_take_drop_id distinct_append disjoint_iff)
    next
      case False
      then have "ListRegistry s k' = Some l'" using that by simp
      from queue_disjoint[OF assms(1) this False] that(2) have "ch \<notin> set (clients ?l)" by blast
      then show ?thesis by (auto dest: in_set_takeD)
    qed
    moreover have "chans s ch = None" using q that by (simp add: queue_ok_def)
    ultimately show ?thesis using deliver_other by metis
  qed
  with q show ?thesis unfolding t queue_ok_def by simp
qed

lemma queue_okI:
  assumes "\<And>k l. ListRegistry s k = Some l \<Longrightarrow> distinct (clients l)"
    "\<And>k l ch. ListRegistry s k = Some l \<Longrightarrow> ch \<in> set (clients l) \<Longrightarrow> ch < next_chan s \<and> chans s ch = None"
    "\<And>k l k' l'. ListRegistry s k = Some l \<Longrightarrow> ListRegistry s k' = Some l' \<Longrightarrow> k \<noteq> k' \<Longrightarrow>
      set (clients l) \<inter> set (clients l') = {}"
  shows "queue_ok s"
  unfolding queue_ok_def using assms by blast

lemma queue_ok_lpush: "queue_ok s \<Longrightarrow> queue_ok (lpush k xs s)"
  unfolding lpush_def Let_def
  by (intro queue_ok_put) (use queue_ok_load in auto)

lemma queue_ok_lpop_run: "queue_ok s \<Longrightarrow> lpop_run c k n s = Done t \<Longrightarrow> queue_ok t"
proof -
  assume s: "queue_ok s" and t: "lpop_run c k n s = Done t"
  show "queue_ok t"
  proof (cases "ListRegistry s k")
    case None
    with s t show ?thesis using queue_ok_part[of t s] by (auto simp: lpop_run_def)
  next
    case (Some l)
    then have "load_list k s = l" by (simp add: load_list_def)
    with t Some obtain r xs where "t = reply c r (put_list k (l\<lparr>elements := xs\<rparr>) s)"
      by (auto simp: lpop_run_def split: option.splits prod.splits)
    moreover have "queue_ok (put_list k (l\<lparr>elements := xs\<rparr>) s)"
      using s queue_ok_load(1)[OF s, of k] \<open>load_list k s = l\<close> by (intro queue_ok_put) auto
    ultimately show ?thesis using queue_ok_part[of t "put_list k (l\<lparr>elements := xs\<rparr>) s"] by simp
  qed
qed

lemma queue_ok_blpop: "queue_ok s \<Longrightarrow> queue_ok (blpop c k x s)"
proof -
  assume s: "queue_ok s"
  show "queue_ok (blpop c k x s)"
  proof (cases "elements (load_list k s)")
    case (Cons v vs)
    have "queue_ok (put_list k ((load_list k s)\<lparr>elements := vs\<rparr>) s)"
      using s queue_ok_load(1)[OF s] by (intro queue_ok_put) auto
    with Cons show ?thesis
      using queue_ok_part[of "blpop c k x s" "put_list k ((load_list k s)\<lparr>elements := vs\<rparr>) s"]
      by (simp add: blpop_def Let_def SendBLPOPSuccess_reply)
  next
    case Nil
    let ?l = "load_list k s" and ?ch = "next_chan s"
    have old: "ch < ?ch \<and> chans s ch = None" if "ch \<in> set (clients ?l)" for ch
      using s that by (cases "ListRegistry s k") (auto simp: queue_ok_def load_list_def new_list_def)
    have others: "ch < ?ch \<and> chans s ch = None" if "ListRegistry s k' = Some l'" "ch \<in> set (clients l')" for k' l' ch
      using s that by (auto simp: queue_ok_def)
    have new: "?ch \<notin> set (clients ?l)" using old by blast
    have fresh: "?ch \<notin> set (clients l')" if "ListRegistry s k' = Some l'" for k' l' using others[OF that] by blast
    have "queue_ok (put_list k (?l\<lparr>clients := clients ?l @ [?ch]\<rparr>)
        (s\<lparr>next_chan := Suc ?ch, chans := (chans s)(?ch := None)\<rparr>))" (is "queue_ok ?t")
    proof (rule queue_okI)
      fix k1 l1 assume l1: "ListRegistry ?t k1 = Some l1"
      show "distinct (clients l1)"
        using l1 s new queue_ok_load(1)[OF s, of k] by (auto simp: queue_ok_def split: if_splits)
      show "ch < next_chan ?t \<and> chans ?t ch = None" if "ch \<in> set (clients l1)" for ch
        using l1 that old others by (auto simp: less_Suc_eq split: if_splits)
      fix k2 l2 assume l2: "ListRegistry ?t k2 = Some l2" "k1 \<noteq> k2"
      show "set (clients l1) \<inter> set (clients l2) = {}"
      proof (cases "k1 = k")
        case True
        then show ?thesis using l1 l2 queue_disjoint[OF s, of k2 l2 k] fresh[of k2 l2] by auto
      next
        case False
        then show ?thesis using l1 l2 s queue_disjoint[OF s, of k1 l1 k] fresh[of k1 l1]
          by (cases "k2 = k") (auto simp: queue_ok_def)
      qed
    qed
    with Nil show ?thesis
      using queue_ok_part[of "blpop c k x s" "put_list k (?l\<lparr>clients := clients ?l @ [?ch]\<rparr>)
        (s\<lparr>next_chan := Suc ?ch, chans := (chans s)(?ch := None)\<rparr>)"]
      by (simp add: blpop_def Let_def)
  qed
qed

lemma queue_ok_dispatch:
  assumes "queue_ok s" "dispatch P w c s = Done t" shows "queue_ok t"
proof -
  have frame: "queue_ok t" if "keeps_lists s (dispatch P w c s)"
    using that assms queue_ok_part[of t s] by (simp add: keeps_lists_def)
  have rd: "queue_ok (set_rd c r s)" for r using assms(1) queue_ok_part[of "set_rd c r s" s] by simp
  have rep: "queue_ok (reply c d u) = queue_ok u" for d u by (rule queue_ok_part) simp
  consider "w = ''RPUSH''" | "w = ''LPUSH''" | "w = ''LPOP''" | "w = ''BLPOP''"
    | "w \<notin> {''RPUSH'', ''LPUSH'', ''LPOP'', ''BLPOP''}" by blast
  then show ?thesis
  proof cases
    case 1
    then show ?thesis using assms rd rep queue_ok_rpush
      by (fastforce simp: dispatch_words HandleRPush_def Let_def and_then_eq_Done split: if_splits prod.splits)
  next
    case 2
    then show ?thesis using assms rd rep queue_ok_lpush
      by (auto simp: dispatch_words HandleLPush_def Let_def split: if_splits prod.splits)
  next
    case 3
    then show ?thesis using assms rd rep queue_ok_lpop_run
      by (fastforce simp: dispatch_words HandleLPop_def Let_def split: if_splits prod.splits option.splits)
  next
    case 4
    then show ?thesis using assms rd rep queue_ok_blpop
      by (auto simp: dispatch_words HandleBLPop_def Let_def split: if_splits prod.splits)
  next
    case 5
    then have "keeps_lists s (dispatch P w c s)"
      unfolding dispatch_def by (simp add: frame_intros) (simp add: keeps_lists_def)
    then show ?thesis by (rule frame)
  qed
qed

lemma wait_turn_frame [simp]:
  "list_part (wait_turn c n d s) = list_part s" "ZSetRegistry (wait_turn c n d s) = ZSetRegistry s"
  by (simp_all add: wait_turn_def Let_def)

lemma background_frame [simp]:
  "list_part (wait_poll c s) = list_part s" "ZSetRegistry (wait_poll c s) = ZSetRegistry s"
  "list_part (wait_expire c s) = list_part s" "ZSetRegistry (wait_expire c s) = ZSetRegistry s"
  "list_part (blpop_expire c s) = list_part s" "ZSetRegistry (blpop_expire c s) = ZSetRegistry s"
  "list_part (fire_timer i s) = list_part s" "ZSetRegistry (fire_timer i s) = ZSetRegistry s"
  "list_part (tick d s) = list_part s" "ZSetRegistry (tick d s) = ZSetRegistry s"
  "list_part (accept_conn c r k s) = list_part s" "ZSetRegistry (accept_conn c r k s) = ZSetRegistry s"
  by (auto simp: wait_poll_def wait_expire_def blpop_expire_def fire_timer_def tick_def accept_conn_def Let_def
      mem_delete_def split: activity.splits option.splits prod.splits)

lemma start_session_frame:
  "start_session c s = Done t \<Longrightarrow> list_part t = list_part s \<and> ZSetRegistry t = ZSetRegistry s"
  by (auto simp: start_session_def split: option.splits)

lemma queue_ok_same: "queue_ok s \<Longrightarrow> list_part t = list_part s \<Longrightarrow> queue_ok t"
  using queue_ok_part by blast

lemma queue_ok_receive: assumes "queue_ok s" shows "queue_ok (blpop_receive c s)"
proof -
  have "queue_ok (s\<lparr>chans := (chans s)(ch := None)\<rparr>)" for ch
    using assms by (auto simp: queue_ok_def)
  moreover have "list_part (blpop_receive c s) = list_part s \<or>
      (\<exists>ch. list_part (blpop_receive c s) = list_part (s\<lparr>chans := (chans s)(ch := None)\<rparr>))"
    by (simp add: blpop_receive_def SendBLPOPSuccess_reply split: activity.splits option.splits) blast
  ultimately show ?thesis using assms queue_ok_same by blast
qed

lemma queue_ok_leave: assumes "queue_ok s" shows "queue_ok (blpop_leave c s)"
proof -
  have "distinct (remove_first (\<lambda>x. x = ch) (clients (load_list k s)))" for ch k
    using queue_ok_load(1)[OF assms, of k] distinct_map_remove_first[of id] by simp
  then have "queue_ok (put_list k ((load_list k s)\<lparr>clients := remove_first (\<lambda>x. x = ch) (clients (load_list k s))\<rparr>) s)" for k ch
    using set_remove_first_subset by (intro queue_ok_put assms) simp_all
  moreover have "list_part (blpop_leave c s) = list_part s \<or>
      (\<exists>k ch. list_part (blpop_leave c s)
        = list_part (put_list k ((load_list k s)\<lparr>clients := remove_first (\<lambda>x. x = ch) (clients (load_list k s))\<rparr>) s))"
    by (simp add: blpop_leave_def Let_def split: activity.splits) blast
  ultimately show ?thesis using assms queue_ok_same by blast
qed

interpretation queues: step_invariant P queue_ok for P
proof
  fix s assume s: "queue_ok s"
  note same = queue_ok_same[OF s]
  show "queue_ok (set_rd c r s)" "queue_ok (blpop_expire c s)" "queue_ok (wait_poll c s)" "queue_ok (wait_expire c s)"
    "queue_ok (fire_timer i s)" "queue_ok (tick d s)" "queue_ok (accept_conn c r k s)" for c r i d k
    by (rule same, simp)+
  show "queue_ok (blpop_receive c s)" "queue_ok (blpop_leave c s)" for c
    using s by (rule queue_ok_receive queue_ok_leave)+
  show "queue_ok t" if "dispatch P w c s = Done t" for w c t using s that by (rule queue_ok_dispatch)
  show "queue_ok t" if "start_session c s = Done t" for c t using start_session_frame[OF that] same by blast
qed

section \<open>The sorted sets\<close>

definition zsets_agree :: "server \<Rightarrow> bool" where
  "zsets_agree s \<longleftrightarrow> (\<forall>k z. ZSetRegistry s k = Some z \<longrightarrow> zset_agrees z)"

lemma zset_agrees_lock [simp]:
  "zset_agrees (z\<lparr>readers := n\<rparr>) = zset_agrees z" "zset_agrees (z\<lparr>writer := b\<rparr>) = zset_agrees z"
  "zset_agrees (z\<lparr>writer_waits := b\<rparr>) = zset_agrees z" "zset_agrees new_zset"
  by (simp_all add: zset_agrees_def zset_entries_def new_zset_def)

lemma zset_agrees_locks:
  "rlock z = Some z' \<Longrightarrow> zset_agrees z' = zset_agrees z" "lock z = Some z' \<Longrightarrow> zset_agrees z' = zset_agrees z"
  "zset_agrees (runlock z) = zset_agrees z" "zset_agrees (unlock z) = zset_agrees z"
  by (auto simp: rlock_def lock_def runlock_def unlock_def split: if_splits)

lemma zsets_agree_put: "zsets_agree s \<Longrightarrow> zset_agrees z \<Longrightarrow> zsets_agree (put_zset k z s)"
  by (auto simp: zsets_agree_def)

lemma zsets_agree_same: "zsets_agree s \<Longrightarrow> ZSetRegistry t = ZSetRegistry s \<Longrightarrow> zsets_agree t"
  by (simp add: zsets_agree_def)

lemma zsets_agree_load: "zsets_agree s \<Longrightarrow> zset_agrees (load_zset k s)"
  by (auto simp: zsets_agree_def load_zset_def split: option.splits)

lemma zsets_agree_frame [simp]:
  "zsets_agree (reply c d s) = zsets_agree s" "zsets_agree (set_rd c r s) = zsets_agree s"
  by (simp_all add: zsets_agree_def)

lemma zsets_agree_AddToSortedSet:
  assumes "zsets_agree s" "AddToSortedSet k m x s = (Done t, n)" shows "zsets_agree t"
proof -
  let ?z = "load_zset k s"
  obtain z1 where z1: "lock ?z = Some z1" using assms(2) by (cases "lock ?z") (auto simp: AddToSortedSet_def Let_def)
  then have "zset_agrees (unlock (fst (zset_add m x z1)))"
    using zsets_agree_load[OF assms(1)] by (simp add: zset_agrees_locks zset_add_agrees)
  moreover have "t = put_zset k (unlock (fst (zset_add m x z1))) s"
    using assms(2) z1 by (simp add: AddToSortedSet_def Let_def split: prod.splits)
  ultimately show ?thesis using zsets_agree_put[OF assms(1)] by simp
qed

lemma zsets_agree_locked:
  assumes "zsets_agree s" "ZSetRegistry s k = Some z"
  shows "rlock z = Some z' \<Longrightarrow> zset_agrees z'" "lock z = Some z' \<Longrightarrow> zset_agrees z'"
    "rlock z = Some z' \<Longrightarrow> zset_agrees (runlock z')" "lock z = Some z' \<Longrightarrow> zset_agrees (unlock z')"
    "lock z = Some z' \<Longrightarrow> zset_agrees (unlock (zset_remove m z'))" "zset_agrees z"
  using assms by (auto simp: zsets_agree_def zset_agrees_locks zset_remove_agrees)

definition preserves_zsets :: "server \<Rightarrow> server outcome \<Rightarrow> bool" where
  "preserves_zsets s r \<longleftrightarrow> (zsets_agree s \<longrightarrow> (\<forall>t. r = Done t \<longrightarrow> zsets_agree t))"

named_theorems preserve_intros "handlers that keep the sorted sets in agreement"

lemma preserves_readers [preserve_intros]:
  "preserves_zsets s (HandleZRank c s)" "preserves_zsets s (HandleZRange c s)" "preserves_zsets s (HandleZCard c s)"
  "preserves_zsets s (HandleZScore c s)"
  by (auto simp: preserves_zsets_def HandleZRank_def HandleZRange_def HandleZCard_def HandleZScore_def zrange_def
      with_rlock_def Let_def intro!: zsets_agree_put intro: zsets_agree_locked
      split: prod.splits option.splits if_splits)

lemma preserves_zrem [preserve_intros]: "preserves_zsets s (HandleZRem c s)"
  by (auto simp: preserves_zsets_def HandleZRem_def Let_def intro!: zsets_agree_put intro: zsets_agree_locked
      split: prod.splits option.splits if_splits)

lemma preserves_geo [preserve_intros]:
  "preserves_zsets s (HandleGeoPos c s)" "preserves_zsets s (HandleGeoDist M c s)"
  by (auto simp: preserves_zsets_def HandleGeoPos_def HandleGeoDist_def with_rlock_def Let_def
      intro!: zsets_agree_put intro: zsets_agree_locked split: prod.splits option.splits if_splits)

lemma preserves_geosearch [preserve_intros]: "preserves_zsets s (HandleGeoSearch M f c s)"
  unfolding HandleGeoSearch_def skip_word_field_def[symmetric]
  by (auto simp: preserves_zsets_def with_rlock_def Let_def
      intro!: zsets_agree_put intro: zsets_agree_locked split: prod.splits option.splits if_splits)

lemma preserves_adders [preserve_intros]:
  "preserves_zsets s (HandleZadd c s)" "preserves_zsets s (HandleGeoAdd c s)"
  by (auto simp: preserves_zsets_def HandleZadd_def HandleGeoAdd_def Let_def and_then_eq_Done
      dest!: zsets_agree_AddToSortedSet[rotated] split: prod.splits if_splits)

lemma zsets_agree_dispatch:
  assumes "zsets_agree s" "dispatch P w c s = Done t" shows "zsets_agree t"
proof (cases "w \<in> {''ZADD'', ''ZRANK'', ''ZRANGE'', ''ZCARD'', ''ZSCORE'', ''ZREM'', ''GEOADD'', ''GEOPOS'', ''GEODIST'', ''GEOSEARCH''}")
  case True
  then have "preserves_zsets s (dispatch P w c s)" by (auto simp: dispatch_words preserve_intros)
  then show ?thesis using assms by (simp add: preserves_zsets_def)
next
  case False
  then have "keeps_zsets s (dispatch P w c s)"
    unfolding dispatch_def by (simp add: frame_intros) (simp add: keeps_zsets_def)
  then show ?thesis using assms zsets_agree_same[of s t] by (simp add: keeps_zsets_def)
qed

interpretation zsets: step_invariant P zsets_agree for P
proof
  fix s assume s: "zsets_agree s"
  note same = zsets_agree_same[OF s]
  show "zsets_agree (set_rd c r s)" "zsets_agree (blpop_receive c s)" "zsets_agree (blpop_expire c s)"
    "zsets_agree (blpop_leave c s)" "zsets_agree (wait_poll c s)" "zsets_agree (wait_expire c s)"
    "zsets_agree (fire_timer i s)" "zsets_agree (tick d s)" "zsets_agree (accept_conn c r k s)" for c r i d k
    by (rule same, simp add: blpop_receive_def blpop_leave_def SendBLPOPSuccess_reply Let_def
        split: activity.splits option.splits)+
  show "zsets_agree t" if "dispatch P w c s = Done t" for w c t using s that by (rule zsets_agree_dispatch)
  show "zsets_agree t" if "start_session c s = Done t" for c t using start_session_frame[OF that] same by blast
qed

section \<open>The start of the process\<close>

lemma conn_write_frames:
  "conn_write c d s = (s', ok) \<Longrightarrow> list_part s' = list_part s" "conn_write c d s = (s', ok) \<Longrightarrow> ZSetRegistry s' = ZSetRegistry s"
  using conn_write_frame by blast+

lemma ConnectToMaster_frame:
  "ConnectToMaster ok c p s = Done t \<Longrightarrow> list_part t = list_part s \<and> ZSetRegistry t = ZSetRegistry s"
  by (auto simp: ConnectToMaster_def HandlePsyncSlave_def HandleReplConfSlave_def Let_def conn_write_frames
      split: prod.splits if_splits dest!: conn_write_frame)

lemma aof_command_frame [simp]:
  "list_part (aof_command args s) = list_part s" "ZSetRegistry (aof_command args s) = ZSetRegistry s"
  by (auto simp: aof_command_def Let_def split: list.splits)

lemma aof_replay_frame [simp]:
  "list_part (aof_replay r s) = list_part s" "ZSetRegistry (aof_replay r s) = ZSetRegistry s"
  by (induction r s rule: aof_replay.induct) (subst aof_replay.simps, simp split: prod.splits option.splits)+

lemma store_expiring_frame [simp]:
  "list_part (store_expiring k v t s) = list_part s" "ZSetRegistry (store_expiring k v t s) = ZSetRegistry s"
  by (simp_all add: store_expiring_def)

text \<open>One turn of the loop of \<open>LoadRDB\<close>: it ends, or goes on with less input and at most one key stored.\<close>

lemma load_entries_turn:
  "load_entries r s = s \<or> (\<exists>r' s'. rd_size r' < rd_size r \<and> load_entries r s = load_entries r' s' \<and>
     (s' = s \<or> (\<exists>k v t. s' = mem_store k v s \<or> s' = store_expiring k v t s)))" (is "_ \<or> ?go")
proof (cases "ReadByte r")
  case (fields bo err r1)
  show ?thesis
  proof (cases bo; cases err)
    fix b assume b: "bo = Some b" "err = None"
    note byte = fields[unfolded b]
    obtain k e2 r2 where k: "readString r1 = (k, e2, r2)" by (metis prod_cases3)
    obtain v e3 r3 where v: "readString r2 = (v, e3, r3)" by (metis prod_cases3)
    obtain l2 p2 e2' r2' where l2: "readLength r1 = (l2, p2, e2', r2')" by (metis prod_cases4)
    obtain l3 p3 e3' r3' where l3: "readLength r2' = (l3, p3, e3', r3')" by (metis prod_cases4)
    obtain tte q1 where t: "binary_read le_uint 8 r1 = (tte, q1)" by (metis prod.exhaust)
    obtain tb te q2 where tb: "ReadByte q1 = (tb, te, q2)" by (metis prod_cases3)
    obtain k' e4 q3 where k': "readString q2 = (k', e4, q3)" by (metis prod_cases3)
    obtain v' e5 q4 where v': "readString q3 = (v', e5, q4)" by (metis prod_cases3)
    have r1: "rd_size r1 < rd_size r" using ReadByte_None_size byte by metis
    have less: "rd_size r3 < rd_size r" "rd_size r2' < rd_size r" "rd_size r3' < rd_size r" "rd_size q4 < rd_size r"
      using r1 reading_sizes(2)[OF tb[symmetric]] reading_sizes(3)[OF k[symmetric]] reading_sizes(3)[OF v[symmetric]]
        reading_sizes(3)[OF k'[symmetric]] reading_sizes(3)[OF v'[symmetric]] reading_sizes(4)[OF l2[symmetric]]
        reading_sizes(4)[OF l3[symmetric]] reading_sizes(5)[OF t[symmetric]] by linarith+
    consider "b = CHR 0xFF" | "b = CHR 0xFA" | "b = CHR 0xFE" | "b = CHR 0xFB" | "b = CHR 0xFC \<or> b = CHR 0xFD"
      | "b \<notin> {CHR 0xFF, CHR 0xFA, CHR 0xFE, CHR 0xFB, CHR 0xFC, CHR 0xFD}" by blast
    then show ?thesis
    proof cases
      case 1
      then show ?thesis by (subst load_entries.simps) (simp add: byte)
    next
      case 2
      then have "load_entries r s = load_entries r3 s" by (subst load_entries.simps) (simp add: byte k v)
      then show ?thesis using less(1) by blast
    next
      case 3
      then have "load_entries r s = load_entries r2' s" by (subst load_entries.simps) (simp add: byte l2)
      then show ?thesis using less(2) by blast
    next
      case 4
      then have "load_entries r s = load_entries r3' s" by (subst load_entries.simps) (simp add: byte l2 l3)
      then show ?thesis using less(3) by blast
    next
      case 5
      then have "load_entries r s = (if e4 \<noteq> None \<or> e5 \<noteq> None then s
          else load_entries q4 (store_expiring k' v' ((if b = CHR 0xFC then until_ms else until_sec) tte (clock s)) s))"
        by (elim disjE; subst load_entries.simps) (simp_all add: byte k' v' t tb)
      then show ?thesis using less(4) by (cases "e4 \<noteq> None \<or> e5 \<noteq> None") (simp, metis)
    next
      case 6
      then have "load_entries r s = (if e2 \<noteq> None \<or> e3 \<noteq> None then s else load_entries r3 (mem_store k v s))"
        by (subst load_entries.simps) (simp add: byte k v)
      then show ?thesis using less(1) by (cases "e2 \<noteq> None \<or> e3 \<noteq> None") (simp, metis)
    qed
  qed (simp_all add: load_entries.simps[of r s] fields)
qed

lemma load_entries_keeps:
  assumes "\<And>k v s. Q s \<Longrightarrow> Q (mem_store k v s)" "\<And>k v t s. Q s \<Longrightarrow> Q (store_expiring k v t s)"
  shows "Q s \<Longrightarrow> Q (load_entries r s)"
proof (induction "rd_size r" arbitrary: r s rule: less_induct)
  case less
  from load_entries_turn[of r s] show ?case using less assms by metis
qed

lemma load_entries_frame [simp]:
  "list_part (load_entries r s) = list_part s" "ZSetRegistry (load_entries r s) = ZSetRegistry s"
  using load_entries_keeps[where Q = "\<lambda>u. list_part u = list_part s" and s = s and r = r]
    load_entries_keeps[where Q = "\<lambda>u. ZSetRegistry u = ZSetRegistry s" and s = s and r = r] by simp_all

lemma main_frame:
  assumes "main F H mc cs now = Done s"
  shows "list_part s = (Map.empty, Map.empty, 0)" "ZSetRegistry s = Map.empty"
proof -
  have role: "list_part t = list_part u \<and> ZSetRegistry t = ZSetRegistry u" if "start_role F H mc u = Done t" for t u
    using that by (auto simp: start_role_def Let_def and_then_eq_Done split: if_splits
        dest!: ConnectToMaster_frame start_session_frame)
  have aof: "list_part t = list_part u \<and> ZSetRegistry t = ZSetRegistry u" if "start_aof F H u = Done t" for t u
    using that by (auto simp: start_aof_def AOFParser_def Let_def split: if_splits prod.splits option.splits)
  have rdb: "list_part (LoadRDB f d n u) = list_part u \<and> ZSetRegistry (LoadRDB f d n u) = ZSetRegistry u" for f d n u
    by (simp add: LoadRDB_def Let_def split: option.splits prod.splits)
  have "list_part (store_flags F (empty_server cs now)) = (Map.empty, Map.empty, 0)"
    "ZSetRegistry (store_flags F (empty_server cs now)) = Map.empty"
    by (simp_all add: store_flags_def empty_server_def list_part_def)
  then show "list_part s = (Map.empty, Map.empty, 0)" "ZSetRegistry s = Map.empty"
    using assms rdb by (auto simp: main_def Let_def and_then_eq_Done split: if_splits dest!: role aof)
qed

section \<open>What holds of every reachable state\<close>

text \<open>
  C15: In every state the process reaches from its start, through any interleaving of commands,
  timeouts, expiries and new connections, each waiting client's channel stands in one queue only,
  once, and is empty: the queues of \<open>BLPOP\<close> never hold a channel that has already been served.
\<close>

theorem reachable_queues_ok:
  assumes "main F H mc cs now = Done s" "steps P s t"
  shows "queue_ok t"
proof -
  have "queue_ok s" using main_frame(1)[OF assms(1)] by (auto simp: list_part_def intro: queue_okI)
  with assms(2) show ?thesis by (rule queues.keeps_steps)
qed

text \<open>
  C16: So in no reachable state does a push block: \<open>RPUSH\<close>, which sends to the waiting clients' channels
  while it holds the list's lock, always returns, and leaves the list with the old elements and
  those of the new ones that exceed the number of waiting clients.
\<close>

theorem reachable_rpush_returns:
  assumes "main F H mc cs now = Done s" "steps P s t"
  shows "\<exists>u. rpush k xs t = Done u \<and>
    load_list k u = \<lparr>elements = elements (load_list k t) @ drop (length (clients (load_list k t))) xs,
                     clients = drop (length xs) (clients (load_list k t))\<rparr>"
proof -
  have "queue_ok s" using main_frame(1)[OF assms(1)] by (auto simp: list_part_def intro: queue_okI)
  with assms(2) have "queue_ok t" by (rule queues.keeps_steps)
  from rpush_done[OF queue_ok_load[OF this] refl] show ?thesis by simp
qed

text \<open>
  C17: In every reachable state the map and the slice of each sorted set hold the same elements, each
  name once, whatever scores (\<open>NaN\<close> included) the clients gave.
\<close>

theorem reachable_zsets_agree:
  assumes "main F H mc cs now = Done s" "steps P s t" "ZSetRegistry t k = Some z"
  shows "distinct (map Name (Order z)) \<and> set (zset_entries z) = set (Elements z) \<and> length (Order z) = length (Elements z)"
proof -
  have "zsets_agree s" using main_frame(2)[OF assms(1)] by (simp add: zsets_agree_def)
  with assms(2) have "zsets_agree t" by (rule zsets.keeps_steps)
  then have "zset_agrees z" using assms(3) by (simp add: zsets_agree_def)
  then show ?thesis using zset_agrees_length by (simp add: zset_agrees_def)
qed

section \<open>Examples\<close>

definition example_flags :: flags where
  "example_flags = \<lparr>flag_dir = ''/data'', flag_dbfilename = ''dump.rdb'', flag_port = 6379, flag_replicaof = ''master'',
     flag_appendonly = ''no'', flag_appenddirname = ''aof'', flag_appendfilename = ''file'', flag_appendfsync = ''always''\<rparr>"

definition example_host :: host where
  "example_host = \<lparr>listens = True, dials = False, makes_dir = True, manifest_data = None, writes_manifest = True,
     aof_reader = \<lambda>_. None, aof_appender = \<lambda>_. None, open_rdb = \<lambda>_ _. None, Intn = \<lambda>_. 0\<rparr>"

text \<open>A master that starts, with the same input on every connection: a \<open>ZADD\<close>, or a \<open>BLPOP\<close> without a limit.\<close>

definition zadd_conn :: conn where
  "zadd_conn = client_conn [] [Chunk (''ZADD'' @ crlf @ bulks [''board'', ''2.5'', ''ann''])]"

definition pop_conn :: conn where
  "pop_conn = client_conn ''default'' [Chunk (''BLPOP'' @ crlf @ bulks [''queue'', ''0''])]"

definition started_with :: "conn \<Rightarrow> server" where
  "started_with x = final (main example_flags example_host 9 (\<lambda>_. x) 0)"

lemma started_with:
  "main example_flags example_host 9 (\<lambda>_. x) 0 = Done (started_with x)"
  "conns (started_with x) = (\<lambda>_. x)" "ZSetRegistry (started_with x) = Map.empty"
  "ListRegistry (started_with x) = Map.empty" "next_chan (started_with x) = 0"
  "UserRegistry (started_with x) ''default'' = Some default_user"
  by (simp_all add: started_with_def main_def start_role_def example_flags_def example_host_def LoadRDB_def store_flags_def
      empty_server_def Let_def)

definition started :: server where
  "started = started_with zadd_conn"

lemmas started = started_with[of zadd_conn, folded started_def]

lemma started_zadd:
  "\<exists>t z. steps plain_platform started t \<and> ZSetRegistry t ''board'' = Some z \<and> map Name (Order z) = [''ann'']"
proof -
  let ?b = "bulks [''board'', ''2.5'', ''ann'']"
  let ?s = "set_rd 0 \<lparr>rbuf = ?b, rsrc = []\<rparr> started"
  have "in_chunk (rd_of 0 started) ((''ZADD'' @ [CR]) @ LF # ?b) []"
    by (simp add: rd_of_def started zadd_conn_def client_conn_def in_chunk_def crlf_def)
  from ReadString_in_chunk[OF this] have line: "ReadString (rd_of 0 started) = (''ZADD'' @ crlf, None, \<lparr>rbuf = ?b, rsrc = []\<rparr>)"
    by (simp add: crlf_def)
  have "TrimSpace (''ZADD'' @ crlf) = ''ZADD''" by (rule arg_ok_trim) simp
  with line have step: "serve_step plain_platform 0 started = (True, HandleZadd 0 ?s)"
    by (simp add: serve_step_def dispatch_words)
  have "no_errors \<lparr>rbuf = ?b, rsrc = []\<rparr>" "stream \<lparr>rbuf = ?b, rsrc = []\<rparr> = ?b @ []"
    by (simp_all add: no_errors_def stream_def)
  from read_three_fields[OF this] obtain r1 r2 r where
    "read_field \<lparr>rbuf = ?b, rsrc = []\<rparr> = (''board'' @ crlf, None, r1)" "read_field r1 = (''2.5'' @ crlf, None, r2)"
    "read_field r2 = (''ann'' @ crlf, None, r)" by (metis zset_words(5,6,8))
  moreover have "TrimSpace (''board'' @ crlf) = ''board''" "TrimSpace (''ann'' @ crlf) = ''ann''"
    by (simp_all only: arg_ok_trim zset_words)
  moreover have "load_zset ''board'' started = new_zset" by (simp add: load_zset_def started)
  ultimately obtain x n where "HandleZadd 0 ?s = Done (reply 0 (int_reply n) (put_zset ''board'' (fst (zset_add ''ann'' x new_zset)) (set_rd 0 r started)))"
    by (simp add: HandleZadd_def AddToSortedSet_unlocked del: arg_ok_trim)
  with step have "step plain_platform started (reply 0 (int_reply n) (put_zset ''board'' (fst (zset_add ''ann'' x new_zset)) (set_rd 0 r started)))"
    by (intro step.command[of started 0]) (simp_all add: started zadd_conn_def client_conn_def)
  then show ?thesis
    by (intro exI[of _ "reply 0 (int_reply n) (put_zset ''board'' (fst (zset_add ''ann'' x new_zset)) (set_rd 0 r started))"])
      (auto simp: zset_add_def new_zset_def Search_def search_between.simps insert_at_def)
qed

text \<open>A connection that sends the \<open>BLPOP\<close> waits in the queue of an empty list.\<close>

lemma pop_step:
  assumes "conns s c = pop_conn"
  shows "step P s (blpop c ''queue'' (ParseFloat ''0'') (set_rd c \<lparr>rbuf = [], rsrc = []\<rparr> s))"
proof -
  let ?b = "bulks [''queue'', ''0'']"
  let ?s = "set_rd c \<lparr>rbuf = ?b, rsrc = []\<rparr> s"
  have "in_chunk (rd_of c s) ((''BLPOP'' @ [CR]) @ LF # ?b) []"
    by (simp add: rd_of_def assms pop_conn_def client_conn_def in_chunk_def crlf_def)
  from ReadString_in_chunk[OF this] have line: "ReadString (rd_of c s) = (''BLPOP'' @ crlf, None, \<lparr>rbuf = ?b, rsrc = []\<rparr>)"
    by (simp add: crlf_def)
  have words: "arg_ok ''BLPOP''" "arg_ok ''queue''" "arg_ok ''0''" by (rule arg_ok_graphic, simp add: graphic_def)+
  have "TrimSpace (''BLPOP'' @ crlf) = ''BLPOP''" by (rule arg_ok_trim[OF words(1)])
  with line have step: "serve_step P c s = (True, HandleBLPop c ?s)"
    by (simp add: serve_step_def dispatch_words)
  have "read_field \<lparr>rbuf = ?b, rsrc = []\<rparr> = (''queue'' @ crlf, None, \<lparr>rbuf = bulk ''0'', rsrc = []\<rparr>)"
    by (rule read_field_in_chunk) (simp_all add: words in_chunk_def)
  moreover have "read_field \<lparr>rbuf = bulk ''0'', rsrc = []\<rparr> = (''0'' @ crlf, None, \<lparr>rbuf = [], rsrc = []\<rparr>)"
    by (rule read_field_in_chunk) (simp_all add: words in_chunk_def)
  moreover have "TrimSpace (''queue'' @ crlf) = ''queue''" "TrimSpace (''0'' @ crlf) = ''0''"
    by (simp_all only: arg_ok_trim words)
  moreover have "authed c ?s" by (simp add: assms pop_conn_def client_conn_def CheckAuth_def)
  ultimately have "HandleBLPop c ?s = Done (blpop c ''queue'' (ParseFloat ''0'') (set_rd c \<lparr>rbuf = [], rsrc = []\<rparr> s))"
    by (simp add: HandleBLPop_def del: arg_ok_trim)
  with step show ?thesis
    by (intro step.command[of s c]) (simp_all add: assms pop_conn_def client_conn_def)
qed

lemma blpop_conns:
  assumes "e \<noteq> c" "elements (load_list k s) = []"
  shows "conns (blpop c k x (set_rd c r s)) e = conns s e"
proof -
  have "conns (set_rd c r s) e = conns s e" using assms(1) by (simp add: set_rd_def)
  with assms show ?thesis by (simp add: blpop_def Let_def set_act_def put_list_def)
qed

lemma blpop_joins:
  assumes "load_list k s = \<lparr>elements = [], clients = cs\<rparr>"
  shows "load_list k (blpop c k x (set_rd c r s)) = \<lparr>elements = [], clients = cs @ [next_chan s]\<rparr>"
    "next_chan (blpop c k x (set_rd c r s)) = Suc (next_chan s)"
  using assms by (simp_all add: blpop_def Let_def)

lemma two_wait:
  "\<exists>t. steps plain_platform (started_with pop_conn) t \<and> load_list ''queue'' t = \<lparr>elements = [], clients = [0, 1]\<rparr>"
proof -
  let ?pop = "\<lambda>c s. blpop c ''queue'' (ParseFloat ''0'') (set_rd c \<lparr>rbuf = [], rsrc = []\<rparr> s)"
  let ?t = "?pop 0 (started_with pop_conn)"
  have l: "load_list ''queue'' (started_with pop_conn) = new_list" by (simp add: load_list_def started_with)
  have "step plain_platform (started_with pop_conn) ?t" by (rule pop_step) (simp add: started_with)
  moreover have "conns ?t 1 = pop_conn" using l by (simp add: blpop_conns new_list_def started_with)
  then have "step plain_platform ?t (?pop 1 ?t)" by (rule pop_step)
  ultimately have "steps plain_platform (started_with pop_conn) (?pop 1 ?t)" by (simp add: rtranclp.rtrancl_into_rtrancl)
  moreover have "load_list ''queue'' ?t = \<lparr>elements = [], clients = [0]\<rparr>" "next_chan ?t = 1"
    using blpop_joins[of "''queue''" "started_with pop_conn" "[]" 0] l by (simp_all add: new_list_def started_with)
  then have "load_list ''queue'' (?pop 1 ?t) = \<lparr>elements = [], clients = [0, 1]\<rparr>"
    using blpop_joins(1)[of "''queue''" ?t "[0]" 1] by simp
  ultimately show ?thesis by (intro exI[of _ "?pop 1 ?t"] conjI)
qed

lemma reachable_queues_ok_example:
  "\<exists>t. steps plain_platform (started_with pop_conn) t \<and> clients (load_list ''queue'' t) = [0, 1] \<and> queue_ok t"
proof -
  obtain t where t: "steps plain_platform (started_with pop_conn) t" "load_list ''queue'' t = \<lparr>elements = [], clients = [0, 1]\<rparr>"
    using two_wait by (elim exE conjE)
  from reachable_queues_ok[OF started_with(1) t(1)] t show ?thesis by (intro exI[of _ t]) simp
qed

text \<open>Of three elements pushed while two clients wait, the third stays in the list.\<close>

lemma reachable_rpush_returns_example:
  "\<exists>t u. steps plain_platform (started_with pop_conn) t \<and> clients (load_list ''queue'' t) = [0, 1] \<and>
    rpush ''queue'' [''x'', ''y'', ''z''] t = Done u \<and> load_list ''queue'' u = \<lparr>elements = [''z''], clients = []\<rparr>"
proof -
  obtain t where t: "steps plain_platform (started_with pop_conn) t" "load_list ''queue'' t = \<lparr>elements = [], clients = [0, 1]\<rparr>"
    using two_wait by (elim exE conjE)
  from reachable_rpush_returns[OF started_with(1) t(1), of "''queue''" "[''x'', ''y'', ''z'']"] t
  obtain u where "rpush ''queue'' [''x'', ''y'', ''z''] t = Done u" "load_list ''queue'' u = \<lparr>elements = [''z''], clients = []\<rparr>"
    by auto
  with t show ?thesis by (intro exI[of _ t] exI[of _ u]) simp
qed

lemma reachable_zsets_agree_example:
  "\<exists>t z. steps plain_platform started t \<and> ZSetRegistry t ''board'' = Some z \<and> fst ` set (Elements z) = {''ann''}"
proof -
  obtain t z where t: "steps plain_platform started t" "ZSetRegistry t ''board'' = Some z" "map Name (Order z) = [''ann'']"
    using started_zadd by (elim exE conjE)
  from reachable_zsets_agree[OF started(1) t(1,2)] have "fst ` set (Elements z) = fst ` set (zset_entries z)"
    by (elim conjE) (simp only:)
  also have "\<dots> = set (map fst (zset_entries z))" by (simp only: list.set_map)
  also have "\<dots> = {''ann''}" by (simp only: zset_entries_names t(3)) simp
  finally show ?thesis using t(1,2) by (intro exI[of _ t] exI[of _ z] conjI)
qed

end
