(* ===== verification/Replication_Properties.thy ===== *)
theory Replication_Properties
  imports Store_Properties
begin

text \<open>
  Replication end to end: what a replica makes of the stream its master sends (\<open>SET\<close>, \<open>PING\<close> and
  \<open>REPLCONF GETACK\<close>), however the network splits it, that replica and master agree on the store and
  on the number of bytes, and where the count behind \<open>WAIT\<close> goes wrong.
\<close>

section \<open>The replication stream\<close>

datatype repl_cmd = RSet string string | RPing | RGetAck

fun repl_args :: "repl_cmd \<Rightarrow> string list" where
  "repl_args (RSet k v) = [''SET'', k, v]"
| "repl_args RPing = [''PING'']"
| "repl_args RGetAck = [''REPLCONF'', ''GETACK'', ''*'']"

fun repl_cmd_ok :: "repl_cmd \<Rightarrow> bool" where
  "repl_cmd_ok (RSet k v) = (arg_ok k \<and> arg_ok v)"
| "repl_cmd_ok _ = True"

definition repl_wire :: "repl_cmd list \<Rightarrow> string" where
  "repl_wire cs = concat (map (\<lambda>c. resp_array (repl_args c)) cs)"

text \<open>
  What a replica should do with a command: apply it to the store, count its bytes, and answer a
  \<open>GETACK\<close> with the count of the bytes before it.
\<close>

fun follow :: "repl_cmd \<Rightarrow> (string \<rightharpoonup> string) \<times> int \<times> string \<Rightarrow> (string \<rightharpoonup> string) \<times> int \<times> string" where
  "follow c (m, off, acks) =
     (case c of RSet k v \<Rightarrow> m(k \<mapsto> v) | _ \<Rightarrow> m,
      i64 (off + int (length (resp_array (repl_args c)))),
      case c of RGetAck \<Rightarrow> acks @ ack_response (itoa off) | _ \<Rightarrow> acks)"

lemma repl_words [simp]:
  "arg_ok ''SET''" "arg_ok ''WAIT''" "arg_ok ''PING''" "arg_ok ''REPLCONF''" "arg_ok ''GETACK''" "arg_ok ''*''"
  by (rule arg_ok_graphic, simp add: graphic_def)+

section \<open>A replica on its stream\<close>

definition set_offset :: "int \<Rightarrow> server \<Rightarrow> server" where
  "set_offset off s = s\<lparr>ServerInfo := (ServerInfo s)(''repl_offset'' \<mapsto> IInt off)\<rparr>"

lemma set_offset_fields [simp]:
  "ServerInfo (set_offset off s) ''repl_offset'' = Some (IInt off)"
  "ServerInfo (set_offset off s) ''role'' = ServerInfo s ''role''"
  "conns (set_offset off s) = conns s" "mem (set_offset off s) = mem s"
  "rd_of e (set_offset off s) = rd_of e s" "out e (set_offset off s) = out e s"
  by (simp_all add: set_offset_def)

definition following :: "nat \<Rightarrow> int \<Rightarrow> server \<Rightarrow> bool" where
  "following d off s \<longleftrightarrow> act (conns s d) = Serving \<and> silent (conns s d) \<and> budget (cout (conns s d)) = None \<and>
     input_ok d s \<and> authed d s \<and> role_is ''slave'' s \<and> ServerInfo s ''repl_offset'' = Some (IInt off)"

lemma following_set_rd [simp]: "following d off s \<Longrightarrow> no_errors r \<Longrightarrow> following d off (set_rd d r s)"
  by (simp add: following_def)

lemma following_set_offset: "following d off s \<Longrightarrow> following d off' (set_offset off' s)"
  by (simp add: following_def input_ok_def)

lemma following_mem_store: "following d off s \<Longrightarrow> following d off (mem_store k v s)"
  by (simp add: following_def)

lemma slave_advance:
  "following d off s \<Longrightarrow> advance_repl_offset args s = Done (set_offset (i64 (off + int (length (resp_array args)))) s)"
  by (simp add: advance_repl_offset_def following_def set_offset_def OffsetByteSize_resp)

text \<open>The next command of the stream, of which \<open>HandleSet\<close> may have read the first two lines.\<close>

definition at_stream :: "nat \<Rightarrow> server \<Rightarrow> repl_cmd list \<Rightarrow> bool" where
  "at_stream d s cs \<longleftrightarrow> (case cs of [] \<Rightarrow> stream_of d s = [] | c # cs \<Rightarrow> at_request d s (repl_args c) (repl_wire cs))"

lemma repl_wire_simps [simp]: "repl_wire [] = []" "repl_wire (c # cs) = resp_array (repl_args c) @ repl_wire cs"
  by (simp_all add: repl_wire_def)

lemma at_stream_wire: "input_ok d s \<Longrightarrow> stream_of d s = repl_wire cs \<Longrightarrow> at_stream d s cs"
  by (cases cs; cases "hd cs") (auto simp: at_stream_def at_request_def)

lemma set_option_stream:
  assumes "following d off s" "stream_of d s = repl_wire cs"
  obtains r where "set_option d k s = set_rd d r s" "no_errors r" "at_stream d (set_rd d r s) cs"
proof (cases cs)
  case Nil
  then have "set_option d k s = set_rd d (rd_of d s) s" using assms(2) set_option_nothing by simp
  with that[of "rd_of d s"] assms Nil show thesis by (simp add: at_stream_def following_def input_ok_def)
next
  case (Cons c cs')
  obtain a args where a: "repl_args c = a # args" by (cases c) auto
  have "input_ok d s" "stream_of d s = resp_array (a # args) @ repl_wire cs'"
    using assms Cons a by (auto simp: following_def)
  from set_option_request[OF this] obtain r where
    "set_option d k s = set_rd d r s" "at_request d (set_rd d r s) (a # args) (repl_wire cs')"
    by metis
  with that[of r] Cons a show thesis by (simp add: at_stream_def at_request_def)
qed

lemma raw_write_open:
  "budget (cout (conns s d)) = None \<Longrightarrow> out d (fst (raw_write d x s)) = out d s @ x"
  "budget (cout (conns s d)) = None \<Longrightarrow> budget (cout (conns (fst (raw_write d x s)) d)) = None"
  by (simp_all add: raw_write_def sink_write_def out_def)

text \<open>What a command of the stream leaves alone: everything a client sees but the store.\<close>

definition beside :: "nat \<Rightarrow> server \<Rightarrow> server \<Rightarrow> bool" where
  "beside d s t \<longleftrightarrow> (\<forall>e. e \<noteq> d \<longrightarrow> conns t e = conns s e) \<and> UserRegistry t = UserRegistry s \<and> chans t = chans s \<and>
     timers t = timers s \<and> clock t = clock s"

lemma beside_trans: "beside d s t \<Longrightarrow> beside d t u \<Longrightarrow> beside d s u"
  by (simp add: beside_def)

lemma beside_steps [simp]:
  "beside d s s" "beside d s (set_rd d r s)" "beside d s (set_offset off s)" "beside d s (mem_store k v s)"
  "beside d s (fst (raw_write d x s))"
  by (simp_all add: beside_def set_rd_def set_offset_def raw_write_def mem_store_def split: prod.splits)

text \<open>The handler's result is what \<open>follow\<close> says, and the stream is at the next command.\<close>

definition follows_to :: "nat \<Rightarrow> int \<Rightarrow> repl_cmd \<Rightarrow> repl_cmd list \<Rightarrow> server \<Rightarrow> server outcome \<Rightarrow> bool" where
  "follows_to d off c cs s r \<longleftrightarrow> (\<exists>t off'. r = Done t \<and> following d off' t \<and> at_stream d t cs \<and> beside d s t \<and>
     (mem t, off', out d t) = follow c (mem s, off, out d s))"

lemma follows_toI:
  "r = Done t \<Longrightarrow> following d off' t \<Longrightarrow> at_stream d t cs \<Longrightarrow> beside d s t
    \<Longrightarrow> (mem t, off', out d t) = follow c (mem s, off, out d s) \<Longrightarrow> follows_to d off c cs s r"
  unfolding follows_to_def by blast

lemma follow_set:
  assumes "following d off s" "stream_of d s = bulks [k, v] @ repl_wire cs" "arg_ok k" "arg_ok v"
  shows "follows_to d off (RSet k v) cs s (HandleSet d s)"
proof -
  have "no_errors (rd_of d s)" "stream (rd_of d s) = bulks [k, v] @ repl_wire cs"
    using assms(1,2) by (simp_all add: following_def input_ok_def stream_of_def)
  from read_two_fields[OF this assms(3,4)] obtain r1 r2 where
    r: "read_field (rd_of d s) = (k @ crlf, None, r1)" "read_field r1 = (v @ crlf, None, r2)"
    "stream r2 = repl_wire cs" "no_errors r2" .
  let ?off = "i64 (off + int (length (resp_array [''SET'', k, v])))"
  let ?t = "set_offset ?off (mem_store k v (set_rd d r2 s))"
  have f: "following d ?off ?t"
    using assms(1) r(4) by (intro following_set_offset following_mem_store following_set_rd)
  have "stream_of d ?t = repl_wire cs" using r(3) by (simp add: stream_of_def)
  from set_option_stream[OF f this] obtain q where q: "set_option d k ?t = set_rd d q ?t" "no_errors q"
    "at_stream d (set_rd d q ?t) cs" by metis
  have "\<not> role_is ''master'' ?t" "silent (conns ?t d)" using f by (auto simp: following_def)
  then have h: "HandleSet d s = Done (set_rd d q ?t)"
    using assms(1) r q(1) slave_advance[OF following_mem_store[OF following_set_rd[OF assms(1) r(4)]], of "[''SET'', k, v]" k v]
      assms(3,4)
    by (simp add: HandleSet_def set_store_def following_def reply_silent)
  have "beside d s (set_rd d q ?t)" by (meson beside_steps beside_trans)
  with f q show ?thesis by (intro follows_toI[OF h, of _ ?off]) simp_all
qed

lemma follow_ping:
  assumes "following d off s" "stream_of d s = repl_wire cs"
  shows "follows_to d off RPing cs s (HandlePing d s)"
proof -
  let ?off = "i64 (off + int (length (resp_array [''PING''])))"
  have h: "HandlePing d s = Done (set_offset ?off s)"
    using assms(1) slave_advance[OF assms(1)] by (simp add: HandlePing_def following_def conn_write_def)
  have "at_stream d (set_offset ?off s) cs"
    using assms by (intro at_stream_wire) (simp_all add: following_def input_ok_def stream_of_def)
  with following_set_offset[OF assms(1)] show ?thesis by (intro follows_toI[OF h]) simp_all
qed

lemma follow_getack:
  assumes "following d off s" "stream_of d s = bulks [''GETACK'', ''*''] @ repl_wire cs"
  shows "follows_to d off RGetAck cs s (HandleReplConf d s)"
proof -
  have "no_errors (rd_of d s)" "stream (rd_of d s) = bulks [''GETACK'', ''*''] @ repl_wire cs"
    using assms(1,2) by (simp_all add: following_def input_ok_def stream_of_def)
  from read_two_fields[OF this] obtain r1 r2 where
    r: "read_field (rd_of d s) = (''GETACK'' @ crlf, None, r1)" "read_field r1 = (''*'' @ crlf, None, r2)"
    "stream r2 = repl_wire cs" "no_errors r2"
    by (metis repl_words(5,6))
  let ?s = "fst (raw_write d (ack_response (itoa off)) (set_rd d r2 s))"
  have size: "int (length (resp_array [''REPLCONF'', ''GETACK'', ''*''])) = 37"
    by (simp add: resp_array_def array_header_def bulk_def itoa_def nat_digits.simps)
  have t1: "TrimSpace (''GETACK'' @ crlf) = ''GETACK''" by (rule arg_ok_trim) simp
  have f: "following d (i64 (off + 37)) (set_offset (i64 (off + 37)) ?s)"
    using assms(1) r(4) by (intro following_set_offset[of d off])
      (simp add: following_def raw_write_open input_ok_def rd_of_def, simp add: set_rd_def)
  have h: "HandleReplConf d s = Done (set_offset (i64 (off + 37)) ?s)"
    using assms(1) r(1,2) by (simp add: HandleReplConf_def t1[unfolded append.simps] following_def set_offset_def)
  have "at_stream d (set_offset (i64 (off + 37)) ?s) cs"
    using f r(3) by (intro at_stream_wire) (simp_all add: following_def stream_of_def)
  moreover have "out d ?s = out d s @ ack_response (itoa off)"
    using assms(1) raw_write_open(1)[of "set_rd d r2 s"] by (simp add: following_def)
  moreover have "mem ?s = mem s" by (simp add: mem_def)
  moreover have "beside d s (set_offset (i64 (off + 37)) ?s)" by (meson beside_steps beside_trans)
  ultimately show ?thesis using f size by (intro follows_toI[OF h f]) simp_all
qed

lemma serve_follow:
  assumes "following d off s" "at_stream d s (c # cs)" "repl_cmd_ok c"
  obtains t off' where "serve_loop P d s = serve_loop P d t" "following d off' t" "at_stream d t cs" "beside d s t"
    "(mem t, off', out d t) = follow c (mem s, off, out d s)"
proof -
  have act: "act (conns s d) = Serving" using assms(1) by (simp add: following_def)
  obtain w args where w: "repl_args c = w # args" "arg_ok w" "ToUpper w = w" by (cases c) auto
  have "at_request d s (w # args) (repl_wire cs)" using assms(2) w(1) by (simp add: at_stream_def)
  from serve_request[OF act this w(2), of P] obtain r where r: "stream r = bulks args @ repl_wire cs" "no_errors r"
    "serve_loop P d s = and_then (dispatch P w d (set_rd d r s)) (serve_loop P d)"
    using w(3) by metis
  let ?s = "set_rd d r s"
  have s: "following d off ?s" "stream_of d ?s = bulks args @ repl_wire cs" using assms(1) r by simp_all
  have "follows_to d off c cs ?s (dispatch P w d ?s)"
  proof (cases c)
    case (RSet k v)
    then have "w = ''SET''" "args = [k, v]" "arg_ok k" "arg_ok v" using w(1) assms(3) by simp_all
    with follow_set[OF s(1)] s(2) RSet show ?thesis by (simp only: dispatch_words)
  next
    case RPing
    then have "w = ''PING''" "args = []" using w(1) by simp_all
    with follow_ping[OF s(1)] s(2) RPing show ?thesis by (simp only: dispatch_words bulks_simps append_Nil)
  next
    case RGetAck
    then have "w = ''REPLCONF''" "args = [''GETACK'', ''*'']" using w(1) by simp_all
    with follow_getack[OF s(1)] s(2) RGetAck show ?thesis by (simp only: dispatch_words)
  qed
  then obtain t off' where t: "dispatch P w d ?s = Done t" "following d off' t" "at_stream d t cs"
    "(mem t, off', out d t) = follow c (mem ?s, off, out d ?s)" "beside d ?s t"
    unfolding follows_to_def by (elim exE conjE)
  from t(4) have "(mem t, off', out d t) = follow c (mem s, off, out d s)" by (simp only: set_rd_fields)
  moreover have "serve_loop P d s = serve_loop P d t" using r(3) t(1) by (simp only: and_then.simps)
  moreover have "beside d s t" using beside_trans[OF _ t(5)] by simp
  ultimately show thesis using that t(2,3) by (simp only:)
qed

text \<open>The whole stream: the replica then waits for more.\<close>

lemma serve_follow_through:
  assumes "following d off s" "at_stream d s cs" "\<forall>c \<in> set cs. repl_cmd_ok c"
  obtains t off' where "serve_loop P d s = Done t" "following d off' t" "rd_of d t = \<lparr>rbuf = [], rsrc = []\<rparr>" "beside d s t"
    "(mem t, off', out d t) = fold follow cs (mem s, off, out d s)"
  using assms
proof (induction cs arbitrary: s off thesis)
  case Nil
  let ?t = "set_rd d \<lparr>rbuf = [], rsrc = []\<rparr> s"
  have "serve_loop P d s = Done ?t"
    using Nil.prems(2,3) by (intro serve_loop_eof) (simp_all add: following_def at_stream_def)
  moreover have "following d off ?t" by (rule following_set_rd[OF Nil.prems(2)]) (simp add: no_errors_def)
  ultimately show ?case by (rule Nil.prems(1)) simp_all
next
  case (Cons c cs)
  have c: "repl_cmd_ok c" "\<forall>c \<in> set cs. repl_cmd_ok c" using Cons.prems(4) by simp_all
  obtain t off' where t: "serve_loop P d s = serve_loop P d t" "following d off' t" "at_stream d t cs" "beside d s t"
    "(mem t, off', out d t) = follow c (mem s, off, out d s)"
    by (rule serve_follow[OF Cons.prems(2,3) c(1), of P])
  obtain u off'' where u: "serve_loop P d t = Done u" "following d off'' u" "rd_of d u = \<lparr>rbuf = [], rsrc = []\<rparr>" "beside d t u"
    "(mem u, off'', out d u) = fold follow cs (mem t, off', out d t)"
    using Cons.IH[OF _ t(2,3) c(2)] by blast
  show ?case by (rule Cons.prems(1)[of u off'']) (use t(1,5) u beside_trans[OF t(4) u(4)] in simp_all)
qed

lemma serve_follow_all:
  assumes "following d off s" "at_stream d s cs" "\<forall>c \<in> set cs. repl_cmd_ok c"
  shows "\<exists>t off'. serve_loop P d s = Done t \<and> ServerInfo t ''repl_offset'' = Some (IInt off')
    \<and> (mem t, off', out d t) = fold follow cs (mem s, off, out d s)"
  using serve_follow_through[OF assms, of P] unfolding following_def by metis

section \<open>Replica and master agree\<close>

text \<open>
  C26: A replica that has the commands of its master's stream in its input, split in any way, applies
  them all: its store, its offset and what it sends back (an \<open>ACK\<close> with the number of bytes before
  each \<open>GETACK\<close>, and nothing else) are those of the commands' meaning.
\<close>

theorem replica_runs_stream:
  assumes "following d off s" "stream_of d s = repl_wire cs" "\<forall>c \<in> set cs. repl_cmd_ok c"
  shows "\<exists>t off'. serve_loop P d s = Done t \<and> ServerInfo t ''repl_offset'' = Some (IInt off')
    \<and> (mem t, off', out d t) = fold follow cs (mem s, off, out d s)"
proof -
  have "at_stream d s cs" using assms(1,2) by (intro at_stream_wire) (simp_all add: following_def)
  from serve_follow_all[OF assms(1) this assms(3)] show ?thesis .
qed

lemma master_set_sends:
  assumes "replicas_ok m" "c \<in> rep_conn ` set (Replicas m)"
  shows "out c (master_set k v m) = out c m @ resp_array [''SET'', k, v]"
    "MasterOffset (master_set k v m) = i64 (MasterOffset m + int (length (resp_array [''SET'', k, v])))"
    "replicas_ok (master_set k v m)"
proof -
  have m: "replicas_ok (mem_store k v m)" "c \<in> rep_conn ` set (Replicas (mem_store k v m))"
    using assms by (simp_all add: replicas_ok_def)
  then show "out c (master_set k v m) = out c m @ resp_array [''SET'', k, v]"
    using PropagateCommand_out[OF m(1), of c "[''SET'', k, v]"] by (simp add: master_set_def)
  have "Replicas m \<noteq> []" using assms(2) by auto
  then show "MasterOffset (master_set k v m) = i64 (MasterOffset m + int (length (resp_array [''SET'', k, v])))"
    by (simp add: master_set_def PropagateCommand_offset OffsetByteSize_resp)
  show "replicas_ok (master_set k v m)"
    using m(1) by (simp add: replicas_ok_def master_set_out(2))
qed

lemma master_sets_follow:
  assumes "fold (\<lambda>(k, v) r. and_then r (set_store k v)) kvs (Done m) = Done m'" "role_is ''master'' m" "replicas_ok m"
    "c \<in> rep_conn ` set (Replicas m)"
  shows "out c m' = out c m @ repl_wire (map (\<lambda>(k, v). RSet k v) kvs)
    \<and> (mem m', MasterOffset m', acks) = fold follow (map (\<lambda>(k, v). RSet k v) kvs) (mem m, MasterOffset m, acks)"
  using assms
proof (induction kvs arbitrary: m)
  case (Cons kv kvs)
  obtain k v where kv: "kv = (k, v)" by (cases kv)
  have rest: "fold (\<lambda>(k, v) r. and_then r (set_store k v)) kvs (Done (master_set k v m)) = Done m'"
    using Cons.prems(1,2) kv set_store_master by simp
  note sent = master_set_sends[OF Cons.prems(3,4), of k v]
  from Cons.IH[OF rest _ sent(3)] Cons.prems(2,4) sent(1,2) kv show ?case by (simp add: fun_upd_def)
qed simp

text \<open>
  C25: A replica in step with its master (same store, same offset) is in step again once it has
  consumed the bytes the master sent it for any sequence of \<open>SET\<close>s, however they were split.
\<close>

theorem replica_follows_master:
  assumes "role_is ''master'' m" "replicas_ok m" "c \<in> rep_conn ` set (Replicas m)"
    "fold (\<lambda>(k, v) r. and_then r (set_store k v)) kvs (Done m) = Done m'" "\<forall>(k, v) \<in> set kvs. arg_ok k \<and> arg_ok v"
    "following d (MasterOffset m) s" "mem s = mem m" "out c m' = out c m @ stream_of d s"
  shows "\<exists>t. serve_loop P d s = Done t \<and> mem t = mem m' \<and> ServerInfo t ''repl_offset'' = Some (IInt (MasterOffset m'))
    \<and> out d t = out d s"
proof -
  let ?cs = "map (\<lambda>(k, v). RSet k v) kvs"
  have m: "out c m' = out c m @ repl_wire ?cs"
    "(mem m', MasterOffset m', out d s) = fold follow ?cs (mem m, MasterOffset m, out d s)"
    using master_sets_follow[OF assms(4,1,2,3), of "out d s"] by blast+
  with assms(8) have "stream_of d s = repl_wire ?cs" by simp
  with assms(6) have "at_stream d s ?cs" by (intro at_stream_wire) (simp_all add: following_def)
  moreover have "\<forall>c \<in> set ?cs. repl_cmd_ok c" using assms(5) by auto
  ultimately obtain t off' where "serve_loop P d s = Done t" "ServerInfo t ''repl_offset'' = Some (IInt off')"
    "(mem t, off', out d t) = fold follow ?cs (mem s, MasterOffset m, out d s)"
    using serve_follow_all[OF assms(6)] by metis
  moreover from this(3) m(2) assms(7) have "mem t = mem m'" "off' = MasterOffset m'" "out d t = out d s"
    by (metis Pair_inject)+
  ultimately show ?thesis by auto
qed

section \<open>WAIT\<close>

lemma rd_of_set_rd_other [simp]: "e \<noteq> c \<Longrightarrow> rd_of e (set_rd c r s) = rd_of e s"
  by (simp add: rd_of_def set_rd_def)

text \<open>
  A replica counts the bytes of every \<open>GETACK\<close>, the master does not, so after a \<open>WAIT\<close> the
  replica's offset runs ahead of the master's. Then a \<open>WAIT\<close> right behind a \<open>SET\<close> that is no longer
  than the difference counts the replicas at once, although none of them has reported the \<open>SET\<close>
  (nothing is read from any other connection).
\<close>

lemma wait_counts_ahead_of_ack:
  assumes "ready c m" "role_is ''master'' m" "stream_of c m = resp_array [''SET'', k, v] @ resp_array [''WAIT'', itoa n, ''0'']"
    "arg_ok k" "arg_ok v" "0 < MasterOffset m" "MasterOffset m + int (length (resp_array [''SET'', k, v])) \<le> max_int64"
    "\<forall>r \<in> set (Replicas m). MasterOffset m + int (length (resp_array [''SET'', k, v])) \<le> rep_offset r"
    "n = int (length (Replicas m))" "0 < n" "in_i64 n"
  shows "\<exists>t. serve_loop P c m = Done t \<and> out c t = out c m @ ok_reply @ int_reply n
    \<and> (\<forall>e. e \<noteq> c \<longrightarrow> rd_of e t = rd_of e m)"
proof -
  let ?W = "resp_array [''WAIT'', itoa n, ''0'']"
  have act: "act (conns m c) = Serving" and io: "input_ok c m" using assms(1) by (simp_all add: ready_def)
  have req: "at_request c m [''SET'', k, v] ?W" by (rule at_request_full[OF io assms(3)])
  obtain r where r: "stream r = bulks [k, v] @ ?W" "no_errors r"
    "serve_loop P c m = and_then (dispatch P ''SET'' c (set_rd c r m)) (serve_loop P c)"
    by (rule serve_request[OF act req, of P]) (simp_all add: upper_char_def)
  have "authed c (set_rd c r m)" "role_is ''master'' (set_rd c r m)" "input_ok c (set_rd c r m)"
    "stream_of c (set_rd c r m) = bulk k @ bulk v @ ?W"
    using assms(1,2) r by (simp_all add: ready_def)
  from HandleSet_request[OF this assms(4,5)] obtain r2 where r2: "stream r2 = ?W" "no_errors r2"
    "HandleSet c (set_rd c r m) = Done (set_option c k (reply c ok_reply (master_set k v (set_rd c r2 m))))"
    unfolding set_rd_set_rd by metis
  let ?s = "reply c ok_reply (master_set k v (set_rd c r2 m))"
  have "input_ok c ?s" "stream_of c ?s = resp_array (''WAIT'' # [itoa n, ''0'']) @ []"
    using r2 by (simp_all add: input_ok_def stream_of_def)
  from set_option_request[OF this] obtain r3 where r3: "set_option c k ?s = set_rd c r3 ?s"
    "at_request c (set_rd c r3 ?s) [''WAIT'', itoa n, ''0''] []"
    by metis
  let ?u = "set_rd c r3 ?s"
  have act_u: "act (conns ?u c) = Serving" using act by simp
  obtain r4 where r4: "stream r4 = bulks [itoa n, ''0''] @ []" "no_errors r4"
    "serve_loop P c ?u = and_then (dispatch P ''WAIT'' c (set_rd c r4 ?u)) (serve_loop P c)"
    by (rule serve_request[OF act_u r3(2), of P]) (simp_all add: upper_char_def)
  have zero: "arg_ok ''0''" by (rule arg_ok_graphic) (simp add: graphic_def)
  from read_two_fields[OF r4(2,1) arg_ok_itoa zero] obtain r5 r6 where
    r6: "read_field r4 = (itoa n @ crlf, None, r5)" "read_field r5 = (''0'' @ crlf, None, r6)"
    "stream r6 = []" "no_errors r6" .
  let ?v = "set_rd c r6 ?s"
  let ?w = "fold (\<lambda>r s. reply (rep_conn r) ack_request s) (Replicas m) ?v"
  have off: "MasterOffset ?v = MasterOffset m + int (length (resp_array [''SET'', k, v]))" "Replicas ?v = Replicas m"
    using assms(6,7,9,10) by (auto simp: master_set_def PropagateCommand_offset OffsetByteSize_resp i64_id in_i64_def)
  then have acked: "acked_replicas ?w = n"
    using assms(8,9) by (simp add: acked_replicas_def filter_id_conv)
  have none: "TrimSpace (''0'' @ crlf) = ''0''" by (rule arg_ok_trim[OF zero])
  have "HandleWait c (set_rd c r4 ?u) = Done (wait_turn c n None ?w)"
    using r6(1,2) off assms(6,9,10,11) Atoi_itoa[of n]
    by (simp add: HandleWait_def none[unfolded append.simps]) (simp add: Atoi_def signed_value_def is_digit_def digit_val_def)
  also have "wait_turn c n None ?w = set_act c Serving (reply c (int_reply n) ?w)"
    using acked by (simp add: wait_turn_def)
  finally have runs: "serve_loop P c m = serve_loop P c (set_act c Serving (reply c (int_reply n) ?w))"
    using r(3) r2(3) r3(1) r4(3) by (simp add: dispatch_words)
  have w: "healthy c ?w" "out c ?w = out c m @ ok_reply" "rd_of c ?w = r6" "\<And>e. e \<noteq> c \<Longrightarrow> rd_of e ?w = rd_of e m"
    using assms(1) by (auto simp: ready_def fold_reply_healthy fold_reply_other master_set_out)
  let ?x = "set_act c Serving (reply c (int_reply n) ?w)"
  have "act (conns ?x c) = Serving" "input_ok c ?x" "stream_of c ?x = []"
    using w(3) r6(3,4) by (simp_all add: input_ok_def stream_of_def)
  from serve_loop_eof[OF this, of P] runs
  have "serve_loop P c m = Done (set_rd c \<lparr>rbuf = [], rsrc = []\<rparr> ?x)" by simp
  moreover have "out c ?x = out c m @ ok_reply @ int_reply n" using w(1,2) by simp
  moreover have "rd_of e (set_rd c \<lparr>rbuf = [], rsrc = []\<rparr> ?x) = rd_of e m" if "e \<noteq> c" for e
    using that w(4)[OF that] by (simp add: set_rd_def rd_of_def) (simp add: set_act_def)
  ultimately show ?thesis by (intro exI[of _ "set_rd c \<lparr>rbuf = [], rsrc = []\<rparr> ?x"]) simp
qed

section \<open>Examples\<close>

text \<open>A replica whose connection 0 is its master's stream, silent for everything but \<open>ACK\<close>.\<close>

definition replica_with :: "int \<Rightarrow> inev list \<Rightarrow> server" where
  "replica_with off evs =
     (master_with ((client_conn ''default'' evs)\<lparr>silent := True\<rparr>))\<lparr>ServerInfo :=
        [''role'' \<mapsto> IStr ''slave'', ''repl_offset'' \<mapsto> IInt off]\<rparr>"

lemma replica_with [simp]:
  "following 0 off (replica_with off evs) \<longleftrightarrow> ReadErr \<notin> set evs"
  "stream_of 0 (replica_with off evs) = concat (map ev_bytes evs)"
  "mem (replica_with off evs) = Map.empty" "out 0 (replica_with off evs) = []"
  by (auto simp: replica_with_def master_with_def client_conn_def following_def CheckAuth_def input_ok_def no_errors_def
      stream_of_def stream_def rd_of_def mem_def out_def empty_server_def)

lemma repl_example_words [simp]: "arg_ok ''K''" "arg_ok ''V''"
  by (rule arg_ok_graphic, simp add: graphic_def)+

lemma set_K_V_size: "length (resp_array [''SET'', ''K'', ''V'']) = 27"
  by (simp add: resp_array_def array_header_def bulk_def itoa_def nat_digits.simps)

lemma replica_runs_stream_example:
  "\<exists>t. serve_loop plain_platform 0 (replica_with 0
        [Chunk (resp_array [''SET'', ''K'', ''V''] @ ''*3''), Chunk (drop 2 (resp_array [''REPLCONF'', ''GETACK'', ''*'']))])
      = Done t \<and> mem t = [''K'' \<mapsto> ''V''] \<and> out 0 t = ack_response (itoa 27)"
proof -
  let ?cs = "[RSet ''K'' ''V'', RGetAck]"
  let ?evs = "[Chunk (resp_array [''SET'', ''K'', ''V''] @ ''*3''), Chunk (drop 2 (resp_array [''REPLCONF'', ''GETACK'', ''*'']))]"
  have "''*3'' @ drop 2 (resp_array [''REPLCONF'', ''GETACK'', ''*'']) = resp_array [''REPLCONF'', ''GETACK'', ''*'']"
    by (simp add: resp_array_def array_header_def itoa_def nat_digits.simps digit_def numeral_2_eq_2 numeral_3_eq_3)
  then have "stream_of 0 (replica_with 0 ?evs) = repl_wire ?cs" by simp
  moreover have "following 0 0 (replica_with 0 ?evs)" by simp
  moreover have "\<forall>c \<in> set ?cs. repl_cmd_ok c" by simp
  ultimately obtain t off' where "serve_loop plain_platform 0 (replica_with 0 ?evs) = Done t"
    "(mem t, off', out 0 t) = fold follow ?cs (mem (replica_with 0 ?evs), 0, out 0 (replica_with 0 ?evs))"
    using replica_runs_stream[of 0 0 "replica_with 0 ?evs" ?cs plain_platform] by blast
  then show ?thesis by (simp add: set_K_V_size i64_id in_i64_def)
qed

lemma replica_follows_master_example:
  "\<exists>t. serve_loop plain_platform 0 (replica_with 0 [Chunk (resp_array [''SET'', ''K'', ''V''])]) = Done t
    \<and> mem t = [''K'' \<mapsto> ''V''] \<and> ServerInfo t ''repl_offset'' = Some (IInt 27)"
proof -
  let ?m = "(master_with (client_conn ''default'' []))\<lparr>Replicas := [\<lparr>rep_conn = 0, rep_offset = 0\<rparr>]\<rparr>"
  let ?s = "replica_with 0 [Chunk (resp_array [''SET'', ''K'', ''V''])]"
  have m: "role_is ''master'' ?m" "replicas_ok ?m" "0 \<in> rep_conn ` set (Replicas ?m)" "MasterOffset ?m = 0" "mem ?m = Map.empty"
    by (simp_all add: replicas_ok_def master_with_def empty_server_def mem_def healthy_def client_conn_def)
  let ?m' = "master_set ''K'' ''V'' ?m"
  have fold: "fold (\<lambda>(k, v) r. and_then r (set_store k v)) [(''K'', ''V'')] (Done ?m) = Done ?m'"
    using set_store_master[OF m(1)] by simp
  have m': "out 0 ?m' = out 0 ?m @ stream_of 0 ?s" "MasterOffset ?m' = 27" "mem ?m' = [''K'' \<mapsto> ''V'']"
    using master_set_sends[OF m(2,3), of "''K''" "''V''"] m(4,5) by (simp_all add: set_K_V_size i64_id in_i64_def)
  have "following 0 (MasterOffset ?m) ?s" "mem ?s = mem ?m" using m(4,5) by simp_all
  from replica_follows_master[OF m(1-3) fold _ this m'(1), of plain_platform] m'(2,3) show ?thesis by auto
qed

lemma wait_counts_ahead_of_ack_example:
  "\<exists>t. serve_loop plain_platform 0
      ((master_with (client_conn ''default'' [Chunk (resp_array [''SET'', ''K'', ''V''] @ resp_array [''WAIT'', itoa 1, ''0''])]))
        \<lparr>Replicas := [\<lparr>rep_conn = 1, rep_offset = 64\<rparr>], MasterOffset := 27\<rparr>) = Done t
    \<and> out 0 t = ok_reply @ int_reply 1"
proof -
  let ?m = "(master_with (client_conn ''default'' [Chunk (resp_array [''SET'', ''K'', ''V''] @ resp_array [''WAIT'', itoa 1, ''0''])]))
        \<lparr>Replicas := [\<lparr>rep_conn = 1, rep_offset = 64\<rparr>], MasterOffset := 27\<rparr>"
  have "ready 0 ?m" "role_is ''master'' ?m" "out 0 ?m = []"
    "stream_of 0 ?m = resp_array [''SET'', ''K'', ''V''] @ resp_array [''WAIT'', itoa 1, ''0'']"
    by (auto simp: ready_def CheckAuth_def master_with_def client_conn_def empty_server_def input_ok_def no_errors_def
        healthy_def stream_of_def stream_def rd_of_def out_def)
  then show ?thesis
    using wait_counts_ahead_of_ack[of 0 ?m "''K''" "''V''" 1 plain_platform] by (auto simp: set_K_V_size in_i64_def)
qed

end
