(* ===== verification/Persistence_Properties.thy ===== *)
theory Persistence_Properties
  imports Store_Properties Aof Rdb
begin

text \<open>
  What survives a restart: the replay of the append-only file gives every key the value it was given
  last, whether it has expired or not, and no expiry; and a database file of string values, with its
  integer encodings, read byte by byte from any split into reads, gives its entries, with those that
  have expired left out. What the reader of the file gets wrong: wide negative integers, compressed
  strings and expiries in seconds.
\<close>

section \<open>The append-only file\<close>

lemma read_args:
  assumes "no_errors r" "stream r = bulks xs @ t" "\<forall>x \<in> set xs. arg_ok x"
  shows "\<exists>r'. aof_args (length xs) r = (xs, r') \<and> stream r' = t \<and> no_errors r'"
  using assms
proof (induction xs arbitrary: r)
  case (Cons x xs)
  have "stream r = bulk x @ (bulks xs @ t)" using Cons.prems(2) by simp
  from read_field_bulk[OF Cons.prems(1) this] Cons.prems(3) obtain r1 where
    r1: "read_field r = (x @ crlf, None, r1)" "stream r1 = bulks xs @ t" "no_errors r1"
    by (metis list.set_intros(1))
  from Cons.IH[OF r1(3,2)] Cons.prems(3) r1(1) show ?case by auto
qed simp

definition logged :: "string list \<Rightarrow> bool" where
  "logged args \<longleftrightarrow> (\<forall>a \<in> set args. arg_ok a) \<and> in_i64 (int (length args))"

lemma replay_command:
  assumes "no_errors r" "stream r = resp_array args @ t" "logged args"
  obtains r' where "aof_replay r s = aof_replay r' (aof_command args s)" "stream r' = t" "no_errors r'"
proof -
  let ?n = "itoa (int (length args))"
  have "stream r = (CHR ''*'' # ?n @ [CR]) @ LF # (bulks args @ t)" "LF \<notin> set (CHR ''*'' # ?n @ [CR])"
    using assms(2) by (simp_all add: resp_array_def array_header_def crlf_def)
  from ReadString_line[OF assms(1) this] obtain r1 where
    r1: "ReadString r = (CHR ''*'' # ?n @ crlf, None, r1)" "stream r1 = bulks args @ t" "no_errors r1"
    by (auto simp: crlf_def)
  from read_args[OF r1(3,2)] assms(3) obtain r2 where
    r2: "aof_args (length args) r1 = (args, r2)" "stream r2 = t" "no_errors r2"
    by (auto simp: logged_def)
  have "Atoi (TrimSpace (?n @ crlf)) = (int (length args), None)"
    using assms(3) by (simp add: logged_def)
  then have "aof_replay r s = aof_replay r2 (aof_command args s)"
    using r1(1) r2(1) by (simp add: aof_replay.simps[of r s] TrimPrefix_def)
  with that r2(2,3) show thesis by blast
qed

lemma aof_replay_commands:
  assumes "no_errors r" "stream r = concat (map resp_array cs)" "\<forall>c \<in> set cs. logged c"
  shows "aof_replay r s = fold aof_command cs s"
  using assms
proof (induction cs arbitrary: r s)
  case Nil
  then show ?case using ReadString_eof[of r] by (simp add: aof_replay.simps[of r s])
next
  case (Cons c cs)
  then have "stream r = resp_array c @ concat (map resp_array cs)" "logged c" by simp_all
  from replay_command[OF Cons.prems(1) this, of s] obtain r' where
    "aof_replay r s = aof_replay r' (aof_command c s)" "stream r' = concat (map resp_array cs)" "no_errors r'" .
  with Cons.IH[of r'] Cons.prems(3) show ?case by simp
qed

lemma aof_command_set [simp]: "aof_command [''SET'', k, v] s = mem_store k v s"
  by (simp add: aof_command_def)

lemma master_set_aof:
  assumes "AofFile m = Some wr" "budget wr = None"
  shows "AofFile (master_set k v m) = Some (wr\<lparr>written := written wr @ resp_array [''SET'', k, v]\<rparr>)"
  using assms by (simp add: master_set_def AppendToAof_resp sink_write_def)

text \<open>
  What happens to a master's string store and its pending expiries: a \<open>SET\<close> stores, logs and
  propagates; the \<open>PX\<close> behind it starts an expiry, in nanoseconds; time passes; an expiry whose
  deadline has passed runs, in any order among those that may.
\<close>

datatype change = Write string string | Expire int string | Elapse int | Fire nat

fun change_step :: "change \<Rightarrow> server \<Rightarrow> server outcome" where
  "change_step (Write k v) s = set_store k v s"
| "change_step (Expire d k) s = Done (expire_after d k s)"
| "change_step (Elapse d) s = Done (tick d s)"
| "change_step (Fire i) s = Done (fire_timer i s)"

definition run_changes :: "change list \<Rightarrow> server \<Rightarrow> server outcome" where
  "run_changes h s = fold (\<lambda>e r. and_then r (change_step e)) h (Done s)"

fun log_of :: "change \<Rightarrow> string list list" where
  "log_of (Write k v) = [[''SET'', k, v]]"
| "log_of e = []"

text \<open>The value each key was given last, whether it has expired since or not.\<close>

fun note_write :: "change \<Rightarrow> (string \<rightharpoonup> string) \<Rightarrow> string \<rightharpoonup> string" where
  "note_write (Write k v) f = f(k \<mapsto> v)"
| "note_write e f = f"

definition last_written :: "change list \<Rightarrow> string \<rightharpoonup> string" where
  "last_written h = fold note_write h Map.empty"

text \<open>The store \<open>f\<close>, less some of the keys of \<open>D\<close>, which are those with an expiry, pending or past.\<close>

definition expired_from :: "(string \<rightharpoonup> string) \<Rightarrow> string set \<Rightarrow> server \<Rightarrow> bool" where
  "expired_from f D s \<longleftrightarrow>
     (\<forall>k. mem s k = f k \<or> mem s k = None \<and> k \<in> D) \<and> snd ` set (timers s) \<subseteq> D"

lemma expired_from_fire:
  assumes "expired_from f D s" shows "expired_from f D (fire_timer i s)"
proof (cases "i < length (timers s) \<and> fst (timers s ! i) \<le> clock s")
  case True
  then have k: "snd (timers s ! i) \<in> D" using assms by (auto simp: expired_from_def)
  have "set (take i (timers s) @ drop (Suc i) (timers s)) \<subseteq> set (timers s)"
    using set_take_subset set_drop_subset by fastforce
  then have "snd ` set (timers (fire_timer i s)) \<subseteq> D"
    using assms True by (fastforce simp: expired_from_def fire_timer_def mem_delete_def)
  moreover have "mem (fire_timer i s) = (mem s)(snd (timers s ! i) := None)"
    using True by (simp add: fire_timer_def mem_delete_def mem_def delete_conv')
  ultimately show ?thesis using assms k by (simp add: expired_from_def)
next
  case False
  then have "fire_timer i s = s" unfolding fire_timer_def by (rule if_not_P)
  then show ?thesis using assms by simp
qed

lemma change_step_master:
  assumes "role_is ''master'' m" "AofFile m = Some wr" "budget wr = None" "expired_from f D m"
    "\<And>d k. e = Expire d k \<Longrightarrow> k \<in> D"
  obtains m' where "change_step e m = Done m'" "role_is ''master'' m'" "expired_from (note_write e f) D m'"
    "AofFile m' = Some (wr\<lparr>written := written wr @ concat (map resp_array (log_of e))\<rparr>)"
proof (cases e)
  case (Write k v)
  with assms that[of "master_set k v m"] set_store_master master_set_aof[OF assms(2,3)]
  show thesis by (auto simp: expired_from_def)
next
  case (Expire d k)
  with assms that[of "expire_after d k m"] show thesis
    by (auto simp: expired_from_def expire_after_def mem_def)
next
  case (Elapse d)
  with assms that[of "tick d m"] show thesis by (auto simp: expired_from_def tick_def mem_def)
next
  case (Fire i)
  have "role_is ''master'' (fire_timer i m)" "AofFile (fire_timer i m) = Some wr"
    using assms(1,2) by (simp_all add: fire_timer_def mem_delete_def)
  with Fire that[of "fire_timer i m"] expired_from_fire[OF assms(4)] show thesis by simp
qed

lemma run_changes_master:
  assumes "role_is ''master'' m" "AofFile m = Some wr" "budget wr = None" "expired_from f D m"
    "\<forall>d k. Expire d k \<in> set h \<longrightarrow> k \<in> D"
  shows "\<exists>m'. run_changes h m = Done m' \<and> expired_from (fold note_write h f) D m' \<and>
    AofFile m' = Some (wr\<lparr>written := written wr @ concat (map resp_array (concat (map log_of h)))\<rparr>)"
  using assms
proof (induction h arbitrary: m wr f)
  case (Cons e h)
  from change_step_master[OF Cons.prems(1-4), of e] Cons.prems(5) obtain m1 where
    m1: "change_step e m = Done m1" "role_is ''master'' m1" "expired_from (note_write e f) D m1"
    "AofFile m1 = Some (wr\<lparr>written := written wr @ concat (map resp_array (log_of e))\<rparr>)"
    by auto
  from Cons.IH[OF m1(2,4) _ m1(3)] Cons.prems(3,5) m1(1) show ?case
    by (simp add: run_changes_def)
qed (simp add: run_changes_def)

lemma replay_log:
  "mem (fold aof_command (concat (map log_of h)) s) = fold note_write h (mem s)
    \<and> timers (fold aof_command (concat (map log_of h)) s) = timers s"
proof (induction h arbitrary: s)
  case (Cons e h)
  then show ?case by (cases e) (auto simp: fun_upd_def)
qed simp

text \<open>
  C27: A master begins with an empty store and an empty append-only file to which every write
  succeeds, and then stores keys, starts expiries and lets them run, in any order and at any time.
  A process that starts on the file it has written, read in any pieces, gets for every key the value
  it was given last, and schedules no expiry: the \<open>PX\<close> of a \<open>SET\<close> is not in the file. So it has all
  of the master's store, and beyond it only keys that have expired at the master, which come back
  with their last value and for good.
\<close>

theorem aof_restores_store:
  assumes "role_is ''master'' m" "AofFile m = Some \<lparr>written = [], budget = None\<rparr>" "mem m = Map.empty" "timers m = []"
    "run_changes h m = Done m'" "\<forall>k v. Write k v \<in> set h \<longrightarrow> arg_ok k \<and> arg_ok v"
    "AofFile m' = Some wr" "no_errors r" "stream r = written wr" "mem s = Map.empty"
  shows "mem (AOFParser (Some r) s) = last_written h \<and> timers (AOFParser (Some r) s) = timers s \<and>
    (\<forall>k. mem m' k = last_written h k \<or> mem m' k = None \<and> (\<exists>d. Expire d k \<in> set h))"
proof -
  let ?cs = "concat (map log_of h)" and ?D = "{k. \<exists>d. Expire d k \<in> set h}"
  have "expired_from Map.empty ?D m" using assms(3,4) by (simp add: expired_from_def)
  from run_changes_master[OF assms(1,2) _ this, of h] assms(5) have
    m': "expired_from (last_written h) ?D m'" "AofFile m' = Some \<lparr>written = concat (map resp_array ?cs), budget = None\<rparr>"
    by (auto simp: last_written_def)
  then have "stream r = concat (map resp_array ?cs)" using assms(7,9) by simp
  moreover have "\<forall>c \<in> set (log_of e). logged c" if "e \<in> set h" for e
  proof (cases e)
    case (Write k v)
    with that assms(6) have "arg_ok k" "arg_ok v" by simp_all
    moreover have "arg_ok ''SET''" by (rule arg_ok_graphic, simp add: graphic_def)
    ultimately show ?thesis using Write by (simp add: logged_def in_i64_def)
  qed simp_all
  then have "\<forall>c \<in> set ?cs. logged c" by auto
  ultimately have "AOFParser (Some r) s = fold aof_command ?cs s"
    using aof_replay_commands[OF assms(8)] by (simp add: AOFParser_def)
  with replay_log[of h s] assms(10) m'(1) show ?thesis by (simp add: last_written_def expired_from_def)
qed

text \<open>A key whose expiry has run at the master is back after the restart.\<close>

lemma aof_restores_store_example:
  "\<exists>m'. run_changes [Write ''K'' ''V'', Expire 100 ''K'', Write ''L'' ''W'', Elapse 100, Fire 0]
      ((master_with (client_conn [] []))\<lparr>AofFile := Some \<lparr>written = [], budget = None\<rparr>\<rparr>) = Done m' \<and>
    mem m' = [''L'' \<mapsto> ''W''] \<and>
    mem (AOFParser (map_option (\<lambda>wr. \<lparr>rbuf = [], rsrc = [Chunk (written wr)]\<rparr>) (AofFile m'))
      (empty_server (\<lambda>_. client_conn [] []) 0)) = [''K'' \<mapsto> ''V'', ''L'' \<mapsto> ''W'']"
proof -
  let ?m = "(master_with (client_conn [] []))\<lparr>AofFile := Some \<lparr>written = [], budget = None\<rparr>\<rparr>"
  let ?h = "[Write ''K'' ''V'', Expire 100 ''K'', Write ''L'' ''W'', Elapse 100, Fire 0]"
  have m: "role_is ''master'' ?m" "AofFile ?m = Some \<lparr>written = [], budget = None\<rparr>" "mem ?m = Map.empty" "timers ?m = []"
    by (simp_all add: master_with_def empty_server_def mem_def)
  let ?m' = "fire_timer 0 (tick 100 (master_set ''L'' ''W'' (expire_after 100 ''K'' (master_set ''K'' ''V'' ?m))))"
  let ?wr = "\<lparr>written = resp_array [''SET'', ''K'', ''V''] @ resp_array [''SET'', ''L'', ''W''], budget = None\<rparr>"
  have run: "run_changes ?h ?m = Done ?m'"
    using set_store_master m(1) by (simp add: run_changes_def expire_after_def)
  have log: "AofFile ?m' = Some ?wr"
    using master_set_aof[OF m(2)] by (simp add: fire_timer_def tick_def expire_after_def mem_delete_def master_set_aof)
  have store: "mem ?m' = [''L'' \<mapsto> ''W'']"
    using m(3,4) by (auto simp: fire_timer_def tick_def expire_after_def)
  have "arg_ok ''K''" "arg_ok ''V''" "arg_ok ''L''" "arg_ok ''W''"
    by (rule arg_ok_graphic, simp add: graphic_def)+
  then have ok: "\<forall>k v. Write k v \<in> set ?h \<longrightarrow> arg_ok k \<and> arg_ok v" by simp
  have "mem (empty_server (\<lambda>_. client_conn [] []) 0) = Map.empty" by (simp add: empty_server_def mem_def)
  from aof_restores_store[OF m run ok log _ _ this, of "\<lparr>rbuf = [], rsrc = [Chunk (written ?wr)]\<rparr>"]
  have "mem (AOFParser (Some \<lparr>rbuf = [], rsrc = [Chunk (written ?wr)]\<rparr>) (empty_server (\<lambda>_. client_conn [] []) 0))
      = [''K'' \<mapsto> ''V'', ''L'' \<mapsto> ''W'']"
    by (simp add: no_errors_def stream_def last_written_def)
  with run log store show ?thesis by (intro exI[of _ ?m']) simp
qed


section \<open>Reading bytes\<close>

unbundle bit_operations_syntax

lemma read_full_src_stream:
  assumes "ReadErr \<notin> set es" "acc @ concat (map ev_bytes es) = bs @ t"
  shows "\<exists>r'. read_full_src (length bs) acc es = (bs, None, r') \<and> stream r' = t \<and> no_errors r'"
  using assms
proof (induction es arbitrary: acc)
  case Nil
  then show ?case by (auto simp: stream_def no_errors_def)
next
  case (Cons e es)
  show ?case
  proof (cases "length bs \<le> length acc")
    case True
    then obtain u where "acc = bs @ u" "u @ concat (map ev_bytes (e # es)) = t"
      using Cons.prems(2) by (auto simp: append_eq_append_conv2)
    with Cons.prems(1) show ?thesis by (simp add: stream_def no_errors_def)
  next
    case False
    obtain c where e: "e = Chunk c" using Cons.prems(1) by (cases e) auto
    with Cons.IH[of "acc @ c"] Cons.prems False show ?thesis by simp
  qed
qed

lemma ReadFull_stream:
  assumes "no_errors r" "stream r = bs @ t"
  obtains r' where "ReadFull (length bs) r = (bs, None, r')" "stream r' = t" "no_errors r'"
  using read_full_src_stream[of "rsrc r" "rbuf r" bs t] assms
  by (auto simp: ReadFull_def stream_def no_errors_def)

lemma ReadByte_stream:
  assumes "no_errors r" "stream r = b # t"
  obtains r' where "ReadByte r = (Some b, None, r')" "stream r' = t" "no_errors r'"
proof -
  have "stream r = [b] @ t" using assms(2) by simp
  from ReadFull_stream[OF assms(1) this] obtain r' where "ReadFull 1 r = ([b], None, r')" "stream r' = t" "no_errors r'"
    by (metis One_nat_def length_Cons list.size(3))
  then show thesis by (intro that[of r']) (simp_all add: ReadByte_def)
qed

lemma binary_read_stream:
  assumes "no_errors r" "stream r = bs @ t" "length bs = n"
  obtains r' where "binary_read order n r = (order bs, r')" "stream r' = t" "no_errors r'"
proof -
  from ReadFull_stream[OF assms(1,2)] obtain r' where "ReadFull n r = (bs, None, r')" "stream r' = t" "no_errors r'"
    by (metis assms(3))
  then show thesis by (intro that[of r']) (simp_all add: binary_read_def)
qed

section \<open>The RDB format\<close>

text \<open>
  A reference writer of the format: lengths in one, two or five bytes; a string behind its length,
  or an integer in place of its decimal text, in one, two or four bytes, the lowest first and in
  two's complement; and the items of a file: metadata, the selector of a database, the sizes of its
  tables, and string values without expiry or with one in milliseconds. Not written are compressed
  strings (\<open>0xC3\<close>), expiries in seconds (\<open>0xFD\<close>), the hints \<open>0xF8\<close> and \<open>0xF9\<close> on the use of a key,
  and values that are no strings.
\<close>

fun le_bytes :: "nat \<Rightarrow> nat \<Rightarrow> string" where
  "le_bytes 0 n = []"
| "le_bytes (Suc k) n = char_of (n mod 256) # le_bytes k (n div 256)"

definition rdb_length :: "nat \<Rightarrow> string" where
  "rdb_length n =
     (if n < 64 then [char_of n]
      else if n < 16384 then [char_of (64 + n div 256), char_of (n mod 256)]
      else CHR 0x80 # rev (le_bytes 4 n))"

datatype rdb_str = Raw string | Int8 int | Int16 int | Int32 int

fun str_bytes :: "rdb_str \<Rightarrow> string" where
  "str_bytes (Raw s) = rdb_length (length s) @ s"
| "str_bytes (Int8 i) = CHR 0xC0 # le_bytes 1 (nat (i mod 2 ^ 8))"
| "str_bytes (Int16 i) = CHR 0xC1 # le_bytes 2 (nat (i mod 2 ^ 16))"
| "str_bytes (Int32 i) = CHR 0xC2 # le_bytes 4 (nat (i mod 2 ^ 32))"

fun str_ok :: "rdb_str \<Rightarrow> bool" where
  "str_ok (Raw s) \<longleftrightarrow> length s < 2 ^ 32"
| "str_ok (Int8 i) \<longleftrightarrow> - (2 ^ 7) \<le> i \<and> i < 2 ^ 7"
| "str_ok (Int16 i) \<longleftrightarrow> - (2 ^ 15) \<le> i \<and> i < 2 ^ 15"
| "str_ok (Int32 i) \<longleftrightarrow> - (2 ^ 31) \<le> i \<and> i < 2 ^ 31"

text \<open>The string that is meant, the string the code reads, and when the two are the same.\<close>

fun meant :: "rdb_str \<Rightarrow> string" where
  "meant (Raw s) = s"
| "meant (Int8 i) = itoa i"
| "meant (Int16 i) = itoa i"
| "meant (Int32 i) = itoa i"

fun loaded :: "rdb_str \<Rightarrow> string" where
  "loaded (Raw s) = s"
| "loaded (Int8 i) = itoa i"
| "loaded (Int16 i) = itoa (i mod 2 ^ 16)"
| "loaded (Int32 i) = itoa (i mod 2 ^ 32)"

fun wide_negative :: "rdb_str \<Rightarrow> bool" where
  "wide_negative (Int16 i) \<longleftrightarrow> i < 0"
| "wide_negative (Int32 i) \<longleftrightarrow> i < 0"
| "wide_negative x \<longleftrightarrow> False"

lemma loaded_meant: "str_ok x \<Longrightarrow> \<not> wide_negative x \<Longrightarrow> loaded x = meant x"
  by (cases x) simp_all

datatype rdb_item =
    Meta rdb_str rdb_str
  | Select nat
  | Sizes nat nat
  | Plain rdb_str rdb_str
  | ExpiresMs nat rdb_str rdb_str

fun item_bytes :: "rdb_item \<Rightarrow> string" where
  "item_bytes (Meta n v) = CHR 0xFA # str_bytes n @ str_bytes v"
| "item_bytes (Select n) = CHR 0xFE # rdb_length n"
| "item_bytes (Sizes m n) = CHR 0xFB # rdb_length m @ rdb_length n"
| "item_bytes (Plain k v) = CHR 0x00 # str_bytes k @ str_bytes v"
| "item_bytes (ExpiresMs t k v) = CHR 0xFC # le_bytes 8 t @ CHR 0x00 # str_bytes k @ str_bytes v"

fun item_ok :: "rdb_item \<Rightarrow> bool" where
  "item_ok (Meta n v) \<longleftrightarrow> str_ok n \<and> str_ok v"
| "item_ok (Select n) \<longleftrightarrow> n < 2 ^ 32"
| "item_ok (Sizes m n) \<longleftrightarrow> m < 2 ^ 32 \<and> n < 2 ^ 32"
| "item_ok (Plain k v) \<longleftrightarrow> str_ok k \<and> str_ok v"
| "item_ok (ExpiresMs t k v) \<longleftrightarrow> t < 2 ^ 63 \<and> str_ok k \<and> str_ok v"

text \<open>The keys and values an item stores.\<close>

fun stored :: "rdb_item \<Rightarrow> rdb_str list" where
  "stored (Plain k v) = [k, v]"
| "stored (ExpiresMs t k v) = [k, v]"
| "stored x = []"

text \<open>The file: a header of nine bytes, the items, the end mark, and whatever follows it (the checksum).\<close>

definition rdb_file :: "string \<Rightarrow> rdb_item list \<Rightarrow> string \<Rightarrow> string" where
  "rdb_file header xs checksum = header @ concat (map item_bytes xs) @ CHR 0xFF # checksum"

lemma length_le_bytes [simp]: "length (le_bytes k n) = k"
  by (induction k arbitrary: n) auto

lemma le_bytes_numeral: "le_bytes (numeral k) n = char_of (n mod 256) # le_bytes (pred_numeral k) (n div 256)"
  by (subst numeral_eq_Suc[of k]) simp

lemma le_uint_le_bytes: "le_uint (le_bytes k n) = n mod 256 ^ k"
  by (induction k arbitrary: n) (auto simp: mod_mult2_eq)

text \<open>The two format bits and the six value bits of the first byte.\<close>

lemma length_byte:
  assumes "n < 64"
  shows "drop_bit 6 ((word_of_nat n :: 8 word) AND 0xC0) = 0" "(word_of_nat n :: 8 word) AND 0x3F = word_of_nat n"
    "drop_bit 6 ((word_of_nat (64 + n) :: 8 word) AND 0xC0) = 1" "(word_of_nat (64 + n) :: 8 word) AND 0x3F = word_of_nat n"
proof -
  have "\<forall>n \<in> set [0..<64]. drop_bit 6 ((word_of_nat n :: 8 word) AND 0xC0) = 0 \<and> (word_of_nat n :: 8 word) AND 0x3F = word_of_nat n
      \<and> drop_bit 6 ((word_of_nat (64 + n) :: 8 word) AND 0xC0) = 1 \<and> (word_of_nat (64 + n) :: 8 word) AND 0x3F = word_of_nat n"
    by code_simp
  with assms show "drop_bit 6 ((word_of_nat n :: 8 word) AND 0xC0) = 0" "(word_of_nat n :: 8 word) AND 0x3F = word_of_nat n"
    "drop_bit 6 ((word_of_nat (64 + n) :: 8 word) AND 0xC0) = 1" "(word_of_nat (64 + n) :: 8 word) AND 0x3F = word_of_nat n"
    by auto
qed

lemma two_byte_length:
  assumes "m < 64" "k < 256"
  shows "push_bit 8 (ucast (word_of_nat m :: 8 word)) OR ucast (word_of_nat k :: 8 word) = (word_of_nat (256 * m + k) :: 32 word)"
proof -
  let ?x = "push_bit 8 (ucast (word_of_nat m :: 8 word)) :: 32 word" and ?y = "ucast (word_of_nat k :: 8 word) :: 32 word"
  have "?x AND ?y = 0" by (rule bit_word_eqI) (auto simp: bit_simps)
  with word_plus_and_or[of ?x ?y] have "?x OR ?y = ?x + ?y" by simp
  moreover have "?x = word_of_nat (256 * m)" "?y = word_of_nat k"
    using assms by (simp_all add: unsigned_of_nat take_bit_nat_eq_self push_bit_of_nat push_bit_eq_mult)
  ultimately show ?thesis by simp
qed

lemma readLength_stream:
  assumes "no_errors r" "stream r = rdb_length n @ t" "n < 2 ^ 32"
  obtains r' where "readLength r = (word_of_nat n, False, None, r')" "stream r' = t" "no_errors r'"
proof -
  consider "n < 64" | "64 \<le> n" "n < 16384" | "16384 \<le> n" by linarith
  then show thesis
  proof cases
    case 1
    then have "stream r = char_of n # t" using assms(2) by (simp add: rdb_length_def)
    from ReadByte_stream[OF assms(1) this] obtain r' where r': "ReadByte r = (Some (char_of n), None, r')"
      "stream r' = t" "no_errors r'" .
    have "(ucast ((word_of_nat n :: 8 word) AND 0x3F) :: 32 word) = word_of_nat n"
      using 1 by (simp add: length_byte(2) unsigned_of_nat take_bit_nat_eq_self)
    with r' 1 length_byte(1)[OF 1] show thesis by (intro that[of r']) (simp_all add: readLength_def Let_def)
  next
    case 2
    then have "stream r = char_of (64 + n div 256) # char_of (n mod 256) # t" using assms(2) by (simp add: rdb_length_def)
    from ReadByte_stream[OF assms(1) this] obtain r1 where r1: "ReadByte r = (Some (char_of (64 + n div 256)), None, r1)"
      "stream r1 = char_of (n mod 256) # t" "no_errors r1" .
    from ReadByte_stream[OF r1(3,2)] obtain r2 where r2: "ReadByte r1 = (Some (char_of (n mod 256)), None, r2)"
      "stream r2 = t" "no_errors r2" .
    have m: "n div 256 < 64" "n mod 256 < 256" using 2 by simp_all
    then have "byte_word (char_of (64 + n div 256)) = word_of_nat (64 + n div 256)" by simp
    moreover have "byte_word (char_of (n mod 256)) = word_of_nat (n mod 256)" by simp
    ultimately show thesis using r1 r2 length_byte(3,4)[OF m(1)] two_byte_length[OF m]
      by (intro that[of r2]) (simp_all add: readLength_def Let_def)
  next
    case 3
    then have "stream r = CHR 0x80 # rev (le_bytes 4 n) @ t" using assms(2) by (simp add: rdb_length_def)
    from ReadByte_stream[OF assms(1) this] obtain r1 where r1: "ReadByte r = (Some (CHR 0x80), None, r1)"
      "stream r1 = rev (le_bytes 4 n) @ t" "no_errors r1" .
    from binary_read_stream[OF r1(3,2), of 4 be_uint] obtain r2 where r2: "binary_read be_uint 4 r1 = (be_uint (rev (le_bytes 4 n)), r2)"
      "stream r2 = t" "no_errors r2" by auto
    have "be_uint (rev (le_bytes 4 n)) = n" using assms(3) by (simp add: be_uint_def le_uint_le_bytes)
    moreover have "drop_bit 6 ((byte_word (CHR 0x80)) AND 0xC0) = 2" by code_simp
    ultimately show thesis using r1 r2 by (intro that[of r2]) (simp_all add: readLength_def Let_def)
  qed
qed

lemma special_byte:
  "drop_bit 6 (byte_word (CHR 0xC0) AND 0xC0) = 3" "byte_word (CHR 0xC0) AND 0x3F = 0"
  "drop_bit 6 (byte_word (CHR 0xC1) AND 0xC0) = 3" "byte_word (CHR 0xC1) AND 0x3F = 1"
  "drop_bit 6 (byte_word (CHR 0xC2) AND 0xC0) = 3" "byte_word (CHR 0xC2) AND 0x3F = 2"
  "drop_bit 6 (byte_word (CHR 0xC3) AND 0xC0) = 3" "byte_word (CHR 0xC3) AND 0x3F = 3"
  "drop_bit 6 (byte_word (CHR 0xFF) AND 0xC0) = 3" "byte_word (CHR 0xFF) AND 0x3F = 63"
  by code_simp+

lemma readLength_special:
  assumes "no_errors r" "stream r = b # t" "drop_bit 6 (byte_word b AND 0xC0) = 3"
  obtains r' where "readLength r = (ucast (byte_word b AND 0x3F), True, None, r')" "stream r' = t" "no_errors r'"
proof -
  from ReadByte_stream[OF assms(1,2)] obtain r' where "ReadByte r = (Some b, None, r')" "stream r' = t" "no_errors r'" .
  with assms(3) show thesis by (intro that[of r']) (simp_all add: readLength_def Let_def)
qed

lemma readString_integer:
  assumes "no_errors r" "stream r = b # le_bytes n v @ t" "v < 256 ^ n"
    "(b, n) \<in> {(CHR 0xC0, 1), (CHR 0xC1, 2), (CHR 0xC2, 4)}"
  obtains r' where "readString r = (itoa (if n = 1 then signed8 v else int v), None, r')" "stream r' = t" "no_errors r'"
proof -
  have "drop_bit 6 (byte_word b AND 0xC0) = 3" using assms(4) special_byte by auto
  from readLength_special[OF assms(1,2) this] obtain r1 where
    r1: "readLength r = (ucast (byte_word b AND 0x3F), True, None, r1)" "stream r1 = le_bytes n v @ t" "no_errors r1" .
  from binary_read_stream[OF r1(3,2), of n le_uint] obtain r2 where
    r2: "binary_read le_uint n r1 = (v, r2)" "stream r2 = t" "no_errors r2"
    using assms(3) by (auto simp: le_uint_le_bytes)
  have "readString r = (itoa (if n = 1 then signed8 v else int v), None, r2)"
    using assms(4) r1(1) r2(1) special_byte by (auto simp: readString_def)
  with r2 show thesis by (intro that)
qed

lemma readString_raw:
  assumes "no_errors r" "stream r = rdb_length (length s) @ s @ t" "length s < 2 ^ 32"
  obtains r' where "readString r = (s, None, r')" "stream r' = t" "no_errors r'"
proof -
  from readLength_stream[OF assms] obtain r1 where
    r1: "readLength r = (word_of_nat (length s), False, None, r1)" "stream r1 = s @ t" "no_errors r1" .
  from ReadFull_stream[OF r1(3,2)] obtain r2 where r2: "ReadFull (length s) r1 = (s, None, r2)" "stream r2 = t" "no_errors r2" .
  have "unat (word_of_nat (length s) :: 32 word) = length s" using assms(3) by (simp add: unat_of_nat take_bit_nat_eq_self)
  with r1(1) r2 show thesis by (intro that[of r2]) (simp_all add: readString_def)
qed

lemma signed8_byte: "- (2 ^ 7) \<le> i \<Longrightarrow> i < 2 ^ 7 \<Longrightarrow> signed8 (nat (i mod 256)) = i"
proof (cases "0 \<le> i")
  case False
  assume "- (2 ^ 7) \<le> i" "i < 2 ^ 7"
  with False have "(i + 256) mod 256 = i + 256" by (intro mod_pos_pos_trivial) simp_all
  then have "i mod 256 = i + 256" by simp
  with \<open>- (2 ^ 7) \<le> i\<close> False show ?thesis by (simp add: signed8_def)
qed (simp add: signed8_def)

lemma readString_stream:
  assumes "no_errors r" "stream r = str_bytes x @ t" "str_ok x"
  obtains r' where "readString r = (loaded x, None, r')" "stream r' = t" "no_errors r'"
proof (cases x)
  case (Raw s)
  with assms(2,3) have "stream r = rdb_length (length s) @ s @ t" "length s < 2 ^ 32" by simp_all
  from readString_raw[OF assms(1) this] show thesis by (metis that Raw loaded.simps(1))
next
  case (Int8 i)
  with assms(2) have "stream r = CHR 0xC0 # le_bytes 1 (nat (i mod 256)) @ t" by simp
  moreover have "nat (i mod 256) < 256 ^ 1" by (simp add: nat_less_iff)
  ultimately obtain r' where "readString r = (itoa (signed8 (nat (i mod 256))), None, r')" "stream r' = t" "no_errors r'"
    using readString_integer[OF assms(1), of "CHR 0xC0" 1 "nat (i mod 256)" t] by auto
  with that[of r'] assms(3) Int8 show thesis by (simp add: signed8_byte)
next
  case (Int16 i)
  with assms(2) have "stream r = CHR 0xC1 # le_bytes 2 (nat (i mod 65536)) @ t" by simp
  moreover have "nat (i mod 65536) < 256 ^ 2" by (simp add: nat_less_iff)
  ultimately obtain r' where "readString r = (itoa (i mod 65536), None, r')" "stream r' = t" "no_errors r'"
    using readString_integer[OF assms(1), of "CHR 0xC1" 2 "nat (i mod 65536)" t] by auto
  with that[of r'] Int16 show thesis by simp
next
  case (Int32 i)
  with assms(2) have "stream r = CHR 0xC2 # le_bytes 4 (nat (i mod 4294967296)) @ t" by simp
  moreover have "nat (i mod 4294967296) < 256 ^ 4" by (simp add: nat_less_iff)
  ultimately obtain r' where "readString r = (itoa (i mod 4294967296), None, r')" "stream r' = t" "no_errors r'"
    using readString_integer[OF assms(1), of "CHR 0xC2" 4 "nat (i mod 4294967296)" t] by auto
  with that[of r'] Int32 show thesis by simp
qed

section \<open>Loading\<close>

text \<open>
  What an item does at the time of the load, for a way \<open>f\<close> to read the strings: a value goes into
  the one store, whatever database it belongs to, unless its time has passed; if it has an expiry,
  its key is deleted after the time that is left.
\<close>

fun load_item :: "(rdb_str \<Rightarrow> string) \<Rightarrow> rdb_item \<Rightarrow> server \<Rightarrow> server" where
  "load_item f (Plain k v) s = mem_store (f k) (f v) s"
| "load_item f (ExpiresMs t k v) s =
     (if int t * 1000000 \<le> clock s then s
      else expire_after (min max_int64 (int t * 1000000 - clock s)) (f k) (mem_store (f k) (f v) s))"
| "load_item f x s = s"

lemma load_item_cong: "\<forall>x \<in> set (stored e). f x = g x \<Longrightarrow> load_item f e s = load_item g e s"
  by (cases e) simp_all

lemma until_ms_value:
  assumes "t < 2 ^ 63"
  shows "until_ms t now = max min_int64 (min max_int64 (int t * 1000000 - now))"
proof -
  have t: "i64 (int t) = int t" using assms by (intro i64_id) (simp add: in_i64_def)
  have "int t div 1000 + unixToInternal \<le> max_int64" using assms by (simp add: unixToInternal_def)
  moreover have "min_int64 \<le> int t div 1000 + unixToInternal" by (simp add: unixToInternal_def)
  ultimately have "i64 (int t div 1000 + unixToInternal) = int t div 1000 + unixToInternal"
    by (intro i64_id) (simp add: in_i64_def)
  moreover have "quot1000 (int t) = int t div 1000" "rem1000 (int t) = int t mod 1000"
    by (auto simp: quot1000_def rem1000_def sgn_if)
  moreover have "int t div 1000 * 1000000000 + int t mod 1000 * 1000000 = int t * 1000000"
    using div_mult_mod_eq[of "int t" 1000] by linarith
  ultimately show ?thesis using t by (simp add: until_ms_def time_Until_def)
qed

lemma load_item_step:
  assumes "no_errors r" "stream r = item_bytes e @ t" "item_ok e"
  obtains r' where "load_entries r s = load_entries r' (load_item loaded e s)" "stream r' = t" "no_errors r'"
proof (cases e)
  case (Meta n v)
  then have st: "stream r = CHR 0xFA # str_bytes n @ (str_bytes v @ t)" and ok: "str_ok n" "str_ok v"
    using assms(2,3) by simp_all
  from ReadByte_stream[OF assms(1) st] obtain r1 where r1: "ReadByte r = (Some (CHR 0xFA), None, r1)"
    "stream r1 = str_bytes n @ (str_bytes v @ t)" "no_errors r1" .
  from readString_stream[OF r1(3,2) ok(1)] obtain r2 where r2: "readString r1 = (loaded n, None, r2)" "stream r2 = str_bytes v @ t" "no_errors r2" .
  from readString_stream[OF r2(3,2) ok(2)] obtain r3 where r3: "readString r2 = (loaded v, None, r3)" "stream r3 = t" "no_errors r3" .
  show thesis by (rule that[of r3]) (use r1 r2 r3 Meta in \<open>simp_all add: load_entries.simps[of r s]\<close>)
next
  case (Select n)
  then have st: "stream r = CHR 0xFE # rdb_length n @ t" and n: "n < 2 ^ 32" using assms(2,3) by simp_all
  from ReadByte_stream[OF assms(1) st] obtain r1 where r1: "ReadByte r = (Some (CHR 0xFE), None, r1)"
    "stream r1 = rdb_length n @ t" "no_errors r1" .
  from readLength_stream[OF r1(3,2) n] obtain r2 where r2: "readLength r1 = (word_of_nat n, False, None, r2)"
    "stream r2 = t" "no_errors r2" .
  show thesis by (rule that[of r2]) (use r1 r2 Select in \<open>simp_all add: load_entries.simps[of r s]\<close>)
next
  case (Sizes m n)
  then have st: "stream r = CHR 0xFB # rdb_length m @ (rdb_length n @ t)" and ok: "m < 2 ^ 32" "n < 2 ^ 32"
    using assms(2,3) by simp_all
  from ReadByte_stream[OF assms(1) st] obtain r1 where r1: "ReadByte r = (Some (CHR 0xFB), None, r1)"
    "stream r1 = rdb_length m @ (rdb_length n @ t)" "no_errors r1" .
  from readLength_stream[OF r1(3,2) ok(1)] obtain r2 where r2: "readLength r1 = (word_of_nat m, False, None, r2)"
    "stream r2 = rdb_length n @ t" "no_errors r2" .
  from readLength_stream[OF r2(3,2) ok(2)] obtain r3 where r3: "readLength r2 = (word_of_nat n, False, None, r3)"
    "stream r3 = t" "no_errors r3" .
  show thesis by (rule that[of r3]) (use r1 r2 r3 Sizes in \<open>simp_all add: load_entries.simps[of r s]\<close>)
next
  case (Plain k v)
  then have st: "stream r = CHR 0x00 # str_bytes k @ (str_bytes v @ t)" and ok: "str_ok k" "str_ok v"
    using assms(2,3) by simp_all
  from ReadByte_stream[OF assms(1) st] obtain r1 where r1: "ReadByte r = (Some (CHR 0x00), None, r1)"
    "stream r1 = str_bytes k @ (str_bytes v @ t)" "no_errors r1" .
  from readString_stream[OF r1(3,2) ok(1)] obtain r2 where r2: "readString r1 = (loaded k, None, r2)" "stream r2 = str_bytes v @ t" "no_errors r2" .
  from readString_stream[OF r2(3,2) ok(2)] obtain r3 where r3: "readString r2 = (loaded v, None, r3)" "stream r3 = t" "no_errors r3" .
  show thesis by (rule that[of r3]) (use r1 r2 r3 Plain in \<open>simp_all add: load_entries.simps[of r s]\<close>)
next
  case (ExpiresMs x k v)
  then have st: "stream r = CHR 0xFC # le_bytes 8 x @ (CHR 0x00 # str_bytes k @ (str_bytes v @ t))"
    and ok: "x < 2 ^ 63" "str_ok k" "str_ok v"
    using assms(2,3) by simp_all
  from ReadByte_stream[OF assms(1) st] obtain r0 where r0: "ReadByte r = (Some (CHR 0xFC), None, r0)"
    "stream r0 = le_bytes 8 x @ (CHR 0x00 # str_bytes k @ (str_bytes v @ t))" "no_errors r0" .
  from binary_read_stream[OF r0(3,2), of 8 le_uint] obtain r1 where r1: "binary_read le_uint 8 r0 = (le_uint (le_bytes 8 x), r1)"
    "stream r1 = CHR 0x00 # str_bytes k @ (str_bytes v @ t)" "no_errors r1" by auto
  from ReadByte_stream[OF r1(3,2)] obtain r2 where r2: "ReadByte r1 = (Some (CHR 0x00), None, r2)"
    "stream r2 = str_bytes k @ (str_bytes v @ t)" "no_errors r2" .
  from readString_stream[OF r2(3,2) ok(2)] obtain r3 where r3: "readString r2 = (loaded k, None, r3)" "stream r3 = str_bytes v @ t" "no_errors r3" .
  from readString_stream[OF r3(3,2) ok(3)] obtain r4 where r4: "readString r3 = (loaded v, None, r4)" "stream r4 = t" "no_errors r4" .
  have tte: "le_uint (le_bytes 8 x) = x" using ok(1) by (simp add: le_uint_le_bytes)
  have "load_entries r s = load_entries r4 (store_expiring (loaded k) (loaded v) (until_ms x (clock s)) s)"
    using r0 r1 r2 r3 r4 tte by (simp add: load_entries.simps[of r s])
  moreover have "store_expiring (loaded k) (loaded v) (until_ms x (clock s)) s = load_item loaded e s"
    using ExpiresMs until_ms_value[OF ok(1)] by (auto simp: store_expiring_def min_def max_def)
  ultimately show thesis using that[of r4] r4 by simp
qed

lemma load_items_all:
  assumes "no_errors r" "stream r = concat (map item_bytes xs) @ CHR 0xFF # t" "\<forall>e \<in> set xs. item_ok e"
  shows "load_entries r s = fold (load_item loaded) xs s"
  using assms
proof (induction xs arbitrary: r s)
  case Nil
  then have "stream r = CHR 0xFF # t" by simp
  from ReadByte_stream[OF Nil.prems(1) this] obtain r1 where "ReadByte r = (Some (CHR 0xFF), None, r1)" .
  then show ?case by (simp add: load_entries.simps[of r s])
next
  case (Cons e xs)
  then have "stream r = item_bytes e @ (concat (map item_bytes xs) @ CHR 0xFF # t)" "item_ok e" by simp_all
  from load_item_step[OF Cons.prems(1) this, of s] obtain r' where
    "load_entries r s = load_entries r' (load_item loaded e s)" "stream r' = concat (map item_bytes xs) @ CHR 0xFF # t" "no_errors r'" .
  with Cons.IH[of r'] Cons.prems(3) show ?case by simp
qed

lemma LoadRDB_header:
  assumes "open_file dir filename = Some r" "dir \<noteq> []" "filename \<noteq> []" "no_errors r"
    "stream r = header @ t" "length header = 9"
  obtains r' where "LoadRDB open_file dir filename s = load_entries r' s" "stream r' = t" "no_errors r'"
proof -
  from ReadFull_stream[OF assms(4,5)] obtain r' where "ReadFull 9 r = (header, None, r')" "stream r' = t" "no_errors r'"
    unfolding assms(6) .
  with assms(1-3) show thesis by (intro that[of r']) (simp_all add: LoadRDB_def)
qed

text \<open>The strings of an item that no wide negative integer stands for are those that are meant.\<close>

lemma load_item_meant:
  assumes "item_ok e" "\<forall>x \<in> set (stored e). \<not> wide_negative x"
  shows "load_item loaded e = load_item meant e"
proof -
  have "\<forall>x \<in> set (stored e). str_ok x" using assms(1) by (cases e) simp_all
  with assms(2) show ?thesis by (intro ext load_item_cong) (simp add: loaded_meant)
qed

lemma fold_load_meant:
  assumes "\<forall>e \<in> set xs. item_ok e" "\<forall>e \<in> set xs. \<forall>x \<in> set (stored e). \<not> wide_negative x"
  shows "fold (load_item loaded) xs s = fold (load_item meant) xs s"
  using assms by (intro fold_cong) (simp_all add: load_item_meant)

text \<open>
  C29: Loading a database file whose items are metadata, database selectors, table sizes and string
  values without expiry or with one in milliseconds, each string plain or an integer encoded in one,
  two or four bytes, under any header of nine bytes, with anything behind the end mark and read in
  any pieces: the values are stored in the order of the file, those whose time has passed are left
  out, and every other expiry deletes its key after the time that is left. Keys and values are the
  ones meant if no negative integer is encoded in two or four bytes among them; such an integer
  \<open>i\<close> is read as \<open>i + 2^16\<close> or \<open>i + 2^32\<close>.
\<close>

theorem load_rdb_file:
  assumes "open_file dir filename = Some r" "dir \<noteq> []" "filename \<noteq> []" "no_errors r"
    "stream r = rdb_file header xs checksum" "length header = 9" "\<forall>e \<in> set xs. item_ok e"
  shows "LoadRDB open_file dir filename s = fold (load_item loaded) xs s \<and>
    ((\<forall>e \<in> set xs. \<forall>x \<in> set (stored e). \<not> wide_negative x) \<longrightarrow>
      LoadRDB open_file dir filename s = fold (load_item meant) xs s)"
proof -
  have "stream r = header @ (concat (map item_bytes xs) @ CHR 0xFF # checksum)"
    using assms(5) by (simp add: rdb_file_def)
  from LoadRDB_header[where open_file = open_file, OF assms(1-4) this assms(6), of s] obtain r1 where
    "LoadRDB open_file dir filename s = load_entries r1 s" "stream r1 = concat (map item_bytes xs) @ CHR 0xFF # checksum"
    "no_errors r1" .
  with load_items_all assms(7) have "LoadRDB open_file dir filename s = fold (load_item loaded) xs s" by simp
  then show ?thesis using fold_load_meant[OF assms(7)] by simp
qed

text \<open>
  A file with integers among its metadata and values, one of them negative in two bytes, and an
  expiry that has passed; and the file the server itself sends to its replicas, which is empty.
\<close>

definition empty_file_items :: "rdb_item list" where
  "empty_file_items = [Meta (Raw ''redis-ver'') (Raw ''7.2.0''), Meta (Raw ''redis-bits'') (Int8 64),
     Meta (Raw ''ctime'') (Int32 1706821741), Meta (Raw ''used-mem'') (Int32 1098928), Meta (Raw ''aof-base'') (Int8 0)]"

lemma hex_vals:
  "hex_val CHR ''0'' = Some 0" "hex_val CHR ''1'' = Some 1" "hex_val CHR ''2'' = Some 2" "hex_val CHR ''3'' = Some 3"
  "hex_val CHR ''4'' = Some 4" "hex_val CHR ''5'' = Some 5" "hex_val CHR ''6'' = Some 6" "hex_val CHR ''7'' = Some 7"
  "hex_val CHR ''8'' = Some 8" "hex_val CHR ''9'' = Some 9" "hex_val CHR ''a'' = Some 10" "hex_val CHR ''b'' = Some 11"
  "hex_val CHR ''c'' = Some 12" "hex_val CHR ''d'' = Some 13" "hex_val CHR ''e'' = Some 14" "hex_val CHR ''f'' = Some 15"
  by code_simp+

lemma empty_file_decoded:
  "DecodeString emptyRdbHex = Some (''REDIS0011'' @ CHR 0xFA # CHR 0x09 # ''redis-ver'' @ CHR 0x05 # ''7.2.0''
     @ CHR 0xFA # CHR 0x0A # ''redis-bits'' @ [CHR 0xC0, CHR 0x40]
     @ CHR 0xFA # CHR 0x05 # ''ctime'' @ [CHR 0xC2, CHR 0x6D, CHR 0x08, CHR 0xBC, CHR 0x65]
     @ CHR 0xFA # CHR 0x08 # ''used-mem'' @ [CHR 0xC2, CHR 0xB0, CHR 0xC4, CHR 0x10, CHR 0x00]
     @ CHR 0xFA # CHR 0x08 # ''aof-base'' @ [CHR 0xC0, CHR 0x00]
     @ [CHR 0xFF, CHR 0xF0, CHR 0x6E, CHR 0x3B, CHR 0xFE, CHR 0xC0, CHR 0xFF, CHR 0x5A, CHR 0xA2])"
  by (simp add: emptyRdbHex_def hex_vals char_of_def bit_Suc_0_iff)

lemma empty_file_bytes:
  "DecodeString emptyRdbHex = Some (rdb_file ''REDIS0011'' empty_file_items
     [CHR 0xF0, CHR 0x6E, CHR 0x3B, CHR 0xFE, CHR 0xC0, CHR 0xFF, CHR 0x5A, CHR 0xA2])"
  unfolding empty_file_decoded empty_file_items_def
  by (simp add: rdb_file_def rdb_length_def le_bytes_numeral numeral_2_eq_2[symmetric] char_of_def bit_Suc_0_iff)

lemma load_rdb_file_example:
  "mem (LoadRDB (\<lambda>_ _. Some \<lparr>rbuf = [], rsrc = [Chunk (rdb_file ''REDIS0011'' [Meta (Raw ''redis-bits'') (Int8 64),
        Select 0, Sizes 3 1, ExpiresMs 5 (Raw ''old'') (Raw ''x''), Plain (Raw ''key'') (Raw ''value''),
        Plain (Raw ''n'') (Int16 (-300))] [])]\<rparr>)
      ''/data'' ''dump.rdb'' (empty_server (\<lambda>_. client_conn [] []) 1000000000))
    = [''key'' \<mapsto> ''value'', ''n'' \<mapsto> itoa 65236]
   \<and> LoadRDB (\<lambda>_ _. Some \<lparr>rbuf = [], rsrc = [Chunk (the (DecodeString emptyRdbHex))]\<rparr>) ''/data'' ''dump.rdb''
       (empty_server (\<lambda>_. client_conn [] []) 1000000000) = empty_server (\<lambda>_. client_conn [] []) 1000000000"
proof (rule conjI)
  let ?xs = "[Meta (Raw ''redis-bits'') (Int8 64), Select 0, Sizes 3 1, ExpiresMs 5 (Raw ''old'') (Raw ''x''),
    Plain (Raw ''key'') (Raw ''value''), Plain (Raw ''n'') (Int16 (-300))]"
  let ?r = "\<lparr>rbuf = [], rsrc = [Chunk (rdb_file ''REDIS0011'' ?xs [])]\<rparr>"
  let ?s = "empty_server (\<lambda>_. client_conn [] []) 1000000000"
  have "LoadRDB (\<lambda>_ _. Some ?r) ''/data'' ''dump.rdb'' ?s = fold (load_item loaded) ?xs ?s"
    by (rule load_rdb_file[of "\<lambda>_ _. Some ?r" "''/data''" "''dump.rdb''" ?r "''REDIS0011''" ?xs "[]", THEN conjunct1])
      (simp_all add: no_errors_def stream_def)
  moreover have "mem ?s = Map.empty" "clock ?s = 1000000000" by (simp_all add: empty_server_def mem_def)
  ultimately show "mem (LoadRDB (\<lambda>_ _. Some ?r) ''/data'' ''dump.rdb'' ?s) = [''key'' \<mapsto> ''value'', ''n'' \<mapsto> itoa 65236]"
    by simp
next
  let ?r = "\<lparr>rbuf = [], rsrc = [Chunk (the (DecodeString emptyRdbHex))]\<rparr>"
  let ?s = "empty_server (\<lambda>_. client_conn [] []) 1000000000"
  show "LoadRDB (\<lambda>_ _. Some ?r) ''/data'' ''dump.rdb'' ?s = ?s"
    by (subst load_rdb_file[where r = ?r and header = "''REDIS0011''" and xs = empty_file_items, THEN conjunct1])
      (simp_all add: empty_file_bytes no_errors_def stream_def, simp_all add: empty_file_items_def)
qed

section \<open>What the reader gets wrong\<close>

lemma negative_integer_read_unsigned:
  assumes "no_errors r" "stream r = str_bytes (Int16 i) @ t" "- (2 ^ 15) \<le> i" "i < 0"
  obtains r' where "readString r = (itoa (i + 2 ^ 16), None, r')" "stream r' = t"
proof -
  have "(i + 65536) mod 65536 = i + 65536" using assms(3,4) by (intro mod_pos_pos_trivial) simp_all
  then have "i mod 65536 = i + 65536" by simp
  with readString_stream[OF assms(1,2)] assms(3,4) that show thesis by auto
qed

text \<open>A compressed string: its first three bytes are taken for the string.\<close>

lemma compressed_string_misread:
  assumes "no_errors r" "stream r = CHR 0xC3 # [a, b, c] @ t"
  obtains r' where "readString r = ([a, b, c], None, r')" "stream r' = t"
proof -
  from readLength_special[OF assms special_byte(7)] obtain r1 where
    r1: "readLength r = (ucast (3 :: 8 word), True, None, r1)" "stream r1 = [a, b, c] @ t" "no_errors r1"
    unfolding special_byte .
  have "length [a, b, c] = 3" by simp
  with ReadFull_stream[OF r1(3,2)] obtain r2 where "ReadFull 3 r1 = ([a, b, c], None, r2)" "stream r2 = t"
    by metis
  with r1(1) show thesis by (intro that[of r2]) (simp_all add: readString_def)
qed

lemma read_full_src_short:
  "ReadErr \<notin> set es \<Longrightarrow> length (acc @ concat (map ev_bytes es)) < n \<Longrightarrow>
    fst (snd (read_full_src n acc es)) = Some EOF"
proof (induction n acc es rule: read_full_src.induct)
  case (2 n acc e es)
  then show ?case by (cases e) auto
qed simp

text \<open>
  An expiry in seconds: the code reads four bytes too many, which are the type of the value and the
  first three of the key. For a key of three characters it then takes the value for the key and the
  end mark for the length of the value, and gives up: the key is lost although its time has not come.
\<close>

lemma seconds_expiry_lost:
  assumes "open_file dir filename = Some r" "dir \<noteq> []" "filename \<noteq> []" "no_errors r" "length header = 9"
    "stream r = header @ CHR 0xFD # le_bytes 4 x @ CHR 0x00 # str_bytes (Raw [a, b, c]) @ str_bytes (Raw v)
       @ CHR 0xFF # checksum" "length v < 2 ^ 32" "length checksum = 8"
  shows "LoadRDB open_file dir filename s = s"
proof -
  let ?bs = "le_bytes 4 x @ [CHR 0x00, CHR 0x03, a, b]"
  have short: "rdb_length 3 = [CHR 0x03]" by code_simp
  have "stream r = header @ (CHR 0xFD # ?bs @ c # str_bytes (Raw v) @ (CHR 0xFF # checksum))"
    using assms(6) short by (simp add: numeral_2_eq_2[symmetric])
  from LoadRDB_header[where open_file = open_file, OF assms(1-4) this assms(5), of s] obtain r1 where
    r1: "LoadRDB open_file dir filename s = load_entries r1 s"
    "stream r1 = CHR 0xFD # ?bs @ c # str_bytes (Raw v) @ (CHR 0xFF # checksum)" "no_errors r1" .
  from ReadByte_stream[OF r1(3,2)] obtain r2 where r2: "ReadByte r1 = (Some (CHR 0xFD), None, r2)"
    "stream r2 = ?bs @ c # str_bytes (Raw v) @ (CHR 0xFF # checksum)" "no_errors r2" .
  from binary_read_stream[OF r2(3,2), of 8 le_uint] obtain r3 where r3: "binary_read le_uint 8 r2 = (le_uint ?bs, r3)"
    "stream r3 = c # str_bytes (Raw v) @ (CHR 0xFF # checksum)" "no_errors r3" by (auto simp del: str_bytes.simps)
  from ReadByte_stream[OF r3(3,2)] obtain r4 where r4: "ReadByte r3 = (Some c, None, r4)"
    "stream r4 = str_bytes (Raw v) @ (CHR 0xFF # checksum)" "no_errors r4" .
  have "stream r4 = rdb_length (length v) @ v @ (CHR 0xFF # checksum)" using r4(2) by simp
  from readString_raw[OF r4(3) this assms(7)] obtain r5 where r5: "readString r4 = (v, None, r5)"
    "stream r5 = CHR 0xFF # checksum" "no_errors r5" .
  from readLength_special[OF r5(3,2) special_byte(9)] obtain r6 where
    r6: "readLength r5 = (ucast (63 :: 8 word), True, None, r6)" "stream r6 = checksum" "no_errors r6"
    unfolding special_byte .
  obtain bs e r7 where full: "ReadFull 63 r6 = (bs, e, r7)" by (metis prod_cases3)
  have "length (rbuf r6 @ concat (map ev_bytes (rsrc r6))) < 63" using r6(2) assms(8) unfolding stream_def by simp
  with read_full_src_short[of "rsrc r6" "rbuf r6" 63] r6(3) full have "e = Some EOF"
    by (simp add: ReadFull_def no_errors_def)
  then have "\<exists>bs. readString r5 = (bs, Some EOF, r7)" using r6(1) full by (simp add: readString_def Let_def)
  then have "load_entries r1 s = s" using r2(1) r3(1) r4(1) r5(1) by (auto simp: load_entries.simps[of r1 s])
  with r1(1) show ?thesis by simp
qed

end
