(* ===== verification/Geo_Properties.thy ===== *)
theory Geo_Properties
  imports Geo_Handlers
begin

text \<open>
  The boxes \<open>GEOSEARCH\<close> scans. A score interleaves the latitude cell (even bits) with the longitude
  cell (odd bits); the boxes interleave them the other way round, so whether the search looks at the
  cell of its own centre depends on how close the two cell numbers are.
\<close>

unbundle bit_operations_syntax

section \<open>A box as a prefix of the score\<close>

lemma uint_drop: "uint (drop_bit k c) = uint c div 2 ^ k" for c :: "'a::len word"
proof -
  have "uint (drop_bit k c) = drop_bit k (take_bit LENGTH('a) (uint c))" by (rule unsigned_drop_bit_eq)
  also have "take_bit LENGTH('a) (uint c) = uint c" by (simp add: take_bit_int_eq_self)
  finally show ?thesis by (simp only: drop_bit_eq_div)
qed

lemma quot_bounds: "n div 2 ^ k * 2 ^ k \<le> n \<and> n < n div 2 ^ k * 2 ^ k + 2 ^ k" for n :: int
proof -
  have "n div 2 ^ k * 2 ^ k + n mod 2 ^ k = n" by (rule div_mult_mod_eq)
  moreover have "0 \<le> n mod 2 ^ k" "n mod 2 ^ k < 2 ^ k" by simp_all
  ultimately show ?thesis by linarith
qed

lemma box_prefix:
  fixes b c :: "64 word"
  assumes "uint b < 2 ^ (64 - k)" "k < 64"
  shows "push_bit k b \<le> c \<and> c \<le> push_bit k b OR (push_bit k 1 - 1) \<longleftrightarrow> drop_bit k c = b"
proof -
  let ?B = "uint b * 2 ^ k"
  have "?B < 2 ^ (64 - k) * 2 ^ k" using assms(1) by simp
  also have "\<dots> = (2 :: int) ^ 64" using assms(2) by (simp flip: power_add)
  finally have small: "?B < 2 ^ 64" .
  have "uint (push_bit k b) = take_bit 64 (push_bit k (uint b))" using unsigned_push_bit_eq[of k b] by simp
  also have "\<dots> = ?B" using small by (simp add: push_bit_eq_mult take_bit_int_eq_self)
  finally have m: "uint (push_bit k b) = ?B" .
  have mask: "push_bit k 1 - 1 = (mask k :: 64 word)" by (simp add: mask_eq_exp_minus_1)
  have "uint (push_bit k b OR mask k) = ?B OR mask k"
    using assms(2) m by (simp add: unsigned_or_eq uint_mask_eq min_def)
  also have "\<dots> = ?B + mask k"
  proof -
    have "push_bit k (uint b) AND mask k = 0" by (rule bit_eqI) (auto simp: bit_simps)
    with plus_and_or[of "push_bit k (uint b)" "mask k"] show ?thesis by (simp add: push_bit_eq_mult)
  qed
  finally have top: "uint (push_bit k b OR mask k) = ?B + 2 ^ k - 1" by (simp add: mask_eq_exp_minus_1)
  have "drop_bit k c = b \<longleftrightarrow> uint c div 2 ^ k = uint b" by (simp only: word_uint_eq_iff uint_drop)
  also have "\<dots> \<longleftrightarrow> ?B \<le> uint c \<and> uint c \<le> ?B + 2 ^ k - 1"
  proof
    assume "uint c div 2 ^ k = uint b"
    then show "?B \<le> uint c \<and> uint c \<le> ?B + 2 ^ k - 1"
      using quot_bounds[of "uint c" k] by simp
  next
    assume *: "?B \<le> uint c \<and> uint c \<le> ?B + 2 ^ k - 1"
    show "uint c div 2 ^ k = uint b"
      by (rule int_div_pos_eq[of _ _ _ "uint c - ?B"]) (use * in auto)
  qed
  finally show ?thesis by (simp only: word_le_def m top mask)
qed

section \<open>Cells\<close>

lemma drop_interleave: "drop_bit (2 * s) (interleave x y) = interleave (drop_bit s x) (drop_bit s y)"
proof (rule bit_word_eqI)
  fix n assume "n < LENGTH(64)"
  have "(2 * s + n) div 2 = s + n div 2" "even (2 * s + n) = even n" by simp_all
  moreover have "2 * s + n < 64" if "bit y (s + n div 2)" "odd n" using bit32_less[OF that(1)] that(2) by (auto elim!: oddE)
  ultimately show "bit (drop_bit (2 * s) (interleave x y)) n = bit (interleave (drop_bit s x) (drop_bit s y)) n"
    using \<open>n < LENGTH(64)\<close> by (auto simp: bit_drop_bit_eq interleave_bit)
qed

lemma uint_interleave:
  assumes "uint x < 2 ^ d" "uint y < 2 ^ d" "d \<le> 26"
  shows "uint (interleave x y) < 2 ^ (2 * d)"
proof -
  have "take_bit (2 * d) (interleave x y) = interleave x y"
  proof (rule bit_word_eqI)
    fix n assume n: "n < LENGTH(64)"
    have "take_bit d x = x" "take_bit d y = y"
      using assms by (simp_all add: word_uint_eq_iff unsigned_take_bit_eq take_bit_int_eq_self)
    then have "bit x k \<Longrightarrow> k < d" "bit y k \<Longrightarrow> k < d" for k by (metis bit_take_bit_iff)+
    then show "bit (take_bit (2 * d) (interleave x y)) n = bit (interleave x y) n"
      by (auto simp: bit_take_bit_iff interleave_bit split: if_splits) fastforce+
  qed
  then have "take_bit (2 * d) (uint (interleave x y)) = uint (interleave x y)"
    by (metis unsigned_take_bit_eq)
  then show ?thesis by (metis take_bit_int_less_exp)
qed

lemma uint_cell:
  fixes x :: "32 word"
  assumes "uint x < 2 ^ 26" "s \<le> 26"
  shows "uint (drop_bit s x) < 2 ^ (26 - s)"
proof -
  have "uint x < 2 ^ (26 - s) * 2 ^ s" using assms by (simp flip: power_add)
  moreover have "uint x div 2 ^ s * 2 ^ s \<le> uint x" using quot_bounds by blast
  ultimately have "uint x div 2 ^ s * 2 ^ s < 2 ^ (26 - s) * 2 ^ s" by linarith
  then have "uint x div 2 ^ s < 2 ^ (26 - s)" by (rule mult_right_less_imp_less) simp
  then show ?thesis by (simp only: uint_drop)
qed

section \<open>The scanned boxes\<close>

lemma search_depth_bounds: "1 \<le> depth \<Longrightarrow> 1 \<le> search_depth cosLat radius depth \<and> search_depth cosLat radius depth \<le> depth"
proof (induction depth rule: less_induct)
  case (less depth)
  then show ?case
    by (subst (1 2) search_depth.simps) (auto simp: Let_def dest: less.IH[of "depth - 1"] intro: le_trans[of _ "depth - 1"])
qed

definition in_box :: "64 word \<Rightarrow> ScoreRange \<Rightarrow> bool" where
  "in_box c r \<longleftrightarrow> Min r \<le> c \<and> c \<le> Max r"

lemma uint_of_cell: "0 \<le> i \<Longrightarrow> i < 2 ^ d \<Longrightarrow> d \<le> 26 \<Longrightarrow> uint (word_of_int i :: 32 word) = i"
proof -
  assume *: "0 \<le> i" "i < 2 ^ d" "d \<le> 26"
  have "(2 :: int) ^ d \<le> 2 ^ 26" using *(3) by (intro power_increasing) auto
  with * have "i < 2 ^ 32" by simp
  with *(1) show ?thesis by (simp add: uint_word_of_int)
qed

text \<open>The box of the grid cell \<open>(nx, ny)\<close> holds exactly the scores of that cell.\<close>

lemma in_one_box:
  assumes "depth \<le> 26" "1 \<le> depth" "0 \<le> nx" "nx < 2 ^ depth" "0 \<le> ny" "ny < 2 ^ depth"
    "uint x < 2 ^ 26" "uint y < 2 ^ 26"
  shows "in_box (interleave x y)
      \<lparr>Min = push_bit (2 * (26 - depth)) (interleave (word_of_int nx) (word_of_int ny)),
       Max = push_bit (2 * (26 - depth)) (interleave (word_of_int nx) (word_of_int ny)) OR (push_bit (2 * (26 - depth)) 1 - 1)\<rparr>
    \<longleftrightarrow> uint (drop_bit (26 - depth) x) = nx \<and> uint (drop_bit (26 - depth) y) = ny"
proof -
  let ?s = "26 - depth" and ?b = "interleave (word_of_int nx) (word_of_int ny)"
  note cells = uint_of_cell[OF assms(3,4,1)] uint_of_cell[OF assms(5,6,1)]
  have "uint ?b < 2 ^ (2 * depth)" using cells assms by (intro uint_interleave) simp_all
  also have "\<dots> \<le> (2 :: int) ^ (64 - 2 * ?s)" using assms(1) by (intro power_increasing) auto
  finally have "in_box (interleave x y) \<lparr>Min = push_bit (2 * ?s) ?b, Max = push_bit (2 * ?s) ?b OR (push_bit (2 * ?s) 1 - 1)\<rparr>
      \<longleftrightarrow> drop_bit (2 * ?s) (interleave x y) = ?b"
    unfolding in_box_def ScoreRange.simps using assms(2) by (intro box_prefix) auto
  also have "\<dots> \<longleftrightarrow> drop_bit ?s x = word_of_int nx \<and> drop_bit ?s y = word_of_int ny"
    unfolding drop_interleave by (rule geo.pack_inject)
  finally show ?thesis using cells by (simp add: word_uint_eq_iff)
qed

lemma box_ranges_cell:
  assumes "depth \<le> 26" "1 \<le> depth" "uint x < 2 ^ 26" "uint y < 2 ^ 26"
  shows "(\<exists>r \<in> set (box_ranges depth gridX gridY). in_box (interleave x y) r) \<longleftrightarrow>
    \<bar>uint (drop_bit (26 - depth) x) - uint gridX\<bar> \<le> 1 \<and> \<bar>uint (drop_bit (26 - depth) y) - uint gridY\<bar> \<le> 1"
proof -
  let ?X = "uint (drop_bit (26 - depth) x)" and ?Y = "uint (drop_bit (26 - depth) y)"
  have XY: "?X < 2 ^ depth" "?Y < 2 ^ depth" "0 \<le> ?X" "0 \<le> ?Y"
    using uint_cell[of x "26 - depth"] uint_cell[of y "26 - depth"] assms by simp_all
  define f where "f = (\<lambda>dx dy. let nx = uint gridX + dx; ny = uint gridY + dy
      in if nx < 0 \<or> 2 ^ depth - 1 < nx \<or> ny < 0 \<or> 2 ^ depth - 1 < ny then []
         else let boxScore = interleave (word_of_int nx) (word_of_int ny);
                  minScore = push_bit (2 * (26 - depth)) boxScore;
                  maxScore = minScore OR (push_bit (2 * (26 - depth)) 1 - 1)
              in [\<lparr>Min = minScore, Max = maxScore\<rparr>])"
  have "box_ranges depth gridX gridY = concat (map (\<lambda>dx. concat (map (f dx) [-1, 0, 1])) [-1, 0, 1])"
    by (simp only: box_ranges_def f_def Let_def)
  then have "set (box_ranges depth gridX gridY) = (\<Union>dx \<in> {-1, 0, 1}. \<Union>dy \<in> {-1, 0, 1}. set (f dx dy))"
    by (simp only: set_concat set_map list.set UN_simps image_image)
  moreover have "(\<exists>r \<in> set (f dx dy). in_box (interleave x y) r) \<longleftrightarrow> ?X = uint gridX + dx \<and> ?Y = uint gridY + dy" for dx dy
  proof (cases "uint gridX + dx < 0 \<or> 2 ^ depth - 1 < uint gridX + dx \<or> uint gridY + dy < 0 \<or> 2 ^ depth - 1 < uint gridY + dy")
    case True
    then have "f dx dy = []" by (simp only: f_def Let_def if_True)
    moreover have "\<not> (?X = uint gridX + dx \<and> ?Y = uint gridY + dy)" using True XY by linarith
    ultimately show ?thesis by simp
  next
    case False
    then have n: "0 \<le> uint gridX + dx" "uint gridX + dx < 2 ^ depth" "0 \<le> uint gridY + dy" "uint gridY + dy < 2 ^ depth"
      by linarith+
    from False have "f dx dy = [\<lparr>Min = push_bit (2 * (26 - depth)) (interleave (word_of_int (uint gridX + dx)) (word_of_int (uint gridY + dy))),
       Max = push_bit (2 * (26 - depth)) (interleave (word_of_int (uint gridX + dx)) (word_of_int (uint gridY + dy)))
         OR (push_bit (2 * (26 - depth)) 1 - 1)\<rparr>]"
      by (simp only: f_def Let_def if_False)
    then show ?thesis
      using in_one_box[OF assms(1,2) n assms(3,4)] by (simp only: list.set bex_simps) blast
  qed
  ultimately have "(\<exists>r \<in> set (box_ranges depth gridX gridY). in_box (interleave x y) r) \<longleftrightarrow>
      (\<exists>dx \<in> {-1, 0, 1}. \<exists>dy \<in> {-1, 0, 1}. ?X = uint gridX + dx \<and> ?Y = uint gridY + dy)"
    by (simp only: bex_UN)
  also have "\<dots> \<longleftrightarrow> \<bar>?X - uint gridX\<bar> \<le> 1 \<and> \<bar>?Y - uint gridY\<bar> \<le> 1" by auto
  finally show ?thesis .
qed

text \<open>The depth the search uses for its radius, and the cell of a coordinate at that depth.\<close>

definition search_level :: "gomath \<Rightarrow> float64 \<Rightarrow> float64 \<Rightarrow> nat" where
  "search_level M lat radius =
     (let c = mCos M (fdiv (fmul lat (rnd Pi)) (Fin 180))
      in search_depth (if flt c (rnd (1 / 100)) then rnd (1 / 100) else c) radius 26)"

definition cell_at :: "nat \<Rightarrow> 32 word \<Rightarrow> int" where
  "cell_at depth n = uint n div 2 ^ (26 - depth)"

text \<open>
  C40: \<open>GEOSEARCH\<close> scans the box that holds the score of its own centre exactly when the centre's
  latitude cell and longitude cell, at the depth of the radius, differ by at most one: the boxes
  have the two axes swapped with respect to the scores, so elsewhere a member at the very centre of
  the search is not even looked at. Left out are centres whose cell is \<open>2^26\<close> itself, at the upper
  end of the range of latitudes or longitudes.
\<close>

theorem search_swaps_axes:
  assumes "uint (to_uint32 (normalizedLatitude lat)) < 2 ^ 26" "uint (to_uint32 (normalizedLongitude lon)) < 2 ^ 26"
  shows "(\<exists>r \<in> set (Get9BoxRanges M lat lon radius). Min r \<le> Encode lat lon \<and> Encode lat lon \<le> Max r) \<longleftrightarrow>
    \<bar>cell_at (search_level M lat radius) (to_uint32 (normalizedLatitude lat))
      - cell_at (search_level M lat radius) (to_uint32 (normalizedLongitude lon))\<bar> \<le> 1"
proof -
  let ?d = "search_level M lat radius"
  let ?x = "to_uint32 (normalizedLatitude lat)" and ?y = "to_uint32 (normalizedLongitude lon)"
  have d: "?d \<le> 26" "1 \<le> ?d" using search_depth_bounds[of 26] by (simp_all add: search_level_def Let_def)
  have "Get9BoxRanges M lat lon radius = box_ranges ?d (drop_bit (26 - ?d) ?y) (drop_bit (26 - ?d) ?x)"
    by (simp only: Get9BoxRanges_def search_level_def Let_def)
  moreover have "Encode lat lon = interleave ?x ?y" by (simp only: Encode_def Let_def)
  moreover note box_ranges_cell[OF d assms, of "drop_bit (26 - ?d) ?y" "drop_bit (26 - ?d) ?x"]
  ultimately show ?thesis by (simp only: in_box_def uint_drop cell_at_def) (auto simp: abs_minus_commute)
qed

section \<open>An example\<close>

lemma floor_quot: "\<lfloor>(numeral a :: rat) / numeral b\<rfloor> = numeral a div numeral b" 
  using floor_divide_of_int_eq[of "numeral a" "numeral b", where 'a = rat] by simp

lemma example_log2:
  "rat_log2 (4252556439 / 50000000) = 6" "rat_log2 (4252556439 / 25000000) = 7"
  "rat_log2 (23378676262271 / 274877906944) = 6" "rat_log2 (23378676262271 / 4096) = 32"
  "rat_log2 33554432 = 25" "rat_log2 180 = 7" "rat_log2 270 = 8" "rat_log2 360 = 8" "rat_log2 18119393280 = 34" "rat_log2 50331648 = 25"
proof -
  have q: "quotient_of (4252556439 / 50000000) = (4252556439, 50000000)" "quotient_of (4252556439 / 25000000) = (4252556439, 25000000)"
    "quotient_of (23378676262271 / 274877906944) = (23378676262271, 274877906944)"
  "quotient_of (23378676262271 / 4096) = (23378676262271, 4096)"
    by code_simp+
  show  "rat_log2 (4252556439 / 50000000) = 6" "rat_log2 (4252556439 / 25000000) = 7"
  "rat_log2 (23378676262271 / 274877906944) = 6" "rat_log2 (23378676262271 / 4096) = 32"
  "rat_log2 33554432 = 25" "rat_log2 180 = 7" "rat_log2 270 = 8" "rat_log2 360 = 8" "rat_log2 18119393280 = 34" "rat_log2 50331648 = 25"
    by (simp_all add: rat_log2_def bits.simps q power_int_def quotient_of_number)
qed

lemmas rnd_eval = rnd_def rnd_signed_def rnd_mag_def ulp_def rne_def power_int_def power_divide Let_def floor_quot example_log2

lemma example_lat: "rnd MIN_LATITUDE = Fin (- (23378676262271 / 274877906944))" "rnd LATITUDE_RANGE = Fin (23378676262271 / 137438953472)"
  by (simp_all add: LATITUDE_RANGE_def MAX_LATITUDE_def MIN_LATITUDE_def rnd_eval)

lemma example_lon: "rnd MIN_LONGITUDE = Fin (-180)" "rnd LONGITUDE_RANGE = Fin 360"
  by (simp_all add: LONGITUDE_RANGE_def MAX_LONGITUDE_def MIN_LONGITUDE_def rnd_eval)

lemmas op_eval = fsub_def fadd_def fmul_def fdiv_def pow26_def is_inf_def is_zero_def rnd_eval

lemma example_lat_cell: "to_uint32 (normalizedLatitude (Fin 0)) = 33554432"
proof -
  have "fsub (Fin 0) (rnd MIN_LATITUDE) = Fin (23378676262271 / 274877906944)"
    unfolding example_lat by (simp add: op_eval)
  moreover have "fmul pow26 (Fin (23378676262271 / 274877906944)) = Fin (23378676262271 / 4096)"
    by (simp add: op_eval)
  moreover have "fdiv (Fin (23378676262271 / 4096)) (rnd LATITUDE_RANGE) = Fin 33554432"
    unfolding example_lat by (simp add: op_eval)
  moreover have "to_uint32 (Fin 33554432) = 33554432" by (simp add: to_uint32_def to_int64_def truncate_rat_def in_i64_def)
  ultimately show ?thesis by (simp only: normalizedLatitude_def)
qed

lemma example_lon_cell: "to_uint32 (normalizedLongitude (Fin 90)) = 50331648"
proof -
  have "fsub (Fin 90) (rnd MIN_LONGITUDE) = Fin 270"
    unfolding example_lon by (simp add: op_eval)
  moreover have "fmul pow26 (Fin 270) = Fin 18119393280"
    by (simp add: op_eval)
  moreover have "fdiv (Fin 18119393280) (rnd LONGITUDE_RANGE) = Fin 50331648"
    unfolding example_lon by (simp add: op_eval)
  moreover have "to_uint32 (Fin 50331648) = 50331648" by (simp add: to_uint32_def to_int64_def truncate_rat_def in_i64_def)
  ultimately show ?thesis by (simp only: normalizedLongitude_def)
qed
lemma search_swaps_axes_example:
  "(\<exists>r \<in> set (Get9BoxRanges \<lparr>mSin = \<lambda>x. x, mCos = \<lambda>x. Fin 1, mAsin = \<lambda>x. x, mSqrt = \<lambda>x. x\<rparr> (Fin 0) (Fin 90) (Fin 5000000)).
      Min r \<le> Encode (Fin 0) (Fin 90) \<and> Encode (Fin 0) (Fin 90) \<le> Max r) \<longleftrightarrow>
    \<bar>cell_at (search_level \<lparr>mSin = \<lambda>x. x, mCos = \<lambda>x. Fin 1, mAsin = \<lambda>x. x, mSqrt = \<lambda>x. x\<rparr> (Fin 0) (Fin 5000000)) 33554432
      - cell_at (search_level \<lparr>mSin = \<lambda>x. x, mCos = \<lambda>x. Fin 1, mAsin = \<lambda>x. x, mSqrt = \<lambda>x. x\<rparr> (Fin 0) (Fin 5000000)) 50331648\<bar> \<le> 1"
proof -
  have "uint (to_uint32 (normalizedLatitude (Fin 0))) < 2 ^ 26" "uint (to_uint32 (normalizedLongitude (Fin 90))) < 2 ^ 26"
    unfolding example_lat_cell example_lon_cell by simp_all
  from search_swaps_axes[OF this, of "\<lparr>mSin = \<lambda>x. x, mCos = \<lambda>x. Fin 1, mAsin = \<lambda>x. x, mSqrt = \<lambda>x. x\<rparr>" "Fin 5000000"]
  show ?thesis unfolding example_lat_cell example_lon_cell .
qed

end
