(* ===== verification/Resp_Codec.thy ===== *)
theory Resp_Codec
  imports Resp_Format
begin

text \<open>
  The tester's RESP library (\<open>redis-tester/internal/resp\<close>): the values of \<open>value.go\<close>, the encoder of
  \<open>encode.go\<close> and the decoders of \<open>decoder/\<close>, with their two classes of errors. A \<open>bytes.Reader\<close> is
  the part of the data that is still unread; an error carries it, so that the offset it points to
  is the number of bytes before. Of an error's message the parameters are kept and the wording
  left out.
\<close>

section \<open>Values\<close>

definition SIMPLE_STRING :: string where "SIMPLE_STRING = ''simple string''"
definition INTEGER :: string where "INTEGER = ''integer''"
definition BULK_STRING :: string where "BULK_STRING = ''bulk string''"
definition ARRAY :: string where "ARRAY = ''array''"
definition ERROR :: string where "ERROR = ''error''"
definition NIL :: string where "NIL = ''null bulk string''"
definition NIL_ARRAY :: string where "NIL_ARRAY = ''null array''"

lemmas type_defs = SIMPLE_STRING_def INTEGER_def BULK_STRING_def ARRAY_def ERROR_def NIL_def NIL_ARRAY_def

datatype Value = Value (Type: string) (vbytes: string) (vinteger: int) (varray: "Value list")

definition NewSimpleStringValue :: "string \<Rightarrow> Value" where
  "NewSimpleStringValue s = Value SIMPLE_STRING s 0 []"

definition NewBulkStringValue :: "string \<Rightarrow> Value" where
  "NewBulkStringValue s = Value BULK_STRING s 0 []"

definition NewIntegerValue :: "int \<Rightarrow> Value" where
  "NewIntegerValue i = Value INTEGER [] i []"

definition NewErrorValue :: "string \<Rightarrow> Value" where
  "NewErrorValue err = Value ERROR err 0 []"

definition NewArrayValue :: "Value list \<Rightarrow> Value" where
  "NewArrayValue arr = Value ARRAY [] 0 arr"

definition NewStringArrayValue :: "string list \<Rightarrow> Value" where
  "NewStringArrayValue strings = NewArrayValue (map NewBulkStringValue strings)"

definition NewNilValue :: Value where
  "NewNilValue = Value NIL [] 0 []"

definition NewNilArrayValue :: Value where
  "NewNilArrayValue = Value NIL_ARRAY [] 0 []"

lemmas value_constructors = NewSimpleStringValue_def NewBulkStringValue_def NewIntegerValue_def
  NewErrorValue_def NewArrayValue_def NewNilValue_def NewNilArrayValue_def

text \<open>The accessors \<open>Array\<close> and \<open>Error\<close> look at the type; \<open>String\<close>, \<open>Bytes\<close> and \<open>Integer\<close> do not.\<close>

definition Array :: "Value \<Rightarrow> Value list" where
  "Array v = (if Type v = ARRAY then varray v else [])"

definition ErrorText :: "Value \<Rightarrow> string" where
  "ErrorText v = (if Type v = ERROR then vbytes v else [])"

definition IsValueOfDataTypeStoredAsByteSlice :: "string \<Rightarrow> bool" where
  "IsValueOfDataTypeStoredAsByteSlice dataType = (dataType \<in> set [SIMPLE_STRING, BULK_STRING, ERROR])"

section \<open>Encoder\<close>

text \<open>\<open>encodeInteger\<close> parses the value's bytes, not its integer, and panics when they are no number.\<close>

definition encodeInteger :: "string \<Rightarrow> string option" where
  "encodeInteger s =
     (case Atoi s of
        (int_value, None) \<Rightarrow> Some ('':'' @ itoa int_value @ crlf)
      | (_, Some _) \<Rightarrow> None)"

definition encodeSimpleString :: "string \<Rightarrow> string" where
  "encodeSimpleString s = ''+'' @ s @ crlf"

definition encodeBulkString :: "string \<Rightarrow> string" where
  "encodeBulkString s = ''$'' @ itoa (int (length s)) @ crlf @ s @ crlf"

definition encodeError :: "string \<Rightarrow> string" where
  "encodeError s = ''-'' @ s @ crlf"

text \<open>\<open>None\<close> is a panic: an unsupported type, or an integer as above.\<close>

fun Encode :: "Value \<Rightarrow> string option" where
  "Encode (Value t b i a) =
     (if t = INTEGER then encodeInteger b
      else if t = SIMPLE_STRING then Some (encodeSimpleString b)
      else if t = BULK_STRING then Some (encodeBulkString b)
      else if t = ERROR then Some (encodeError b)
      else if t = ARRAY
      then map_option (\<lambda>parts. ''*'' @ itoa (int (length a)) @ crlf @ concat parts) (those (map Encode a))
      else if t = NIL then Some (''$-1'' @ crlf)
      else if t = NIL_ARRAY then Some (''*-1'' @ crlf)
      else None)"

definition EncodeFullResyncRDBFile :: "string \<Rightarrow> string" where
  "EncodeFullResyncRDBFile fileContents =
     ''$'' @ itoa (int (length fileContents)) @ crlf @ fileContents"

section \<open>Errors and readers\<close>

datatype message =
    NoStart
  | NotAStart char
  | NoCRLF string
  | NotANumber string string
  | BadLength string int
  | ShortData string int nat
  | NoCRLFAfterData int
  | NotAnArray string
  | NotABulkString string

datatype decode_error =
    IncompleteInputError string message
  | InvalidInputError string message
  | DecodePanic

text \<open>\<open>readUntil\<close>: the bytes before the delimiter; or all bytes, and the end of the input.\<close>

fun readUntil :: "string \<Rightarrow> string \<Rightarrow> string \<Rightarrow> string \<times> bool \<times> string" where
  "readUntil delim result [] = (result, True, [])"
| "readUntil delim result (b # r) =
     (let result = result @ [b]
      in if length delim \<le> length result \<and> drop (length result - length delim) result = delim
         then (take (length result - length delim) result, False, r)
         else readUntil delim result r)"

definition readUntilCRLF :: "string \<Rightarrow> string \<times> bool \<times> string" where
  "readUntilCRLF r = readUntil crlf [] r"

text \<open>A byte that is wrong leaves the reader before the line end (\<open>Seek\<close>), a missing one at the end.\<close>

definition readCRLF :: "string \<Rightarrow> message \<Rightarrow> decode_error + string" where
  "readCRLF r errorMessage =
     (case r of
        [] \<Rightarrow> Inl (IncompleteInputError [] errorMessage)
      | b # r1 \<Rightarrow>
          if b \<noteq> CR then Inl (InvalidInputError r errorMessage)
          else (case r1 of
                  [] \<Rightarrow> Inl (IncompleteInputError [] errorMessage)
                | b2 # r2 \<Rightarrow> if b2 \<noteq> LF then Inl (InvalidInputError r errorMessage) else Inr r2))"

text \<open>The loop that reads \<open>n\<close> bytes of data, or how many there were.\<close>

definition read_data :: "nat \<Rightarrow> string \<Rightarrow> nat + string \<times> string" where
  "read_data n r = (if n \<le> length r then Inr (take n r, drop n r) else Inl (length r))"

section \<open>Decoders\<close>

definition decodeSimpleString :: "string \<Rightarrow> decode_error + Value \<times> string" where
  "decodeSimpleString r =
     (let (bs, eof, r1) = readUntilCRLF r
      in if eof then Inl (IncompleteInputError r1 (NoCRLF ''a simple string''))
         else Inr (NewSimpleStringValue bs, r1))"

definition decodeError :: "string \<Rightarrow> decode_error + Value \<times> string" where
  "decodeError r =
     (let (bs, eof, r1) = readUntilCRLF r
      in if eof then Inl (IncompleteInputError r1 (NoCRLF ''a simple error''))
         else Inr (NewErrorValue bs, r1))"

definition decodeInteger :: "string \<Rightarrow> decode_error + Value \<times> string" where
  "decodeInteger r =
     (let (bs, eof, r1) = readUntilCRLF r
      in if eof then Inl (IncompleteInputError r1 (NoCRLF ''an integer''))
         else (case Atoi bs of
                 (integer, Some _) \<Rightarrow> Inl (InvalidInputError r (NotANumber ''integer'' bs))
               | (integer, None) \<Rightarrow> Inr (NewIntegerValue integer, r1)))"

definition decodeBulkStringOrNil :: "string \<Rightarrow> decode_error + Value \<times> string" where
  "decodeBulkStringOrNil r =
     (let (lengthBytes, eof, r1) = readUntilCRLF r
      in if eof then Inl (IncompleteInputError r1 (NoCRLF ''bulk string length''))
         else (case Atoi lengthBytes of
                 (len, Some _) \<Rightarrow> Inl (InvalidInputError r (NotANumber ''bulk string length'' lengthBytes))
               | (len, None) \<Rightarrow>
                   if len = -1 then Inr (NewNilValue, r1)
                   else if len < 0 then Inl (InvalidInputError r (BadLength ''bulk string length'' len))
                   else (case read_data (nat len) r1 of
                           Inl i \<Rightarrow> Inl (IncompleteInputError [] (ShortData ''bulk string'' len i))
                         | Inr (bs, r2) \<Rightarrow>
                             (case readCRLF r2 (NoCRLFAfterData len) of
                                Inl e \<Rightarrow> Inl e
                              | Inr r3 \<Rightarrow> Inr (NewBulkStringValue bs, r3)))))"

text \<open>
  \<open>doDecodeValue\<close> and \<open>decodeArray\<close> call each other. The fuel bounds the depth of nested arrays,
  which never exceeds the length of the input (lemma \<open>decode_fuel\<close> of \<open>Codec_Properties\<close>), so \<open>Decode\<close> gives enough of it.
  \<open>make([]Value, length)\<close> panics when the slice of 72-byte values exceeds the address space of
  \<open>2 ^ 48\<close> bytes.
\<close>

fun doDecodeValue :: "nat \<Rightarrow> string \<Rightarrow> decode_error + Value \<times> string"
  and decode_elements :: "nat \<Rightarrow> nat \<Rightarrow> string \<Rightarrow> decode_error + Value list \<times> string"
where
  "doDecodeValue 0 r = Inl DecodePanic"
| "doDecodeValue (Suc fuel) r =
     (case r of
        [] \<Rightarrow> Inl (IncompleteInputError [] NoStart)
      | firstByte # r1 \<Rightarrow>
          if firstByte = CHR ''+'' then decodeSimpleString r1
          else if firstByte = CHR ''-'' then decodeError r1
          else if firstByte = CHR '':'' then decodeInteger r1
          else if firstByte = CHR ''$'' then decodeBulkStringOrNil r1
          else if firstByte = CHR ''*''
          then (let (lengthBytes, eof, r2) = readUntilCRLF r1
                in if eof then Inl (IncompleteInputError r2 (NoCRLF ''array length''))
                   else (case Atoi lengthBytes of
                           (len, Some _) \<Rightarrow> Inl (InvalidInputError r1 (NotANumber ''array length'' lengthBytes))
                         | (len, None) \<Rightarrow>
                             if len = -1 then Inr (NewNilArrayValue, r2)
                             else if len < -1 then Inl (InvalidInputError r1 (BadLength ''array length'' len))
                             else if 2 ^ 48 < 72 * len then Inl DecodePanic
                             else (case decode_elements fuel (nat len) r2 of
                                     Inl e \<Rightarrow> Inl e
                                   | Inr (values, r3) \<Rightarrow> Inr (NewArrayValue values, r3))))
          else Inl (InvalidInputError r (NotAStart firstByte)))"
| "decode_elements fuel 0 r = Inr ([], r)"
| "decode_elements fuel (Suc n) r =
     (case doDecodeValue fuel r of
        Inl e \<Rightarrow> Inl e
      | Inr (v, r1) \<Rightarrow>
          (case decode_elements fuel n r1 of
             Inl e \<Rightarrow> Inl e
           | Inr (vs, r2) \<Rightarrow> Inr (v # vs, r2)))"

definition decode_value :: "string \<Rightarrow> decode_error + Value \<times> string" where
  "decode_value r = doDecodeValue (Suc (length r)) r"

definition Decode :: "string \<Rightarrow> decode_error + Value \<times> nat" where
  "Decode data =
     (case decode_value data of
        Inl e \<Rightarrow> Inl e
      | Inr (v, r) \<Rightarrow> Inr (v, length data - length r))"

section \<open>Append-only files and the RDB file of a resynchronisation\<close>

definition aofArrayToStringsArray :: "string \<Rightarrow> Value \<Rightarrow> decode_error + string list" where
  "aofArrayToStringsArray r v =
     (case find (\<lambda>elem. Type elem \<noteq> BULK_STRING) (Array v) of
        Some elem \<Rightarrow> Inl (InvalidInputError r (NotABulkString (Type elem)))
      | None \<Rightarrow> Inr (map vbytes (Array v)))"

text \<open>The commands read, and the error the reading ended with. Every value read is at least one byte.\<close>

fun decode_commands :: "nat \<Rightarrow> string list list \<Rightarrow> string \<Rightarrow> string list list \<times> decode_error option" where
  "decode_commands 0 commands r = (commands, None)"
| "decode_commands (Suc n) commands r =
     (if r = [] then (commands, None)
      else case decode_value r of
             Inl e \<Rightarrow> (commands, Some e)
           | Inr (v, r1) \<Rightarrow>
               if Type v \<noteq> ARRAY then (commands, Some (InvalidInputError r1 (NotAnArray (Type v))))
               else (case aofArrayToStringsArray r1 v of
                       Inl e \<Rightarrow> (commands, Some e)
                     | Inr args \<Rightarrow> decode_commands n (commands @ [args]) r1))"

definition DecodeCommandsFromAppendOnlyFile :: "string \<Rightarrow> string list list \<times> decode_error option" where
  "DecodeCommandsFromAppendOnlyFile data = decode_commands (length data) [] data"

definition doDecodeFullResyncRDBFile :: "string \<Rightarrow> decode_error + string \<times> string" where
  "doDecodeFullResyncRDBFile r =
     (case r of
        [] \<Rightarrow> Inl (IncompleteInputError [] NoStart)
      | firstByte # r1 \<Rightarrow>
          if firstByte \<noteq> CHR ''$'' then Inl (InvalidInputError r (NotAStart firstByte))
          else (let (lengthBytes, eof, r2) = readUntilCRLF r1
                in if eof then Inl (IncompleteInputError r2 (NoCRLF ''RDB file length''))
                   else (case Atoi lengthBytes of
                           (len, Some _) \<Rightarrow> Inl (InvalidInputError r1 (NotANumber ''RDB file length'' lengthBytes))
                         | (len, None) \<Rightarrow>
                             if len < 1 then Inl (InvalidInputError r1 (BadLength ''RDB file length'' len))
                             else (case read_data (nat len) r2 of
                                     Inl i \<Rightarrow> Inl (IncompleteInputError [] (ShortData ''RDB file message'' len i))
                                   | Inr (bs, r3) \<Rightarrow> Inr (bs, r3)))))"

definition DecodeFullResyncRDBFile :: "string \<Rightarrow> decode_error + string \<times> nat" where
  "DecodeFullResyncRDBFile data =
     (case doDecodeFullResyncRDBFile data of
        Inl e \<Rightarrow> Inl e
      | Inr (contents, r) \<Rightarrow> Inr (contents, length data - length r))"

end
