(* ===== verification/Resp_Connection.thy ===== *)
theory Resp_Connection
  imports Resp_Codec Server_State
begin

text \<open>
  The tester's client connection (\<open>redis-tester/internal/resp/connection\<close>): commands and values
  sent with byte counts, values read through a buffer that is polled until it holds a complete or
  an invalid value. The network gives the connection a list of what the reads that happen before
  the deadline return; the logging callbacks have no effect on the connection and are left out.
\<close>

record RespConnection =
  net_in :: "string list"
  net_out :: sink
  LastValueBytesCount :: int
  ReadValueInterceptor :: "(Value \<Rightarrow> Value) option"
  ReceivedBytesCount :: int
  SentBytesCount :: int
  TotalSentBytesCount :: int
  UnreadBuffer :: string

definition NewRespConnectionFromConn :: "string list \<Rightarrow> sink \<Rightarrow> RespConnection" where
  "NewRespConnectionFromConn ins k =
     \<lparr>net_in = ins, net_out = k, LastValueBytesCount = 0, ReadValueInterceptor = None,
      ReceivedBytesCount = 0, SentBytesCount = 0, TotalSentBytesCount = 0, UnreadBuffer = []\<rparr>"

section \<open>Dialling\<close>

text \<open>
  \<open>newConn\<close>: the attempts' results in order; it gives up after a timeout or the 52nd failure.
\<close>

datatype dial = Dialled | DialTimeout | DialError

fun newConn :: "nat \<Rightarrow> dial list \<Rightarrow> bool" where
  "newConn attempts [] = False"
| "newConn attempts (d # ds) =
     (if d = Dialled then True
      else if d = DialTimeout then False
      else if 50 < attempts then False
      else newConn (attempts + 1) ds)"

section \<open>Sending\<close>

text \<open>Whether the bytes were sent; a failed write leaves the counts alone.\<close>

definition SendBytes :: "string \<Rightarrow> RespConnection \<Rightarrow> bool \<times> RespConnection" where
  "SendBytes bs c =
     (let (k, ok) = sink_write (net_out c) bs
      in if \<not> ok then (False, c\<lparr>net_out := k\<rparr>)
         else (True, c\<lparr>net_out := k, SentBytesCount := SentBytesCount c + int (length bs),
                       TotalSentBytesCount := TotalSentBytesCount c + int (length bs)\<rparr>))"

text \<open>\<open>None\<close>: the encoder panics.\<close>

definition SendValue :: "Value \<Rightarrow> RespConnection \<Rightarrow> (bool \<times> RespConnection) option" where
  "SendValue response c = map_option (\<lambda>encodedValue. SendBytes encodedValue c) (Encode response)"

definition SendCommand :: "string \<Rightarrow> string list \<Rightarrow> RespConnection \<Rightarrow> (bool \<times> RespConnection) option" where
  "SendCommand command args c =
     map_option (\<lambda>encodedValue. SendBytes encodedValue c) (Encode (NewStringArrayValue ([command] @ args)))"

section \<open>Reading\<close>

definition isRespStreamCompleteOrInvalid :: "string \<Rightarrow> bool" where
  "isRespStreamCompleteOrInvalid buf =
     (case Decode buf of
        Inr _ \<Rightarrow> True
      | Inl (InvalidInputError _ _) \<Rightarrow> True
      | Inl _ \<Rightarrow> False)"

definition rdbFileCompleteOrInvalid :: "string \<Rightarrow> bool" where
  "rdbFileCompleteOrInvalid buf =
     (case DecodeFullResyncRDBFile buf of
        Inr _ \<Rightarrow> True
      | Inl (InvalidInputError _ _) \<Rightarrow> True
      | Inl _ \<Rightarrow> False)"

definition ReadIntoBuffer :: "RespConnection \<Rightarrow> RespConnection" where
  "ReadIntoBuffer c =
     (case net_in c of
        [] \<Rightarrow> c
      | d # ds \<Rightarrow> c\<lparr>net_in := ds, UnreadBuffer := UnreadBuffer c @ d\<rparr>)"

text \<open>The loop ends with the deadline: \<open>n\<close> is the number of reads that happen before it.\<close>

primrec readIntoBufferUntil :: "(string \<Rightarrow> bool) \<Rightarrow> nat \<Rightarrow> RespConnection \<Rightarrow> RespConnection" where
  "readIntoBufferUntil condition 0 c = c"
| "readIntoBufferUntil condition (Suc n) c =
     (let c1 = ReadIntoBuffer c
      in if condition (UnreadBuffer c1) then c1 else readIntoBufferUntil condition n c1)"

text \<open>
  An interceptor replaces the value, which is then encoded for the log: that panics when the
  encoder does.
\<close>

definition ReadValueWithTimeout :: "nat \<Rightarrow> RespConnection \<Rightarrow> (decode_error + Value) \<times> RespConnection" where
  "ReadValueWithTimeout n c =
     (let c1 = readIntoBufferUntil isRespStreamCompleteOrInvalid n c
      in case Decode (UnreadBuffer c1) of
           Inl e \<Rightarrow> (Inl e, c1)
         | Inr (value, decodedBytesCount) \<Rightarrow>
             let c2 = c1\<lparr>ReceivedBytesCount := ReceivedBytesCount c1 + int decodedBytesCount,
                         UnreadBuffer := drop decodedBytesCount (UnreadBuffer c1),
                         LastValueBytesCount := int decodedBytesCount\<rparr>
             in (case ReadValueInterceptor c2 of
                   None \<Rightarrow> (Inr value, c2)
                 | Some f \<Rightarrow> (if Encode (f value) = None then Inl DecodePanic else Inr (f value), c2)))"

definition ReadFullResyncRDBFile :: "nat \<Rightarrow> RespConnection \<Rightarrow> (decode_error + string) \<times> RespConnection" where
  "ReadFullResyncRDBFile n c =
     (let c1 = readIntoBufferUntil rdbFileCompleteOrInvalid n c
      in case DecodeFullResyncRDBFile (UnreadBuffer c1) of
           Inl e \<Rightarrow> (Inl e, c1)
         | Inr (value, decodedBytesCount) \<Rightarrow>
             (Inr value,
              c1\<lparr>UnreadBuffer := drop decodedBytesCount (UnreadBuffer c1),
                 ReceivedBytesCount := ReceivedBytesCount c1 + int decodedBytesCount,
                 LastValueBytesCount := int decodedBytesCount\<rparr>))"

definition ResetByteCounters :: "RespConnection \<Rightarrow> RespConnection" where
  "ResetByteCounters c = c\<lparr>ReceivedBytesCount := 0, SentBytesCount := 0\<rparr>"

end
