(* ===== verification/Codec_Properties.thy ===== *)
theory Codec_Properties
  imports Resp_Codec Propagation Resp_Connection
begin

text \<open>
  The tester's RESP library: the decoder inverts the encoder, reads no further than the value,
  needs no more fuel than the input is long, and calls a value that has not arrived completely
  incomplete, which is what the connection's polling loop relies on. The same decoder applied to
  the server's append-only file gives back the commands that were appended.
\<close>

section \<open>Lines\<close>

abbreviation one_line :: "string \<Rightarrow> bool" where
  "one_line b \<equiv> \<not> Contains b crlf"

lemma Contains_crlf_Cons [simp]:
  "Contains (c # s) crlf \<longleftrightarrow> c = CR \<and> s \<noteq> [] \<and> hd s = LF \<or> Contains s crlf"
  by (cases s) (simp_all add: crlf_def)

declare Contains.simps(2) [simp del]

lemma Contains_crlf_Nil [simp]: "\<not> Contains [] crlf"
  by simp

lemma one_line_no_CR: "CR \<notin> set b \<Longrightarrow> one_line b"
  by (induction b) auto

lemma one_line_no_LF: "LF \<notin> set b \<Longrightarrow> one_line b"
  by (induction b) (auto simp: neq_Nil_conv)

lemma readUntil_Cons:
  "readUntil crlf acc (b # r) =
     (if acc \<noteq> [] \<and> last acc = CR \<and> b = LF then (butlast acc, False, r) else readUntil crlf (acc @ [b]) r)"
proof -
  have "2 \<le> length (acc @ [b]) \<and> drop (length (acc @ [b]) - 2) (acc @ [b]) = crlf
      \<longleftrightarrow> acc \<noteq> [] \<and> last acc = CR \<and> b = LF"
    by (cases acc rule: rev_cases) (auto simp: crlf_def Suc_diff_Suc)
  moreover have "take (length (acc @ [b]) - 2) (acc @ [b]) = butlast acc" if "acc \<noteq> []"
    using that by (cases acc rule: rev_cases) auto
  ultimately show ?thesis by (simp add: readUntil.simps(2) Let_def)
qed

declare readUntil.simps(2) [simp del]

lemma hd_crlf [simp]: "hd (b @ crlf @ t) = (if b = [] then CR else hd b)" "hd (crlf @ t) = CR"
  by (cases b) (simp_all add: crlf_def)

lemma readUntil_line:
  assumes "one_line r" "\<not> (acc \<noteq> [] \<and> last acc = CR \<and> r \<noteq> [] \<and> hd r = LF)"
  shows "readUntil crlf acc (r @ crlf @ t) = (acc @ r, False, t)"
  using assms
proof (induction r arbitrary: acc)
  case Nil
  show ?case by (simp add: crlf_def readUntil_Cons[unfolded crlf_def])
next
  case (Cons b r)
  then show ?case using Cons.IH[of "acc @ [b]"] by (auto simp: readUntil_Cons)
qed

lemma readUntil_open:
  "one_line r \<Longrightarrow> \<not> (acc \<noteq> [] \<and> last acc = CR \<and> r \<noteq> [] \<and> hd r = LF) \<Longrightarrow> readUntil crlf acc r = (acc @ r, True, [])"
proof (induction r arbitrary: acc)
  case (Cons b r)
  then show ?case using Cons.IH[of "acc @ [b]"] by (auto simp: readUntil_Cons)
qed simp

lemma readUntilCRLF_line [simp]: "one_line b \<Longrightarrow> readUntilCRLF (b @ crlf @ t) = (b, False, t)"
  and readUntilCRLF_open: "one_line b \<Longrightarrow> readUntilCRLF b = (b, True, [])"
  using readUntil_line[of b "[]"] readUntil_open[of b "[]"] by (simp_all add: readUntilCRLF_def)

lemma first_line: "Contains r crlf \<Longrightarrow> \<exists>b t. r = b @ crlf @ t \<and> one_line b"
proof (induction r)
  case (Cons c r)
  show ?case
  proof (cases "c = CR \<and> r \<noteq> [] \<and> hd r = LF")
    case True
    then have "c # r = [] @ crlf @ tl r" by (cases r) (simp_all add: crlf_def)
    then show ?thesis by (metis Contains_crlf_Nil)
  next
    case False
    with Cons obtain b t where b: "r = b @ crlf @ t" "one_line b" by auto
    with False have "one_line (c # b)" by (cases "b = []") auto
    with b show ?thesis by (metis append_Cons)
  qed
qed simp

text \<open>What the line reader returns: a complete line, or all that is left.\<close>

lemma readUntilCRLF_cases:
  obtains b t where "r = b @ crlf @ t" "one_line b" "readUntilCRLF r = (b, False, t)"
  | "one_line r" "readUntilCRLF r = (r, True, [])"
  using first_line[of r] readUntilCRLF_line readUntilCRLF_open[of r] by blast

lemma itoa_one_line [simp]: "one_line (itoa i)"
  by (simp add: one_line_no_CR)

text \<open>A part of a line with its end either lacks the end or continues behind it.\<close>

lemma line_prefix:
  assumes "h @ crlf @ t = p @ q" "CR \<notin> set h"
  obtains "one_line p" | p' where "p = h @ crlf @ p'" "t = p' @ q"
proof -
  have *: "h @ crlf @ t = p @ q \<Longrightarrow> CR \<notin> set h \<Longrightarrow> one_line p \<or> (\<exists>p'. p = h @ crlf @ p' \<and> t = p' @ q)"
  proof (induction h arbitrary: p)
    case Nil
    then consider "p = []" | "p = [CR]" | p' where "p = crlf @ p'" "t = p' @ q"
      by (cases p; cases "tl p") (auto simp: crlf_def)
    then show ?case by cases auto
  next
    case (Cons c h)
    show ?case
    proof (cases p)
      case Nil then show ?thesis by simp
    next
      case (Cons d p1)
      with Cons.prems have "d = c" "c \<noteq> CR" "h @ crlf @ t = p1 @ q" "CR \<notin> set h" by auto
      with Cons.IH[of p1] Cons show ?thesis by auto
    qed
  qed
  with assms that show thesis by blast
qed

section \<open>Values the encoding carries\<close>

text \<open>
  No line end within a simple string or an error, integers of 64 bits, arrays the decoder can
  allocate, and no field used that the type does not have.
\<close>

fun wire_ok :: "Value \<Rightarrow> bool" where
  "wire_ok (Value t b i a) \<longleftrightarrow>
     (if t = SIMPLE_STRING \<or> t = ERROR then one_line b \<and> i = 0 \<and> a = []
      else if t = INTEGER then b = [] \<and> in_i64 i \<and> a = []
      else if t = BULK_STRING then in_i64 (int (length b)) \<and> i = 0 \<and> a = []
      else if t = ARRAY then b = [] \<and> i = 0 \<and> 72 * int (length a) \<le> 2 ^ 48 \<and> (\<forall>v \<in> set a. wire_ok v)
      else if t = NIL \<or> t = NIL_ARRAY then b = [] \<and> i = 0 \<and> a = []
      else False)"

lemma value_types_distinct [simp]:
  "SIMPLE_STRING \<noteq> INTEGER" "BULK_STRING \<noteq> INTEGER" "ERROR \<noteq> INTEGER" "ARRAY \<noteq> INTEGER" "NIL \<noteq> INTEGER"
  "NIL_ARRAY \<noteq> INTEGER" "BULK_STRING \<noteq> SIMPLE_STRING" "ERROR \<noteq> SIMPLE_STRING" "ARRAY \<noteq> SIMPLE_STRING"
  "NIL \<noteq> SIMPLE_STRING" "NIL_ARRAY \<noteq> SIMPLE_STRING" "ERROR \<noteq> BULK_STRING" "ARRAY \<noteq> BULK_STRING"
  "NIL \<noteq> BULK_STRING" "NIL_ARRAY \<noteq> BULK_STRING" "ARRAY \<noteq> ERROR" "NIL \<noteq> ERROR" "NIL_ARRAY \<noteq> ERROR"
  "NIL \<noteq> ARRAY" "NIL_ARRAY \<noteq> ARRAY" "NIL_ARRAY \<noteq> NIL"
  by (simp_all add: type_defs)

lemmas value_types_distinct' [simp] = value_types_distinct[symmetric]

lemma wire_ok_cases:
  assumes "wire_ok v"
  obtains b where "v = NewSimpleStringValue b" "one_line b"
  | b where "v = NewErrorValue b" "one_line b"
  | i where "v = NewIntegerValue i" "in_i64 i"
  | b where "v = NewBulkStringValue b" "in_i64 (int (length b))"
  | a where "v = NewArrayValue a" "72 * int (length a) \<le> 2 ^ 48" "\<forall>v \<in> set a. wire_ok v"
  | "v = NewNilValue" | "v = NewNilArrayValue"
  using assms by (cases v) (auto simp: value_constructors split: if_splits)

lemma Encode_constructors [simp]:
  "Encode (NewSimpleStringValue b) = Some (''+'' @ b @ crlf)"
  "Encode (NewErrorValue b) = Some (''-'' @ b @ crlf)"
  "Encode (NewBulkStringValue b) = Some (''$'' @ itoa (int (length b)) @ crlf @ b @ crlf)"
  "Encode (NewArrayValue a) =
     map_option (\<lambda>parts. ''*'' @ itoa (int (length a)) @ crlf @ concat parts) (those (map Encode a))"
  "Encode NewNilValue = Some (''$-1'' @ crlf)" "Encode NewNilArrayValue = Some (''*-1'' @ crlf)"
  "Encode (NewIntegerValue i) = None"
  by (simp_all add: value_constructors encodeInteger_def Atoi_def encodeSimpleString_def encodeError_def encodeBulkString_def)

text \<open>The wire format itself, which has integers as well; the encoder writes nothing else.\<close>

fun wire :: "Value \<Rightarrow> string" where
  "wire (Value t b i a) =
     (if t = SIMPLE_STRING then ''+'' @ b @ crlf
      else if t = ERROR then ''-'' @ b @ crlf
      else if t = INTEGER then '':'' @ itoa i @ crlf
      else if t = BULK_STRING then ''$'' @ itoa (int (length b)) @ crlf @ b @ crlf
      else if t = ARRAY then ''*'' @ itoa (int (length a)) @ crlf @ concat (map wire a)
      else if t = NIL then ''$-1'' @ crlf
      else ''*-1'' @ crlf)"

lemma wire_constructors [simp]:
  "wire (NewSimpleStringValue b) = ''+'' @ b @ crlf"
  "wire (NewErrorValue b) = ''-'' @ b @ crlf"
  "wire (NewIntegerValue i) = '':'' @ itoa i @ crlf"
  "wire (NewBulkStringValue b) = ''$'' @ itoa (int (length b)) @ crlf @ b @ crlf"
  "wire (NewArrayValue a) = ''*'' @ itoa (int (length a)) @ crlf @ concat (map wire a)"
  "wire NewNilValue = ''$-1'' @ crlf" "wire NewNilArrayValue = ''*-1'' @ crlf"
  by (simp_all add: value_constructors)

lemma wire_nonempty [simp]: "wire v \<noteq> []"
  by (cases v) simp

lemma Encode_wire: "wire_ok v \<Longrightarrow> Encode v = Some e \<Longrightarrow> e = wire v"
proof (induction v arbitrary: e)
  case (Value ty b i a)
  have parts: "concat parts = concat (map wire vs)"
    if "set vs \<subseteq> set a" "\<forall>v \<in> set vs. wire_ok v" "those (map Encode vs) = Some parts" for vs parts
    using that
  proof (induction vs arbitrary: parts)
    case (Cons w ws)
    then obtain e' es where "Encode w = Some e'" "those (map Encode ws) = Some es" "parts = e' # es"
      by (auto split: option.splits)
    with Cons Value.IH[of w e'] show ?case by simp
  qed simp
  from Value.prems(1) show ?case
  proof (cases rule: wire_ok_cases)
    case (5 vs)
    then have "a = vs" by (simp add: value_constructors)
    with 5 Value.prems(2) parts[of vs] show ?thesis by auto
  qed (use Value.prems(2) in auto)
qed

section \<open>The decoder inverts the encoder\<close>

lemma read_data_append [simp]: "read_data (length b) (b @ t) = Inr (b, t)"
  by (simp add: read_data_def)

lemma readCRLF_crlf [simp]: "readCRLF (crlf @ t) m = Inr t"
  by (simp add: readCRLF_def crlf_def)

lemma decode_bulk:
  assumes "in_i64 (int (length b))"
  shows "decodeBulkStringOrNil (itoa (int (length b)) @ crlf @ b @ crlf @ t) = Inr (NewBulkStringValue b, t)"
  using assms by (simp add: decodeBulkStringOrNil_def)

lemma minus_one_line [simp]: "readUntilCRLF (CHR ''-'' # CHR ''1'' # crlf @ t) = (itoa (- 1), False, t)"
proof -
  have "itoa (- 1) = ''-1''" by (simp add: itoa_def nat_digits.simps digit_def)
  with readUntilCRLF_line[OF itoa_one_line, of "- 1" t] show ?thesis by simp
qed

lemma Atoi_minus_one [simp]: "Atoi (itoa (- 1)) = (- 1, None)"
  by (rule Atoi_itoa) (simp add: in_i64_def)

lemma decode_wire_fuel:
  "wire_ok v \<Longrightarrow> length (wire v @ t) < f \<Longrightarrow> doDecodeValue f (wire v @ t) = Inr (v, t)"
proof (induction v arbitrary: t f)
  case (Value ty b i a)
  obtain g where f: "f = Suc g" using Value.prems(2) by (cases f) auto
  have elems: "decode_elements g (length vs) (concat (map wire vs) @ t) = Inr (vs, t)"
    if "set vs \<subseteq> set a" "\<forall>v \<in> set vs. wire_ok v" "length (concat (map wire vs) @ t) < g" for vs
    using that
  proof (induction vs)
    case Nil
    then show ?case by simp
  next
    case (Cons w ws)
    have "doDecodeValue g (wire w @ (concat (map wire ws) @ t)) = Inr (w, concat (map wire ws) @ t)"
      using Cons.prems Value.IH[of w "concat (map wire ws) @ t" g] by simp
    with Cons show ?case by simp
  qed
  from Value.prems(1) show ?case
  proof (cases rule: wire_ok_cases)
    case (5 vs)
    then have vs: "a = vs" by (simp add: value_constructors)
    have "decode_elements g (length vs) (concat (map wire vs) @ t) = Inr (vs, t)"
      using elems[of vs] vs 5 Value.prems(2) f by (auto simp: value_constructors)
    with 5 f show ?thesis by (simp add: in_i64_def)
  qed (use f in \<open>auto simp: decodeSimpleString_def decodeError_def decodeInteger_def decode_bulk
      decodeBulkStringOrNil_def[of "CHR ''-'' # _"]\<close>)
qed

lemma decode_wire: "wire_ok v \<Longrightarrow> Decode (wire v @ t) = Inr (v, length (wire v))"
  using decode_wire_fuel[of v t "Suc (length (wire v @ t))"] by (simp add: Decode_def decode_value_def)

section \<open>What decoding reads\<close>

lemma readUntilCRLF_Inr:
  assumes "readUntilCRLF r = (b, False, t)"
  shows "r = b @ crlf @ t" "one_line b"
proof -
  have "r = b @ crlf @ t \<and> one_line b"
    by (rule readUntilCRLF_cases[of r]) (use assms in auto)
  then show "r = b @ crlf @ t" "one_line b" by simp_all
qed

lemma readCRLF_Inr: "readCRLF r m = Inr t \<Longrightarrow> r = crlf @ t"
  by (auto simp: readCRLF_def crlf_def split: list.splits if_splits)

lemma read_data_Inr: "read_data n r = Inr (b, t) \<Longrightarrow> r = b @ t \<and> length b = n"
  by (auto simp: read_data_def split: if_splits)

text \<open>
  A decoder accepts exactly a non-empty prefix, whatever follows it.
\<close>

definition accepts :: "(string \<Rightarrow> decode_error + 'v \<times> string) \<Rightarrow> string \<Rightarrow> 'v \<Rightarrow> bool" where
  "accepts d p v \<longleftrightarrow> (\<forall>t. d (p @ t) = Inr (v, t))"

lemma bulk_accepts:
  assumes "decodeBulkStringOrNil r = Inr (v, t)"
  shows "\<exists>p. r = p @ t \<and> accepts decodeBulkStringOrNil p v \<and> wire_ok v"
proof -
  obtain b r1 where b: "readUntilCRLF r = (b, False, r1)"
    using assms by (auto simp: decodeBulkStringOrNil_def Let_def split: prod.splits if_splits)
  obtain len where len: "Atoi b = (len, None)"
    using assms b by (auto simp: decodeBulkStringOrNil_def split: prod.splits option.splits)
  show ?thesis
  proof (cases "len = - 1")
    case True
    then have "v = NewNilValue" "t = r1" using assms b len by (auto simp: decodeBulkStringOrNil_def)
    with readUntilCRLF_Inr[OF b] len True show ?thesis
      by (intro exI[of _ "b @ crlf"]) (auto simp: accepts_def decodeBulkStringOrNil_def NewNilValue_def)
  next
    case False
    then obtain bs r2 where d: "\<not> len < 0" "read_data (nat len) r1 = Inr (bs, r2)"
      "readCRLF r2 (NoCRLFAfterData len) = Inr t" "v = NewBulkStringValue bs"
      using assms b len by (auto simp: decodeBulkStringOrNil_def split: sum.splits if_splits)
    then have r: "r = (b @ crlf @ bs @ crlf) @ t" "length bs = nat len"
      using readUntilCRLF_Inr[OF b] read_data_Inr[OF d(2)] readCRLF_Inr[OF d(3)] by auto
    have "read_data (nat len) (bs @ crlf @ x) = Inr (bs, crlf @ x)" for x
      using r(2) by (metis read_data_append)
    then have "accepts decodeBulkStringOrNil (b @ crlf @ bs @ crlf) v"
      using readUntilCRLF_Inr(2)[OF b] len d False by (simp add: accepts_def decodeBulkStringOrNil_def)
    moreover have "in_i64 (int (length bs))" using Atoi_range[of b] len d(1) r(2) by simp
    ultimately show ?thesis using r d(4) by (intro exI[of _ "b @ crlf @ bs @ crlf"]) (auto simp: NewBulkStringValue_def)
  qed
qed

lemma decode_accepts:
  "doDecodeValue f r = Inr (v, t) \<Longrightarrow> \<exists>p. r = p @ t \<and> p \<noteq> [] \<and> accepts (doDecodeValue f) p v \<and> wire_ok v"
  "decode_elements f n r = Inr (vs, t) \<Longrightarrow>
     \<exists>p. r = p @ t \<and> length vs = n \<and> n \<le> length p \<and> accepts (decode_elements f n) p vs \<and> (\<forall>v \<in> set vs. wire_ok v)"
proof (induction f r and f n r arbitrary: v t and vs t rule: doDecodeValue_decode_elements.induct)
  case (2 fuel r)
  then obtain c r1 where r: "r = c # r1" by (cases r) auto
  consider "c = CHR ''+''" | "c = CHR ''-''" | "c = CHR '':''" | "c = CHR ''$''" | "c = CHR ''*''"
    using "2.prems" r by (auto split: if_splits)
  then show ?case
  proof cases
    case 1
    then have "decodeSimpleString r1 = Inr (v, t)" using "2.prems" r by simp
    then obtain b where b: "readUntilCRLF r1 = (b, False, t)" "v = NewSimpleStringValue b"
      by (auto simp: decodeSimpleString_def split: prod.splits if_splits)
    with readUntilCRLF_Inr[OF b(1)] r 1 show ?thesis
      by (intro exI[of _ "c # b @ crlf"])
        (auto simp: accepts_def decodeSimpleString_def NewSimpleStringValue_def)
  next
    case 2
    then have "decodeError r1 = Inr (v, t)" using "2.prems" r by simp
    then obtain b where b: "readUntilCRLF r1 = (b, False, t)" "v = NewErrorValue b"
      by (auto simp: decodeError_def split: prod.splits if_splits)
    with readUntilCRLF_Inr[OF b(1)] r 2 show ?thesis
      by (intro exI[of _ "c # b @ crlf"]) (auto simp: accepts_def decodeError_def NewErrorValue_def)
  next
    case 3
    then have "decodeInteger r1 = Inr (v, t)" using "2.prems" r by simp
    then obtain b i where b: "readUntilCRLF r1 = (b, False, t)" "v = NewIntegerValue i" "Atoi b = (i, None)"
      by (auto simp: decodeInteger_def split: prod.splits if_splits option.splits)
    with readUntilCRLF_Inr[OF b(1)] r 3 Atoi_range[of b] show ?thesis
      by (intro exI[of _ "c # b @ crlf"]) (auto simp: accepts_def decodeInteger_def NewIntegerValue_def)
  next
    case 4
    then have "decodeBulkStringOrNil r1 = Inr (v, t)" using "2.prems" r by simp
    from bulk_accepts[OF this] obtain p where "r1 = p @ t" "accepts decodeBulkStringOrNil p v" "wire_ok v" by blast
    with r 4 show ?thesis by (intro exI[of _ "c # p"]) (auto simp: accepts_def)
  next
    case 5
    obtain b r2 where b: "readUntilCRLF r1 = (b, False, r2)"
      using "2.prems" r 5 by (auto simp: Let_def split: prod.splits if_splits)
    obtain len where len: "Atoi b = (len, None)"
      using "2.prems" r 5 b by (auto split: prod.splits option.splits)
    note line = readUntilCRLF_Inr[OF b]
    show ?thesis
    proof (cases "len = - 1")
      case True
      then have "v = NewNilArrayValue" "t = r2" using "2.prems" r 5 b len by auto
      with r 5 line len True show ?thesis
        by (intro exI[of _ "c # b @ crlf"]) (auto simp: accepts_def NewNilArrayValue_def)
    next
      case False
      then obtain vs where d: "\<not> len < - 1" "\<not> 2 ^ 48 < 72 * len" "decode_elements fuel (nat len) r2 = Inr (vs, t)"
        "v = NewArrayValue vs"
        using "2.prems" r 5 b len by (auto split: sum.splits if_splits)
      have "\<exists>p. r2 = p @ t \<and> length vs = nat len \<and> nat len \<le> length p \<and> accepts (decode_elements fuel (nat len)) p vs
          \<and> (\<forall>v \<in> set vs. wire_ok v)"
        using "2.IH"[OF r _ _ _ _ _ b[symmetric] refl refl _ len[symmetric] refl _ _ _ d(3)] 5 d False by simp
      then obtain p where "r2 = p @ t" "length vs = nat len" "accepts (decode_elements fuel (nat len)) p vs"
        "\<forall>v \<in> set vs. wire_ok v"
        by blast
      with r 5 line len d False show ?thesis
        by (intro exI[of _ "c # b @ crlf @ p"]) (auto simp: accepts_def NewArrayValue_def)
    qed
  qed
next
  case (4 fuel n r)
  then obtain v r1 vs' where d: "doDecodeValue fuel r = Inr (v, r1)" "decode_elements fuel n r1 = Inr (vs', t)"
    "vs = v # vs'"
    by (auto split: sum.splits)
  from "4.IH"(1)[OF d(1)] obtain p where p: "r = p @ r1" "p \<noteq> []" "accepts (doDecodeValue fuel) p v" "wire_ok v" by blast
  from "4.IH"(2)[OF d(1) refl d(2)] obtain q where "r1 = q @ t" "length vs' = n" "n \<le> length q"
    "accepts (decode_elements fuel n) q vs'" "\<forall>v \<in> set vs'. wire_ok v"
    by blast
  with p d(3) show ?case
    by (intro exI[of _ "p @ q"]) (auto simp: accepts_def Suc_le_eq less_le_trans neq_Nil_conv)
qed (simp_all add: accepts_def)

section \<open>Fuel\<close>

lemma decode_fuel:
  "length r < f \<Longrightarrow> length r < g \<Longrightarrow> doDecodeValue f r = doDecodeValue g r"
  "length r < f \<Longrightarrow> length r < g \<Longrightarrow> decode_elements f n r = decode_elements g n r"
proof (induction f r and f n r arbitrary: g and g rule: doDecodeValue_decode_elements.induct)
  case (2 fuel r)
  then obtain g' where g: "g = Suc g'" by (cases g) auto
  show ?case
  proof (cases "\<exists>r1. r = CHR ''*'' # r1")
    case False
    then show ?thesis using g by (cases r) auto
  next
    case True
    then obtain r1 where r: "r = CHR ''*'' # r1" by blast
    show ?thesis
    proof (rule readUntilCRLF_cases[of r1])
      assume "readUntilCRLF r1 = (r1, True, [])"
      then show ?thesis using r g by simp
    next
      fix b r2 assume b: "r1 = b @ crlf @ r2" "readUntilCRLF r1 = (b, False, r2)"
      obtain len e where len: "Atoi b = (len, e)" by (cases "Atoi b")
      have size: "length r2 < fuel" "length r2 < g'" using "2.prems" g r b(1) by auto
      have "decode_elements fuel (nat len) r2 = decode_elements g' (nat len) r2"
        if "e = None" "len \<noteq> - 1" "\<not> len < - 1" "\<not> 2 ^ 48 < 72 * len"
        by (rule "2.IH"[OF r _ _ _ _ _ b(2)[symmetric] refl refl _ len[symmetric] that size]) simp_all
      then show ?thesis using r g b(2) len by (cases e) simp_all
    qed
  qed
next
  case (4 fuel n r)
  have "doDecodeValue fuel r = doDecodeValue g r" using "4.IH"(1) "4.prems" by blast
  moreover have "decode_elements fuel n r1 = decode_elements g n r1" if d: "doDecodeValue fuel r = Inr (v, r1)" for v r1
  proof -
    from decode_accepts(1)[OF d] have "length r1 \<le> length r" by auto
    with "4.IH"(2)[OF d refl] "4.prems" show ?thesis by simp
  qed
  ultimately show ?case by (auto split: sum.splits)
qed simp_all

section \<open>Values that have not arrived completely\<close>

definition incomplete :: "decode_error + 'v \<Rightarrow> bool" where
  "incomplete d \<longleftrightarrow> (case d of Inl (IncompleteInputError _ _) \<Rightarrow> True | _ \<Rightarrow> False)"

lemma incomplete_simps [simp]: "incomplete (Inl (IncompleteInputError r m))"
  by (simp add: incomplete_def)

lemma incomplete_elim: "incomplete d \<Longrightarrow> \<exists>r m. d = Inl (IncompleteInputError r m)"
  by (auto simp: incomplete_def split: sum.splits decode_error.splits)

lemma simple_prefix:
  assumes "b @ crlf = p @ q" "q \<noteq> []" "one_line b"
  shows "readUntilCRLF p = (p, True, [])"
proof -
  have "one_line p"
  proof (rule ccontr)
    assume "\<not> one_line p"
    then obtain h t where h: "p = h @ crlf @ t" "one_line h" using first_line by blast
    from readUntilCRLF_line[OF h(2), of "t @ q"] readUntilCRLF_line[OF assms(3), of "[]"] assms(1) h(1)
    have "t @ q = []" by simp
    with assms(2) show False by simp
  qed
  then show ?thesis by (rule readUntilCRLF_open)
qed

lemma bulk_prefix:
  assumes "itoa (int (length b)) @ crlf @ b @ crlf = p @ q" "q \<noteq> []" "in_i64 (int (length b))"
  shows "incomplete (decodeBulkStringOrNil p)"
proof (rule line_prefix[OF assms(1)])
  assume "one_line p"
  then show ?thesis by (simp add: decodeBulkStringOrNil_def readUntilCRLF_open)
next
  fix p' assume p: "p = itoa (int (length b)) @ crlf @ p'" "b @ crlf = p' @ q"
  show ?thesis
  proof (cases "length b \<le> length p'")
    case False
    then show ?thesis using p(1) assms(3) by (simp add: decodeBulkStringOrNil_def read_data_def)
  next
    case True
    then obtain r where "p' = b @ r" "crlf = r @ q"
      using p(2) by (metis append_eq_append_conv_if append_take_drop_id)
    then have "p' = b \<or> p' = b @ [CR]" using assms(2) by (auto simp: crlf_def Cons_eq_append_conv)
    then have "incomplete (readCRLF (drop (length b) p') m)" "read_data (length b) p' = Inr (b, drop (length b) p')" for m
      by (auto simp: readCRLF_def read_data_def)
    moreover from this(1) obtain x y where "readCRLF (drop (length b) p') (NoCRLFAfterData (int (length b))) = Inl (IncompleteInputError x y)"
      using incomplete_elim by blast
    ultimately show ?thesis using p(1) assms(3) by (simp add: decodeBulkStringOrNil_def)
  qed
qed simp

lemma nil_prefix:
  assumes "''-1'' @ crlf = p @ q" "q \<noteq> []"
  shows "readUntilCRLF p = (p, True, [])"
  by (rule simple_prefix[OF assms]) simp

lemma decode_prefix_fuel:
  "wire_ok v \<Longrightarrow> wire v = p @ q \<Longrightarrow> q \<noteq> [] \<Longrightarrow> length p < f \<Longrightarrow> incomplete (doDecodeValue f p)"
proof (induction v arbitrary: p q f)
  case (Value ty b i a)
  obtain g where f: "f = Suc g" using Value.prems(4) by (cases f) auto
  have elems: "incomplete (decode_elements g (length vs) x)"
    if "set vs \<subseteq> set a" "\<forall>v \<in> set vs. wire_ok v" "concat (map wire vs) = x @ q" "length x < g" for vs x
    using that
  proof (induction vs arbitrary: x)
    case Nil
    then show ?case using Value.prems(3) by simp
  next
    case (Cons w ws)
    from Cons.prems have "wire w @ concat (map wire ws) = x @ q" by simp
    then consider y where "wire w = x @ y" "y \<noteq> []" | x' where "x = wire w @ x'" "concat (map wire ws) = x' @ q"
      by (auto simp: append_eq_append_conv2) (metis append.right_neutral)
    then show ?case
    proof cases
      case 1
      then have "incomplete (doDecodeValue g x)" using Value.IH[of w x y g] Cons.prems by simp
      then show ?thesis by (auto dest!: incomplete_elim)
    next
      case 2
      have "doDecodeValue g (wire w @ x') = Inr (w, x')"
        using decode_wire_fuel[of w x' g] Cons.prems 2 by simp
      moreover have "incomplete (decode_elements g (length ws) x')"
        using Cons.IH[of x'] Cons.prems 2 by simp
      ultimately show ?thesis using 2 by (auto dest!: incomplete_elim)
    qed
  qed
  show ?case
  proof (cases p)
    case Nil
    then show ?thesis using f by simp
  next
    case (Cons c x)
    from Value.prems(1) show ?thesis
    proof (cases rule: wire_ok_cases)
      case (5 vs)
      then have vs: "a = vs" by (simp add: value_constructors)
      from 5(1) Value.prems(2) Cons have p: "c = CHR ''*''"
        "itoa (int (length vs)) @ crlf @ concat (map wire vs) = x @ q"
        by (simp_all only: wire_constructors append.simps list.inject)
      show ?thesis
      proof (rule line_prefix[OF p(2)])
        assume "one_line x"
        then show ?thesis using Cons p(1) f by (simp add: readUntilCRLF_open)
      next
        fix x' assume x: "x = itoa (int (length vs)) @ crlf @ x'" "concat (map wire vs) = x' @ q"
        have "incomplete (decode_elements g (length vs) x')"
          using elems[of vs x'] vs 5 x Cons Value.prems(4) f by auto
        with Cons p(1) x(1) 5 f show ?thesis by (auto simp: in_i64_def dest!: incomplete_elim)
      qed simp
    next
      case (1 d)
      then have "c = CHR ''+''" "d @ crlf = x @ q" using Value.prems(2) Cons by simp_all
      with simple_prefix[OF this(2) Value.prems(3) 1(2)] Cons f show ?thesis by (simp add: decodeSimpleString_def)
    next
      case (2 d)
      then have "c = CHR ''-''" "d @ crlf = x @ q" using Value.prems(2) Cons by simp_all
      with simple_prefix[OF this(2) Value.prems(3) 2(2)] Cons f show ?thesis by (simp add: decodeError_def)
    next
      case (3 k)
      then have "c = CHR '':''" "itoa k @ crlf = x @ q" using Value.prems(2) Cons by simp_all
      with simple_prefix[OF this(2) Value.prems(3) itoa_one_line] Cons f show ?thesis by (simp add: decodeInteger_def)
    next
      case (4 d)
      then have "c = CHR ''$''" "itoa (int (length d)) @ crlf @ d @ crlf = x @ q" using Value.prems(2) Cons by simp_all
      with bulk_prefix[OF this(2) Value.prems(3) 4(2)] Cons f show ?thesis by simp
    next
      case 6
      then have "c = CHR ''$''" "''-1'' @ crlf = x @ q" using Value.prems(2) Cons by simp_all
      with nil_prefix[OF this(2) Value.prems(3)] Cons f show ?thesis by (simp add: decodeBulkStringOrNil_def)
    next
      case 7
      then have "c = CHR ''*''" "''-1'' @ crlf = x @ q" using Value.prems(2) Cons by simp_all
      with nil_prefix[OF this(2) Value.prems(3)] Cons f show ?thesis by simp
    qed
  qed
qed

lemma decode_wire_prefix:
  assumes "wire_ok v" "wire v = p @ q" "q \<noteq> []"
  shows "\<exists>r m. Decode p = Inl (IncompleteInputError r m)"
  using incomplete_elim[OF decode_prefix_fuel[OF assms, of "Suc (length p)"]]
  by (auto simp: Decode_def decode_value_def)

section \<open>Round trip, bounds and depth\<close>

text \<open>
  C30: Decoding the encoding of a well-formed value, with any bytes behind it, gives the value back
  and the number of bytes of its encoding.
\<close>

theorem decode_encode:
  assumes "wire_ok v" "Encode v = Some e"
  shows "Decode (e @ t) = Inr (v, length e)"
  using decode_wire[OF assms(1), of t] Encode_wire[OF assms] by simp

lemma decode_encode_example:
  "Decode (''*2'' @ crlf @ ''$1'' @ crlf @ ''x'' @ crlf @ ''+OK'' @ crlf @ ''rest'')
    = Inr (NewArrayValue [NewBulkStringValue ''x'', NewSimpleStringValue ''OK''], 16)"
proof -
  let ?v = "NewArrayValue [NewBulkStringValue ''x'', NewSimpleStringValue ''OK'']"
  have "wire_ok ?v" by (simp add: value_constructors in_i64_def)
  moreover have "Encode ?v = Some (''*2'' @ crlf @ ''$1'' @ crlf @ ''x'' @ crlf @ ''+OK'' @ crlf)"
    by (simp add: itoa_def nat_digits.simps digit_def)
  ultimately have "Decode ((''*2'' @ crlf @ ''$1'' @ crlf @ ''x'' @ crlf @ ''+OK'' @ crlf) @ ''rest'')
      = Inr (?v, length (''*2'' @ crlf @ ''$1'' @ crlf @ ''x'' @ crlf @ ''+OK'' @ crlf))"
    by (rule decode_encode)
  then show ?thesis by (simp add: crlf_def)
qed

text \<open>
  C31: While only a proper prefix of an encoded value has arrived, decoding reports an incomplete
  input: never an invalid one, and never a shorter value.
\<close>

theorem decode_incomplete:
  assumes "wire_ok v" "Encode v = Some (p @ q)" "q \<noteq> []"
  shows "\<exists>r m. Decode p = Inl (IncompleteInputError r m)"
  using decode_wire_prefix[OF assms(1) _ assms(3)] Encode_wire[OF assms(1,2)] by simp

lemma decode_incomplete_example:
  "\<exists>r m. Decode (''$5'' @ crlf @ ''hel'') = Inl (IncompleteInputError r m)"
proof (rule decode_incomplete)
  show "wire_ok (NewBulkStringValue ''hello'')" by (simp add: value_constructors in_i64_def)
  show "Encode (NewBulkStringValue ''hello'') = Some ((''$5'' @ crlf @ ''hel'') @ (''lo'' @ crlf))"
    by (simp add: itoa_def nat_digits.simps digit_def)
qed simp

text \<open>
  C32: A decoded value uses only the fields of its type and keeps the bounds of the wire format
  (64-bit integers, no line end in a simple string or an error); the count of bytes is positive,
  at most the length of the data, and what stands behind that many bytes does not matter.
\<close>

theorem decode_well_formed:
  assumes "Decode d = Inr (v, n)"
  shows "wire_ok v \<and> 0 < n \<and> n \<le> length d \<and> Decode (take n d @ t) = Inr (v, n)"
proof -
  obtain r where r: "doDecodeValue (Suc (length d)) d = Inr (v, r)" "n = length d - length r"
    using assms by (auto simp: Decode_def decode_value_def split: sum.splits)
  from decode_accepts(1)[OF r(1)] obtain p where p: "d = p @ r" "p \<noteq> []" "wire_ok v"
    "doDecodeValue (Suc (length d)) (p @ []) = Inr (v, [])"
    unfolding accepts_def by blast
  let ?f = "Suc (length d + length t)"
  have "doDecodeValue ?f p = Inr (v, [])"
    using p(4) decode_fuel(1)[of p "Suc (length d)" ?f] p(1) by simp
  from decode_accepts(1)[OF this] have "doDecodeValue ?f (p @ t) = Inr (v, t)" by (auto simp only: accepts_def append_Nil2)
  then have "decode_value (p @ t) = Inr (v, t)"
    unfolding decode_value_def using decode_fuel(1)[of "p @ t" ?f "Suc (length (p @ t))"] p(1) by simp
  then have "Decode (take n d @ t) = Inr (v, n)" using p(1) r(2) by (simp add: Decode_def)
  moreover have "0 < n" "n \<le> length d" using p(1,2) r(2) by auto
  ultimately show ?thesis using p(3) by blast
qed

lemma decode_well_formed_example:
  "Decode ('':7'' @ crlf @ ''junk'') = Inr (NewIntegerValue 7, 4) \<and> wire_ok (NewIntegerValue 7)
    \<and> Decode ('':7'' @ crlf) = Inr (NewIntegerValue 7, 4)"
proof -
  have "Decode ('':7'' @ crlf @ ''junk'') = Inr (NewIntegerValue 7, 4)"
  proof -
    have "itoa 7 = ''7''" by (simp add: itoa_def nat_digits.simps digit_def)
    with readUntilCRLF_line[OF itoa_one_line, of 7 "''junk''"] Atoi_itoa[of 7]
    show ?thesis by (simp add: Decode_def decode_value_def decodeInteger_def in_i64_def crlf_def)
  qed
  from this decode_well_formed[OF this, of "[]"] show ?thesis
    by (simp add: crlf_def)
qed

text \<open>
  The bound on the recursion is one of the model: every bound above the length of the input gives
  the same result, so \<open>decode_value\<close> is the decoder without a bound.
\<close>

lemma decode_terminates:
  assumes "length r < f"
  shows "doDecodeValue f r = decode_value r"
  unfolding decode_value_def using decode_fuel(1)[of r f "Suc (length r)"] assms by simp

text \<open>
  The encoder has no encoding for the integers the library itself constructs and decodes: sending
  one, alone or in an array, panics.
\<close>

lemma send_integer_panics:
  assumes "NewIntegerValue i \<in> set vs"
  shows "SendValue (NewIntegerValue i) c = None \<and> SendValue (NewArrayValue vs) c = None"
proof -
  have "those (map Encode vs) = None" using assms by (induction vs) (auto split: option.splits)
  then show ?thesis
    by (simp add: SendValue_def)
qed

lemma send_integer_panics_example:
  "SendValue (NewArrayValue [NewIntegerValue 1]) (NewRespConnectionFromConn [] \<lparr>written = [], budget = None\<rparr>) = None"
  using send_integer_panics[of 1] by simp

section \<open>Reading a value from the connection\<close>

definition pending :: "RespConnection \<Rightarrow> string" where
  "pending c = UnreadBuffer c @ concat (net_in c)"

lemma Encode_nonempty: "Encode v = Some e \<Longrightarrow> e \<noteq> []"
  by (cases v) (auto simp: encodeInteger_def encodeSimpleString_def encodeBulkString_def encodeError_def
      split: if_splits prod.splits option.splits)

lemma ReadIntoBuffer_pending:
  obtains i u where "ReadIntoBuffer c = c\<lparr>net_in := i, UnreadBuffer := u\<rparr>" "u @ concat i = pending c"
    "u = UnreadBuffer c @ concat (take 1 (net_in c))" "i = drop 1 (net_in c)"
proof (cases "net_in c")
  case Nil
  then have "ReadIntoBuffer c = c\<lparr>net_in := [], UnreadBuffer := UnreadBuffer c\<rparr>"
    by (cases c) (simp add: ReadIntoBuffer_def)
  then show thesis by (rule that) (simp_all add: pending_def Nil)
next
  case (Cons d ds)
  then have "ReadIntoBuffer c = c\<lparr>net_in := ds, UnreadBuffer := UnreadBuffer c @ d\<rparr>"
    by (simp add: ReadIntoBuffer_def)
  then show thesis by (rule that) (simp_all add: pending_def Cons)
qed

text \<open>
  A loop that waits for the bytes \<open>w\<close>: its condition holds as soon as they are all there, whatever
  follows, and not before.
\<close>

definition waits_for :: "(string \<Rightarrow> bool) \<Rightarrow> string \<Rightarrow> bool" where
  "waits_for C w \<longleftrightarrow> (\<forall>u. C (w @ u)) \<and> (\<forall>p q. w = p @ q \<longrightarrow> q \<noteq> [] \<longrightarrow> \<not> C p)"

lemma readIntoBufferUntil_waits:
  assumes "waits_for C w" "pending c = w @ t" "0 < n"
    "length w \<le> length (UnreadBuffer c @ concat (take n (net_in c)))"
  shows "\<exists>i u. readIntoBufferUntil C n c = c\<lparr>net_in := i, UnreadBuffer := w @ u\<rparr> \<and> u @ concat i = t"
  using assms(2-4)
proof (induction n arbitrary: c)
  case (Suc n)
  obtain i u where c1: "ReadIntoBuffer c = c\<lparr>net_in := i, UnreadBuffer := u\<rparr>" "u @ concat i = w @ t"
    "u = UnreadBuffer c @ concat (take 1 (net_in c))" "i = drop 1 (net_in c)"
    using Suc.prems(1) ReadIntoBuffer_pending[of c] by metis
  show ?case
  proof (cases "length w \<le> length u")
    case True
    then obtain u' where u': "u = w @ u'" "u' @ concat i = t"
      using c1(2) by (metis append_eq_append_conv_if append_take_drop_id append_assoc)
    have "C u" using assms(1) u'(1) by (simp add: waits_for_def)
    with c1(1) u' show ?thesis by (auto simp: Let_def)
  next
    case False
    from c1(2) obtain us where us: "u = w @ us \<or> u @ us = w" by (auto simp: append_eq_append_conv2)
    with False have "w = u @ us" "us \<noteq> []" by auto
    then have "\<not> C u" using assms(1) unfolding waits_for_def by blast
    then have step: "readIntoBufferUntil C (Suc n) c = readIntoBufferUntil C n (c\<lparr>net_in := i, UnreadBuffer := u\<rparr>)"
      using c1(1) by simp
    have take: "u @ concat (take n i) = UnreadBuffer c @ concat (take (Suc n) (net_in c))"
      using c1(3,4) by (cases "net_in c") auto
    then have len: "length w \<le> length (u @ concat (take n i))" using Suc.prems(3) by simp
    with False have "0 < n" by (cases n) auto
    with Suc.IH[of "c\<lparr>net_in := i, UnreadBuffer := u\<rparr>"] c1(2) len
    have "\<exists>i' u'. readIntoBufferUntil C n (c\<lparr>net_in := i, UnreadBuffer := u\<rparr>)
        = c\<lparr>net_in := i', UnreadBuffer := w @ u'\<rparr> \<and> u' @ concat i' = t"
      by (simp add: pending_def)
    with step show ?thesis by simp
  qed
qed simp

lemma waits_for_value: "wire_ok v \<Longrightarrow> waits_for isRespStreamCompleteOrInvalid (wire v)"
  using decode_wire[of v] decode_wire_prefix[of v]
  by (fastforce simp: waits_for_def isRespStreamCompleteOrInvalid_def)

lemma readIntoBufferUntil_net: "set (net_in (readIntoBufferUntil C n c)) \<subseteq> set (net_in c)"
proof (induction n arbitrary: c)
  case (Suc n)
  have "set (net_in (ReadIntoBuffer c)) \<subseteq> set (net_in c)"
    by (auto simp: ReadIntoBuffer_def split: list.splits)
  with Suc[of "ReadIntoBuffer c"] show ?case by (auto simp: Let_def)
qed simp

lemma read_wire:
  assumes "wire_ok v" "pending c = wire v @ t" "0 < n"
    "length (wire v) \<le> length (UnreadBuffer c @ concat (take n (net_in c)))" "ReadValueInterceptor c = None"
  obtains i u where "u @ concat i = t" "set i \<subseteq> set (net_in c)"
    "ReadValueWithTimeout n c
      = (Inr v, c\<lparr>net_in := i, UnreadBuffer := u, LastValueBytesCount := int (length (wire v)),
                  ReceivedBytesCount := ReceivedBytesCount c + int (length (wire v))\<rparr>)"
proof -
  from readIntoBufferUntil_waits[OF waits_for_value[OF assms(1)] assms(2-4)] obtain i u where
    r: "readIntoBufferUntil isRespStreamCompleteOrInvalid n c = c\<lparr>net_in := i, UnreadBuffer := wire v @ u\<rparr>" "u @ concat i = t"
    by blast
  moreover have "set i \<subseteq> set (net_in c)"
    using readIntoBufferUntil_net[of isRespStreamCompleteOrInvalid n c] by (simp add: r(1))
  ultimately show thesis
    using assms(5) decode_wire[OF assms(1), of u] by (intro that[of u i]) (simp_all add: ReadValueWithTimeout_def)
qed

text \<open>What is left to read is a later part of what there was.\<close>

lemma readIntoBufferUntil_drop: "\<exists>k. net_in (readIntoBufferUntil C n c) = drop k (net_in c)"
proof (induction n arbitrary: c)
  case 0
  show ?case by (simp add: exI[of _ 0])
next
  case (Suc n)
  have "\<exists>k. net_in (ReadIntoBuffer c) = drop k (net_in c)"
    by (cases "net_in c") (auto simp: ReadIntoBuffer_def intro: exI[of _ 0] exI[of _ 1])
  moreover obtain k where "net_in (readIntoBufferUntil C n (ReadIntoBuffer c)) = drop k (net_in (ReadIntoBuffer c))"
    using Suc by blast
  ultimately show ?case by (auto simp: Let_def)
qed

lemma ReadValueWithTimeout_drop: "\<exists>k. net_in (snd (ReadValueWithTimeout n c)) = drop k (net_in c)"
  using readIntoBufferUntil_drop[of isRespStreamCompleteOrInvalid n c]
  by (auto simp: ReadValueWithTimeout_def Let_def split: sum.splits option.splits)

text \<open>The file that a resynchronisation sends: a length, and so many bytes.\<close>

definition rdb_wire :: "string \<Rightarrow> string" where
  "rdb_wire d = ''$'' @ itoa (int (length d)) @ crlf @ d"

lemma decode_rdb:
  assumes "d \<noteq> []" "in_i64 (int (length d))"
  shows "DecodeFullResyncRDBFile (rdb_wire d @ t) = Inr (d, length (rdb_wire d))"
  using assms by (simp add: DecodeFullResyncRDBFile_def doDecodeFullResyncRDBFile_def rdb_wire_def)

lemma decode_rdb_prefix:
  assumes "d \<noteq> []" "in_i64 (int (length d))" "rdb_wire d = p @ q" "q \<noteq> []"
  shows "incomplete (DecodeFullResyncRDBFile p)"
proof (cases p)
  case Nil
  then show ?thesis by (simp add: DecodeFullResyncRDBFile_def doDecodeFullResyncRDBFile_def)
next
  case (Cons c x)
  with assms(3) have c: "c = CHR ''$''" "itoa (int (length d)) @ crlf @ d = x @ q" by (simp_all add: rdb_wire_def)
  show ?thesis
  proof (rule line_prefix[OF c(2)])
    assume "one_line x"
    then show ?thesis using Cons c(1)
      by (simp add: DecodeFullResyncRDBFile_def doDecodeFullResyncRDBFile_def readUntilCRLF_open)
  next
    fix y assume x: "x = itoa (int (length d)) @ crlf @ y" "d = y @ q"
    then have "length y < length d" using assms(4) by simp
    then show ?thesis using Cons c(1) x(1) assms(1,2)
      by (simp add: DecodeFullResyncRDBFile_def doDecodeFullResyncRDBFile_def read_data_def)
  qed simp
qed

lemma read_rdb:
  assumes "d \<noteq> []" "in_i64 (int (length d))" "pending c = rdb_wire d @ t" "0 < n"
    "length (rdb_wire d) \<le> length (UnreadBuffer c @ concat (take n (net_in c)))"
  obtains i u where "u @ concat i = t" "set i \<subseteq> set (net_in c)"
    "ReadFullResyncRDBFile n c
      = (Inr d, c\<lparr>net_in := i, UnreadBuffer := u, LastValueBytesCount := int (length (rdb_wire d)),
                  ReceivedBytesCount := ReceivedBytesCount c + int (length (rdb_wire d))\<rparr>)"
proof -
  have "waits_for rdbFileCompleteOrInvalid (rdb_wire d)"
    using decode_rdb[OF assms(1,2)] decode_rdb_prefix[OF assms(1,2)]
    by (fastforce simp: waits_for_def rdbFileCompleteOrInvalid_def dest!: incomplete_elim)
  from readIntoBufferUntil_waits[OF this assms(3-5)] obtain i u where
    r: "readIntoBufferUntil rdbFileCompleteOrInvalid n c = c\<lparr>net_in := i, UnreadBuffer := rdb_wire d @ u\<rparr>" "u @ concat i = t"
    by blast
  moreover have "set i \<subseteq> set (net_in c)" using readIntoBufferUntil_net[of rdbFileCompleteOrInvalid n c] by (simp add: r(1))
  ultimately show thesis using decode_rdb[OF assms(1,2), of u] by (intro that[of u i]) (simp_all add: ReadFullResyncRDBFile_def)
qed

text \<open>
  C33: However the network splits a value into reads, as long as all of it is read before the deadline,
  \<open>ReadValue\<close> returns it and counts exactly its bytes; the bytes behind it stay for the next read.
\<close>

theorem read_value_reassembles:
  assumes "wire_ok v" "Encode v = Some e" "pending c = e @ t" "0 < n"
    "length e \<le> length (UnreadBuffer c @ concat (take n (net_in c)))" "ReadValueInterceptor c = None"
  shows "\<exists>c'. ReadValueWithTimeout n c = (Inr v, c') \<and> pending c' = t
    \<and> ReceivedBytesCount c' = ReceivedBytesCount c + int (length e) \<and> LastValueBytesCount c' = int (length e)
    \<and> SentBytesCount c' = SentBytesCount c \<and> net_out c' = net_out c"
proof -
  have e: "e = wire v" by (rule Encode_wire[OF assms(1,2)])
  from read_wire[OF assms(1) _ assms(4)] assms(3,5,6) e show ?thesis by (fastforce simp: pending_def)
qed

lemma read_value_reassembles_example:
  "\<exists>c'. ReadValueWithTimeout 9 (NewRespConnectionFromConn [''$5'' @ crlf @ ''he'', ''llo'' @ crlf @ ''+OK''] \<lparr>written = [], budget = None\<rparr>)
      = (Inr (NewBulkStringValue ''hello''), c') \<and> pending c' = ''+OK'' \<and> ReceivedBytesCount c' = 11"
proof -
  have *: "wire_ok (NewBulkStringValue ''hello'')" by (simp add: value_constructors in_i64_def)
  have e: "Encode (NewBulkStringValue ''hello'') = Some (''$5'' @ crlf @ ''hello'' @ crlf)"
    by (simp add: itoa_def nat_digits.simps digit_def)
  show ?thesis
    using read_value_reassembles[OF * e, of "NewRespConnectionFromConn [''$5'' @ crlf @ ''he'', ''llo'' @ crlf @ ''+OK'']
        \<lparr>written = [], budget = None\<rparr>" "''+OK''" 9]
    by (auto simp: NewRespConnectionFromConn_def pending_def crlf_def)
qed

section \<open>The append-only file\<close>

definition command_ok :: "string list \<Rightarrow> bool" where
  "command_ok args \<longleftrightarrow> 72 * int (length args) \<le> 2 ^ 48 \<and> (\<forall>a \<in> set args. in_i64 (int (length a)))"

lemma Encode_command: "Encode (NewStringArrayValue args) = Some (resp_array args)"
proof -
  have "those (map Encode (map NewBulkStringValue args)) = Some (map bulk args)"
    by (induction args) (simp_all add: bulk_def)
  then show ?thesis
    by (simp add: NewStringArrayValue_def resp_array_def array_header_def bulks_def)
qed

lemma wire_command [simp]: "wire (NewStringArrayValue args) = resp_array args"
  by (simp add: NewStringArrayValue_def resp_array_def array_header_def bulks_def comp_def bulk_def[abs_def])

lemma decode_command:
  assumes "command_ok args"
  shows "decode_value (resp_array args @ t) = Inr (NewStringArrayValue args, t)"
proof -
  have "wire_ok (NewStringArrayValue args)"
    using assms by (auto simp: command_ok_def NewStringArrayValue_def value_constructors)
  from decode_wire_fuel[OF this, of t "Suc (length (resp_array args @ t))"] show ?thesis
    by (simp add: decode_value_def)
qed

lemma command_strings [simp]:
  "Type (NewStringArrayValue args) = ARRAY" "aofArrayToStringsArray r (NewStringArrayValue args) = Inr args"
  by (auto simp: NewStringArrayValue_def value_constructors aofArrayToStringsArray_def Array_def find_None_iff2
      comp_def split: option.splits dest: find_None_iff2[THEN iffD1, OF sym] simp: find_Some_iff)

lemma decode_commands_appended:
  "\<forall>c \<in> set cs. command_ok c \<Longrightarrow> length (concat (map resp_array cs)) \<le> n \<Longrightarrow>
    decode_commands n acc (concat (map resp_array cs)) = (acc @ cs, None)"
proof (induction cs arbitrary: n acc)
  case Nil
  then show ?case by (cases n) simp_all
next
  case (Cons c cs)
  have c: "resp_array c \<noteq> []" by (simp add: resp_array_def)
  with Cons.prems(2) obtain m where n: "n = Suc m" by (cases n) auto
  moreover have "length (concat (map resp_array cs)) \<le> m"
    using Cons.prems(2) c n by (cases "resp_array c") auto
  ultimately show ?case
    using Cons.IH[of m "acc @ [c]"] Cons.prems(1) c decode_command[of c] by simp
qed

lemma fold_AppendToAof:
  "AofFile s = Some k \<Longrightarrow> budget k = None \<Longrightarrow>
    AofFile (fold AppendToAof cs s) = Some (k\<lparr>written := written k @ concat (map resp_array cs)\<rparr>)"
proof (induction cs arbitrary: s k)
  case (Cons c cs)
  then have "AofFile (AppendToAof c s) = Some (k\<lparr>written := written k @ resp_array c\<rparr>)"
    by (simp add: AppendToAof_resp sink_write_def)
  from Cons.IH[OF this] Cons.prems show ?case by simp
qed simp

text \<open>
  The tester's decoder of append-only files reads back from the server's file, which held the
  commands \<open>old\<close>, these and exactly the commands that were appended since, in order, without error.
\<close>

lemma aof_decodes_to_commands:
  assumes "AofFile s = Some file" "budget file = None" "written file = concat (map resp_array old)"
    "\<forall>c \<in> set (old @ cs). command_ok c"
  shows "\<exists>file'. AofFile (fold AppendToAof cs s) = Some file'
    \<and> DecodeCommandsFromAppendOnlyFile (written file') = (old @ cs, None)"
proof -
  have "written file @ concat (map resp_array cs) = concat (map resp_array (old @ cs))" using assms(3) by simp
  with fold_AppendToAof[OF assms(1,2), of cs] decode_commands_appended[OF assms(4) order.refl, of "[]"] show ?thesis
    by (simp add: DecodeCommandsFromAppendOnlyFile_def)
qed

lemma aof_decodes_to_commands_example:
  "\<exists>file'. AofFile (AppendToAof [''SET'', ''k'', ''v''] ((empty_server (\<lambda>_. undefined) 0)\<lparr>AofFile := Some \<lparr>written = [], budget = None\<rparr>\<rparr>)) = Some file'
    \<and> DecodeCommandsFromAppendOnlyFile (written file') = ([[''SET'', ''k'', ''v'']], None)"
  using aof_decodes_to_commands[of "(empty_server (\<lambda>_. undefined) 0)\<lparr>AofFile := Some \<lparr>written = [], budget = None\<rparr>\<rparr>"
      "\<lparr>written = [], budget = None\<rparr>" "[]" "[[''SET'', ''k'', ''v'']]"]
  by (simp add: command_ok_def in_i64_def)

end
