(* ===== verification/Tester_Location.thy ===== *)
theory Tester_Location
  imports Geocoding
begin

unbundle bit_operations_syntax

text \<open>
  The tester's geocoding and location sets (\<open>redis-tester/internal/data_structures/location\<close>), its
  oracle for the \<open>GEO\<close> commands. A panic is \<open>None\<close>. The constants are those of the server's
  \<open>geocoding.go\<close>; \<open>Coordinates\<close> has the same two fields there.
\<close>

section \<open>coordinates.go\<close>

definition isValidLatitudeLongitudePair :: "float64 \<Rightarrow> float64 \<Rightarrow> bool" where
  "isValidLatitudeLongitudePair latitude longitude \<longleftrightarrow>
     fle (rnd MIN_LATITUDE) latitude \<and> fle latitude (rnd MAX_LATITUDE) \<and>
     fle (rnd MIN_LONGITUDE) longitude \<and> fle longitude (rnd MAX_LONGITUDE)"

definition NewCoordinates :: "float64 \<Rightarrow> float64 \<Rightarrow> Coordinates option" where
  "NewCoordinates latitude longitude =
     (if \<not> isValidLatitudeLongitudePair latitude longitude then None
      else Some \<lparr>Latitude = latitude, Longitude = longitude\<rparr>)"

definition NewInvalidCoordinates :: "float64 \<Rightarrow> float64 \<Rightarrow> Coordinates option" where
  "NewInvalidCoordinates latitude longitude =
     (if isValidLatitudeLongitudePair latitude longitude then None
      else Some \<lparr>Latitude = latitude, Longitude = longitude\<rparr>)"

text \<open>The five steps that spread the bits of a word, on 64 bits.\<close>

definition spread64 :: "64 word \<Rightarrow> 64 word" where
  "spread64 x =
     (let x = (x OR push_bit 16 x) AND 0x0000FFFF0000FFFF;
          x = (x OR push_bit 8 x) AND 0x00FF00FF00FF00FF;
          x = (x OR push_bit 4 x) AND 0x0F0F0F0F0F0F0F0F;
          x = (x OR push_bit 2 x) AND 0x3333333333333333;
          x = (x OR push_bit 1 x) AND 0x5555555555555555
      in x)"

definition compact64 :: "64 word \<Rightarrow> 64 word" where
  "compact64 x =
     (let x = x AND 0x5555555555555555;
          x = (x OR drop_bit 1 x) AND 0x3333333333333333;
          x = (x OR drop_bit 2 x) AND 0x0F0F0F0F0F0F0F0F;
          x = (x OR drop_bit 4 x) AND 0x00FF00FF00FF00FF;
          x = (x OR drop_bit 8 x) AND 0x0000FFFF0000FFFF;
          x = (x OR drop_bit 16 x) AND 0x00000000FFFFFFFF
      in x)"

definition GetGeoCode :: "Coordinates \<Rightarrow> 64 word" where
  "GetGeoCode c =
     (let latitudeOffset = fdiv (fsub (Latitude c) (rnd MIN_LATITUDE)) (rnd LATITUDE_RANGE);
          longitudeOffset = fdiv (fsub (Longitude c) (rnd MIN_LONGITUDE)) (rnd LONGITUDE_RANGE);
          latitudeOffset = fmul latitudeOffset pow26;
          longitudeOffset = fmul longitudeOffset pow26;
          x = spread64 (to_uint64 latitudeOffset);
          y = spread64 (to_uint64 longitudeOffset)
      in x OR push_bit 1 y)"

definition decodeGeoCodeToCoordinates :: "64 word \<Rightarrow> Coordinates option" where
  "decodeGeoCodeToCoordinates geoCode =
     (let y = compact64 (drop_bit 1 geoCode); x = compact64 geoCode;
          grid = (\<lambda>lo range (n :: 32 word).
            fadd (rnd lo) (fmul (rnd range) (fdiv (fmul (float_of_int (uint n)) (Fin 1)) pow26)));
          gridLatitudeNumber = ucast x :: 32 word;
          gridLongitudeNumber = ucast y :: 32 word;
          gridLatitudeMin = grid MIN_LATITUDE LATITUDE_RANGE gridLatitudeNumber;
          gridLatitudeMax = grid MIN_LATITUDE LATITUDE_RANGE (gridLatitudeNumber + 1);
          gridLongitudeMin = grid MIN_LONGITUDE LONGITUDE_RANGE gridLongitudeNumber;
          gridLongitudeMax = grid MIN_LONGITUDE LONGITUDE_RANGE (gridLongitudeNumber + 1);
          latitude = fdiv (fadd gridLatitudeMin gridLatitudeMax) (Fin 2);
          longitude = fdiv (fadd gridLongitudeMin gridLongitudeMax) (Fin 2)
      in if \<not> isValidLatitudeLongitudePair latitude longitude then None
         else NewCoordinates latitude longitude)"

definition GetGeoGridCenterCoordinates :: "Coordinates \<Rightarrow> Coordinates option" where
  "GetGeoGridCenterCoordinates c = decodeGeoCodeToCoordinates (GetGeoCode c)"

definition degreesToRadians :: "float64 \<Rightarrow> float64" where
  "degreesToRadians deg = fdiv (fmul deg (rnd Pi)) (Fin 180)"

definition DistanceFrom :: "gomath \<Rightarrow> Coordinates \<Rightarrow> Coordinates \<Rightarrow> float64 option" where
  "DistanceFrom M c coordinates =
     (case (GetGeoGridCenterCoordinates c, GetGeoGridCenterCoordinates coordinates) of
        (Some c1, Some c2) \<Rightarrow>
          (let lat1radians = degreesToRadians (Latitude c1);
               lat2radians = degreesToRadians (Latitude c2);
               lon1radians = degreesToRadians (Longitude c1);
               lon2radians = degreesToRadians (Longitude c2);
               v = mSin M (fdiv (fsub lon2radians lon1radians) (Fin 2));
               u = mSin M (fdiv (fsub lat2radians lat1radians) (Fin 2));
               a = fadd (fmul u u) (fmul (fmul (fmul (mCos M lat1radians) (mCos M lat2radians)) v) v)
           in Some (fmul (rnd (2 * EARTH_RADIUS)) (mAsin M (mSqrt M a))))
      | _ \<Rightarrow> None)"

definition LongitudeAsRedisCommandArg :: "Coordinates \<Rightarrow> string" where
  "LongitudeAsRedisCommandArg c = FormatShortest (Longitude c)"

definition LatitudeAsRedisCommandArg :: "Coordinates \<Rightarrow> string" where
  "LatitudeAsRedisCommandArg c = FormatShortest (Latitude c)"

section \<open>location.go and location_set.go\<close>

record Location =
  LocCoordinates :: Coordinates
  LocName :: string

definition AddLocation :: "Location \<Rightarrow> Location list \<Rightarrow> Location list" where
  "AddLocation location locations = locations @ [location]"

definition CenterCoordinates :: "Location list \<Rightarrow> Coordinates option" where
  "CenterCoordinates locations =
     (let latitudeAverage = fold (\<lambda>l a. fadd a (Latitude (LocCoordinates l))) locations (Fin 0);
          longitudeAverage = fold (\<lambda>l a. fadd a (Longitude (LocCoordinates l))) locations (Fin 0);
          n = float_of_int (int (length locations))
      in NewCoordinates (fdiv latitudeAverage n) (fdiv longitudeAverage n))"

text \<open>The loop of \<open>ClosestTo\<close> and \<open>FarthestFrom\<close>: the best location so far and its distance.\<close>

fun best_location ::
  "(float64 \<Rightarrow> float64 \<Rightarrow> bool) \<Rightarrow> (Coordinates \<Rightarrow> float64 option) \<Rightarrow> Location \<Rightarrow> float64 \<Rightarrow> Location list
    \<Rightarrow> Location option"
where
  "best_location better distance best d [] = Some best"
| "best_location better distance best d (l # ls) =
     (case distance (LocCoordinates l) of
        None \<Rightarrow> None
      | Some d' \<Rightarrow> if better d' d then best_location better distance l d' ls
                  else best_location better distance best d ls)"

definition ClosestTo :: "gomath \<Rightarrow> Coordinates \<Rightarrow> Location list \<Rightarrow> Location option" where
  "ClosestTo M reference locations =
     (case locations of
        [] \<Rightarrow> None
      | closest # _ \<Rightarrow>
          (case DistanceFrom M reference (LocCoordinates closest) of
             None \<Rightarrow> None
           | Some d \<Rightarrow> best_location flt (DistanceFrom M reference) closest d locations))"

definition FarthestFrom :: "gomath \<Rightarrow> Coordinates \<Rightarrow> Location list \<Rightarrow> Location option" where
  "FarthestFrom M reference locations =
     (case locations of
        [] \<Rightarrow> None
      | farthest # _ \<Rightarrow>
          (case DistanceFrom M (LocCoordinates farthest) reference of
             None \<Rightarrow> None
           | Some d \<Rightarrow> best_location (\<lambda>x y. flt y x) (DistanceFrom M reference) farthest d locations))"

fun WithinRadius :: "gomath \<Rightarrow> Coordinates \<Rightarrow> float64 \<Rightarrow> Location list \<Rightarrow> Location list option" where
  "WithinRadius M reference radius [] = Some []"
| "WithinRadius M reference radius (l # ls) =
     (case DistanceFrom M reference (LocCoordinates l) of
        None \<Rightarrow> None
      | Some d \<Rightarrow>
          map_option (\<lambda>result. if fle d radius then l # result else result)
            (WithinRadius M reference radius ls))"

definition GetLocationNames :: "Location list \<Rightarrow> string list" where
  "GetLocationNames locations = map LocName locations"

end
