(* ===== verification/Go_Text.thy ===== *)
theory Go_Text
  imports Go_Strings
begin

text \<open>
  More of Go's library, as the tester's assertions use it: \<open>strings.ToLower\<close>, \<open>EqualFold\<close> and
  \<open>CutSuffix\<close>, \<open>json.MarshalIndent\<close> of strings, integers and arrays, and the part of \<open>regexp\<close> that
  the one pattern of the program needs.
\<close>

section \<open>Case and suffixes\<close>

definition to_lower_char :: "char \<Rightarrow> char" where
  "to_lower_char c =
     (if CHR ''A'' \<le> c \<and> c \<le> CHR ''Z'' then char_of (of_char c + 32 :: nat) else c)"

text \<open>
  ASCII letters, and the two runes outside ASCII whose lower case is an ASCII letter: U+0130
  (dotted I) and U+212A (the Kelvin sign). The program only asks whether the result contains an
  ASCII text, for which the other runes do not matter.
\<close>

fun ToLower :: "string \<Rightarrow> string" where
  "ToLower [] = []"
| "ToLower (c # s) =
     (if c = CHR 0xC4 \<and> take 1 s = [CHR 0xB0] then CHR ''i'' # ToLower (drop 1 s)
      else if c = CHR 0xE2 \<and> take 2 s = [CHR 0x84, CHR 0xAA] then CHR ''k'' # ToLower (drop 2 s)
      else to_lower_char c # ToLower s)"

text \<open>
  The fold of a string, to be compared with that of an ASCII string: besides the letters the
  Kelvin sign folds to k and U+017F (long s) to s.
\<close>

fun fold_case :: "string \<Rightarrow> string" where
  "fold_case [] = []"
| "fold_case (c # s) =
     (if c = CHR 0xC5 \<and> take 1 s = [CHR 0xBF] then CHR ''s'' # fold_case (drop 1 s)
      else if c = CHR 0xE2 \<and> take 2 s = [CHR 0x84, CHR 0xAA] then CHR ''k'' # fold_case (drop 2 s)
      else to_lower_char c # fold_case s)"

definition EqualFold :: "string \<Rightarrow> string \<Rightarrow> bool" where
  "EqualFold s t \<longleftrightarrow> fold_case s = fold_case t"

lemma EqualFold_refl [simp]: "EqualFold s s"
  by (simp add: EqualFold_def)

definition HasSuffix :: "string \<Rightarrow> string \<Rightarrow> bool" where
  "HasSuffix s p \<longleftrightarrow> HasPrefix (rev s) (rev p)"

definition CutSuffix :: "string \<Rightarrow> string \<Rightarrow> string \<times> bool" where
  "CutSuffix s p = (if HasSuffix s p then (take (length s - length p) s, True) else (s, False))"

section \<open>JSON\<close>

text \<open>The number of bytes of the UTF-8 encoding a string starts with, if it starts with a valid one.\<close>

definition cont :: "char \<Rightarrow> bool" where
  "cont c \<longleftrightarrow> CHR 0x80 \<le> c \<and> c \<le> CHR 0xBF"

definition second_ok :: "char \<Rightarrow> char \<Rightarrow> bool" where
  "second_ok b c \<longleftrightarrow>
     (if b = CHR 0xE0 then CHR 0xA0 \<le> c \<and> c \<le> CHR 0xBF
      else if b = CHR 0xED then CHR 0x80 \<le> c \<and> c \<le> CHR 0x9F
      else if b = CHR 0xF0 then CHR 0x90 \<le> c \<and> c \<le> CHR 0xBF
      else if b = CHR 0xF4 then CHR 0x80 \<le> c \<and> c \<le> CHR 0x8F
      else cont c)"

definition rune_size :: "string \<Rightarrow> nat option" where
  "rune_size s =
     (case s of
        [] \<Rightarrow> None
      | b # t \<Rightarrow>
          if b < CHR 0x80 then Some 1
          else let n = (if CHR 0xC2 \<le> b \<and> b \<le> CHR 0xDF then 1
                        else if CHR 0xE0 \<le> b \<and> b \<le> CHR 0xEF then 2
                        else if CHR 0xF0 \<le> b \<and> b \<le> CHR 0xF4 then 3 else 0)
               in if 0 < n \<and> n \<le> length t \<and> second_ok b (t ! 0) \<and> list_all cont (take n t) then Some (Suc n)
                  else None)"

definition json_hex :: "nat \<Rightarrow> char" where
  "json_hex d = (if d < 10 then char_of (48 + d) else char_of (87 + d))"

definition json_char :: "char \<Rightarrow> string" where
  "json_char c =
     (if c = CHR 0x5C \<or> c = CHR 0x22 then [CHR 0x5C, c]
      else if c = CHR 0x08 then CHR 0x5C # ''b''
      else if c = CHR 0x0C then CHR 0x5C # ''f''
      else if c = CHR 0x0A then CHR 0x5C # ''n''
      else if c = CHR 0x0D then CHR 0x5C # ''r''
      else if c = CHR 0x09 then CHR 0x5C # ''t''
      else if c < CHR 0x20 \<or> c \<in> set ''<>&''
      then CHR 0x5C # ''u00'' @ [json_hex (of_char c div 16), json_hex (of_char c mod 16)]
      else [c])"

function json_chars :: "string \<Rightarrow> string" where
  "json_chars [] = []"
| "json_chars (c # s) =
     (if c < CHR 0x80 then json_char c @ json_chars s
      else case rune_size (c # s) of
             None \<Rightarrow> CHR 0x5C # ''ufffd'' @ json_chars s
           | Some n \<Rightarrow>
               (if take n (c # s) = [CHR 0xE2, CHR 0x80, CHR 0xA8] then CHR 0x5C # ''u2028''
                else if take n (c # s) = [CHR 0xE2, CHR 0x80, CHR 0xA9] then CHR 0x5C # ''u2029''
                else take n (c # s)) @ json_chars (drop (n - 1) s))"
  by pat_completeness auto
termination by (relation "measure length") auto

text \<open>What \<open>json\<close> is given: strings, integers and arrays of them.\<close>

datatype serial = SString string | SInt int | SArray "serial list"

fun commas :: "string list \<Rightarrow> string" where
  "commas [] = []"
| "commas [x] = x"
| "commas (x # xs) = x @ '','' @ commas xs"

text \<open>\<open>MarshalIndent\<close> with an empty prefix and two blanks; \<open>d\<close> is the depth.\<close>

definition new_line :: "nat \<Rightarrow> string" where
  "new_line d = LF # replicate (2 * d) (CHR '' '')"

primrec MarshalIndent :: "serial \<Rightarrow> nat \<Rightarrow> string" where
  "MarshalIndent (SString s) = (\<lambda>d. CHR 0x22 # json_chars s @ [CHR 0x22])"
| "MarshalIndent (SInt i) = (\<lambda>d. itoa i)"
| "MarshalIndent (SArray xs) =
     (\<lambda>d. if xs = [] then ''[]''
          else ''['' @ commas (map (\<lambda>f. new_line (Suc d) @ f (Suc d)) (map MarshalIndent xs)) @ new_line d @ '']'')"

section \<open>Regular expressions\<close>

text \<open>
  The compiled form of a pattern made of characters, classes of ranges, repetition with a count
  and sequence, all of ASCII; \<open>Match\<close> looks for it anywhere in the text.
\<close>

datatype regex = Lit char | Class "(char \<times> char) list" | Times nat regex | Seq "regex list"

text \<open>A matcher reads a beginning of the text and hands the rest to the matchers that come after.\<close>

primrec matcher :: "regex \<Rightarrow> (string \<Rightarrow> bool) \<Rightarrow> string \<Rightarrow> bool" where
  "matcher (Lit c) = (\<lambda>k s. case s of [] \<Rightarrow> False | d # t \<Rightarrow> d = c \<and> k t)"
| "matcher (Class cs) =
     (\<lambda>k s. case s of [] \<Rightarrow> False | d # t \<Rightarrow> list_ex (\<lambda>(a, b). a \<le> d \<and> d \<le> b) cs \<and> k t)"
| "matcher (Times n r) = matcher r ^^ n"
| "matcher (Seq rs) = foldr (\<lambda>f. f) (map matcher rs)"

fun Match :: "regex \<Rightarrow> string \<Rightarrow> bool" where
  "Match r [] = matcher r (\<lambda>t. True) []"
| "Match r (c # s) = (matcher r (\<lambda>t. True) (c # s) \<or> Match r s)"

end
