(* ===== verification/Resp_Assertions.thy ===== *)
theory Resp_Assertions
  imports Resp_Codec Go_Text Go_Float
begin

text \<open>
  The tester's assertions over RESP values (\<open>redis-tester/internal/resp_assertions\<close>). The interface
  \<open>RESPAssertion\<close> has one method, \<open>Run\<close>, so an assertion is that function: it reports what it
  logged and whether the value passes, fails, or shows an error of the tester itself (a panic). A
  failure keeps the parameters of its message and leaves the wording out. A hook is a name for the
  function the caller gave.
\<close>

section \<open>Reports\<close>

datatype failure =
    WrongType string string
  | OtherStringType string string
  | WrongText string string
  | WrongInteger int int
  | ShortArray int nat
  | FewElements int nat
  | StringPresent string
  | StringMissing string
  | OnlySimpleString string
  | NoCommand
  | CommandNotBulk string
  | WrongCommand string string
  | WrongArgCount nat nat
  | ArgNotBulk nat string
  | WrongArg nat string string
  | WrongLength nat nat Value
  | ElementNotBulk nat string
  | WrongElement nat string string
  | OtherElements "string list" Value
  | NotAFloat string
  | WrongFloat float64 float64 string
  | NoPrefix string string bool string
  | NoSubstring string string string
  | NoMatch string string
  | OtherStream string string

datatype verdict = Pass | Fail failure | Crash

datatype 'h event = Hook 'h | Contained string string

type_synonym 'h report = "'h event list \<times> verdict"

type_synonym 'h RESPAssertion = "Value \<Rightarrow> 'h report"

abbreviation said :: "verdict \<Rightarrow> 'h report" where
  "said w \<equiv> ([], w)"

text \<open>A step of an assertion, and the rest of it when the step passed.\<close>

definition and_also :: "'h report \<Rightarrow> 'h report \<Rightarrow> 'h report" where
  "and_also r k = (if snd r = Pass then (fst r @ fst k, snd k) else r)"

lemma and_also_simps [simp]:
  "and_also (said Pass) k = k" "and_also (es, Fail f) k = (es, Fail f)" "and_also (es, Crash) k = (es, Crash)"
  by (simp_all add: and_also_def)

lemma and_also_verdict:
  "snd (and_also r k) = (if snd r = Pass then snd k else snd r)"
  by (simp add: and_also_def)

section \<open>Scalars\<close>

definition DataTypeAssertion :: "string \<Rightarrow> 'h RESPAssertion" where
  "DataTypeAssertion t v = said (if Type v = t then Pass else Fail (WrongType t (Type v)))"

definition SimpleStringAssertion :: "string \<Rightarrow> 'h RESPAssertion" where
  "SimpleStringAssertion expected v =
     (if Type v = BULK_STRING \<and> vbytes v = expected then said (Fail (OtherStringType BULK_STRING expected))
      else and_also (DataTypeAssertion SIMPLE_STRING v)
             (said (if vbytes v \<noteq> expected then Fail (WrongText expected (vbytes v)) else Pass)))"

definition BulkStringAssertion :: "string \<Rightarrow> 'h RESPAssertion" where
  "BulkStringAssertion expected v =
     (if Type v = SIMPLE_STRING \<and> vbytes v = expected then said (Fail (OtherStringType SIMPLE_STRING expected))
      else and_also (DataTypeAssertion BULK_STRING v)
             (said (if vbytes v \<noteq> expected then Fail (WrongText expected (vbytes v)) else Pass)))"

definition IntegerAssertion :: "int \<Rightarrow> 'h RESPAssertion" where
  "IntegerAssertion expected v =
     and_also (DataTypeAssertion INTEGER v)
       (said (if vinteger v \<noteq> expected then Fail (WrongInteger expected (vinteger v)) else Pass))"

definition ErrorAssertion :: "string \<Rightarrow> 'h RESPAssertion" where
  "ErrorAssertion expected v =
     and_also (DataTypeAssertion ERROR v)
       (said (if ErrorText v \<noteq> expected then Fail (WrongText expected (ErrorText v)) else Pass))"

definition NilAssertion :: "'h RESPAssertion" where
  "NilAssertion = DataTypeAssertion NIL"

definition NilArrayAssertion :: "'h RESPAssertion" where
  "NilArrayAssertion = DataTypeAssertion NIL_ARRAY"

definition NoopAssertion :: "'h RESPAssertion" where
  "NoopAssertion v = said Pass"

text \<open>\<open>strconv.ParseFloat\<close> with its error: a syntax error, or a finite number out of range.\<close>

definition ParseFloat_ok :: "string \<Rightarrow> float64 option" where
  "ParseFloat_ok s =
     (case ParseFloat_opt s of
        None \<Rightarrow> None
      | Some f \<Rightarrow>
          if is_inf f \<and> map lower_char (snd (strip_sign s)) \<notin> {''inf'', ''infinity''} then None else Some f)"

definition fabs :: "float64 \<Rightarrow> float64" where
  "fabs f = (if fsign f then fneg f else f)"

definition FloatingPointBulkStringAssertion :: "float64 \<Rightarrow> float64 \<Rightarrow> 'h RESPAssertion" where
  "FloatingPointBulkStringAssertion expected tolerance v =
     and_also (DataTypeAssertion BULK_STRING v)
       (said (case ParseFloat_ok (vbytes v) of
                None \<Rightarrow> Fail (NotAFloat (vbytes v))
              | Some floatValue \<Rightarrow>
                  (let diff = fabs (fsub floatValue expected)
                   in if flt tolerance diff then Fail (WrongFloat expected tolerance (vbytes v)) else Pass)))"

section \<open>Texts\<close>

record prefix_predicate =
  Prefix :: string
  PrefixCaseSensitive :: bool

record substring_predicate =
  Substring :: string
  SubstringCaseSensitive :: bool

definition check_prefix :: "prefix_predicate \<Rightarrow> string \<Rightarrow> bool" where
  "check_prefix c s =
     (let f = (if PrefixCaseSensitive c then id else ToLower) in HasPrefix (f s) (f (Prefix c)))"

definition check_substring :: "substring_predicate \<Rightarrow> string \<Rightarrow> bool" where
  "check_substring c s =
     (let f = (if SubstringCaseSensitive c then id else ToLower) in Contains (f s) (f (Substring c)))"

text \<open>The loop over the substrings: those present, whether one is missing and the first of them.\<close>

fun scan_substrings ::
  "string \<Rightarrow> substring_predicate list \<Rightarrow> string list \<Rightarrow> bool \<Rightarrow> string \<Rightarrow> string list \<times> bool \<times> string"
where
  "scan_substrings s [] present missing first = (present, missing, first)"
| "scan_substrings s (c # cs) present missing first =
     (if \<not> check_substring c s \<and> \<not> missing then scan_substrings s cs present True (Substring c)
      else scan_substrings s cs (present @ [Substring c]) missing first)"

text \<open>
  Whether the value starts with the prefix once a trailing blank is cut off, which the failure
  mentions.
\<close>

definition trailing_space :: "prefix_predicate \<Rightarrow> string \<Rightarrow> bool" where
  "trailing_space c s =
     (case CutSuffix (Prefix c) '' '' of
        (before, True) \<Rightarrow> check_prefix (c\<lparr>Prefix := before\<rparr>) s
      | (_, False) \<Rightarrow> False)"

definition contains_all :: "substring_predicate list \<Rightarrow> 'h RESPAssertion" where
  "contains_all cs v =
     (let (present, missing, first) = scan_substrings (vbytes v) cs [] False []
      in if \<not> missing then said Pass
         else (map (Contained (Type v)) present, Fail (NoSubstring (Type v) first (vbytes v))))"

definition PrefixAndSubstringsAssertion ::
  "string \<Rightarrow> bool \<Rightarrow> prefix_predicate option \<Rightarrow> substring_predicate list \<Rightarrow> 'h RESPAssertion"
where
  "PrefixAndSubstringsAssertion t has_logger prefix_pred substrings v =
     (if \<not> IsValueOfDataTypeStoredAsByteSlice t then said Crash
      else if \<not> has_logger then said Crash
      else and_also (DataTypeAssertion t v)
             (and_also
                (case prefix_pred of
                   None \<Rightarrow> said Pass
                 | Some c \<Rightarrow>
                     said (if check_prefix c (vbytes v) then Pass
                           else Fail (NoPrefix (Type v) (Prefix c) (trailing_space c (vbytes v)) (vbytes v))))
                (contains_all substrings v)))"

text \<open>The pattern is compiled when the assertion is built.\<close>

definition RegexAssertion :: "string \<Rightarrow> regex \<Rightarrow> string \<Rightarrow> 'h RESPAssertion" where
  "RegexAssertion t pattern sample v =
     (if \<not> IsValueOfDataTypeStoredAsByteSlice t then said Crash
      else if \<not> Match pattern sample then said Crash
      else and_also (DataTypeAssertion t v)
             (said (if Match pattern (vbytes v) then Pass else Fail (NoMatch sample (vbytes v)))))"

section \<open>Arrays\<close>

definition BulkStringAbsentFromArrayAssertion :: "string \<Rightarrow> 'h RESPAssertion" where
  "BulkStringAbsentFromArrayAssertion s v =
     and_also (DataTypeAssertion ARRAY v)
       (said (if list_ex (\<lambda>e. Type e = BULK_STRING \<and> vbytes e = s) (Array v) then Fail (StringPresent s) else Pass))"

definition BulkStringPresentInArrayAssertion :: "string \<Rightarrow> 'h RESPAssertion" where
  "BulkStringPresentInArrayAssertion s v =
     and_also (DataTypeAssertion ARRAY v)
       (said (if list_ex (\<lambda>e. Type e = BULK_STRING \<and> vbytes e = s) (Array v) then Pass
              else if list_ex (\<lambda>e. Type e = SIMPLE_STRING \<and> vbytes e = s) (Array v) then Fail (OnlySimpleString s)
              else Fail (StringMissing s)))"

text \<open>The checks that a command's name and its arguments are bulk strings; positions count from 1.\<close>

definition check_command :: "string \<Rightarrow> Value list \<Rightarrow> verdict" where
  "check_command expected es =
     (case es of
        [] \<Rightarrow> Fail NoCommand
      | e # _ \<Rightarrow>
          if Type e \<noteq> BULK_STRING then Fail (CommandNotBulk (Type e))
          else if \<not> EqualFold (vbytes e) expected then Fail (WrongCommand expected (vbytes e))
          else Pass)"

fun check_args :: "nat \<Rightarrow> string list \<Rightarrow> Value list \<Rightarrow> verdict" where
  "check_args i (a # as) (e # es) =
     (if Type e \<noteq> BULK_STRING then Fail (ArgNotBulk i (Type e))
      else if vbytes e \<noteq> a then Fail (WrongArg i a (vbytes e))
      else check_args (i + 1) as es)"
| "check_args i _ _ = Pass"

definition CommandAssertion :: "string \<Rightarrow> string list \<Rightarrow> 'h RESPAssertion" where
  "CommandAssertion expected args v =
     and_also (DataTypeAssertion ARRAY v)
       (and_also (said (check_command expected (Array v)))
          (said (if length (Array v) \<noteq> length args + 1 then Fail (WrongArgCount (length args) (length (Array v) - 1))
                 else check_args 1 args (tl (Array v)))))"

definition OnlyCommandAssertion :: "string \<Rightarrow> 'h RESPAssertion" where
  "OnlyCommandAssertion expected v =
     and_also (DataTypeAssertion ARRAY v) (said (check_command expected (Array v)))"

text \<open>A loop over the elements, each of which must be the expected bulk string.\<close>

fun check_elements :: "nat \<Rightarrow> string list \<Rightarrow> Value list \<Rightarrow> verdict" where
  "check_elements i (x # xs) (e # es) =
     (if Type e \<noteq> BULK_STRING then Fail (ElementNotBulk i (Type e))
      else if vbytes e \<noteq> x then Fail (WrongElement i x (vbytes e))
      else check_elements (i + 1) xs es)"
| "check_elements i _ _ = Pass"

definition ConfigGetBulkStringValueAssertion :: "string \<Rightarrow> string \<Rightarrow> 'h RESPAssertion" where
  "ConfigGetBulkStringValueAssertion key val v =
     and_also (DataTypeAssertion ARRAY v)
       (said (if length (Array v) \<noteq> 2 then Fail (WrongLength 2 (length (Array v)) v)
              else check_elements 1 [key, val] (Array v)))"

definition OrderedBulkStringArrayAssertion :: "string list \<Rightarrow> 'h RESPAssertion" where
  "OrderedBulkStringArrayAssertion expected v =
     and_also (DataTypeAssertion ARRAY v)
       (said (if length (Array v) \<noteq> length expected then Fail (WrongLength (length expected) (length (Array v)) v)
              else check_elements 1 expected (Array v)))"

definition PublishedMessageAssertion :: "string \<Rightarrow> string \<Rightarrow> 'h RESPAssertion" where
  "PublishedMessageAssertion channel message = OrderedBulkStringArrayAssertion [''message'', channel, message]"

text \<open>Both lists are sorted; \<open>sort.Strings\<close> compares bytes.\<close>

fun bulk_strings :: "nat \<Rightarrow> Value list \<Rightarrow> failure + string list" where
  "bulk_strings i [] = Inr []"
| "bulk_strings i (e # es) =
     (if Type e \<noteq> BULK_STRING then Inl (ElementNotBulk i (Type e))
      else case bulk_strings (i + 1) es of Inl f \<Rightarrow> Inl f | Inr xs \<Rightarrow> Inr (vbytes e # xs))"

definition UnorderedBulkStringArrayAssertion :: "string list \<Rightarrow> 'h RESPAssertion" where
  "UnorderedBulkStringArrayAssertion expected v =
     and_also (DataTypeAssertion ARRAY v)
       (said (if length (Array v) \<noteq> length expected then Fail (WrongLength (length expected) (length (Array v)) v)
              else case bulk_strings 1 (Array v) of
                     Inl f \<Rightarrow> Fail f
                   | Inr actual \<Rightarrow>
                       if sort actual \<noteq> sort expected then Fail (OtherElements expected v) else Pass))"

section \<open>Assertions over assertions\<close>

fun run_elements :: "'h RESPAssertion list \<Rightarrow> Value list \<Rightarrow> 'h report" where
  "run_elements (a # as) (e # es) = and_also (a e) (run_elements as es)"
| "run_elements _ _ = said Pass"

definition OrderedArrayAssertion :: "'h RESPAssertion list \<Rightarrow> 'h RESPAssertion" where
  "OrderedArrayAssertion expected v =
     and_also (DataTypeAssertion ARRAY v)
       (if length (Array v) \<noteq> length expected then said (Fail (WrongLength (length expected) (length (Array v)) v))
        else run_elements expected (Array v))"

definition SubscribeResponseAssertion :: "string \<Rightarrow> int \<Rightarrow> 'h RESPAssertion" where
  "SubscribeResponseAssertion channel count =
     OrderedArrayAssertion [BulkStringAssertion ''subscribe'', BulkStringAssertion channel, IntegerAssertion count]"

record 'h ArrayElementAssertion =
  Index :: int
  ElementAssertion :: "'h RESPAssertion"

definition run_element :: "'h ArrayElementAssertion \<Rightarrow> 'h RESPAssertion" where
  "run_element a v =
     and_also (DataTypeAssertion ARRAY v)
       (if Index a < 0 then said Crash
        else if int (length (Array v)) \<le> Index a then said (Fail (ShortArray (Index a + 1) (length (Array v))))
        else ElementAssertion a (Array v ! nat (Index a)))"

text \<open>An assertion with its two hooks, either of which may be missing.\<close>

record ('a, 'h) AssertionSpecification =
  Asserted :: 'a
  PreAssertionHook :: "'h option"
  AssertionSuccessHook :: "'h option"

definition hook :: "'h option \<Rightarrow> 'h report" where
  "hook h = (case h of None \<Rightarrow> said Pass | Some f \<Rightarrow> ([Hook f], Pass))"

fun MultiAssertion :: "('h RESPAssertion, 'h) AssertionSpecification list \<Rightarrow> 'h RESPAssertion" where
  "MultiAssertion [] v = said Pass"
| "MultiAssertion (s # ss) v =
     and_also (hook (PreAssertionHook s))
       (and_also (Asserted s v) (and_also (hook (AssertionSuccessHook s)) (MultiAssertion ss v)))"

text \<open>
  The specifications are run in the order of their indices; \<open>slices.SortFunc\<close> keeps the order of
  those with the same index when there are at most twelve of them.
\<close>

definition ArrayElementsAssertion :: "('h ArrayElementAssertion, 'h) AssertionSpecification list \<Rightarrow> 'h RESPAssertion" where
  "ArrayElementsAssertion specs v =
     and_also (DataTypeAssertion ARRAY v)
       (if specs = [] then said Crash
        else let largestIndex = Max (set (map (Index \<circ> Asserted) specs))
             in if int (length (Array v)) \<le> largestIndex
                then said (Fail (FewElements (largestIndex + 1) (length (Array v))))
                else MultiAssertion
                       (map (\<lambda>s. \<lparr>Asserted = run_element (Asserted s), PreAssertionHook = PreAssertionHook s,
                                 AssertionSuccessHook = AssertionSuccessHook s\<rparr>)
                          (sort_key (Index \<circ> Asserted) specs)) v)"

section \<open>Streams\<close>

text \<open>\<open>value.go\<close> \<open>ToSerializable\<close> and, for an array, \<open>FormattedString\<close>; \<open>pretty\<close> is the pretty printer of a package.\<close>

fun ToSerializable :: "Value \<Rightarrow> serial" where
  "ToSerializable (Value t b i a) =
     (if t = BULK_STRING then SString b
      else if t = NIL then SString (''$-1'' @ crlf)
      else if t = NIL_ARRAY then SString (''*-1'' @ crlf)
      else if t = INTEGER then SInt i
      else if t = ARRAY then SArray (map ToSerializable a)
      else SString b)"

definition Prettify :: "(string \<Rightarrow> string) \<Rightarrow> string \<Rightarrow> string" where
  "Prettify pretty json = rev (dropWhile (\<lambda>c. c = LF) (rev (pretty json)))"

definition FormattedArray :: "(string \<Rightarrow> string) \<Rightarrow> Value \<Rightarrow> string" where
  "FormattedArray pretty v = Prettify pretty (MarshalIndent (ToSerializable v) 0)"

record StreamEntry =
  Id :: string
  FieldValuePairs :: "string list list"

record StreamResponse =
  StreamKey :: string
  Entries :: "StreamEntry list"

definition entry_value :: "StreamEntry \<Rightarrow> Value" where
  "entry_value e =
     NewArrayValue [NewBulkStringValue (Id e), NewArrayValue (map NewBulkStringValue (concat (FieldValuePairs e)))]"

definition response_value :: "StreamResponse \<Rightarrow> Value" where
  "response_value s = NewArrayValue [NewBulkStringValue (StreamKey s), NewArrayValue (map entry_value (Entries s))]"

text \<open>The comparison both stream assertions make.\<close>

definition same_format :: "(string \<Rightarrow> string) \<Rightarrow> Value \<Rightarrow> 'h RESPAssertion" where
  "same_format pretty expected v =
     and_also (DataTypeAssertion ARRAY v)
       (said (if FormattedArray pretty expected \<noteq> FormattedArray pretty v
              then Fail (OtherStream (FormattedArray pretty expected) (FormattedArray pretty v)) else Pass))"

definition XRangeResponseAssertion :: "(string \<Rightarrow> string) \<Rightarrow> StreamEntry list \<Rightarrow> 'h RESPAssertion" where
  "XRangeResponseAssertion pretty expected = same_format pretty (NewArrayValue (map entry_value expected))"

definition XReadResponseAssertion :: "(string \<Rightarrow> string) \<Rightarrow> StreamResponse list \<Rightarrow> 'h RESPAssertion" where
  "XReadResponseAssertion pretty expected = same_format pretty (NewArrayValue (map response_value expected))"

end
