(* ===== verification/Assertion_Properties.thy ===== *)
theory Assertion_Properties
  imports Resp_Assertions Codec_Properties "HOL-Library.Multiset"
begin

text \<open>
  What the tester's assertions accept: most of them exactly one value of the wire format, the
  unordered one the arrays with the same elements, the command one any spelling of the command's
  name; and where an assertion accepts more, or reports less, than it says.
\<close>

definition accepted :: "string RESPAssertion \<Rightarrow> Value \<Rightarrow> bool" where
  "accepted A v \<longleftrightarrow> snd (A v) = Pass"

section \<open>Assertions that accept one value\<close>

locale exact_assertion =
  fixes run :: "'h RESPAssertion" and expected :: Value
  assumes accepts: "wire_ok v \<Longrightarrow> snd (run v) = Pass \<longleftrightarrow> v = expected"
    and no_crash: "snd (run v) \<noteq> Crash"
begin

lemma passes_expected: "wire_ok expected \<Longrightarrow> snd (run expected) = Pass"
  using accepts by blast

text \<open>Every other value of the wire format fails, with a message.\<close>

lemma rejects: "wire_ok v \<Longrightarrow> v \<noteq> expected \<Longrightarrow> \<exists>f. snd (run v) = Fail f"
  using accepts no_crash by (cases "snd (run v)") auto

end

lemma constructor_fields [simp]:
  "Type (NewSimpleStringValue s) = SIMPLE_STRING" "vbytes (NewSimpleStringValue s) = s"
  "Type (NewBulkStringValue s) = BULK_STRING" "vbytes (NewBulkStringValue s) = s"
  "Type (NewIntegerValue i) = INTEGER" "vinteger (NewIntegerValue i) = i"
  "Type (NewErrorValue s) = ERROR" "vbytes (NewErrorValue s) = s"
  "Type (NewArrayValue vs) = ARRAY" "varray (NewArrayValue vs) = vs" "vbytes (NewArrayValue vs) = []"
  "vinteger (NewArrayValue vs) = 0"
  "Type NewNilValue = NIL" "Type NewNilArrayValue = NIL_ARRAY"
  "Type (NewStringArrayValue xs) = ARRAY" "vbytes (NewStringArrayValue xs) = []" "vinteger (NewStringArrayValue xs) = 0"
  by (simp_all add: value_constructors NewStringArrayValue_def)

lemma constructor_inject [simp]:
  "NewSimpleStringValue s = NewSimpleStringValue t \<longleftrightarrow> s = t" "NewBulkStringValue s = NewBulkStringValue t \<longleftrightarrow> s = t"
  "NewIntegerValue i = NewIntegerValue j \<longleftrightarrow> i = j" "NewErrorValue s = NewErrorValue t \<longleftrightarrow> s = t"
  "NewArrayValue us = NewArrayValue vs \<longleftrightarrow> us = vs"
  by (simp_all add: value_constructors)

lemma map_bulk_inject [simp]: "map NewBulkStringValue xs = map NewBulkStringValue ys \<longleftrightarrow> xs = ys"
  by (rule inj_map_eq_map) (simp add: inj_def)

lemma NewStringArrayValue_inject [simp]: "NewStringArrayValue xs = NewStringArrayValue ys \<longleftrightarrow> xs = ys"
  by (simp add: NewStringArrayValue_def)

lemma Array_constructors [simp]:
  "Array (NewArrayValue vs) = vs" "Array (NewStringArrayValue xs) = map NewBulkStringValue xs"
  by (simp_all add: Array_def NewStringArrayValue_def)

text \<open>A value of the wire format is the one its type and that type's field make.\<close>

lemma is_constructor:
  assumes "wire_ok v"
  shows "v = NewSimpleStringValue s \<longleftrightarrow> Type v = SIMPLE_STRING \<and> vbytes v = s"
    "v = NewBulkStringValue s \<longleftrightarrow> Type v = BULK_STRING \<and> vbytes v = s"
    "v = NewIntegerValue i \<longleftrightarrow> Type v = INTEGER \<and> vinteger v = i"
    "v = NewErrorValue s \<longleftrightarrow> Type v = ERROR \<and> vbytes v = s"
    "v = NewArrayValue vs \<longleftrightarrow> Type v = ARRAY \<and> Array v = vs"
    "v = NewStringArrayValue xs \<longleftrightarrow> Type v = ARRAY \<and> Array v = map NewBulkStringValue xs"
    "v = NewNilValue \<longleftrightarrow> Type v = NIL"
    "v = NewNilArrayValue \<longleftrightarrow> Type v = NIL_ARRAY"
  using assms by (cases v; force simp: value_constructors NewStringArrayValue_def Array_def)+

lemma check_elements_iff:
  "length es = length xs \<Longrightarrow> \<forall>e \<in> set es. wire_ok e \<Longrightarrow>
   check_elements i xs es = Pass \<longleftrightarrow> es = map NewBulkStringValue xs"
  by (induction i xs es rule: check_elements.induct) (auto simp: is_constructor)

lemma check_elements_crash: "check_elements i xs es \<noteq> Crash"
  by (induction i xs es rule: check_elements.induct) auto

lemma wire_ok_elements: "wire_ok v \<Longrightarrow> \<forall>e \<in> set (Array v). wire_ok e"
  by (cases v) (auto simp: Array_def)

lemmas assertion_defs = DataTypeAssertion_def SimpleStringAssertion_def BulkStringAssertion_def IntegerAssertion_def
  ErrorAssertion_def NilAssertion_def NilArrayAssertion_def OrderedBulkStringArrayAssertion_def
  ConfigGetBulkStringValueAssertion_def

interpretation simple_string: exact_assertion "SimpleStringAssertion s" "NewSimpleStringValue s" for s
  by unfold_locales (auto simp: assertion_defs is_constructor)

interpretation bulk_string: exact_assertion "BulkStringAssertion s" "NewBulkStringValue s" for s
  by unfold_locales (auto simp: assertion_defs is_constructor)

interpretation an_integer: exact_assertion "IntegerAssertion i" "NewIntegerValue i" for i
  by unfold_locales (auto simp: assertion_defs is_constructor)

interpretation an_error: exact_assertion "ErrorAssertion s" "NewErrorValue s" for s
  by unfold_locales (auto simp: assertion_defs is_constructor ErrorText_def)

interpretation a_nil: exact_assertion NilAssertion NewNilValue
  by unfold_locales (auto simp: assertion_defs is_constructor)

interpretation nil_list: exact_assertion NilArrayAssertion NewNilArrayValue
  by unfold_locales (auto simp: assertion_defs is_constructor)

lemma checked_elements:
  assumes "wire_ok v"
  shows "Type v = ARRAY \<and> length (Array v) = length xs \<and> check_elements i xs (Array v) = Pass
    \<longleftrightarrow> v = NewStringArrayValue xs"
  using check_elements_iff[of "Array v" xs i] wire_ok_elements[OF assms] is_constructor(6)[OF assms, of xs]
  by (metis length_map)

interpretation string_list: exact_assertion "OrderedBulkStringArrayAssertion xs" "NewStringArrayValue xs" for xs
  by unfold_locales (simp_all add: assertion_defs checked_elements[of _ _ 1, symmetric] check_elements_crash)

interpretation config_value: exact_assertion "ConfigGetBulkStringValueAssertion key val" "NewStringArrayValue [key, val]" for key val
  by unfold_locales (simp_all add: assertion_defs checked_elements[of _ _ 1, symmetric] check_elements_crash
    del: check_elements.simps)


section \<open>Arrays in any order, and commands\<close>

lemma bulk_strings_iff:
  "\<forall>e \<in> set es. wire_ok e \<Longrightarrow> bulk_strings i es = Inr ys \<longleftrightarrow> es = map NewBulkStringValue ys"
proof (induction es arbitrary: i ys)
  case (Cons e es)
  from Cons.prems have IH: "bulk_strings (i + 1) es = Inr zs \<longleftrightarrow> es = map NewBulkStringValue zs" for zs
    by (intro Cons.IH) simp
  show ?case
  proof (cases "Type e = BULK_STRING")
    case False
    with Cons.prems show ?thesis by (auto simp: is_constructor)
  next
    case True
    then have "bulk_strings i (e # es) = Inr ys \<longleftrightarrow> (\<exists>zs. bulk_strings (i + 1) es = Inr zs \<and> ys = vbytes e # zs)"
      by (auto split: sum.splits)
    also have "\<dots> \<longleftrightarrow> (\<exists>zs. es = map NewBulkStringValue zs \<and> ys = vbytes e # zs)" by (simp only: IH)
    also have "\<dots> \<longleftrightarrow> e # es = map NewBulkStringValue ys"
      using True Cons.prems is_constructor(2)[of e] by (cases ys) auto
    finally show ?thesis .
  qed
qed auto

lemma check_args_iff:
  "length es = length as \<Longrightarrow> \<forall>e \<in> set es. wire_ok e \<Longrightarrow>
   check_args i as es = Pass \<longleftrightarrow> es = map NewBulkStringValue as"
  by (induction i as es rule: check_args.induct) (auto simp: is_constructor)

lemma same_sorted_iff: "sort xs = sort ys \<longleftrightarrow> mset xs = mset ys"
  by (metis mset_sort properties_for_sort sorted_sort)

section \<open>Assertions over elements\<close>

lemma MultiAssertion_pass:
  "snd (MultiAssertion specs v) = Pass \<longleftrightarrow> (\<forall>s \<in> set specs. snd (Asserted s v) = Pass)"
  by (induction specs) (auto simp: and_also_verdict hook_def split: option.splits)

definition hook_events :: "'h option \<Rightarrow> 'h event list" where
  "hook_events h = (case h of None \<Rightarrow> [] | Some f \<Rightarrow> [Hook f])"

lemma MultiAssertion_events:
  "snd (MultiAssertion specs v) = Pass \<Longrightarrow> fst (MultiAssertion specs v) =
   concat (map (\<lambda>s. hook_events (PreAssertionHook s) @ fst (Asserted s v) @ hook_events (AssertionSuccessHook s)) specs)"
  by (induction specs) (auto simp: and_also_def hook_def hook_events_def split: option.splits if_splits)

definition on_element :: "('h ArrayElementAssertion, 'h) AssertionSpecification \<Rightarrow> Value \<Rightarrow> 'h report" where
  "on_element s v = ElementAssertion (Asserted s) (Array v ! nat (Index (Asserted s)))"

lemma run_element_in_range:
  "Type v = ARRAY \<Longrightarrow> 0 \<le> Index (Asserted s) \<Longrightarrow> Index (Asserted s) < int (length (Array v)) \<Longrightarrow>
   run_element (Asserted s) v = on_element s v"
  by (simp add: run_element_def DataTypeAssertion_def on_element_def)

section \<open>Properties\<close>

text \<open>
  C34: Each scalar assertion, the one on ordered arrays of bulk strings and the one on an answer of
  \<open>CONFIG GET\<close> accept exactly one value of the wire format: the type and the contents must match.
\<close>

theorem exact_assertions:
  assumes "wire_ok v"
  shows "(accepted (SimpleStringAssertion s) v \<longleftrightarrow> v = NewSimpleStringValue s) \<and>
    (accepted (BulkStringAssertion s) v \<longleftrightarrow> v = NewBulkStringValue s) \<and>
    (accepted (IntegerAssertion i) v \<longleftrightarrow> v = NewIntegerValue i) \<and>
    (accepted (ErrorAssertion s) v \<longleftrightarrow> v = NewErrorValue s) \<and>
    (accepted NilAssertion v \<longleftrightarrow> v = NewNilValue) \<and>
    (accepted NilArrayAssertion v \<longleftrightarrow> v = NewNilArrayValue) \<and>
    (accepted (OrderedBulkStringArrayAssertion xs) v \<longleftrightarrow> v = NewStringArrayValue xs) \<and>
    (accepted (ConfigGetBulkStringValueAssertion key val) v \<longleftrightarrow> v = NewStringArrayValue [key, val])"
  unfolding accepted_def using assms
  by (intro conjI simple_string.accepts bulk_string.accepts an_integer.accepts an_error.accepts a_nil.accepts
      nil_list.accepts string_list.accepts config_value.accepts)

lemma exact_assertions_example:
  "accepted (BulkStringAssertion ''a'') (NewBulkStringValue ''a'') \<and>
   \<not> accepted (BulkStringAssertion ''a'') (NewSimpleStringValue ''a'')"
proof -
  have "wire_ok (NewBulkStringValue ''a'')" "wire_ok (NewSimpleStringValue ''a'')"
    by (simp_all add: value_constructors in_i64_def HasPrefix_def crlf_def)
  from this[THEN exact_assertions, THEN conjunct2, THEN conjunct1] show ?thesis
    by (simp add: value_constructors)
qed

text \<open>
  The unordered assertion accepts exactly the arrays of bulk strings with the expected strings in
  any order, each as often as expected; the one on commands accepts exactly the expected arguments
  behind the command's name in any case.
\<close>

lemma unordered_and_command:
  assumes "wire_ok v"
  shows "(accepted (UnorderedBulkStringArrayAssertion xs) v
      \<longleftrightarrow> (\<exists>ys. v = NewStringArrayValue ys \<and> mset ys = mset xs)) \<and>
    (accepted (CommandAssertion cmd args) v
      \<longleftrightarrow> (\<exists>c. v = NewStringArrayValue (c # args) \<and> EqualFold c cmd))"
proof
  note bulk = bulk_strings_iff[OF wire_ok_elements[OF assms]] and isarr = is_constructor(6)[OF assms]
  show "accepted (UnorderedBulkStringArrayAssertion xs) v
      \<longleftrightarrow> (\<exists>ys. v = NewStringArrayValue ys \<and> mset ys = mset xs)" (is "?L \<longleftrightarrow> ?R")
  proof
    assume ?L
    then have "Type v = ARRAY" "length (Array v) = length xs"
      "\<exists>ys. bulk_strings 1 (Array v) = Inr ys \<and> sort ys = sort xs"
      by (auto simp: accepted_def UnorderedBulkStringArrayAssertion_def DataTypeAssertion_def split: if_splits sum.splits)
    then show ?R using bulk isarr same_sorted_iff by blast
  next
    assume ?R
    then obtain ys where ys: "v = NewStringArrayValue ys" "mset ys = mset xs" by blast
    then have "bulk_strings 1 (Array v) = Inr ys" "length ys = length xs" "sort ys = sort xs"
      using bulk[of 1 ys] isarr[of ys] same_sorted_iff[of ys xs] mset_eq_length by auto
    with ys(1) show ?L by (simp add: accepted_def UnorderedBulkStringArrayAssertion_def DataTypeAssertion_def)
  qed
  show "accepted (CommandAssertion cmd args) v
      \<longleftrightarrow> (\<exists>c. v = NewStringArrayValue (c # args) \<and> EqualFold c cmd)" (is "?L \<longleftrightarrow> ?R")
  proof
    assume ?L
    then obtain e es where e: "Type v = ARRAY" "Array v = e # es" "Type e = BULK_STRING" "EqualFold (vbytes e) cmd"
      "length es = length args" "check_args 1 args es = Pass"
      by (auto simp: accepted_def CommandAssertion_def check_command_def DataTypeAssertion_def split: if_splits list.splits)
    then have "e = NewBulkStringValue (vbytes e)" "es = map NewBulkStringValue args"
      using wire_ok_elements[OF assms] check_args_iff[of es args 1] is_constructor(2)[of e] by auto
    then have "v = NewStringArrayValue (vbytes e # args)" using isarr e(1,2) by (metis list.map(2))
    with e(4) show ?R by blast
  next
    assume ?R
    then obtain c where c: "v = NewStringArrayValue (c # args)" "EqualFold c cmd" by blast
    then have "check_args 1 args (map NewBulkStringValue args) = Pass"
      using check_args_iff[of "map NewBulkStringValue args" args 1] wire_ok_elements[OF assms] by simp
    with c show ?L by (simp add: accepted_def CommandAssertion_def check_command_def DataTypeAssertion_def)
  qed
qed

lemma unordered_and_command_example:
  "accepted (UnorderedBulkStringArrayAssertion [''a'', ''b'']) (NewStringArrayValue [''b'', ''a''])"
proof -
  have "wire_ok (NewStringArrayValue [''b'', ''a''])" by (simp add: value_constructors NewStringArrayValue_def in_i64_def)
  then show ?thesis
    by (subst unordered_and_command[THEN conjunct1]) (auto intro: exI[of _ "[''b'', ''a'']"])
qed

text \<open>When the array has all the elements, the checks run on them in their order.\<close>

lemma ArrayElementsAssertion_in_range:
  assumes "specs \<noteq> []" "\<forall>s \<in> set specs. 0 \<le> Index (Asserted s) \<and> Index (Asserted s) < int (length (Array v))" "Type v = ARRAY"
  shows "snd (ArrayElementsAssertion specs v) = Pass \<longleftrightarrow> (\<forall>s \<in> set specs. snd (on_element s v) = Pass)"
    "snd (ArrayElementsAssertion specs v) = Pass \<Longrightarrow> fst (ArrayElementsAssertion specs v) =
      concat (map (\<lambda>s. hook_events (PreAssertionHook s) @ fst (on_element s v) @ hook_events (AssertionSuccessHook s))
        (sort_key (Index \<circ> Asserted) specs))"
proof -
  let ?f = "\<lambda>s. \<lparr>Asserted = run_element (Asserted s), PreAssertionHook = PreAssertionHook s,
      AssertionSuccessHook = AssertionSuccessHook s\<rparr>"
  let ?m = "MultiAssertion (map ?f (sort_key (Index \<circ> Asserted) specs)) v"
  have "Max (set (map (Index \<circ> Asserted) specs)) < int (length (Array v))" using assms by (subst Max_less_iff) auto
  with assms(1,3) have A: "ArrayElementsAssertion specs v = ?m"
    unfolding ArrayElementsAssertion_def Let_def by (simp add: DataTypeAssertion_def not_le[symmetric] del: Max_less_iff set_map)
  have run: "run_element (Asserted s) v = on_element s v" if "s \<in> set specs" for s
    using that assms(2,3) by (intro run_element_in_range) auto
  show "snd (ArrayElementsAssertion specs v) = Pass \<longleftrightarrow> (\<forall>s \<in> set specs. snd (on_element s v) = Pass)"
    unfolding A MultiAssertion_pass by (simp add: run)
  show "snd (ArrayElementsAssertion specs v) = Pass \<Longrightarrow> fst (ArrayElementsAssertion specs v) =
      concat (map (\<lambda>s. hook_events (PreAssertionHook s) @ fst (on_element s v) @ hook_events (AssertionSuccessHook s))
        (sort_key (Index \<circ> Asserted) specs))"
    unfolding A by (drule MultiAssertion_events) (auto simp: run intro!: arg_cong[where f = concat] map_cong)
qed

text \<open>
  The assertion on chosen elements of an array passes exactly when the array has all of them and
  each passes its own assertion; it then has run the hooks around each assertion in the order of the
  elements, whatever order they were listed in.
\<close>

lemma array_elements_accepts:
  assumes "specs \<noteq> []" "\<forall>s \<in> set specs. 0 \<le> Index (Asserted s)"
  shows "(snd (ArrayElementsAssertion specs v) = Pass \<longleftrightarrow>
      Type v = ARRAY \<and> (\<forall>s \<in> set specs. Index (Asserted s) < int (length (Array v)) \<and> snd (on_element s v) = Pass)) \<and>
    (snd (ArrayElementsAssertion specs v) = Pass \<longrightarrow> fst (ArrayElementsAssertion specs v) =
      concat (map (\<lambda>s. hook_events (PreAssertionHook s) @ fst (on_element s v) @ hook_events (AssertionSuccessHook s))
        (sort_key (Index \<circ> Asserted) specs)))"
proof (cases "Type v = ARRAY \<and> (\<forall>s \<in> set specs. Index (Asserted s) < int (length (Array v)))")
  case False
  have "snd (ArrayElementsAssertion specs v) \<noteq> Pass"
  proof (cases "Type v = ARRAY")
    case True
    with False obtain s where "s \<in> set specs" "int (length (Array v)) \<le> Index (Asserted s)" by (auto simp: not_less)
    moreover from this(1) have "Index (Asserted s) \<le> Max (set (map (Index \<circ> Asserted) specs))" by (intro Max_ge) auto
    ultimately have "int (length (Array v)) \<le> Max (set (map (Index \<circ> Asserted) specs))" by linarith
    then show ?thesis using True assms(1) unfolding ArrayElementsAssertion_def Let_def by (simp add: DataTypeAssertion_def)
  qed (simp add: ArrayElementsAssertion_def DataTypeAssertion_def)
  with False show ?thesis by blast
next
  case True
  with ArrayElementsAssertion_in_range[of specs v] assms show ?thesis by blast
qed

lemma array_elements_accepts_example:
  "snd (ArrayElementsAssertion [\<lparr>Asserted = \<lparr>Index = 0, ElementAssertion = BulkStringAssertion ''flags''\<rparr>,
      PreAssertionHook = Some ''checking'', AssertionSuccessHook = None\<rparr>]
    (NewArrayValue [NewBulkStringValue ''flags'', NewArrayValue []])) = Pass"
  by (subst array_elements_accepts[THEN conjunct1]) (simp_all add: on_element_def assertion_defs)

text \<open>
  When a substring is missing, \<open>PrefixAndSubstringsAssertion\<close> logs every later one as present,
  whether it is or not.
\<close>

lemma later_substrings_reported_present:
  assumes "IsValueOfDataTypeStoredAsByteSlice (Type v)" "\<forall>c \<in> set present. check_substring c (vbytes v)"
    "\<not> check_substring missing (vbytes v)"
  shows "(PrefixAndSubstringsAssertion (Type v) True None (present @ missing # later) v :: 'h report) =
    (map (\<lambda>c. Contained (Type v) (Substring c)) (present @ later), Fail (NoSubstring (Type v) (Substring missing) (vbytes v)))"
proof -
  have "scan_substrings (vbytes v) cs ps True f = (ps @ map Substring cs, True, f)" for cs ps f
    by (induction cs arbitrary: ps) simp_all
  then have "scan_substrings (vbytes v) (present @ missing # later) ps False [] =
      (ps @ map Substring (present @ later), True, Substring missing)" for ps
    using assms(2,3) by (induction present arbitrary: ps) simp_all
  then have "(contains_all (present @ missing # later) v :: 'h report) =
      (map (\<lambda>c. Contained (Type v) (Substring c)) (present @ later), Fail (NoSubstring (Type v) (Substring missing) (vbytes v)))"
    by (simp add: contains_all_def)
  then show ?thesis using assms(1) by (simp add: PrefixAndSubstringsAssertion_def DataTypeAssertion_def)
qed

lemma later_substrings_reported_present_example:
  "fst (PrefixAndSubstringsAssertion ERROR True None
      [\<lparr>Substring = ''watch'', SubstringCaseSensitive = True\<rparr>, \<lparr>Substring = ''multi'', SubstringCaseSensitive = True\<rparr>]
      (NewErrorValue ''oops'') :: string report) = [Contained ERROR ''multi'']"
  using later_substrings_reported_present[where 'h = string, of "NewErrorValue ''oops''" "[]"
      "\<lparr>Substring = ''watch'', SubstringCaseSensitive = True\<rparr>" "[\<lparr>Substring = ''multi'', SubstringCaseSensitive = True\<rparr>]"]
  by (simp add: IsValueOfDataTypeStoredAsByteSlice_def check_substring_def HasPrefix_def value_constructors)

text \<open>Every bulk string of a value turned into another type that holds text.\<close>

fun retype :: "string \<Rightarrow> Value \<Rightarrow> Value" where
  "retype t (Value t' b i a) =
     (if t' = BULK_STRING then Value t b i a else if t' = ARRAY then Value ARRAY b i (map (retype t) a) else Value t' b i a)"

lemma ToSerializable_retype: "t = SIMPLE_STRING \<or> t = ERROR \<Longrightarrow> ToSerializable (retype t v) = ToSerializable v"
  by (induction t v rule: retype.induct) auto

text \<open>
  The assertions on \<open>XRANGE\<close> and \<open>XREAD\<close> answers compare rendered texts, in which a bulk string, a
  simple string and an error look alike: they accept the expected answer with every bulk string
  replaced by a simple string or an error, however the texts are laid out.
\<close>

lemma stream_assertions_ignore_string_types:
  assumes "t = SIMPLE_STRING \<or> t = ERROR"
  shows "snd (XRangeResponseAssertion pretty es (retype t (NewArrayValue (map entry_value es))) :: 'h report) = Pass \<and>
    snd (XReadResponseAssertion pretty rs (retype t (NewArrayValue (map response_value rs))) :: 'h report) = Pass"
proof -
  have "snd (same_format pretty (NewArrayValue vs) (retype t (NewArrayValue vs)) :: 'h report) = Pass" for vs
    using ToSerializable_retype[OF assms, of "NewArrayValue vs"]
    by (simp add: same_format_def DataTypeAssertion_def FormattedArray_def) (simp add: value_constructors)
  then show ?thesis by (simp add: XRangeResponseAssertion_def XReadResponseAssertion_def)
qed

lemma stream_assertions_ignore_string_types_example:
  "snd (XRangeResponseAssertion (\<lambda>s. s) [\<lparr>Id = ''0-1'', FieldValuePairs = []\<rparr>]
    (NewArrayValue [NewArrayValue [NewErrorValue ''0-1'', NewArrayValue []]]) :: string report) = Pass"
  using stream_assertions_ignore_string_types[where 'h = string, of ERROR "\<lambda>s. s" "[\<lparr>Id = ''0-1'', FieldValuePairs = []\<rparr>]"]
  by (simp add: entry_value_def value_constructors)

text \<open>
  The assertion on floating point numbers accepts \<open>nan\<close> whatever number it expects: the
  difference is then no larger than any tolerance.
\<close>

lemma float_assertion_accepts_nan:
  "accepted (FloatingPointBulkStringAssertion expected tolerance) (NewBulkStringValue ''nan'')"
proof -
  have "ParseFloat_ok ''nan'' = Some NaN" by code_simp
  then show ?thesis
    by (simp add: accepted_def FloatingPointBulkStringAssertion_def DataTypeAssertion_def fsub_def fabs_def flt_def fadd_def)
qed

end
