(* ===== verification/File_Assertions.thy ===== *)
theory File_Assertions
  imports Resp_Codec
begin

text \<open>
  The tester's assertions over files (\<open>redis-tester/internal/filesystem_assertion\<close>) and the loop that
  runs them (\<open>filesystem_asserter\<close>). What the operating system answers at one moment is a value of
  type \<open>filesystem\<close>; a panic is \<open>None\<close>. Messages keep their parameters.
\<close>

datatype stat = IsDir | IsFile | NotExist | StatError

record filesystem =
  ReadFile :: "string \<Rightarrow> string option"
  Stat :: "string \<Rightarrow> stat"

section \<open>assertion.go\<close>

datatype file_message =
    AofExists string
  | AofEmpty
  | ReadingCommands string
  | DecodedCommand "string list"
  | ExpectedCommandsAre
  | FoundCommandsAre
  | NumberedCommand nat "string list"
  | FoundCommand "string list"
  | ManifestContains string
  | DirAbsent string
  | DirPresent string

datatype file_error =
    CannotRead string
  | NotEmpty
  | BadCommands decode_error
  | WrongCommandCount nat nat
  | OtherCommand nat "string list" "string list"
  | CannotScan string
  | NoManifestLine string
  | DirUnexpected string
  | FileUnexpected string
  | NotADir string
  | NoDir string
  | CannotStat string

definition DEBUG :: string where "DEBUG = ''DEBUG''"
definition INFO :: string where "INFO = ''INFO''"
definition SUCCESS :: string where "SUCCESS = ''SUCCESS''"
definition ERRORLOG :: string where "ERRORLOG = ''ERROR''"

lemmas log_types = DEBUG_def INFO_def SUCCESS_def ERRORLOG_def

record FilesystemAssertionLog =
  LogType :: string
  Message :: file_message

definition valid_log_type :: "string \<Rightarrow> bool" where
  "valid_log_type t \<longleftrightarrow> t \<in> set [DEBUG, INFO, SUCCESS, ERRORLOG]"

text \<open>Every caller passes one of the four types; another one is a panic.\<close>

definition NewFilesystemAssertionLog :: "string \<Rightarrow> file_message \<Rightarrow> FilesystemAssertionLog option" where
  "NewFilesystemAssertionLog t m = (if \<not> valid_log_type t then None else Some \<lparr>LogType = t, Message = m\<rparr>)"

abbreviation log_of :: "string \<Rightarrow> file_message \<Rightarrow> FilesystemAssertionLog" where
  "log_of t m \<equiv> the (NewFilesystemAssertionLog t m)"

record FilesystemAssertionResult =
  Logs :: "FilesystemAssertionLog list"
  Err :: "file_error option"

definition result :: "FilesystemAssertionLog list \<Rightarrow> file_error option \<Rightarrow> FilesystemAssertionResult" where
  "result ls e = \<lparr>Logs = ls, Err = e\<rparr>"

lemma result_fields [simp]: "Logs (result ls e) = ls" "Err (result ls e) = e"
  by (simp_all add: result_def)

type_synonym FilesystemAssertion = "filesystem \<Rightarrow> FilesystemAssertionResult option"

section \<open>Directories\<close>

definition DirExistsAssertion :: "string \<Rightarrow> FilesystemAssertion" where
  "DirExistsAssertion path fs =
     (if path = [] then None
      else Some (case Stat fs path of
                   IsDir \<Rightarrow> result [log_of SUCCESS (DirPresent path)] None
                 | IsFile \<Rightarrow> result [] (Some (NotADir path))
                 | NotExist \<Rightarrow> result [] (Some (NoDir path))
                 | StatError \<Rightarrow> result [] (Some (CannotStat path))))"

definition DirDoesNotExistAssertion :: "string \<Rightarrow> FilesystemAssertion" where
  "DirDoesNotExistAssertion path fs =
     (if path = [] then None
      else Some (case Stat fs path of
                   NotExist \<Rightarrow> result [log_of SUCCESS (DirAbsent path)] None
                 | StatError \<Rightarrow> result [] (Some (CannotStat path))
                 | IsDir \<Rightarrow> result [] (Some (DirUnexpected path))
                 | IsFile \<Rightarrow> result [] (Some (FileUnexpected path))))"

section \<open>The manifest\<close>

text \<open>
  \<open>bufio.Scanner\<close>: lines without their line feed and a carriage return before it; a line feed at
  the end starts no further line, and a line that fills the buffer of 65536 bytes is an error.
\<close>

definition drop_CR :: "string \<Rightarrow> string" where
  "drop_CR l = (if l \<noteq> [] \<and> last l = CR then butlast l else l)"

definition file_lines :: "string \<Rightarrow> string list" where
  "file_lines d = (let ls = Split LF d in if last ls = [] then butlast ls else ls)"

definition scan_lines :: "string \<Rightarrow> string list option" where
  "scan_lines d =
     (if list_ex (\<lambda>l. 65536 \<le> length l) (file_lines d) then None else Some (map drop_CR (file_lines d)))"

definition manifest_line :: "string \<Rightarrow> string" where
  "manifest_line base = ''file '' @ base @ '' seq 1 type i''"

definition AofManifestFileAssertion :: "string \<Rightarrow> string \<Rightarrow> FilesystemAssertion" where
  "AofManifestFileAssertion path base fs =
     (if path = [] \<or> base = [] then None
      else Some (case ReadFile fs path of
                   None \<Rightarrow> result [] (Some (CannotRead path))
                 | Some contents \<Rightarrow>
                     (case scan_lines contents of
                        None \<Rightarrow> result [] (Some (CannotScan path))
                      | Some foundLines \<Rightarrow>
                          if list_ex (\<lambda>l. Contains l (manifest_line base)) foundLines
                          then result [log_of SUCCESS (ManifestContains base)] None
                          else result [] (Some (NoManifestLine base)))))"

section \<open>The append-only file\<close>

text \<open>Whether the case of no expected command settles the result, and with which error.\<close>

definition assertEmptyAofFileCase :: "string list list \<Rightarrow> string \<Rightarrow> bool \<times> file_error option" where
  "assertEmptyAofFileCase expected contents =
     (if expected \<noteq> [] then (False, None)
      else if contents \<noteq> [] then (True, Some NotEmpty)
      else (True, None))"

definition removeSelectCommandFromDecodedCommands :: "string list list \<Rightarrow> string list list" where
  "removeSelectCommandFromDecodedCommands cs = (if cs \<noteq> [] \<and> hd cs = [''SELECT'', ''0''] then tl cs else cs)"

definition numbered :: "string \<Rightarrow> string list list \<Rightarrow> FilesystemAssertionLog list" where
  "numbered t cs = map (\<lambda>(i, c). log_of t (NumberedCommand (i + 1) c)) (enumerate 0 cs)"

definition assertCommandsArrayLength ::
  "string list list \<Rightarrow> string list list \<Rightarrow> FilesystemAssertionLog list \<times> file_error option"
where
  "assertCommandsArrayLength expected decoded =
     (if length decoded = length expected then ([], None)
      else (log_of SUCCESS ExpectedCommandsAre # numbered SUCCESS expected
              @ log_of ERRORLOG FoundCommandsAre # numbered ERRORLOG decoded,
            Some (WrongCommandCount (length expected) (length decoded))))"

fun assertCommandsPosition ::
  "nat \<Rightarrow> string list list \<Rightarrow> string list list \<Rightarrow> FilesystemAssertionLog list \<Rightarrow>
    FilesystemAssertionLog list \<times> file_error option"
where
  "assertCommandsPosition i (e # es) (f # fs) ls =
     (if f \<noteq> e then (ls, Some (OtherCommand (i + 1) e f))
      else assertCommandsPosition (i + 1) es fs (ls @ [log_of SUCCESS (FoundCommand f)]))"
| "assertCommandsPosition i _ _ ls = (ls, None)"

definition AofAppendOnlyFileAssertion :: "string \<Rightarrow> string list list \<Rightarrow> FilesystemAssertion" where
  "AofAppendOnlyFileAssertion path expected fs =
     (if path = [] then None
      else Some (case ReadFile fs path of
        None \<Rightarrow> result [] (Some (CannotRead path))
      | Some contents \<Rightarrow>
          let ls = [log_of SUCCESS (AofExists path)];
              (settled, err) = assertEmptyAofFileCase expected contents
          in if settled then result (if err = None then ls @ [log_of SUCCESS AofEmpty] else ls) err
             else let ls = ls @ [log_of INFO (ReadingCommands path)];
                      (decoded, derr) = DecodeCommandsFromAppendOnlyFile contents
                  in case derr of
                       Some e \<Rightarrow> result (ls @ map (log_of INFO \<circ> DecodedCommand) decoded) (Some (BadCommands e))
                     | None \<Rightarrow>
                         let decoded = removeSelectCommandFromDecodedCommands decoded;
                             (ls1, err) = assertCommandsArrayLength expected decoded
                         in if err \<noteq> None then result (ls @ ls1) err
                            else let (ls2, err) = assertCommandsPosition 0 expected decoded []
                                 in result (ls @ ls2) err))"

section \<open>filesystem_asserter.go\<close>

text \<open>
  An assertion is tried on what the file system is at each attempt, until it succeeds or the
  deadline has passed; the list holds the attempts up to the deadline, at least one.
\<close>

fun runAssertionUntilSuccessOrTimeout ::
  "FilesystemAssertion \<Rightarrow> filesystem list \<Rightarrow> FilesystemAssertionResult option"
where
  "runAssertionUntilSuccessOrTimeout a [] = None"
| "runAssertionUntilSuccessOrTimeout a (fs # rest) =
     (case a fs of
        None \<Rightarrow> None
      | Some r \<Rightarrow>
          if Err r = None \<or> rest = [] then Some r else runAssertionUntilSuccessOrTimeout a rest)"

text \<open>Every assertion has a goroutine of its own and fills its place in the slice of outcomes.\<close>

definition runAssertionsConcurrently ::
  "FilesystemAssertion list \<Rightarrow> filesystem list list \<Rightarrow> FilesystemAssertionResult list option"
where
  "runAssertionsConcurrently as views =
     those (map (\<lambda>(a, v). runAssertionUntilSuccessOrTimeout a v) (zip as views))"

text \<open>The order in which the logs are written: those of the assertions that passed come first.\<close>

definition logAssertionResultLogs :: "FilesystemAssertionResult list \<Rightarrow> FilesystemAssertionLog list" where
  "logAssertionResultLogs outcomes =
     concat (map Logs (filter (\<lambda>r. Err r = None) outcomes))
     @ concat (map Logs (filter (\<lambda>r. Err r \<noteq> None) outcomes))"

definition firstAssertionErrorInOrder :: "FilesystemAssertionResult list \<Rightarrow> file_error option" where
  "firstAssertionErrorInOrder outcomes =
     (case find (\<lambda>r. Err r \<noteq> None) outcomes of None \<Rightarrow> None | Some r \<Rightarrow> Err r)"

definition RunAssertions ::
  "int \<Rightarrow> FilesystemAssertion list \<Rightarrow> filesystem list list \<Rightarrow>
    (FilesystemAssertionLog list \<times> file_error option) option"
where
  "RunAssertions timeout as views =
     (if timeout = 0 then None
      else map_option (\<lambda>outcomes. (logAssertionResultLogs outcomes, firstAssertionErrorInOrder outcomes))
             (runAssertionsConcurrently as views))"

text \<open>The default timeout is two seconds.\<close>

definition NewFilesystemAsserter_timeout :: int where
  "NewFilesystemAsserter_timeout = 2000000000"

end
