(* ===== verification/File_Properties.thy ===== *)
theory File_Properties
  imports File_Assertions Codec_Properties Server
begin

text \<open>
  The tester's file assertions against the files the repository's server writes: the append-only
  file after any sequence of commands, and the manifest \<open>main\<close> creates.
\<close>

section \<open>Positions\<close>

lemma assertCommandsPosition_iff:
  "length es = length fs \<Longrightarrow> snd (assertCommandsPosition i es fs ls) = None \<longleftrightarrow> es = fs"
  by (induction i es fs ls rule: assertCommandsPosition.induct) auto

lemma AofAppendOnlyFile_iff:
  assumes "path \<noteq> []" "ReadFile fs path = Some (concat (map resp_array cs))" "\<forall>c \<in> set cs. command_ok c"
  shows "\<exists>r. AofAppendOnlyFileAssertion path expected fs = Some r \<and>
    (Err r = None \<longleftrightarrow> (if expected = [] then cs = [] else removeSelectCommandFromDecodedCommands cs = expected))"
proof (cases "expected = []")
  case True
  have "concat (map resp_array cs) = [] \<longleftrightarrow> cs = []"
    by (cases cs) (simp_all add: resp_array_def)
  with True assms show ?thesis
    by (simp add: AofAppendOnlyFileAssertion_def assertEmptyAofFileCase_def)
next
  case False
  have dec: "DecodeCommandsFromAppendOnlyFile (concat (map resp_array cs)) = (cs, None)"
    using decode_commands_appended[OF assms(3) order.refl, of "[]"] by (simp add: DecodeCommandsFromAppendOnlyFile_def)
  let ?cs = "removeSelectCommandFromDecodedCommands cs"
  show ?thesis
  proof (cases "length ?cs = length expected")
    case True
    have "snd (assertCommandsPosition 0 expected ?cs []) = None \<longleftrightarrow> expected = ?cs"
      using True by (intro assertCommandsPosition_iff) simp
    with True False assms(1,2) dec show ?thesis
      by (auto simp: AofAppendOnlyFileAssertion_def assertEmptyAofFileCase_def assertCommandsArrayLength_def split: prod.splits)
  next
    case len: False
    then have "?cs \<noteq> expected" by auto
    with len False assms(1,2) dec show ?thesis
      by (simp add: AofAppendOnlyFileAssertion_def assertEmptyAofFileCase_def assertCommandsArrayLength_def Let_def)
  qed
qed

lemma Split_no_sep: "sep \<notin> set l \<Longrightarrow> Split sep (l @ sep # d) = l # Split sep d"
  by (induction l) auto

lemma manifest_lines:
  assumes "LF \<notin> set name" "length name < 65000"
  shows "scan_lines (manifest_content name) = Some [manifest_line name]"
proof -
  have "LF \<notin> set (manifest_line name)" using assms(1) by (simp add: manifest_line_def)
  from Split_no_sep[OF this, of "[]"] have "file_lines (manifest_content name) = [manifest_line name]"
    by (simp add: file_lines_def manifest_content_def manifest_line_def)
  moreover have "drop_CR (manifest_line name) = manifest_line name" by (simp add: drop_CR_def manifest_line_def)
  moreover have "length (manifest_line name) < 65536" using assms(2) by (simp add: manifest_line_def)
  ultimately show ?thesis by (simp add: scan_lines_def)
qed

lemma Contains_self: "Contains l l"
  by (cases l) (simp_all add: HasPrefix_def Contains.simps)

text \<open>The fields of a line whose words have no white space.\<close>

lemma fields_from_word:
  "\<forall>ch \<in> set w. graphic ch \<Longrightarrow> cur @ w \<noteq> [] \<Longrightarrow> fields_from cur (w @ CHR '' '' # rest) = (cur @ w) # Fields rest"
proof (induction w arbitrary: cur)
  case Nil
  have "find (\<lambda>e. e \<noteq> [] \<and> HasPrefix (CHR '' '' # rest) e) space_encs = Some '' ''"
    by (simp add: space_encs_def HasPrefix_def)
  with Nil show ?case by (simp add: fields_from.simps[of cur] Fields_def)
next
  case (Cons ch w)
  have "find (\<lambda>e. e \<noteq> [] \<and> HasPrefix ((ch # w) @ CHR '' '' # rest) e) space_encs = None"
    unfolding find_None_iff
  proof
    assume "\<exists>e. e \<in> set space_encs \<and> e \<noteq> [] \<and> HasPrefix ((ch # w) @ CHR '' '' # rest) e"
    then obtain e where "e \<in> set space_encs" "e \<noteq> []" "hd e = ch"
      by (auto simp: HasPrefix_def neq_Nil_conv)
    with Cons.prems(1) space_encs_graphic[of e] show False by simp
  qed
  with Cons.IH[of "cur @ [ch]"] Cons.prems show ?case by (simp add: fields_from.simps[of cur])
qed

lemma Fields_word: "\<forall>ch \<in> set w. graphic ch \<Longrightarrow> w \<noteq> [] \<Longrightarrow> Fields (w @ CHR '' '' # rest) = w # Fields rest"
  using fields_from_word[of w "[]" rest] by (simp add: Fields_def)

lemma Contains_end: "Contains (u @ l) l"
  by (induction u) (simp_all add: Contains_self Contains.simps)

lemma manifest_file_content:
  assumes "\<forall>ch \<in> set name. graphic ch" "name \<noteq> []"
  shows "manifest_file (Split LF (manifest_content name)) = name"
proof -
  have "LF \<notin> set (manifest_line name)" using assms(1) graphic_not_LF[of LF] by (auto simp: manifest_line_def)
  from Split_no_sep[OF this, of "[]"] have "Split LF (manifest_content name) = [manifest_line name, []]"
    by (simp add: manifest_content_def manifest_line_def)
  moreover have "Contains (manifest_line name) ''type i''"
    using Contains_end[of "''file '' @ name @ '' seq 1 ''" "''type i''"] by (simp add: manifest_line_def)
  moreover have "Fields (manifest_line name) = ''file'' # name # Fields ''seq 1 type i''"
    using Fields_word[of "''file''" "name @ CHR '' '' # ''seq 1 type i''"] Fields_word[of name "''seq 1 type i''"] assms
    by (simp add: manifest_line_def graphic_def)
  ultimately show ?thesis by simp
qed

section \<open>Properties\<close>

text \<open>
  C28: The tester's assertion on the append-only file, run on the file a server wrote that started with
  an empty one, accepts exactly the commands that were appended, in order (no command at all when
  none is expected); a first \<open>SELECT 0\<close> does not count.
\<close>

theorem server_aof_accepted:
  assumes "AofFile s = Some \<lparr>written = [], budget = None\<rparr>" "\<forall>c \<in> set cs. command_ok c" "path \<noteq> []"
    "ReadFile fs path = map_option written (AofFile (fold AppendToAof cs s))"
  shows "\<exists>r. AofAppendOnlyFileAssertion path expected fs = Some r \<and>
    (Err r = None \<longleftrightarrow> (if expected = [] then cs = [] else removeSelectCommandFromDecodedCommands cs = expected))"
proof (rule AofAppendOnlyFile_iff[OF assms(3) _ assms(2)])
  show "ReadFile fs path = Some (concat (map resp_array cs))"
    using fold_AppendToAof[OF assms(1)] assms(4) by simp
qed

lemma server_aof_accepted_example:
  "\<exists>r. AofAppendOnlyFileAssertion ''/aof'' [[''SET'', ''k'', ''v'']]
      \<lparr>ReadFile = \<lambda>_. map_option written (AofFile (fold AppendToAof [[''SET'', ''k'', ''v'']]
          ((empty_server (\<lambda>_. undefined) 0)\<lparr>AofFile := Some \<lparr>written = [], budget = None\<rparr>\<rparr>))),
       Stat = \<lambda>_. IsFile\<rparr> = Some r \<and> Err r = None"
  using server_aof_accepted[of "(empty_server (\<lambda>_. undefined) 0)\<lparr>AofFile := Some \<lparr>written = [], budget = None\<rparr>\<rparr>"
      "[[''SET'', ''k'', ''v'']]" "''/aof''"
      "\<lparr>ReadFile = \<lambda>_. map_option written (AofFile (fold AppendToAof [[''SET'', ''k'', ''v'']]
          ((empty_server (\<lambda>_. undefined) 0)\<lparr>AofFile := Some \<lparr>written = [], budget = None\<rparr>\<rparr>))),
       Stat = \<lambda>_. IsFile\<rparr>" "[[''SET'', ''k'', ''v'']]"]
  by (simp add: command_ok_def in_i64_def removeSelectCommandFromDecodedCommands_def)

text \<open>
  The manifest \<open>main\<close> writes when there is none names the active file in the way the tester's
  assertion looks for it, and the server itself finds that file in it at the next start.
\<close>

lemma server_manifest_accepted:
  assumes "choose_aof appendfilename None = (name, Some content)" "ReadFile fs path = Some content" "path \<noteq> []"
    "\<forall>ch \<in> set appendfilename. graphic ch" "length appendfilename < 60000"
  shows "(\<exists>r. AofManifestFileAssertion path name fs = Some r \<and> Err r = None) \<and>
    choose_aof appendfilename (Some content) = (name, None)"
proof -
  have n: "name = default_aof appendfilename" "content = manifest_content name"
    using assms(1) by (auto simp: choose_aof_def)
  have "LF \<notin> set name" "length name < 65000" "name \<noteq> []"
    using assms(4,5) graphic_not_LF[of LF] by (auto simp: n(1) default_aof_def)
  moreover have "\<forall>ch \<in> set name. graphic ch" using assms(4) by (auto simp: n(1) default_aof_def graphic_def)
  from manifest_file_content[OF this \<open>name \<noteq> []\<close>] have "choose_aof appendfilename (Some content) = (name, None)"
    using \<open>name \<noteq> []\<close> by (simp add: choose_aof_def n(2))
  ultimately show ?thesis
    using manifest_lines[of name] Contains_self[of "manifest_line name"] assms(2,3) n(2)
    by (simp add: AofManifestFileAssertion_def)
qed

lemma server_manifest_accepted_example:
  "(\<exists>r. AofManifestFileAssertion ''/manifest'' ''a.1.incr.aof''
     \<lparr>ReadFile = \<lambda>_. Some (manifest_content ''a.1.incr.aof''), Stat = \<lambda>_. IsFile\<rparr> = Some r \<and> Err r = None) \<and>
   choose_aof ''a'' (Some (manifest_content ''a.1.incr.aof'')) = (''a.1.incr.aof'', None)"
  by (rule server_manifest_accepted) (simp_all add: choose_aof_def default_aof_def graphic_def)

end
