(* ===== verification/Test_Cases.thy ===== *)
theory Test_Cases
  imports Resp_Connection Resp_Assertions File_Assertions Tester_Sorted_Set Tester_Location Sha256
begin

text \<open>
  The tester's test cases (\<open>redis-tester/internal/test_cases\<close>): scripts over its client connections,
  against a server that is a parameter. A test case takes the state of the bench, the connections
  and the server, and gives its result and the new state; what it logs is left out, and random
  values are arguments.
\<close>

section \<open>The bench\<close>

record 'w bench =
  Clients :: "nat \<Rightarrow> RespConnection"
  clientsSpawned :: nat
  Remote :: 'w

text \<open>
  The other side: whether the program starts with given arguments; whether it accepts a connection,
  or has dialled the tester's own port, with the reads this causes; what it does with bytes that
  arrive on a connection and while time (in nanoseconds) passes, again with the reads caused on
  each connection; and how many reads fit into the two seconds that \<open>ReadValue\<close> waits.
\<close>

record 'w peer =
  Launch :: "string list \<Rightarrow> 'w \<Rightarrow> 'w option"
  Dialled :: "nat \<Rightarrow> 'w \<Rightarrow> ((nat \<Rightarrow> string list) \<times> 'w) option"
  Accept :: "nat \<Rightarrow> 'w \<Rightarrow> 'w option"
  Deliver :: "nat \<Rightarrow> string \<Rightarrow> 'w \<Rightarrow> (nat \<Rightarrow> string list) \<times> 'w"
  Elapse :: "int \<Rightarrow> 'w \<Rightarrow> (nat \<Rightarrow> string list) \<times> 'w"
  Polls :: nat

datatype case_error =
    StartFailed
  | ConnectFailed
  | SendFailed
  | ReadFailed decode_error
  | Mismatch failure
  | ExtraData string
  | Unexpected string
  | NoGroupResponse
  | BadHandshake string
  | FileMismatch file_error

datatype case_result = Passed | Failed case_error | Panicked

type_synonym 'w run = "'w bench \<Rightarrow> case_result \<times> 'w bench"

text \<open>The next step of a test, when the one before passed.\<close>

definition proceed :: "case_result \<times> 'w bench \<Rightarrow> 'w run \<Rightarrow> case_result \<times> 'w bench" where
  "proceed r k = (case r of (Passed, s) \<Rightarrow> k s | _ \<Rightarrow> r)"

lemma proceed_simps [simp]:
  "proceed (Passed, s) k = k s" "proceed (Failed e, s) k = (Failed e, s)" "proceed (Panicked, s) k = (Panicked, s)"
  by (simp_all add: proceed_def)

fun run_all :: "'w run list \<Rightarrow> 'w run" where
  "run_all [] s = (Passed, s)"
| "run_all (t # ts) s = proceed (t s) (run_all ts)"

lemma run_all_append: "run_all (ts @ us) s = proceed (run_all ts s) (run_all us)"
  by (induction ts arbitrary: s) (auto simp: proceed_def split: prod.splits case_result.splits)

text \<open>What the reads that the server causes add to each connection.\<close>

definition absorb :: "(nat \<Rightarrow> string list) \<times> 'w \<Rightarrow> 'w bench \<Rightarrow> 'w bench" where
  "absorb r s =
     s\<lparr>Clients := (\<lambda>e. (Clients s e)\<lparr>net_in := net_in (Clients s e) @ fst r e\<rparr>), Remote := snd r\<rparr>"

definition with_client :: "nat \<Rightarrow> RespConnection \<Rightarrow> 'w bench \<Rightarrow> 'w bench" where
  "with_client i c s = s\<lparr>Clients := (Clients s)(i := c)\<rparr>"

text \<open>Sending: the bytes that were written reach the server.\<close>

definition client_send :: "'w peer \<Rightarrow> nat \<Rightarrow> (bool \<times> RespConnection) option \<Rightarrow> 'w run" where
  "client_send P i r s =
     (case r of
        None \<Rightarrow> (Panicked, s)
      | Some (ok, c) \<Rightarrow>
          let bs = drop (length (written (net_out (Clients s i)))) (written (net_out c))
          in (if ok then Passed else Failed SendFailed, absorb (Deliver P i bs (Remote s)) (with_client i c s)))"

definition sleep :: "'w peer \<Rightarrow> int \<Rightarrow> 'w bench \<Rightarrow> 'w bench" where
  "sleep P d s = absorb (Elapse P d (Remote s)) s"

section \<open>The program and its clients\<close>

text \<open>\<open>redis_executable.go\<close> \<open>Run\<close>, and what the test does with the running program.\<close>

definition run_program :: "'w peer \<Rightarrow> string list \<Rightarrow> 'w run \<Rightarrow> 'w run" where
  "run_program P args k s =
     (case Launch P args (Remote s) of
        None \<Rightarrow> (Failed StartFailed, s)
      | Some w \<Rightarrow> k (s\<lparr>Remote := w\<rparr>))"

definition new_client :: RespConnection where
  "new_client = NewRespConnectionFromConn [] \<lparr>written = [], budget = None\<rparr>"

definition spawnClient :: "'w peer \<Rightarrow> 'w run" where
  "spawnClient P s =
     (case Accept P (clientsSpawned s) (Remote s) of
        None \<Rightarrow> (Failed ConnectFailed, s)
      | Some w \<Rightarrow>
          (Passed, (with_client (clientsSpawned s) new_client s)
                   \<lparr>clientsSpawned := clientsSpawned s + 1, Remote := w\<rparr>))"

definition SpawnClients :: "'w peer \<Rightarrow> nat \<Rightarrow> 'w run" where
  "SpawnClients P n = run_all (replicate n (spawnClient P))"

section \<open>Receiving a value\<close>

definition RunWithoutAssert :: "'w peer \<Rightarrow> nat \<Rightarrow> 'w bench \<Rightarrow> (case_result + Value) \<times> 'w bench" where
  "RunWithoutAssert P i s =
     (case ReadValueWithTimeout (Polls P) (Clients s i) of
        (Inl DecodePanic, c) \<Rightarrow> (Inl Panicked, with_client i c s)
      | (Inl e, c) \<Rightarrow> (Inl (Failed (ReadFailed e)), with_client i c s)
      | (Inr v, c) \<Rightarrow> (Inr v, with_client i c s))"

definition extra_data_check :: "nat \<Rightarrow> 'w run" where
  "extra_data_check i s =
     (let c = ReadIntoBuffer (Clients s i)
      in (if UnreadBuffer c \<noteq> [] then Failed (ExtraData (UnreadBuffer c)) else Passed, with_client i c s))"

definition Assert :: "string RESPAssertion \<Rightarrow> bool \<Rightarrow> Value \<Rightarrow> nat \<Rightarrow> 'w run" where
  "Assert A skip v i s =
     (case snd (A v) of
        Fail f \<Rightarrow> (Failed (Mismatch f), s)
      | Crash \<Rightarrow> (Panicked, s)
      | Pass \<Rightarrow> if skip then (Passed, s) else extra_data_check i s)"

definition ReceiveValueTestCase :: "'w peer \<Rightarrow> string RESPAssertion \<Rightarrow> bool \<Rightarrow> nat \<Rightarrow> 'w run" where
  "ReceiveValueTestCase P A skip i s =
     (case RunWithoutAssert P i s of
        (Inl r, s1) \<Rightarrow> (r, s1)
      | (Inr v, s1) \<Rightarrow> Assert A skip v i s1)"

definition NoResponseTestCase :: "nat \<Rightarrow> 'w run" where
  "NoResponseTestCase i s =
     (let c = ReadIntoBuffer (Clients s i)
      in (if UnreadBuffer c \<noteq> [] then Failed (Unexpected (UnreadBuffer c)) else Passed, with_client i c s))"

section \<open>Sending a command\<close>

record SendCommandTestCase =
  Command :: string
  Args :: "string list"
  Assertion :: "string RESPAssertion"
  ShouldSkipUnreadDataCheck :: bool
  Retries :: nat
  ShouldRetryFunc :: "(Value \<Rightarrow> bool) option"

definition send_command :: "string \<Rightarrow> string list \<Rightarrow> string RESPAssertion \<Rightarrow> SendCommandTestCase" where
  "send_command cmd as A =
     \<lparr>Command = cmd, Args = as, Assertion = A, ShouldSkipUnreadDataCheck = False, Retries = 0, ShouldRetryFunc = None\<rparr>"

text \<open>One attempt: the command, in upper case, and the value that answers it.\<close>

definition attempt :: "'w peer \<Rightarrow> SendCommandTestCase \<Rightarrow> nat \<Rightarrow> 'w bench \<Rightarrow> (case_result + Value) \<times> 'w bench" where
  "attempt P t i s =
     (case client_send P i (SendCommand (ToUpper (Command t)) (Args t) (Clients s i)) s of
        (Passed, s1) \<Rightarrow> RunWithoutAssert P i s1
      | (r, s1) \<Rightarrow> (Inl r, s1))"

text \<open>The attempts: \<open>n\<close> more are left after the next; the last one sleeps as well.\<close>

fun attempts ::
  "'w peer \<Rightarrow> SendCommandTestCase \<Rightarrow> nat \<Rightarrow> nat \<Rightarrow> 'w bench \<Rightarrow> (case_result + Value) \<times> 'w bench"
where
  "attempts P t i n s =
     (case attempt P t i s of
        (Inl r, s1) \<Rightarrow> (Inl r, s1)
      | (Inr v, s1) \<Rightarrow>
          if Retries t = 0 then (Inr v, s1)
          else case ShouldRetryFunc t of
                 None \<Rightarrow> (Inl Panicked, s1)
               | Some retry \<Rightarrow>
                   if \<not> retry v then (Inr v, s1)
                   else let s2 = sleep P 500000000 s1
                        in (case n of 0 \<Rightarrow> (Inr v, s2) | Suc m \<Rightarrow> attempts P t i m s2))"

definition SendCommandTestCase_Run :: "'w peer \<Rightarrow> SendCommandTestCase \<Rightarrow> nat \<Rightarrow> 'w run" where
  "SendCommandTestCase_Run P t i s =
     (case attempts P t i (Retries t) s of
        (Inl r, s1) \<Rightarrow> (r, s1)
      | (Inr v, s1) \<Rightarrow> Assert (Assertion t) (ShouldSkipUnreadDataCheck t) v i s1)"

abbreviation send_case :: "'w peer \<Rightarrow> string \<Rightarrow> string list \<Rightarrow> string RESPAssertion \<Rightarrow> nat \<Rightarrow> 'w run" where
  "send_case P cmd as A \<equiv> SendCommandTestCase_Run P (send_command cmd as A)"

text \<open>A list of commands; an empty one would be an index panic.\<close>

fun command_case :: "'w peer \<Rightarrow> string list \<times> string RESPAssertion \<Rightarrow> nat \<Rightarrow> 'w run" where
  "command_case P ([], A) i s = (Panicked, s)"
| "command_case P (cmd # as, A) i s = send_case P cmd as A i s"

definition MultiCommandTestCase :: "'w peer \<Rightarrow> (string list \<times> string RESPAssertion) list \<Rightarrow> nat \<Rightarrow> 'w run" where
  "MultiCommandTestCase P cwas i = run_all (map (\<lambda>cwa. command_case P cwa i) cwas)"

end
