(* ===== verification/Command_Cases.thy ===== *)
theory Command_Cases
  imports Test_Cases
begin

text \<open>
  The test cases that send one command, or a fixed sequence of commands, and know the answer
  (\<open>redis-tester/internal/test_cases\<close>): users, sorted sets, locations, replication, transactions,
  messages and the append-only file.
\<close>

section \<open>Users\<close>

definition AclWhoamiTestCase :: "'w peer \<Rightarrow> string \<Rightarrow> nat \<Rightarrow> 'w run" where
  "AclWhoamiTestCase P username = send_case P ''ACL'' [''WHOAMI''] (BulkStringAssertion username)"

definition error_prefix :: "string \<Rightarrow> prefix_predicate" where
  "error_prefix p = \<lparr>Prefix = p, PrefixCaseSensitive = True\<rparr>"

definition any_case :: "string \<Rightarrow> substring_predicate" where
  "any_case s = \<lparr>Substring = s, SubstringCaseSensitive = False\<rparr>"

definition AclWhoamiErrorTestCase :: "'w peer \<Rightarrow> string \<Rightarrow> nat \<Rightarrow> 'w run" where
  "AclWhoamiErrorTestCase P beginning =
     send_case P ''ACL'' [''WHOAMI''] (PrefixAndSubstringsAssertion ERROR True (Some (error_prefix beginning)) [])"

definition AclSetuserTestCase :: "'w peer \<Rightarrow> string \<Rightarrow> string list \<Rightarrow> nat \<Rightarrow> 'w run" where
  "AclSetuserTestCase P username passwords =
     send_case P ''ACL'' ([''SETUSER'', username] @ map (\<lambda>p. ''>'' @ p) passwords) (SimpleStringAssertion ''OK'')"

definition AuthTestCase :: "'w peer \<Rightarrow> string \<Rightarrow> string \<Rightarrow> bool \<Rightarrow> nat \<Rightarrow> 'w run" where
  "AuthTestCase P username password success =
     send_case P ''AUTH'' [username, password]
       (if success then SimpleStringAssertion ''OK''
        else PrefixAndSubstringsAssertion ERROR True (Some (error_prefix ''WRONGPASS '')) [])"

text \<open>
  \<open>acl_getuser_test_case.go\<close>: an element of the answer with its assertion and two hooks, here the
  texts they log; inside \<open>Run\<close> each is wrapped in a \<open>MultiAssertion\<close> that has the hooks.
\<close>

definition element_spec ::
  "int \<Rightarrow> string RESPAssertion \<Rightarrow> string option \<Rightarrow> string option
    \<Rightarrow> (string ArrayElementAssertion, string) AssertionSpecification"
where
  "element_spec i A pre success =
     \<lparr>Asserted = \<lparr>Index = i, ElementAssertion = A\<rparr>, PreAssertionHook = pre, AssertionSuccessHook = success\<rparr>"

definition hooked :: "string RESPAssertion \<Rightarrow> string \<Rightarrow> string \<Rightarrow> (string RESPAssertion, string) AssertionSpecification" where
  "hooked A pre success = \<lparr>Asserted = A, PreAssertionHook = Some pre, AssertionSuccessHook = Some success\<rparr>"

definition RunForFlagsTemplateOnly :: "'w peer \<Rightarrow> string \<Rightarrow> nat \<Rightarrow> 'w run" where
  "RunForFlagsTemplateOnly P username =
     send_case P ''ACL'' [''GETUSER'', username]
       (ArrayElementsAssertion
          [element_spec 0 (BulkStringAssertion ''flags'')
             (Some ''checking first element'') (Some ''first element''),
           element_spec 1 (DataTypeAssertion ARRAY)
             (Some ''checking second element'') (Some ''second element'')])"

definition flag_assertions ::
  "string list \<Rightarrow> string list \<Rightarrow> (string ArrayElementAssertion, string) AssertionSpecification list"
where
  "flag_assertions present absent =
     [element_spec 0 (MultiAssertion [hooked (BulkStringAssertion ''flags'') ''checking first element'' ''first element''])
        None None,
      element_spec 1 (MultiAssertion [hooked (DataTypeAssertion ARRAY) ''checking second element'' ''second element''])
        None None,
      element_spec 1
        (MultiAssertion
           (map (\<lambda>f. hooked (BulkStringPresentInArrayAssertion f) (''checking presence of '' @ f) (''present '' @ f)) present
            @ map (\<lambda>f. hooked (BulkStringAbsentFromArrayAssertion f) (''checking absence of '' @ f) (''absent '' @ f)) absent))
        None None]"

definition password_assertions ::
  "string list \<Rightarrow> (string ArrayElementAssertion, string) AssertionSpecification list"
where
  "password_assertions passwords =
     [element_spec 2 (MultiAssertion [hooked (BulkStringAssertion ''passwords'') ''checking third element'' ''third element''])
        None None,
      element_spec 3
        (MultiAssertion [hooked (OrderedBulkStringArrayAssertion (map (\<lambda>p. EncodeToString (Sum256 p)) passwords))
           ''checking hashes'' ''hashes''])
        None None]"

text \<open>A slice that is \<open>nil\<close> asserts nothing; an empty one asserts.\<close>

definition AclGetuserTestCase ::
  "'w peer \<Rightarrow> string \<Rightarrow> string list option \<Rightarrow> string list option \<Rightarrow> string list option \<Rightarrow> nat \<Rightarrow> 'w run"
where
  "AclGetuserTestCase P username present absent passwords =
     (let the_list = case_option [] id;
          flags = (if present \<noteq> None \<or> absent \<noteq> None then flag_assertions (the_list present) (the_list absent) else []);
          pws = (case passwords of None \<Rightarrow> [] | Some ps \<Rightarrow> password_assertions ps)
      in send_case P ''ACL'' [''GETUSER'', username] (ArrayElementsAssertion (flags @ pws)))"

section \<open>Sorted sets\<close>

definition ZaddTestCase :: "'w peer \<Rightarrow> string \<Rightarrow> SortedSetMember \<Rightarrow> int \<Rightarrow> nat \<Rightarrow> 'w run" where
  "ZaddTestCase P key m expected =
     send_case P ''ZADD'' [key, FormatShortest (MemberScore m), MemberName m] (IntegerAssertion expected)"

definition ZrangeTestCase :: "'w peer \<Rightarrow> string \<Rightarrow> int \<Rightarrow> int \<Rightarrow> string list \<Rightarrow> nat \<Rightarrow> 'w run" where
  "ZrangeTestCase P key startIndex endIndex names =
     send_case P ''ZRANGE'' [key, itoa startIndex, itoa endIndex] (OrderedBulkStringArrayAssertion names)"

section \<open>Locations\<close>

definition geoadd_args :: "string \<Rightarrow> Location \<Rightarrow> string list" where
  "geoadd_args key l =
     [key, LongitudeAsRedisCommandArg (LocCoordinates l), LatitudeAsRedisCommandArg (LocCoordinates l), LocName l]"

definition GeoAddTestCase :: "'w peer \<Rightarrow> string \<Rightarrow> Location \<Rightarrow> int \<Rightarrow> nat \<Rightarrow> 'w run" where
  "GeoAddTestCase P key l expected = send_case P ''GEOADD'' (geoadd_args key l) (IntegerAssertion expected)"

definition InvalidGeoAddTestCase :: "'w peer \<Rightarrow> string \<Rightarrow> Location \<Rightarrow> string \<Rightarrow> string \<Rightarrow> nat \<Rightarrow> 'w run" where
  "InvalidGeoAddTestCase P key l beginning part =
     send_case P ''GEOADD'' (geoadd_args key l)
       (PrefixAndSubstringsAssertion ERROR True (Some (error_prefix beginning)) [any_case part])"

text \<open>Computing the expected distance may panic; that is before anything is sent.\<close>

definition GeoDistTestCase :: "gomath \<Rightarrow> 'w peer \<Rightarrow> string \<Rightarrow> Location \<Rightarrow> Location \<Rightarrow> nat \<Rightarrow> 'w run" where
  "GeoDistTestCase M P key l1 l2 i s =
     (case DistanceFrom M (LocCoordinates l1) (LocCoordinates l2) of
        None \<Rightarrow> (Panicked, s)
      | Some distance \<Rightarrow>
          send_case P ''GEODIST'' [key, LocName l1, LocName l2]
            (FloatingPointBulkStringAssertion distance (rnd (1 / 10 ^ 4))) i s)"

definition GeoSearchTestCase :: "'w peer \<Rightarrow> string \<Rightarrow> Coordinates \<Rightarrow> float64 \<Rightarrow> string list \<Rightarrow> nat \<Rightarrow> 'w run" where
  "GeoSearchTestCase P key centre radius names =
     send_case P ''GEOSEARCH''
       [key, ''FROMLONLAT'', LongitudeAsRedisCommandArg centre, LatitudeAsRedisCommandArg centre,
        ''BYRADIUS'', FormatShortest radius, ''m'']
       (UnorderedBulkStringArrayAssertion names)"

text \<open>
  \<open>geopos_test_case.go\<close>. While fixtures are recorded the values are intercepted and numbers printed
  with ten decimals.
\<close>

definition reducePrecisionForBulkString :: "Value \<Rightarrow> Value" where
  "reducePrecisionForBulkString v =
     (if Type v \<noteq> BULK_STRING then v
      else case ParseFloat_ok (vbytes v) of
             None \<Rightarrow> v
           | Some f \<Rightarrow> NewBulkStringValue (FormatFixed 10 f))"

fun reducePrecision :: "Value \<Rightarrow> Value" where
  "reducePrecision (Value t b i a) =
     (if t = ARRAY then NewArrayValue (map reducePrecision a)
      else if t = BULK_STRING then reducePrecisionForBulkString (Value t b i a)
      else Value t b i a)"

definition set_interceptor :: "nat \<Rightarrow> (Value \<Rightarrow> Value) option \<Rightarrow> 'w bench \<Rightarrow> 'w bench" where
  "set_interceptor i f s = with_client i ((Clients s i)\<lparr>ReadValueInterceptor := f\<rparr>) s"

definition position_assertion :: "float64 \<Rightarrow> Location \<Rightarrow> (string \<times> string RESPAssertion) option" where
  "position_assertion tolerance l =
     map_option (\<lambda>c. (LocName l,
         OrderedArrayAssertion [FloatingPointBulkStringAssertion (Longitude c) tolerance,
                                FloatingPointBulkStringAssertion (Latitude c) tolerance]))
       (GetGeoGridCenterCoordinates (LocCoordinates l))"

text \<open>\<open>shuffle\<close> is the tester library's permutation of the assertions.\<close>

definition GeoPosTestCase ::
  "bool \<Rightarrow> ((string \<times> string RESPAssertion) list \<Rightarrow> (string \<times> string RESPAssertion) list) \<Rightarrow> 'w peer \<Rightarrow>
    string \<Rightarrow> Location list \<Rightarrow> string list \<Rightarrow> bool \<Rightarrow> nat \<Rightarrow> 'w run"
where
  "GeoPosTestCase fixtures shuffle P key locations missing skip_coordinates i s =
     (let s0 = (if fixtures then set_interceptor i (Some reducePrecision) s else s);
          tolerance = (if skip_coordinates then PInf else rnd (1 / 10 ^ 6));
          undo = (\<lambda>(r, t). (r, if fixtures then set_interceptor i None t else t))
      in undo (case those (map (position_assertion tolerance) locations) of
                 None \<Rightarrow> (Panicked, s0)
               | Some known \<Rightarrow>
                   let as = shuffle (known @ map (\<lambda>m. (m, NilArrayAssertion)) missing)
                   in send_case P ''GEOPOS'' (key # map fst as) (OrderedArrayAssertion (map snd as)) i s0))"

section \<open>Replication\<close>

definition WaitTestCase :: "'w peer \<Rightarrow> int \<Rightarrow> int \<Rightarrow> int \<Rightarrow> nat \<Rightarrow> 'w run" where
  "WaitTestCase P replicas timeout expected =
     send_case P ''WAIT'' [itoa replicas, itoa timeout] (IntegerAssertion expected)"

definition GetAckTestCase :: "'w peer \<Rightarrow> int \<Rightarrow> nat \<Rightarrow> 'w run" where
  "GetAckTestCase P offset =
     send_case P ''REPLCONF'' [''GETACK'', ''*''] (CommandAssertion ''REPLCONF'' [''ACK'', itoa offset])"

text \<open>The tester as a replica: the steps of the handshake with a master.\<close>

definition SendHandshake_RunPingStep :: "'w peer \<Rightarrow> nat \<Rightarrow> 'w run" where
  "SendHandshake_RunPingStep P = send_case P ''PING'' [] (SimpleStringAssertion ''PONG'')"

definition SendHandshake_RunReplconfStep :: "'w peer \<Rightarrow> int \<Rightarrow> nat \<Rightarrow> 'w run" where
  "SendHandshake_RunReplconfStep P listeningPort i s =
     proceed (send_case P ''REPLCONF'' [''listening-port'', itoa listeningPort] (SimpleStringAssertion ''OK'') i s)
       (send_case P ''REPLCONF'' [''capa'', ''psync2''] (SimpleStringAssertion ''OK'') i)"

text \<open>\<open>FULLRESYNC [A-Za-z0-9]{40} 0\<close>\<close>

definition fullresync_pattern :: regex where
  "fullresync_pattern =
     Seq (map Lit ''FULLRESYNC ''
          @ [Times 40 (Class [(CHR ''A'', CHR ''Z''), (CHR ''a'', CHR ''z''), (CHR ''0'', CHR ''9'')])]
          @ map Lit '' 0'')"

definition SendHandshake_RunPsyncStep :: "'w peer \<Rightarrow> nat \<Rightarrow> 'w run" where
  "SendHandshake_RunPsyncStep P =
     SendCommandTestCase_Run P
       ((send_command ''PSYNC'' [''?'', ''-1'']
           (RegexAssertion SIMPLE_STRING fullresync_pattern ''FULLRESYNC 8371b4fb1155b71f4a04d3e1bc3e18c4a990aeeb 0''))
        \<lparr>ShouldSkipUnreadDataCheck := True\<rparr>)"

text \<open>\<open>rdb_valid\<close> is the parser of a package that reads the file.\<close>

definition SendHandshake_RunReceiveRDBStep :: "(string \<Rightarrow> bool) \<Rightarrow> 'w peer \<Rightarrow> nat \<Rightarrow> 'w run" where
  "SendHandshake_RunReceiveRDBStep rdb_valid P i s =
     (case ReadFullResyncRDBFile (Polls P) (Clients s i) of
        (Inl e, c) \<Rightarrow> (Failed (ReadFailed e), with_client i c s)
      | (Inr contents, c) \<Rightarrow>
          if \<not> rdb_valid contents then (Failed (BadHandshake contents), with_client i c s)
          else extra_data_check i (with_client i c s))"

definition SendHandshake_RunAll :: "(string \<Rightarrow> bool) \<Rightarrow> 'w peer \<Rightarrow> int \<Rightarrow> nat \<Rightarrow> 'w run" where
  "SendHandshake_RunAll rdb_valid P listeningPort i =
     run_all [SendHandshake_RunPingStep P i, SendHandshake_RunReplconfStep P listeningPort i,
              SendHandshake_RunPsyncStep P i, SendHandshake_RunReceiveRDBStep rdb_valid P i]"

text \<open>A command the tester receives, with its answer; and the value that was received.\<close>

definition ReceiveCommandTestCase ::
  "'w peer \<Rightarrow> string RESPAssertion \<Rightarrow> Value \<Rightarrow> bool \<Rightarrow> nat \<Rightarrow> 'w bench \<Rightarrow> (case_result \<times> 'w bench) \<times> Value option"
where
  "ReceiveCommandTestCase P A response skip i s =
     (case RunWithoutAssert P i s of
        (Inl r, s1) \<Rightarrow> ((r, s1), None)
      | (Inr v, s1) \<Rightarrow>
          (proceed (Assert A skip v i s1) (\<lambda>s2. client_send P i (SendValue response (Clients s2 i)) s2), Some v))"

definition ReceiveHandshake_RunPingStep :: "'w peer \<Rightarrow> nat \<Rightarrow> 'w run" where
  "ReceiveHandshake_RunPingStep P i s =
     fst (ReceiveCommandTestCase P (CommandAssertion ''PING'' []) (NewSimpleStringValue ''PONG'') False i s)"

definition ReceiveHandshake_RunReplconfStep1 :: "'w peer \<Rightarrow> nat \<Rightarrow> 'w run" where
  "ReceiveHandshake_RunReplconfStep1 P i s =
     fst (ReceiveCommandTestCase P (CommandAssertion ''REPLCONF'' [''listening-port'', ''6380''])
            (NewSimpleStringValue ''OK'') True i s)"

text \<open>What the second step asks of the capabilities, once the command has been answered.\<close>

definition check_capabilities :: "Value list \<Rightarrow> case_result" where
  "check_capabilities es =
     (if length es < 3 then Failed (BadHandshake ''arguments'')
      else if Type (es ! 1) \<noteq> BULK_STRING then Failed (BadHandshake (Type (es ! 1)))
      else if \<not> EqualFold (vbytes (es ! 1)) ''capa'' then Failed (BadHandshake (vbytes (es ! 1)))
      else if length es = 5 \<and> Type (es ! 3) \<noteq> BULK_STRING then Failed (BadHandshake (Type (es ! 3)))
      else if length es = 5 \<and> \<not> EqualFold (vbytes (es ! 3)) ''capa'' then Failed (BadHandshake (vbytes (es ! 3)))
      else Passed)"

definition ReceiveHandshake_RunReplconfStep2 :: "'w peer \<Rightarrow> nat \<Rightarrow> 'w run" where
  "ReceiveHandshake_RunReplconfStep2 P i s =
     (let (r, v) = ReceiveCommandTestCase P (OnlyCommandAssertion ''REPLCONF'') (NewSimpleStringValue ''OK'') False i s
      in proceed r (\<lambda>s1. (check_capabilities (case v of None \<Rightarrow> [] | Some v \<Rightarrow> Array v), s1)))"

definition ReceiveHandshake_RunPsyncStep :: "'w peer \<Rightarrow> nat \<Rightarrow> 'w run" where
  "ReceiveHandshake_RunPsyncStep P i s =
     fst (ReceiveCommandTestCase P (CommandAssertion ''PSYNC'' [''?'', ''-1''])
            (NewSimpleStringValue ''FULLRESYNC 75cd7bc10c49047e0d163660f3b90625b1af31dc 0'') False i s)"

definition tester_rdb_hex :: string where
  "tester_rdb_hex = ''524544495330303131fa0972656469732d76657205372e322e30fa0a72656469732d62697473c040fa056374696d65c26d08bc65fa08757365642d6d656dc2b0c41000fa08616f662d62617365c000fff06e3bfec0ff5aa2''"

text \<open>The result of sending the file is not looked at.\<close>

definition ReceiveHandshake_RunSendRDBStep :: "'w peer \<Rightarrow> nat \<Rightarrow> 'w run" where
  "ReceiveHandshake_RunSendRDBStep P i s =
     (case DecodeString tester_rdb_hex of
        None \<Rightarrow> (Panicked, s)
      | Some bytes \<Rightarrow>
          (Passed, snd (client_send P i (Some (SendBytes (EncodeFullResyncRDBFile bytes) (Clients s i))) s)))"

definition ReceiveHandshake_RunAll :: "'w peer \<Rightarrow> nat \<Rightarrow> 'w run" where
  "ReceiveHandshake_RunAll P i =
     run_all [ReceiveHandshake_RunPingStep P i, ReceiveHandshake_RunReplconfStep1 P i,
              ReceiveHandshake_RunReplconfStep2 P i, ReceiveHandshake_RunPsyncStep P i,
              ReceiveHandshake_RunSendRDBStep P i]"

section \<open>Transactions\<close>

definition RunMulti :: "'w peer \<Rightarrow> nat \<Rightarrow> 'w run" where
  "RunMulti P = send_case P ''MULTI'' [] (SimpleStringAssertion ''OK'')"

definition RunQueueAll :: "'w peer \<Rightarrow> string list list \<Rightarrow> nat \<Rightarrow> 'w run" where
  "RunQueueAll P queue i = run_all (map (\<lambda>v. command_case P (v, SimpleStringAssertion ''QUEUED'') i) queue)"

text \<open>No expected responses at all: the transaction is expected to have been aborted.\<close>

definition RunExec :: "'w peer \<Rightarrow> string RESPAssertion list option \<Rightarrow> nat \<Rightarrow> 'w run" where
  "RunExec P expected =
     send_case P ''EXEC'' [] (case expected of None \<Rightarrow> NilArrayAssertion | Some as \<Rightarrow> OrderedArrayAssertion as)"

definition RunWithoutExec :: "'w peer \<Rightarrow> string list list \<Rightarrow> nat \<Rightarrow> 'w run" where
  "RunWithoutExec P queue i s = proceed (RunMulti P i s) (RunQueueAll P queue i)"

definition TransactionTestCase_RunAll ::
  "'w peer \<Rightarrow> string list list \<Rightarrow> string RESPAssertion list option \<Rightarrow> nat \<Rightarrow> 'w run"
where
  "TransactionTestCase_RunAll P queue expected i =
     run_all [RunMulti P i, RunQueueAll P queue i, RunExec P expected i]"

definition WatchTestCase :: "'w peer \<Rightarrow> string list \<Rightarrow> bool \<Rightarrow> nat \<Rightarrow> 'w run" where
  "WatchTestCase P keys inside =
     send_case P ''WATCH'' keys
       (if inside
        then PrefixAndSubstringsAssertion ERROR True (Some (error_prefix ''ERR ''))
               (map any_case [''watch'', ''inside multi'', ''not allowed''])
        else SimpleStringAssertion ''OK'')"

section \<open>Messages\<close>

definition PublishTestCase :: "'w peer \<Rightarrow> string \<Rightarrow> string \<Rightarrow> int \<Rightarrow> nat \<Rightarrow> 'w run" where
  "PublishTestCase P channel message expected =
     send_case P ''PUBLISH'' [channel, message] (IntegerAssertion expected)"

definition UnsubscribeTestCase :: "'w peer \<Rightarrow> string \<Rightarrow> int \<Rightarrow> nat \<Rightarrow> 'w run" where
  "UnsubscribeTestCase P channel expected =
     send_case P ''UNSUBSCRIBE'' [channel]
       (OrderedArrayAssertion [BulkStringAssertion ''unsubscribe'', BulkStringAssertion channel, IntegerAssertion expected])"

section \<open>The append-only file\<close>

text \<open>The commands that belong into the file; a command that is none of the three is a panic.\<close>

fun getExpectedCommandsInAppendOnlyFile :: "string list list \<Rightarrow> string list list option" where
  "getExpectedCommandsInAppendOnlyFile [] = Some []"
| "getExpectedCommandsInAppendOnlyFile (c # cs) =
     (if c \<noteq> [] \<and> hd c = ''SET'' then map_option ((#) c) (getExpectedCommandsInAppendOnlyFile cs)
      else if c \<noteq> [] \<and> (hd c = ''GET'' \<or> hd c = ''ECHO'') then getExpectedCommandsInAppendOnlyFile cs
      else None)"

text \<open>\<open>views\<close>: what the file system is at each attempt to read the file.\<close>

definition AofWriteTestCase ::
  "'w peer \<Rightarrow> ('w \<Rightarrow> filesystem list) \<Rightarrow> string \<Rightarrow> (string list \<times> string RESPAssertion) list \<Rightarrow> nat \<Rightarrow> 'w run"
where
  "AofWriteTestCase P views path cwas i s =
     proceed (MultiCommandTestCase P cwas i s)
       (\<lambda>s1. case getExpectedCommandsInAppendOnlyFile (map fst cwas) of
               None \<Rightarrow> (Panicked, s1)
             | Some expected \<Rightarrow>
                 (case RunAssertions NewFilesystemAsserter_timeout [AofAppendOnlyFileAssertion path expected]
                         [views (Remote s1)] of
                    None \<Rightarrow> (Panicked, s1)
                  | Some (_, None) \<Rightarrow> (Passed, s1)
                  | Some (_, Some e) \<Rightarrow> (Failed (FileMismatch e), s1)))"

end
