(* ===== verification/Group_Cases.thy ===== *)
theory Group_Cases
  imports Command_Cases
begin

text \<open>
  The test cases over several connections (\<open>redis-tester/internal/test_cases\<close>): clients that block
  until one of them is served, subscribers of channels, and a watcher whose transaction another
  client may make fail.
\<close>

section \<open>blocking\_client\_group\_test\_case.go\<close>

record BlockingClientGroup =
  CommandToSend :: "string list"
  AssertionForReceivedResponse :: "string RESPAssertion"
  ResponseExpectingClientsCount :: int
  GroupClients :: "nat list"

definition SendBlockingCommands :: "'w peer \<Rightarrow> BlockingClientGroup \<Rightarrow> 'w run" where
  "SendBlockingCommands P t s =
     (case CommandToSend t of
        [] \<Rightarrow> (Panicked, s)
      | command # args \<Rightarrow>
          proceed (run_all (map (\<lambda>i s. client_send P i (SendCommand command args (Clients s i)) s) (GroupClients t)) s)
            (\<lambda>s1. (Passed, sleep P 1000000 s1)))"

text \<open>
  One pass of \<open>expectClientResponses\<close> over the clients not served yet: the clients still to look at
  and those passed over in it. The flag tells that the expected number has been reached.
\<close>

fun expect_pass ::
  "'w peer \<Rightarrow> BlockingClientGroup \<Rightarrow> nat list \<Rightarrow> nat list \<Rightarrow> int \<Rightarrow> 'w bench
    \<Rightarrow> (case_result \<times> bool \<times> nat list \<times> int) \<times> 'w bench"
where
  "expect_pass P t [] kept received s = ((Passed, False, kept, received), s)"
| "expect_pass P t (i # rest) kept received s =
     (let s1 = with_client i (ReadIntoBuffer (Clients s i)) s
      in if UnreadBuffer (Clients s1 i) = [] then expect_pass P t rest (kept @ [i]) received s1
         else case ReceiveValueTestCase P (AssertionForReceivedResponse t) False i s1 of
                (Passed, s2) \<Rightarrow>
                  if received + 1 = ResponseExpectingClientsCount t
                  then ((Passed, True, kept @ rest, received + 1), s2)
                  else expect_pass P t rest kept (received + 1) s2
              | (r, s2) \<Rightarrow> ((r, False, kept @ rest, received), s2))"

text \<open>
  The passes that fit into the two seconds the caller waits; it gives up as well when the loop ends
  without having told it anything, as it does when no response is expected.
\<close>

fun expectClientResponses ::
  "'w peer \<Rightarrow> BlockingClientGroup \<Rightarrow> nat \<Rightarrow> nat list \<Rightarrow> int \<Rightarrow> 'w bench \<Rightarrow> (case_result \<times> nat list) \<times> 'w bench"
where
  "expectClientResponses P t 0 todo received s = ((Failed NoGroupResponse, todo), s)"
| "expectClientResponses P t (Suc n) todo received s =
     (if ResponseExpectingClientsCount t \<le> received then ((Failed NoGroupResponse, todo), s)
      else case expect_pass P t todo [] received s of
             ((Passed, True, rest, _), s1) \<Rightarrow> ((Passed, rest), s1)
           | ((Passed, False, rest, received'), s1) \<Rightarrow> expectClientResponses P t n rest received' s1
           | ((r, _, rest, _), s1) \<Rightarrow> ((r, rest), s1))"

text \<open>\<open>n\<close> is that number of passes. The list of clients is built from the front, so it is reversed.\<close>

definition AssertResponses :: "'w peer \<Rightarrow> nat \<Rightarrow> BlockingClientGroup \<Rightarrow> 'w run" where
  "AssertResponses P n t s =
     (case expectClientResponses P t n (rev (GroupClients t)) 0 s of
        ((Passed, rest), s1) \<Rightarrow> run_all (map NoResponseTestCase rest) (sleep P 1000000 s1)
      | ((r, _), s1) \<Rightarrow> (r, s1))"

section \<open>subscriber\_group\_test\_case.go\<close>

record subscriber =
  SubClient :: nat
  Channels :: "string list"

fun AddSubscription :: "nat \<Rightarrow> string \<Rightarrow> subscriber list \<Rightarrow> subscriber list" where
  "AddSubscription c channel [] = [\<lparr>SubClient = c, Channels = [channel]\<rparr>]"
| "AddSubscription c channel (x # xs) =
     (if SubClient x = c
      then (if channel \<in> set (Channels x) then x else x\<lparr>Channels := Channels x @ [channel]\<rparr>) # xs
      else x # AddSubscription c channel xs)"

fun RemoveSubscription :: "nat \<Rightarrow> string \<Rightarrow> subscriber list \<Rightarrow> subscriber list" where
  "RemoveSubscription c channel [] = []"
| "RemoveSubscription c channel (x # xs) =
     (if SubClient x = c
      then (if channel \<notin> set (Channels x) then x # xs
            else let cs = remove1 channel (Channels x)
                 in if cs = [] then xs else x\<lparr>Channels := cs\<rparr> # xs)
      else x # RemoveSubscription c channel xs)"

definition GetSubscriberCount :: "string \<Rightarrow> subscriber list \<Rightarrow> int" where
  "GetSubscriberCount channel xs = int (length (filter (\<lambda>x. channel \<in> set (Channels x)) xs))"

definition RunSubscribe :: "'w peer \<Rightarrow> subscriber list \<Rightarrow> 'w run" where
  "RunSubscribe P xs =
     run_all (map (\<lambda>x. MultiCommandTestCase P
         (map (\<lambda>(i, channel). ([''SUBSCRIBE'', channel], SubscribeResponseAssertion channel (int i + 1)))
            (enumerate 0 (Channels x)))
         (SubClient x)) xs)"

definition RunAssertionForPublishedMessage :: "'w peer \<Rightarrow> string \<Rightarrow> string \<Rightarrow> subscriber list \<Rightarrow> 'w run" where
  "RunAssertionForPublishedMessage P channel message xs =
     run_all (map (\<lambda>x. if channel \<in> set (Channels x)
                       then ReceiveValueTestCase P (PublishedMessageAssertion channel message) False (SubClient x)
                       else NoResponseTestCase (SubClient x)) xs)"

section \<open>optimistic\_locking\_test\_case.go\<close>

text \<open>The last four fields are what the steps leave for the later ones.\<close>

record OptimisticLocking =
  WatcherClient :: nat
  ModifierClient :: nat
  InitialKeys :: "string list"
  KeysWatchedByWatcherClient :: "string list"
  KeyToBeModifiedByWatcherClientInTransaction :: string
  KeyToBeModifiedByModifierClient :: string
  initialValues :: "int list"
  valueSetInTransaction :: int
  valueSetByModifierClient :: int
  expectedResponses :: "string RESPAssertion list option"

definition new_locking :: "nat \<Rightarrow> nat \<Rightarrow> string list \<Rightarrow> string list \<Rightarrow> string \<Rightarrow> string \<Rightarrow> OptimisticLocking" where
  "new_locking watcher modifier initial watched in_transaction by_modifier =
     \<lparr>WatcherClient = watcher, ModifierClient = modifier, InitialKeys = initial,
      KeysWatchedByWatcherClient = watched, KeyToBeModifiedByWatcherClientInTransaction = in_transaction,
      KeyToBeModifiedByModifierClient = by_modifier, initialValues = [], valueSetInTransaction = 0,
      valueSetByModifierClient = 0, expectedResponses = None\<rparr>"

definition doesTransactionFail :: "OptimisticLocking \<Rightarrow> bool" where
  "doesTransactionFail t \<longleftrightarrow> KeyToBeModifiedByModifierClient t \<in> set (KeysWatchedByWatcherClient t)"

definition ResetWatchedKeys :: "OptimisticLocking \<Rightarrow> OptimisticLocking" where
  "ResetWatchedKeys t = t\<lparr>KeysWatchedByWatcherClient := []\<rparr>"

text \<open>The steps; what a step stores is stored before its commands are sent.\<close>

definition store_initial :: "int list \<Rightarrow> OptimisticLocking \<Rightarrow> OptimisticLocking" where
  "store_initial values t = t\<lparr>initialValues := values\<rparr>"

definition RunSetInitialKeys :: "'w peer \<Rightarrow> OptimisticLocking \<Rightarrow> 'w run" where
  "RunSetInitialKeys P t =
     MultiCommandTestCase P
       (map (\<lambda>(k, v). ([''SET'', k, itoa v], SimpleStringAssertion ''OK'')) (zip (InitialKeys t) (initialValues t)))
       (WatcherClient t)"

definition RunWatchKeys :: "'w peer \<Rightarrow> OptimisticLocking \<Rightarrow> 'w run" where
  "RunWatchKeys P t = WatchTestCase P (KeysWatchedByWatcherClient t) False (WatcherClient t)"

definition store_transaction :: "int \<Rightarrow> OptimisticLocking \<Rightarrow> OptimisticLocking" where
  "store_transaction v t =
     t\<lparr>valueSetInTransaction := v,
       expectedResponses := (if doesTransactionFail t then None else Some [SimpleStringAssertion ''OK''])\<rparr>"

definition RunTransactionWithoutExec :: "'w peer \<Rightarrow> OptimisticLocking \<Rightarrow> 'w run" where
  "RunTransactionWithoutExec P t =
     RunWithoutExec P [[''SET'', KeyToBeModifiedByWatcherClientInTransaction t, itoa (valueSetInTransaction t)]]
       (WatcherClient t)"

definition store_modifier :: "int \<Rightarrow> OptimisticLocking \<Rightarrow> OptimisticLocking" where
  "store_modifier v t = t\<lparr>valueSetByModifierClient := v\<rparr>"

definition RunSetKeyUsingModifierClient :: "'w peer \<Rightarrow> OptimisticLocking \<Rightarrow> 'w run" where
  "RunSetKeyUsingModifierClient P t =
     send_case P ''SET'' [KeyToBeModifiedByModifierClient t, itoa (valueSetByModifierClient t)]
       (SimpleStringAssertion ''OK'') (ModifierClient t)"

definition OptimisticLocking_RunExec :: "'w peer \<Rightarrow> OptimisticLocking \<Rightarrow> 'w run" where
  "OptimisticLocking_RunExec P t = RunExec P (expectedResponses t) (WatcherClient t)"

definition RunUnwatch :: "'w peer \<Rightarrow> OptimisticLocking \<Rightarrow> 'w run" where
  "RunUnwatch P t = send_case P ''UNWATCH'' [] (SimpleStringAssertion ''OK'') (WatcherClient t)"

definition RunDiscardTransaction :: "'w peer \<Rightarrow> OptimisticLocking \<Rightarrow> 'w run" where
  "RunDiscardTransaction P t = send_case P ''DISCARD'' [] (SimpleStringAssertion ''OK'') (WatcherClient t)"

text \<open>The value the key must have in the end; \<open>None\<close> is a panic.\<close>

definition expected_value :: "OptimisticLocking \<Rightarrow> int option" where
  "expected_value t =
     (if \<not> doesTransactionFail t then Some (valueSetInTransaction t)
      else if KeyToBeModifiedByModifierClient t = KeyToBeModifiedByWatcherClientInTransaction t
      then Some (valueSetByModifierClient t)
      else case find_index (\<lambda>k. k = KeyToBeModifiedByWatcherClientInTransaction t) (InitialKeys t) of
             None \<Rightarrow> None
           | Some i \<Rightarrow> (if i < length (initialValues t) then Some (initialValues t ! i) else None))"

definition RunValueCheckOfKeyModifiedInTransaction :: "'w peer \<Rightarrow> OptimisticLocking \<Rightarrow> 'w run" where
  "RunValueCheckOfKeyModifiedInTransaction P t s =
     (case expected_value t of
        None \<Rightarrow> (Panicked, s)
      | Some v \<Rightarrow>
          send_case P ''GET'' [KeyToBeModifiedByWatcherClientInTransaction t] (BulkStringAssertion (itoa v))
            (WatcherClient t) s)"

text \<open>
  The whole sequence. The random values are arguments: the initial ones, the one of the transaction
  and the modifier's.
\<close>

definition OptimisticLocking_store :: "int list \<Rightarrow> int \<Rightarrow> int \<Rightarrow> OptimisticLocking \<Rightarrow> OptimisticLocking" where
  "OptimisticLocking_store initial in_transaction by_modifier t =
     store_modifier by_modifier (store_transaction in_transaction (store_initial initial t))"

definition OptimisticLocking_Run :: "'w peer \<Rightarrow> OptimisticLocking \<Rightarrow> 'w run" where
  "OptimisticLocking_Run P t =
     run_all [RunSetInitialKeys P t, RunWatchKeys P t, RunTransactionWithoutExec P t,
              RunSetKeyUsingModifierClient P t, OptimisticLocking_RunExec P t,
              RunValueCheckOfKeyModifiedInTransaction P t]"

end
