(* ===== verification/Tester_Stages.thy ===== *)
theory Tester_Stages
  imports Group_Cases
begin

text \<open>
  The tester's stages for what the repository's server implements: the basics, lists, sorted sets,
  locations and users (\<open>redis-tester/internal/test\_*.go\<close>). Every stage starts the program;
  its random choices are arguments, and what it does to its own directories is left out.
\<close>

section \<open>Clients and random names\<close>

definition one_client :: "'w peer \<Rightarrow> (nat \<Rightarrow> 'w run) \<Rightarrow> 'w run" where
  "one_client P k s = proceed (spawnClient P s) (k (clientsSpawned s))"

definition some_clients :: "'w peer \<Rightarrow> nat \<Rightarrow> (nat list \<Rightarrow> 'w run) \<Rightarrow> 'w run" where
  "some_clients P n k s = proceed (SpawnClients P n s) (k [clientsSpawned s ..< clientsSpawned s + n])"

definition missing_key :: "int \<Rightarrow> string" where
  "missing_key n = ''missing_key_'' @ itoa n"

definition missing_member :: "int \<Rightarrow> string" where
  "missing_member n = ''missing_member_'' @ itoa n"

section \<open>Basics\<close>

definition runPing :: "'w peer \<Rightarrow> nat \<Rightarrow> 'w run" where
  "runPing P = send_case P ''ping'' [] (SimpleStringAssertion ''PONG'')"

definition testPingPongOnce :: "'w peer \<Rightarrow> 'w run" where
  "testPingPongOnce P =
     run_program P []
       (one_client P (\<lambda>c. send_case P ''ping'' [] (SimpleStringAssertion ''PONG'') c))"

definition testPingPongMultiple :: "'w peer \<Rightarrow> 'w run" where
  "testPingPongMultiple P =
     run_program P [] (one_client P (\<lambda>c. run_all (replicate 3 (runPing P c))))"

definition testPingPongConcurrent :: "'w peer \<Rightarrow> 'w run" where
  "testPingPongConcurrent P =
     run_program P []
       (one_client P (\<lambda>c1 s. proceed (runPing P c1 s)
         (one_client P (\<lambda>c2 s. proceed (run_all [runPing P c2, runPing P c1, runPing P c1, runPing P c2] s)
           (one_client P (runPing P))))))"

definition testEcho :: "'w peer \<Rightarrow> string \<Rightarrow> 'w run" where
  "testEcho P word =
     run_program P []
       (one_client P (\<lambda>c. send_case P ''echo'' [word] (BulkStringAssertion word) c))"

definition testGetSet :: "'w peer \<Rightarrow> string \<Rightarrow> string \<Rightarrow> 'w run" where
  "testGetSet P key val =
     run_program P []
       (one_client P (\<lambda>c. run_all
         [send_case P ''set'' [key, val] (SimpleStringAssertion ''OK'') c,
          send_case P ''get'' [key] (BulkStringAssertion val) c]))"

definition testExpiry :: "'w peer \<Rightarrow> string \<Rightarrow> string \<Rightarrow> 'w run" where
  "testExpiry P key val =
     run_program P []
       (one_client P (\<lambda>c. run_all
         [send_case P ''set'' [key, val, ''PX'', ''100''] (SimpleStringAssertion ''OK'') c,
          send_case P ''get'' [key] (BulkStringAssertion val) c,
          \<lambda>s. (Passed, sleep P 101000000 s),
          send_case P ''get'' [key] NilAssertion c]))"

section \<open>Lists\<close>

definition testListRpush1 :: "'w peer \<Rightarrow> string list \<Rightarrow> 'w run" where
  "testListRpush1 P key_and_value =
     run_program P []
       (one_client P (\<lambda>c. send_case P ''RPUSH'' key_and_value (IntegerAssertion 1) c))"

definition testListRpush2 :: "'w peer \<Rightarrow> string \<Rightarrow> string \<Rightarrow> string \<Rightarrow> string \<Rightarrow> 'w run" where
  "testListRpush2 P key x0 x1 x2 =
     run_program P []
       (one_client P (MultiCommandTestCase P
         [([''RPUSH'', key, x0], IntegerAssertion 1),
          ([''RPUSH'', key, x1], IntegerAssertion 2),
          ([''RPUSH'', key, x2], IntegerAssertion 3)]))"

definition testListRpush3 :: "'w peer \<Rightarrow> string \<Rightarrow> string list \<Rightarrow> string list \<Rightarrow> 'w run" where
  "testListRpush3 P key first second =
     run_program P []
       (one_client P (MultiCommandTestCase P
         [([''RPUSH'', key] @ first, IntegerAssertion 2),
          ([''RPUSH'', key] @ second, IntegerAssertion 5)]))"

definition testListLlen :: "'w peer \<Rightarrow> string \<Rightarrow> string list \<Rightarrow> int \<Rightarrow> 'w run" where
  "testListLlen P key elems missing =
     run_program P []
       ((let listSize = int (length elems)
        in one_client P (MultiCommandTestCase P
             [([''RPUSH'', key] @ elems, IntegerAssertion listSize),
              ([''LLEN'', key], IntegerAssertion listSize),
              ([''LLEN'', missing_key missing], IntegerAssertion 0)])))"

definition testListLpush :: "'w peer \<Rightarrow> string \<Rightarrow> string \<Rightarrow> string \<Rightarrow> string \<Rightarrow> 'w run" where
  "testListLpush P key x0 x1 x2 =
     run_program P []
       (one_client P (MultiCommandTestCase P
         [([''LPUSH'', key, x2], IntegerAssertion 1),
          ([''LPUSH'', key, x1, x0], IntegerAssertion 3),
          ([''LRANGE'', key, itoa 0, itoa (-1)], OrderedBulkStringArrayAssertion [x0, x1, x2])]))"

definition testListLpop1 :: "'w peer \<Rightarrow> string \<Rightarrow> string list \<Rightarrow> 'w run" where
  "testListLpop1 P key elems =
     run_program P []
       (one_client P (MultiCommandTestCase P
         [([''RPUSH'', key] @ elems, IntegerAssertion (int (length elems))),
          ([''LPOP'', key], BulkStringAssertion (hd elems)),
          ([''LRANGE'', key, itoa 0, itoa (-1)], OrderedBulkStringArrayAssertion (tl elems))]))"

definition testListLpop2 :: "'w peer \<Rightarrow> string \<Rightarrow> string list \<Rightarrow> nat \<Rightarrow> 'w run" where
  "testListLpop2 P key elems n =
     run_program P []
       (one_client P (MultiCommandTestCase P
         [([''RPUSH'', key] @ elems, IntegerAssertion (int (length elems))),
          ([''LPOP'', key, itoa (int n)], OrderedBulkStringArrayAssertion (take n elems)),
          ([''LRANGE'', key, itoa 0, itoa (-1)], OrderedBulkStringArrayAssertion (drop n elems))]))"

definition testListLrangePosIdx :: "'w peer \<Rightarrow> string \<Rightarrow> string list \<Rightarrow> nat \<Rightarrow> int \<Rightarrow> 'w run" where
  "testListLrangePosIdx P key elems middle missing =
     run_program P []
       ((let n = int (length elems); m = int middle
        in one_client P (MultiCommandTestCase P
             [([''RPUSH'', key] @ elems, IntegerAssertion n),
              ([''LRANGE'', key, ''0'', itoa m], OrderedBulkStringArrayAssertion (take (middle + 1) elems)),
              ([''LRANGE'', key, itoa m, itoa (n - 1)], OrderedBulkStringArrayAssertion (drop middle elems)),
              ([''LRANGE'', key, ''0'', itoa (n - 1)], OrderedBulkStringArrayAssertion elems),
              ([''LRANGE'', key, ''1'', ''0''], OrderedBulkStringArrayAssertion []),
              ([''LRANGE'', key, ''0'', itoa (n * 2)], OrderedBulkStringArrayAssertion elems),
              ([''LRANGE'', missing_key missing, ''0'', ''1''], OrderedBulkStringArrayAssertion [])])))"

text \<open>The middle index is negative; \<open>middle\<close> is the same index counted from the front.\<close>

definition testListLrangeNegIndex :: "'w peer \<Rightarrow> string \<Rightarrow> string list \<Rightarrow> nat \<Rightarrow> 'w run" where
  "testListLrangeNegIndex P key elems middle =
     run_program P []
       ((let n = int (length elems); m = int middle - n
        in one_client P (MultiCommandTestCase P
             [([''RPUSH'', key] @ elems, IntegerAssertion n),
              ([''LRANGE'', key, ''0'', itoa m], OrderedBulkStringArrayAssertion (take (middle + 1) elems)),
              ([''LRANGE'', key, itoa m, itoa (-1)], OrderedBulkStringArrayAssertion (drop middle elems)),
              ([''LRANGE'', key, ''0'', itoa (-1)], OrderedBulkStringArrayAssertion elems),
              ([''LRANGE'', key, ''-1'', ''-2''], OrderedBulkStringArrayAssertion []),
              ([''LRANGE'', key, itoa (- n - 1), itoa (-1)], OrderedBulkStringArrayAssertion elems)])))"

text \<open>\<open>passes\<close>: how often the clients are polled before the tester gives up.\<close>

definition blpop_group :: "string \<Rightarrow> string \<Rightarrow> string \<Rightarrow> nat list \<Rightarrow> BlockingClientGroup" where
  "blpop_group key val timeout cs =
     \<lparr>CommandToSend = [''BLPOP'', key, timeout],
      AssertionForReceivedResponse = OrderedBulkStringArrayAssertion [key, val],
      ResponseExpectingClientsCount = 1, GroupClients = cs\<rparr>"

definition testListBlpopNoTimeout :: "'w peer \<Rightarrow> nat \<Rightarrow> string \<Rightarrow> string \<Rightarrow> 'w run" where
  "testListBlpopNoTimeout P passes key val =
     run_program P []
       (some_clients P 3 (\<lambda>cs. let g = blpop_group key val ''0'' (take 2 cs)
         in run_all [SendBlockingCommands P g,
                     send_case P ''RPUSH'' [key, val] (IntegerAssertion 1) (cs ! 2),
                     AssertResponses P passes g]))"

text \<open>The timeout is a number of tenths of a second.\<close>

definition tenths :: "nat \<Rightarrow> string" where
  "tenths n = ''0.'' @ itoa (int n)"

definition testPushBeforeTimeout :: "'w peer \<Rightarrow> nat \<Rightarrow> string \<Rightarrow> string \<Rightarrow> nat \<Rightarrow> 'w run" where
  "testPushBeforeTimeout P passes key val t =
     some_clients P 2 (\<lambda>cs. let g = blpop_group key val (tenths t) (take 1 cs)
       in run_all [SendBlockingCommands P g,
                   send_case P ''RPUSH'' [key, val] (IntegerAssertion 1) (cs ! 1),
                   AssertResponses P passes g])"

section \<open>Sorted sets\<close>

definition add_members :: "'w peer \<Rightarrow> string \<Rightarrow> SortedSetMember list \<Rightarrow> nat \<Rightarrow> 'w run" where
  "add_members P key ms c = run_all (map (\<lambda>m. ZaddTestCase P key m 1 c) ms)"

definition testZsetZadd1 :: "'w peer \<Rightarrow> string \<Rightarrow> SortedSetMember \<Rightarrow> 'w run" where
  "testZsetZadd1 P key m =
     run_program P [] (one_client P (ZaddTestCase P key m 1))"

text \<open>\<open>members\<close> are those of a generated set, \<open>u\<close> the position of the one that is updated.\<close>

definition testZsetZadd2 :: "'w peer \<Rightarrow> string \<Rightarrow> SortedSetMember list \<Rightarrow> nat \<Rightarrow> float64 \<Rightarrow> 'w run" where
  "testZsetZadd2 P key members u newScore =
     run_program P []
       (one_client P (\<lambda>c. run_all
         [add_members P key members c,
          ZaddTestCase P key \<lparr>MemberName = MemberName (members ! u), MemberScore = newScore\<rparr> 0 c]))"

definition testZsetZcard ::
  "'w peer \<Rightarrow> string \<Rightarrow> SortedSetMember list \<Rightarrow> SortedSetMember list \<Rightarrow> nat \<Rightarrow> float64 \<Rightarrow> int \<Rightarrow> 'w run"
where
  "testZsetZcard P key members shuffled u newScore missing =
     run_program P []
       (one_client P (\<lambda>c. run_all
         (concat (map (\<lambda>(i, m). [ZaddTestCase P key m 1 c,
                                 send_case P ''ZCARD'' [key] (IntegerAssertion (int i + 1)) c])
                    (enumerate 0 shuffled))
          @ [ZaddTestCase P key \<lparr>MemberName = MemberName (members ! u), MemberScore = newScore\<rparr> 0 c,
             send_case P ''ZCARD'' [key] (IntegerAssertion (Size members)) c,
             send_case P ''ZCARD'' [missing_key missing] (IntegerAssertion 0) c])))"

definition testZsetZrank ::
  "'w peer \<Rightarrow> string \<Rightarrow> SortedSetMember list \<Rightarrow> SortedSetMember list \<Rightarrow> nat list \<Rightarrow> int \<Rightarrow> int \<Rightarrow> 'w run"
where
  "testZsetZrank P key members shuffled ranks missingk missingm =
     run_program P []
       (one_client P (\<lambda>c. run_all
         (add_members P key shuffled c
          # map (\<lambda>r. send_case P ''ZRANK'' [key, MemberName (members ! r)] (IntegerAssertion (int r)) c) ranks
          @ [MultiCommandTestCase P
               [([''ZRANK'', key, missing_member missingm], NilAssertion),
                ([''ZRANK'', missing_key missingk, MemberName (members ! 0)], NilAssertion)] c])))"

definition testZsetZrangePosIndex ::
  "'w peer \<Rightarrow> string \<Rightarrow> SortedSetMember list \<Rightarrow> SortedSetMember list \<Rightarrow> nat \<Rightarrow> int \<Rightarrow> 'w run"
where
  "testZsetZrangePosIndex P key members shuffled middle missing =
     run_program P []
       ((let names = GetMemberNames members; n = Size members; m = int middle
        in one_client P (\<lambda>c. run_all
             [add_members P key shuffled c,
              ZrangeTestCase P key 0 m (take (middle + 1) names) c,
              ZrangeTestCase P key m (n - 1) (drop middle names) c,
              ZrangeTestCase P key 0 (n - 1) names c,
              ZrangeTestCase P key 1 0 [] c,
              ZrangeTestCase P key 0 (n * 2) names c,
              ZrangeTestCase P (missing_key missing) 0 1 [] c])))"

definition testZsetZrangeNegIndex ::
  "'w peer \<Rightarrow> string \<Rightarrow> SortedSetMember list \<Rightarrow> SortedSetMember list \<Rightarrow> nat \<Rightarrow> 'w run"
where
  "testZsetZrangeNegIndex P key members shuffled middle =
     run_program P []
       ((let names = GetMemberNames members; n = Size members; m = int middle - n
        in one_client P (\<lambda>c. run_all
             [add_members P key shuffled c,
              ZrangeTestCase P key 0 m (take (middle + 1) names) c,
              ZrangeTestCase P key m (-1) (drop middle names) c,
              ZrangeTestCase P key 0 (-1) names c,
              ZrangeTestCase P key (-1) (-2) [] c,
              ZrangeTestCase P key (- n - 1) (-1) names c])))"

definition testZsetZscore ::
  "'w peer \<Rightarrow> string \<Rightarrow> SortedSetMember list \<Rightarrow> SortedSetMember list \<Rightarrow> nat \<Rightarrow> float64 \<Rightarrow> 'w run"
where
  "testZsetZscore P key members shuffled u newScore =
     run_program P []
       ((let m = members ! u; tolerance = rnd (1 / 10 ^ 10)
        in one_client P (\<lambda>c. run_all
             [add_members P key shuffled c,
              send_case P ''ZSCORE'' [key, MemberName m] (FloatingPointBulkStringAssertion (MemberScore m) tolerance) c,
              ZaddTestCase P key \<lparr>MemberName = MemberName m, MemberScore = newScore\<rparr> 0 c,
              send_case P ''ZSCORE'' [key, MemberName m] (FloatingPointBulkStringAssertion newScore tolerance) c])))"

definition testZsetZrem ::
  "'w peer \<Rightarrow> string \<Rightarrow> SortedSetMember list \<Rightarrow> SortedSetMember list \<Rightarrow> nat \<Rightarrow> int \<Rightarrow> 'w run"
where
  "testZsetZrem P key members shuffled u missing =
     run_program P []
       ((let name = MemberName (members ! u); left = GetMemberNames (RemoveMember name members)
        in one_client P (\<lambda>c. run_all
             [add_members P key shuffled c,
              send_case P ''ZREM'' [key, name] (IntegerAssertion 1) c,
              ZrangeTestCase P key 0 (-1) left c,
              send_case P ''ZREM'' [key, missing_member missing] (IntegerAssertion 0) c,
              ZrangeTestCase P key 0 (-1) left c])))"

section \<open>Locations\<close>

definition add_locations :: "'w peer \<Rightarrow> string \<Rightarrow> Location list \<Rightarrow> nat \<Rightarrow> 'w run" where
  "add_locations P key ls c = run_all (map (\<lambda>l. GeoAddTestCase P key l 1 c) ls)"

definition testGeospatialGeoadd :: "'w peer \<Rightarrow> string \<Rightarrow> Location \<Rightarrow> 'w run" where
  "testGeospatialGeoadd P key l =
     run_program P [] (one_client P (GeoAddTestCase P key l 1))"

definition testGeospatialStoreLocation :: "'w peer \<Rightarrow> string \<Rightarrow> Location list \<Rightarrow> 'w run" where
  "testGeospatialStoreLocation P key ls =
     run_program P []
       (one_client P (\<lambda>c. run_all
         [add_locations P key ls c,
          send_case P ''ZRANGE'' [key, ''0'', ''-1''] (UnorderedBulkStringArrayAssertion (GetLocationNames ls)) c]))"

definition geo_score :: "Location \<Rightarrow> float64" where
  "geo_score l = float_of_int (uint (GetGeoCode (LocCoordinates l)))"

definition testGeospatialCalculateScore :: "'w peer \<Rightarrow> string \<Rightarrow> Location list \<Rightarrow> 'w run" where
  "testGeospatialCalculateScore P key ls =
     run_program P []
       (one_client P (\<lambda>c. run_all
         (add_locations P key ls c
          # map (\<lambda>l. send_case P ''ZSCORE'' [key, LocName l] (FloatingPointBulkStringAssertion (geo_score l) (Fin 0)) c) ls)))"

definition testGeospatialDecodeCoordinates ::
  "bool \<Rightarrow> ((string \<times> string RESPAssertion) list \<Rightarrow> (string \<times> string RESPAssertion) list) \<Rightarrow> 'w peer \<Rightarrow>
    string \<Rightarrow> Location list \<Rightarrow> 'w run"
where
  "testGeospatialDecodeCoordinates fixtures shuffle P key ls =
     run_program P []
       (one_client P (\<lambda>c. run_all
         [run_all (map (\<lambda>l. ZaddTestCase P key \<lparr>MemberName = LocName l, MemberScore = geo_score l\<rparr> 1 c) ls),
          GeoPosTestCase fixtures shuffle P key ls [] False c]))"

definition testGeospatialGeopos ::
  "bool \<Rightarrow> ((string \<times> string RESPAssertion) list \<Rightarrow> (string \<times> string RESPAssertion) list) \<Rightarrow> 'w peer \<Rightarrow>
    string \<Rightarrow> Location list \<Rightarrow> int list \<Rightarrow> int \<Rightarrow> 'w run"
where
  "testGeospatialGeopos fixtures shuffle P key ls suffixes missing =
     run_program P []
       ((let absent = map (\<lambda>n. ''missing_location_'' @ itoa n) suffixes
        in one_client P (\<lambda>c. run_all
             [add_locations P key ls c,
              GeoPosTestCase fixtures shuffle P key ls absent True c,
              GeoPosTestCase fixtures shuffle P (missing_key missing) [] absent True c])))"

text \<open>All pairs of locations, and one location with itself.\<close>

fun pairs :: "'a list \<Rightarrow> ('a \<times> 'a) list" where
  "pairs [] = []"
| "pairs (x # xs) = map (Pair x) xs @ pairs xs"

definition testGeospatialGeodist :: "gomath \<Rightarrow> 'w peer \<Rightarrow> string \<Rightarrow> Location list \<Rightarrow> nat \<Rightarrow> 'w run" where
  "testGeospatialGeodist M P key ls own =
     run_program P []
       (one_client P (\<lambda>c. run_all
         ([add_locations P key ls c]
          @ map (\<lambda>(a, b). GeoDistTestCase M P key a b c) (pairs ls)
          @ [GeoDistTestCase M P key (ls ! own) (ls ! own) c])))"

text \<open>A step that needs a value computed before it; when the computation panics the test does.\<close>

definition with_value :: "'a option \<Rightarrow> ('a \<Rightarrow> 'w run) \<Rightarrow> 'w run" where
  "with_value x k s = (case x of None \<Rightarrow> (Panicked, s) | Some v \<Rightarrow> k v s)"

text \<open>Three radii: below the closest location, beyond the farthest, and half way.\<close>

definition testGeospatialGeosearch :: "gomath \<Rightarrow> 'w peer \<Rightarrow> string \<Rightarrow> Location list \<Rightarrow> 'w run" where
  "testGeospatialGeosearch M P key ls =
     run_program P []
       (one_client P (\<lambda>c. with_value (CenterCoordinates ls) (\<lambda>centre.
         let search = (\<lambda>radius names. GeoSearchTestCase P key centre radius names c);
             radius_of = (\<lambda>l. case l of None \<Rightarrow> None | Some l \<Rightarrow> DistanceFrom M centre (LocCoordinates l))
         in run_all
           [add_locations P key ls c,
            with_value (radius_of (ClosestTo M centre ls)) (\<lambda>closestRadius. run_all
              [search (fmul closestRadius (Fin (3 / 4))) [],
               with_value (radius_of (FarthestFrom M centre ls)) (\<lambda>furthestRadius. run_all
                 [search (fmul furthestRadius (Fin (5 / 4))) (GetLocationNames ls),
                  (let midRadius = fdiv (fadd closestRadius furthestRadius) (Fin 2)
                   in with_value (WithinRadius M centre midRadius ls) (\<lambda>inside. search midRadius (GetLocationNames inside)))])])])))"

text \<open>The four invalid positions, each a panic when it is valid.\<close>

definition testGeospatialValidateCoordinates ::
  "'w peer \<Rightarrow> string \<Rightarrow> Location \<Rightarrow> (float64 \<times> string) list \<Rightarrow> 'w run"
where
  "testGeospatialValidateCoordinates P key valid bad =
     run_program P []
       ((let lat = Latitude (LocCoordinates valid); lon = Longitude (LocCoordinates valid);
            invalid = (\<lambda>(coords, name) word c s.
              case coords of
                None \<Rightarrow> (Panicked, s)
              | Some co \<Rightarrow> InvalidGeoAddTestCase P key \<lparr>LocCoordinates = co, LocName = name\<rparr> ''ERR '' word c s)
        in one_client P (\<lambda>c. run_all
             (map (\<lambda>(f, name). invalid (NewInvalidCoordinates f lon, name) ''latitude'' c) (take 2 bad)
              @ map (\<lambda>(f, name). invalid (NewInvalidCoordinates lat f, name) ''longitude'' c) (drop 2 bad)))))"

section \<open>Users\<close>

definition testWhoami :: "'w peer \<Rightarrow> 'w run" where
  "testWhoami P =
     run_program P [] (one_client P (AclWhoamiTestCase P ''default''))"

definition testGetUserResponse :: "'w peer \<Rightarrow> 'w run" where
  "testGetUserResponse P =
     run_program P [] (one_client P (RunForFlagsTemplateOnly P ''default''))"

definition testGetUserNopassFlagRetrieval :: "'w peer \<Rightarrow> 'w run" where
  "testGetUserNopassFlagRetrieval P =
     run_program P []
       (one_client P (AclGetuserTestCase P ''default'' (Some [''nopass'']) None None))"

definition testGetUserPasswordsRetrieval :: "'w peer \<Rightarrow> 'w run" where
  "testGetUserPasswordsRetrieval P =
     run_program P []
       (one_client P (AclGetuserTestCase P ''default'' (Some [''nopass'']) None (Some [])))"

definition random_password :: "string \<Rightarrow> int \<Rightarrow> string" where
  "random_password word n = word @ ''-'' @ itoa n"

definition testSetUserPassword :: "'w peer \<Rightarrow> string \<Rightarrow> 'w run" where
  "testSetUserPassword P password =
     run_program P []
       (one_client P (\<lambda>c. run_all
         [AclGetuserTestCase P ''default'' (Some [''nopass'']) None (Some []) c,
          AclSetuserTestCase P ''default'' [password] c,
          AclGetuserTestCase P ''default'' None (Some [''nopass'']) (Some [password]) c]))"

definition testAuthCommandResponse :: "'w peer \<Rightarrow> string \<Rightarrow> int \<Rightarrow> 'w run" where
  "testAuthCommandResponse P password n =
     run_program P []
       (one_client P (\<lambda>c. run_all
         [AclSetuserTestCase P ''default'' [password] c,
          AuthTestCase P ''default'' (''wrongpassword-'' @ itoa n) False c,
          AuthTestCase P ''default'' password True c]))"

definition testdefaultUserAuthentication :: "'w peer \<Rightarrow> string \<Rightarrow> 'w run" where
  "testdefaultUserAuthentication P password =
     run_program P []
       (one_client P (\<lambda>c1 s. proceed (run_all
         [AclSetuserTestCase P ''default'' [password] c1, AclWhoamiTestCase P ''default'' c1] s)
         (one_client P (AclWhoamiErrorTestCase P ''NOAUTH ''))))"

text \<open>Of the four commands two are chosen; the keys and values have random numbers in them.\<close>

definition authenticated_cases :: "'w peer \<Rightarrow> int \<Rightarrow> int \<Rightarrow> int \<Rightarrow> string \<Rightarrow> (nat \<Rightarrow> 'w run) list" where
  "authenticated_cases P a b d word =
     [send_case P ''SET'' [''key-'' @ itoa a, ''value-'' @ itoa b] (SimpleStringAssertion ''OK''),
      send_case P ''GET'' [''nonexistent-key-'' @ itoa d] NilAssertion,
      send_case P ''PING'' [] (SimpleStringAssertion ''PONG''),
      send_case P ''ECHO'' [word] (BulkStringAssertion word)]"

definition testAuthCommandAuthentication :: "'w peer \<Rightarrow> string \<Rightarrow> (nat \<Rightarrow> 'w run) list \<Rightarrow> 'w run" where
  "testAuthCommandAuthentication P password chosen =
     run_program P []
       (one_client P (\<lambda>c1 s. proceed (run_all
         [send_case P ''ACL'' [''SETUSER'', ''default'', ''>'' @ password] (SimpleStringAssertion ''OK'') c1,
          AclWhoamiTestCase P ''default'' c1] s)
         (one_client P (\<lambda>c2. run_all
            ([AclWhoamiErrorTestCase P ''NOAUTH '' c2,
              send_case P ''AUTH'' [''default'', password] (SimpleStringAssertion ''OK'') c2,
              AclWhoamiTestCase P ''default'' c2]
             @ map (\<lambda>t. t c2) chosen)))))"

end
