(* ===== verification/Protocol_Stages.thy ===== *)
theory Protocol_Stages
  imports Tester_Stages
begin

text \<open>
  The tester's stages for transactions, optimistic locking, messages, streams and replication
  (\<open>redis-tester/internal/test\_*.go\<close>). The repository's server implements of these only
  replication.
\<close>

section \<open>Transactions\<close>

definition not_an_integer :: string where
  "not_an_integer = ''ERR value is not an integer or out of range''"

definition testTxIncr1 :: "'w peer \<Rightarrow> string \<Rightarrow> int \<Rightarrow> 'w run" where
  "testTxIncr1 P key v =
     run_program P []
       (one_client P (MultiCommandTestCase P
         [([''SET'', key, itoa v], SimpleStringAssertion ''OK''),
          ([''INCR'', key], IntegerAssertion (v + 1))]))"

definition testTxIncr2 :: "'w peer \<Rightarrow> string \<Rightarrow> 'w run" where
  "testTxIncr2 P key =
     run_program P []
       (one_client P (MultiCommandTestCase P
         [([''INCR'', key], IntegerAssertion 1),
          ([''INCR'', key], IntegerAssertion 2),
          ([''GET'', key], BulkStringAssertion ''2'')]))"

definition testTxIncr3 :: "'w peer \<Rightarrow> string \<Rightarrow> string \<Rightarrow> 'w run" where
  "testTxIncr3 P key val =
     run_program P []
       (one_client P (MultiCommandTestCase P
         [([''SET'', key, val], SimpleStringAssertion ''OK''),
          ([''INCR'', key], ErrorAssertion not_an_integer)]))"

definition testTxMulti :: "'w peer \<Rightarrow> 'w run" where
  "testTxMulti P =
     run_program P [] (one_client P (RunMulti P))"

definition testTxExec :: "'w peer \<Rightarrow> 'w run" where
  "testTxExec P =
     run_program P []
       (one_client P (send_case P ''EXEC'' [] (ErrorAssertion ''ERR EXEC without MULTI'')))"

definition testTxEmpty :: "'w peer \<Rightarrow> 'w run" where
  "testTxEmpty P =
     run_program P []
       (one_client P (\<lambda>c. run_all
         [TransactionTestCase_RunAll P [] (Some []) c,
          send_case P ''EXEC'' [] (ErrorAssertion ''ERR EXEC without MULTI'') c]))"

definition testTxQueue :: "'w peer \<Rightarrow> string \<Rightarrow> int \<Rightarrow> 'w run" where
  "testTxQueue P key v =
     run_program P []
       (some_clients P 2 (\<lambda>cs. run_all
         [RunWithoutExec P [[''SET'', key, itoa v], [''INCR'', key]] (cs ! 0),
          send_case P ''GET'' [key] NilAssertion (cs ! 1)]))"

definition testTxSuccess :: "'w peer \<Rightarrow> string \<Rightarrow> string \<Rightarrow> int \<Rightarrow> 'w run" where
  "testTxSuccess P key1 key2 v =
     run_program P []
       (some_clients P 2 (\<lambda>cs. run_all
         [TransactionTestCase_RunAll P
            [[''SET'', key1, itoa v], [''INCR'', key1], [''INCR'', key2], [''GET'', key2]]
            (Some [SimpleStringAssertion ''OK'', IntegerAssertion (v + 1), IntegerAssertion 1, BulkStringAssertion ''1''])
            (cs ! 0),
          send_case P ''GET'' [key1] (BulkStringAssertion (itoa (v + 1))) (cs ! 1)]))"

definition testTxErr :: "'w peer \<Rightarrow> string \<Rightarrow> string \<Rightarrow> string \<Rightarrow> int \<Rightarrow> 'w run" where
  "testTxErr P key1 key2 value1 value2 =
     run_program P []
       (some_clients P 2 (\<lambda>cs. run_all
         [MultiCommandTestCase P
            [([''SET'', key1, value1], SimpleStringAssertion ''OK''),
             ([''SET'', key2, itoa value2], SimpleStringAssertion ''OK'')] (cs ! 0),
          TransactionTestCase_RunAll P [[''INCR'', key1], [''INCR'', key2]]
            (Some [ErrorAssertion not_an_integer, IntegerAssertion (value2 + 1)]) (cs ! 0),
          MultiCommandTestCase P
            [([''GET'', key2], BulkStringAssertion (itoa (value2 + 1))),
             ([''GET'', key1], BulkStringAssertion value1)] (cs ! 1)]))"

definition testTxDiscard :: "'w peer \<Rightarrow> string \<Rightarrow> string \<Rightarrow> int \<Rightarrow> int \<Rightarrow> 'w run" where
  "testTxDiscard P key1 key2 value1 value2 =
     run_program P []
       (one_client P (\<lambda>c. run_all
         [send_case P ''SET'' [key2, itoa value2] (SimpleStringAssertion ''OK'') c,
          RunWithoutExec P [[''SET'', key1, itoa value1], [''INCR'', key1]] c,
          MultiCommandTestCase P
            [([''DISCARD''], SimpleStringAssertion ''OK''),
             ([''GET'', key1], NilAssertion),
             ([''GET'', key2], BulkStringAssertion (itoa value2)),
             ([''DISCARD''], ErrorAssertion ''ERR DISCARD without MULTI'')] c]))"

definition testTxMultiTx :: "'w peer \<Rightarrow> string \<Rightarrow> string \<Rightarrow> int \<Rightarrow> 'w run" where
  "testTxMultiTx P key1 key2 v =
     run_program P []
       (some_clients P 3 (\<lambda>cs. run_all
         (map (\<lambda>(i, c). MultiCommandTestCase P
                 [([''SET'', key2, itoa v], SimpleStringAssertion ''OK''),
                  ([''INCR'', key1], IntegerAssertion (int i + 1))] c) (enumerate 0 cs)
          @ map (\<lambda>c. RunWithoutExec P [[''INCR'', key1], [''INCR'', key2]] c) cs
          @ map (\<lambda>(i, c). RunExec P
                 (Some [IntegerAssertion (3 + (1 + int i)), IntegerAssertion (v + (1 + int i))]) c) (enumerate 0 cs))))"

section \<open>Optimistic locking\<close>

text \<open>The initial values, and those of the transaction and of the modifier.\<close>

type_synonym locking_values = "int list \<times> int \<times> int"

definition stored :: "locking_values \<Rightarrow> OptimisticLocking \<Rightarrow> OptimisticLocking" where
  "stored vs t = (case vs of (initial, a, b) \<Rightarrow> OptimisticLocking_store initial a b t)"

definition testOptimisticLockingWatch :: "'w peer \<Rightarrow> string \<Rightarrow> 'w run" where
  "testOptimisticLockingWatch P key =
     run_program P [] (one_client P (WatchTestCase P [key] False))"

definition testOptimisticLockingWatchInTxn :: "'w peer \<Rightarrow> string \<Rightarrow> 'w run" where
  "testOptimisticLockingWatchInTxn P key =
     run_program P []
       (one_client P (\<lambda>c. run_all [RunWithoutExec P [] c, WatchTestCase P [key] True c]))"

definition testOptimisticLockingTrackingKeyModification ::
  "'w peer \<Rightarrow> string list \<Rightarrow> locking_values \<Rightarrow> locking_values \<Rightarrow> 'w run"
where
  "testOptimisticLockingTrackingKeyModification P keys vs1 vs2 =
     run_program P []
       (some_clients P 2 (\<lambda>cs s. proceed
         (OptimisticLocking_Run P
            (stored vs1 (new_locking (cs ! 0) (cs ! 1) [keys ! 0, keys ! 1] [keys ! 0] (keys ! 1) (keys ! 0))) s)
         (some_clients P 2 (\<lambda>ds. OptimisticLocking_Run P
            (stored vs2 (new_locking (ds ! 0) (ds ! 1) [keys ! 2, keys ! 3] [keys ! 2] (keys ! 3) (keys ! 3)))))))"

definition testOptimisticLockingUnwatch :: "'w peer \<Rightarrow> string \<Rightarrow> string \<Rightarrow> int list \<Rightarrow> int \<Rightarrow> int \<Rightarrow> 'w run" where
  "testOptimisticLockingUnwatch P key1 key2 initial by_modifier in_transaction =
     run_program P []
       (some_clients P 2 (\<lambda>cs.
         let t = store_modifier by_modifier
                   (store_initial initial (new_locking (cs ! 0) (cs ! 1) [key1, key2] [key1, key2] key1 key1));
             u = store_transaction in_transaction (ResetWatchedKeys t)
         in run_all [RunSetInitialKeys P t, RunWatchKeys P t, RunSetKeyUsingModifierClient P t, RunUnwatch P t,
                     RunTransactionWithoutExec P u, OptimisticLocking_RunExec P u,
                     RunValueCheckOfKeyModifiedInTransaction P u]))"

definition testOptimisticLockingUnwatchOnDiscard ::
  "'w peer \<Rightarrow> string \<Rightarrow> string \<Rightarrow> locking_values \<Rightarrow> int \<Rightarrow> 'w run"
where
  "testOptimisticLockingUnwatchOnDiscard P key1 key2 vs again =
     run_program P []
       (some_clients P 2 (\<lambda>cs.
         let t = stored vs (new_locking (cs ! 0) (cs ! 1) [key1, key2] [key1, key2] key2 key1);
             u = store_transaction again (ResetWatchedKeys t)
         in run_all [RunSetInitialKeys P t, RunWatchKeys P t, RunTransactionWithoutExec P t,
                     RunSetKeyUsingModifierClient P t, RunDiscardTransaction P t,
                     RunTransactionWithoutExec P u, OptimisticLocking_RunExec P u,
                     RunValueCheckOfKeyModifiedInTransaction P u]))"

definition testOptimisticLockingUnwatchOnExec ::
  "'w peer \<Rightarrow> string \<Rightarrow> string \<Rightarrow> locking_values \<Rightarrow> int \<Rightarrow> 'w run"
where
  "testOptimisticLockingUnwatchOnExec P key1 key2 vs again =
     run_program P []
       (some_clients P 2 (\<lambda>cs.
         let t = stored vs (new_locking (cs ! 0) (cs ! 1) [key1, key2] [key1] key2 key1);
             u = store_transaction again (ResetWatchedKeys t)
         in run_all [OptimisticLocking_Run P t, RunTransactionWithoutExec P u, OptimisticLocking_RunExec P u,
                     RunValueCheckOfKeyModifiedInTransaction P u]))"

definition testOptimisticLockingWatchMissingKey :: "'w peer \<Rightarrow> string \<Rightarrow> int \<Rightarrow> int \<Rightarrow> 'w run" where
  "testOptimisticLockingWatchMissingKey P key a b =
     run_program P []
       (some_clients P 2 (\<lambda>cs. OptimisticLocking_Run P
         (stored ([], a, b) (new_locking (cs ! 0) (cs ! 1) [] [key] key key))))"

definition testOptimisticLockingWatchMultipleKeys ::
  "'w peer \<Rightarrow> string list \<Rightarrow> string \<Rightarrow> string \<Rightarrow> locking_values \<Rightarrow> 'w run"
where
  "testOptimisticLockingWatchMultipleKeys P keys by_modifier in_transaction vs =
     run_program P []
       (some_clients P 2 (\<lambda>cs. OptimisticLocking_Run P
         (stored vs (new_locking (cs ! 0) (cs ! 1) keys keys in_transaction by_modifier))))"

section \<open>Messages\<close>

definition testPubSubSubscribe1 :: "'w peer \<Rightarrow> string \<Rightarrow> 'w run" where
  "testPubSubSubscribe1 P channel =
     run_program P []
       (one_client P (send_case P ''SUBSCRIBE'' [channel] (SubscribeResponseAssertion channel 1)))"

definition testPubSubSubscribe2 :: "'w peer \<Rightarrow> string list \<Rightarrow> 'w run" where
  "testPubSubSubscribe2 P channels =
     run_program P []
       (some_clients P 2 (\<lambda>cs. RunSubscribe P
         (fold (\<lambda>ch. AddSubscription (cs ! 1) ch \<circ> AddSubscription (cs ! 0) ch) channels [])))"

definition refused :: "'w peer \<Rightarrow> string \<Rightarrow> string list \<Rightarrow> string \<Rightarrow> nat \<Rightarrow> 'w run" where
  "refused P cmd args part =
     send_case P cmd args (PrefixAndSubstringsAssertion ERROR True (Some (error_prefix ''ERR '')) [any_case part])"

definition testPubSubSubscribe3 :: "'w peer \<Rightarrow> string \<Rightarrow> string \<Rightarrow> string \<Rightarrow> string \<Rightarrow> 'w run" where
  "testPubSubSubscribe3 P channel0 channel1 key val =
     run_program P []
       (one_client P (\<lambda>c. run_all
         [send_case P ''SUBSCRIBE'' [channel0] (SubscribeResponseAssertion channel0 1) c,
          refused P ''SET'' [key, val] (''can'' @ [CHR 0x27] @ ''t execute '' @ [CHR 0x27] @ ''set'' @ [CHR 0x27]) c,
          refused P ''GET'' [val] (''can'' @ [CHR 0x27] @ ''t execute '' @ [CHR 0x27] @ ''get'' @ [CHR 0x27]) c,
          refused P ''ECHO'' [val] (''can'' @ [CHR 0x27] @ ''t execute '' @ [CHR 0x27] @ ''echo'' @ [CHR 0x27]) c,
          send_case P ''SUBSCRIBE'' [channel1] (SubscribeResponseAssertion channel1 2) c]))"

definition testPubSubSubscribe4 :: "'w peer \<Rightarrow> string \<Rightarrow> 'w run" where
  "testPubSubSubscribe4 P channel =
     run_program P []
       (some_clients P 2 (\<lambda>cs. run_all
         [RunSubscribe P (AddSubscription (cs ! 0) channel []),
          send_case P ''PING'' [] (OrderedBulkStringArrayAssertion [''pong'', []]) (cs ! 0),
          send_case P ''PING'' [] (SimpleStringAssertion ''PONG'') (cs ! 1)]))"

definition publish_count :: "'w peer \<Rightarrow> string \<Rightarrow> string \<Rightarrow> subscriber list \<Rightarrow> nat \<Rightarrow> 'w run" where
  "publish_count P channel message g = PublishTestCase P channel message (GetSubscriberCount channel g)"

definition testPubSubPublish1 :: "'w peer \<Rightarrow> string \<Rightarrow> string \<Rightarrow> string \<Rightarrow> string \<Rightarrow> 'w run" where
  "testPubSubPublish1 P ch0 ch1 m0 m1 =
     run_program P []
       (some_clients P 4 (\<lambda>cs.
         let g = AddSubscription (cs ! 2) ch1 (AddSubscription (cs ! 1) ch1 (AddSubscription (cs ! 0) ch0 []))
         in run_all [RunSubscribe P g, publish_count P ch0 m0 g (cs ! 3), publish_count P ch1 m1 g (cs ! 3)]))"

definition testPubSubPublish2 :: "'w peer \<Rightarrow> string \<Rightarrow> string \<Rightarrow> string \<Rightarrow> string \<Rightarrow> 'w run" where
  "testPubSubPublish2 P ch0 ch1 m0 m1 =
     run_program P []
       (some_clients P 4 (\<lambda>cs.
         let g = AddSubscription (cs ! 2) ch1 (AddSubscription (cs ! 1) ch0 (AddSubscription (cs ! 0) ch0 []))
         in run_all [RunSubscribe P g,
                     publish_count P ch0 m0 g (cs ! 3), RunAssertionForPublishedMessage P ch0 m0 g,
                     publish_count P ch1 m1 g (cs ! 3), RunAssertionForPublishedMessage P ch1 m1 g]))"

definition testPubSubUnsubscribe :: "'w peer \<Rightarrow> string \<Rightarrow> string \<Rightarrow> string \<Rightarrow> string \<Rightarrow> string \<Rightarrow> 'w run" where
  "testPubSubUnsubscribe P ch0 ch1 ch2 m0 m1 =
     run_program P []
       (some_clients P 3 (\<lambda>cs.
         let g = AddSubscription (cs ! 1) ch2 (AddSubscription (cs ! 1) ch1
                   (AddSubscription (cs ! 0) ch1 (AddSubscription (cs ! 0) ch0 [])));
             h = RemoveSubscription (cs ! 0) ch1 g
         in run_all [RunSubscribe P g,
                     publish_count P ch1 m0 g (cs ! 2), RunAssertionForPublishedMessage P ch1 m0 g,
                     UnsubscribeTestCase P ch1 (GetSubscriberCount ch1 h) (cs ! 0),
                     publish_count P ch1 m1 h (cs ! 2), RunAssertionForPublishedMessage P ch1 m1 h]))"

section \<open>Streams\<close>

definition testStreamsType :: "'w peer \<Rightarrow> string \<Rightarrow> string \<Rightarrow> 'w run" where
  "testStreamsType P key val =
     run_program P []
       (one_client P (MultiCommandTestCase P
         [([''SET'', key, val], SimpleStringAssertion ''OK''),
          ([''TYPE'', key], SimpleStringAssertion ''string''),
          ([''TYPE'', ''missing_key_'' @ val], SimpleStringAssertion ''none'')]))"

definition testStreamsXadd :: "'w peer \<Rightarrow> string \<Rightarrow> 'w run" where
  "testStreamsXadd P key =
     run_program P []
       (one_client P (MultiCommandTestCase P
         [([''XADD'', key, ''0-1'', ''foo'', ''bar''], BulkStringAssertion ''0-1''),
          ([''TYPE'', key], SimpleStringAssertion ''stream'')]))"

definition testStreamsXaddPartialAutoid :: "'w peer \<Rightarrow> string \<Rightarrow> string \<Rightarrow> string \<Rightarrow> string \<Rightarrow> 'w run" where
  "testStreamsXaddPartialAutoid P key x0 x1 x2 =
     run_program P []
       (one_client P (MultiCommandTestCase P
         [([''XADD'', key, ''0-*'', x0, x1], BulkStringAssertion ''0-1''),
          ([''XADD'', key, ''1-*'', x0, x1], BulkStringAssertion ''1-0''),
          ([''XADD'', key, ''1-*'', x1, x2], BulkStringAssertion ''1-1'')]))"

definition too_small :: string where
  "too_small = ''ERR The ID specified in XADD is equal or smaller than the target stream top item''"

definition testStreamsXaddValidateID :: "'w peer \<Rightarrow> string \<Rightarrow> (nat \<Rightarrow> string) \<Rightarrow> 'w run" where
  "testStreamsXaddValidateID P key w =
     run_program P []
       (one_client P (MultiCommandTestCase P
         [([''XADD'', key, ''1-1'', w 0, w 1], BulkStringAssertion ''1-1''),
          ([''XADD'', key, ''1-2'', w 2, w 3], BulkStringAssertion ''1-2''),
          ([''XADD'', key, ''1-2'', w 4, w 5], ErrorAssertion too_small),
          ([''XADD'', key, ''0-3'', w 6, w 7], ErrorAssertion too_small),
          ([''XADD'', key, ''0-0'', w 8, w 9], ErrorAssertion ''ERR The ID specified in XADD must be greater than 0-0'')]))"

text \<open>\<open>n\<close> entries with the identifiers 0-1 to 0-\<open>n\<close>, and the expected answer from the \<open>i\<close>-th to the \<open>j\<close>-th.\<close>

definition entry_id :: "nat \<Rightarrow> string" where
  "entry_id i = ''0-'' @ itoa (int i)"

definition add_entries :: "'w peer \<Rightarrow> string \<Rightarrow> nat \<Rightarrow> (nat \<Rightarrow> string list) \<Rightarrow> nat \<Rightarrow> 'w run" where
  "add_entries P key n kv c =
     MultiCommandTestCase P
       (map (\<lambda>i. ([''XADD'', key, entry_id (i + 1), kv i ! 0, kv i ! 1], BulkStringAssertion (entry_id (i + 1)))) [0..<n]) c"

definition entries :: "nat \<Rightarrow> nat \<Rightarrow> (nat \<Rightarrow> string list) \<Rightarrow> StreamEntry list" where
  "entries i j kv = map (\<lambda>m. \<lparr>Id = entry_id m, FieldValuePairs = [kv (m - 1)]\<rparr>) [i ..< j + 1]"

definition xrange_stage ::
  "(string \<Rightarrow> string) \<Rightarrow> 'w peer \<Rightarrow> string \<Rightarrow> nat \<Rightarrow> (nat \<Rightarrow> string list) \<Rightarrow> string \<Rightarrow> string \<Rightarrow> nat \<Rightarrow> nat \<Rightarrow> 'w run"
where
  "xrange_stage pretty P key n kv from_id to_id i j =
     run_program P []
       (one_client P (\<lambda>c. run_all
          [add_entries P key n kv c,
           send_case P ''XRANGE'' [key, from_id, to_id] (XRangeResponseAssertion pretty (entries i j kv)) c]))"

definition testStreamsXrange ::
  "(string \<Rightarrow> string) \<Rightarrow> 'w peer \<Rightarrow> string \<Rightarrow> nat \<Rightarrow> (nat \<Rightarrow> string list) \<Rightarrow> 'w run"
where
  "testStreamsXrange pretty P key n kv = xrange_stage pretty P key n kv (entry_id 2) (entry_id n) 2 n"

definition testStreamsXrangeMaxID ::
  "(string \<Rightarrow> string) \<Rightarrow> 'w peer \<Rightarrow> string \<Rightarrow> nat \<Rightarrow> (nat \<Rightarrow> string list) \<Rightarrow> nat \<Rightarrow> 'w run"
where
  "testStreamsXrangeMaxID pretty P key n kv start = xrange_stage pretty P key n kv (entry_id start) ''+'' start n"

definition testStreamsXrangeMinID ::
  "(string \<Rightarrow> string) \<Rightarrow> 'w peer \<Rightarrow> string \<Rightarrow> nat \<Rightarrow> (nat \<Rightarrow> string list) \<Rightarrow> nat \<Rightarrow> 'w run"
where
  "testStreamsXrangeMinID pretty P key n kv stop = xrange_stage pretty P key n kv ''-'' (entry_id stop) 1 stop"

definition one_entry :: "string \<Rightarrow> string \<Rightarrow> string \<Rightarrow> string \<Rightarrow> StreamResponse" where
  "one_entry key i field val = \<lparr>StreamKey = key, Entries = [\<lparr>Id = i, FieldValuePairs = [[field, val]]\<rparr>]\<rparr>"

definition testStreamsXread :: "(string \<Rightarrow> string) \<Rightarrow> 'w peer \<Rightarrow> string \<Rightarrow> int \<Rightarrow> 'w run" where
  "testStreamsXread pretty P key v =
     run_program P []
       (one_client P (MultiCommandTestCase P
         [([''XADD'', key, ''0-1'', ''temperature'', itoa v], BulkStringAssertion ''0-1''),
          ([''XREAD'', ''streams'', key, ''0-0''],
           XReadResponseAssertion pretty [one_entry key ''0-1'' ''temperature'' (itoa v)])]))"

text \<open>The loop variable of the last stage is the position, so its values are always 0 and 1.\<close>

definition testStreamsXreadMultiple :: "(string \<Rightarrow> string) \<Rightarrow> 'w peer \<Rightarrow> string \<Rightarrow> string \<Rightarrow> 'w run" where
  "testStreamsXreadMultiple pretty P key0 key1 =
     run_program P []
       (one_client P (MultiCommandTestCase P
         [([''XADD'', key0, ''0-1'', ''temperature'', ''0''], BulkStringAssertion ''0-1''),
          ([''XADD'', key1, ''0-2'', ''humidity'', ''1''], BulkStringAssertion ''0-2''),
          ([''XREAD'', ''streams'', key0, key1, ''0-0'', ''0-1''],
           XReadResponseAssertion pretty
             [one_entry key0 ''0-1'' ''temperature'' ''0'', one_entry key1 ''0-2'' ''humidity'' ''1''])]))"

text \<open>A reader that blocks; the errors of \<open>SendBlockingCommands\<close> are not looked at.\<close>

definition xread_group :: "(string \<Rightarrow> string) \<Rightarrow> string \<Rightarrow> string \<Rightarrow> string \<Rightarrow> int \<Rightarrow> nat \<Rightarrow> BlockingClientGroup" where
  "xread_group pretty key timeout from_id v c =
     \<lparr>CommandToSend = [''XREAD'', ''block'', timeout, ''streams'', key, from_id],
      AssertionForReceivedResponse = XReadResponseAssertion pretty [one_entry key ''0-2'' ''temperature'' (itoa v)],
      ResponseExpectingClientsCount = 1, GroupClients = [c]\<rparr>"

definition xadd_case :: "'w peer \<Rightarrow> string \<Rightarrow> string \<Rightarrow> int \<Rightarrow> bool \<Rightarrow> nat \<Rightarrow> 'w run" where
  "xadd_case P key i v skip =
     SendCommandTestCase_Run P
       ((send_command ''XADD'' [key, i, ''temperature'', itoa v] (BulkStringAssertion i))
        \<lparr>ShouldSkipUnreadDataCheck := skip\<rparr>)"

definition ignoring_errors :: "'w run \<Rightarrow> 'w run" where
  "ignoring_errors t s = (case t s of (Failed e, s1) \<Rightarrow> (Passed, s1) | r \<Rightarrow> r)"

definition xread_block_stage ::
  "(string \<Rightarrow> string) \<Rightarrow> 'w peer \<Rightarrow> nat \<Rightarrow> string \<Rightarrow> string \<Rightarrow> string \<Rightarrow> int \<Rightarrow> int \<Rightarrow> int \<Rightarrow> bool \<Rightarrow> (nat \<Rightarrow> 'w run) \<Rightarrow> 'w run"
where
  "xread_block_stage pretty P passes key timeout from_id v w pause skip after =
     run_program P []
       (one_client P (\<lambda>c1.
          let g = xread_group pretty key timeout from_id w c1
          in run_all
            [xadd_case P key ''0-1'' v True c1,
             ignoring_errors (SendBlockingCommands P g),
             \<lambda>s. (Passed, if pause = 0 then s else sleep P pause s),
             one_client P (xadd_case P key ''0-2'' w skip),
             AssertResponses P passes g,
             after c1]))"

definition testStreamsXreadBlock ::
  "(string \<Rightarrow> string) \<Rightarrow> 'w peer \<Rightarrow> nat \<Rightarrow> string \<Rightarrow> int \<Rightarrow> int \<Rightarrow> 'w run"
where
  "testStreamsXreadBlock pretty P passes key v w =
     xread_block_stage pretty P passes key ''1000'' ''0-1'' v w 500000000 True
       (send_case P ''XREAD'' [''block'', ''1000'', ''streams'', key, ''0-2''] NilArrayAssertion)"

definition testStreamsXreadBlockMaxID ::
  "(string \<Rightarrow> string) \<Rightarrow> 'w peer \<Rightarrow> nat \<Rightarrow> string \<Rightarrow> int \<Rightarrow> int \<Rightarrow> 'w run"
where
  "testStreamsXreadBlockMaxID pretty P passes key v w =
     xread_block_stage pretty P passes key ''0'' ''$'' v w 1000000000 True
       (send_case P ''XREAD'' [''block'', ''1000'', ''streams'', key, ''$''] NilArrayAssertion)"

definition testStreamsXreadBlockNoTimeout ::
  "(string \<Rightarrow> string) \<Rightarrow> 'w peer \<Rightarrow> nat \<Rightarrow> string \<Rightarrow> int \<Rightarrow> int \<Rightarrow> 'w run"
where
  "testStreamsXreadBlockNoTimeout pretty P passes key v w =
     xread_block_stage pretty P passes key ''0'' ''0-1'' v w 0 False (\<lambda>c s. (Passed, s))"

section \<open>Replication\<close>

definition testReplMasterReplconf :: "'w peer \<Rightarrow> 'w run" where
  "testReplMasterReplconf P =
     run_program P [''--port'', ''6379'']
       (one_client P (\<lambda>c. run_all [SendHandshake_RunPingStep P c, SendHandshake_RunReplconfStep P 6380 c]))"

definition testReplMasterPsync :: "'w peer \<Rightarrow> 'w run" where
  "testReplMasterPsync P =
     run_program P [''--port'', ''6379'']
       (one_client P (\<lambda>c. run_all
         [SendHandshake_RunPingStep P c, SendHandshake_RunReplconfStep P 6380 c, SendHandshake_RunPsyncStep P c]))"

definition testReplMasterPsyncRdb :: "(string \<Rightarrow> bool) \<Rightarrow> 'w peer \<Rightarrow> 'w run" where
  "testReplMasterPsyncRdb rdb_valid P =
     run_program P [''--port'', ''6379''] (one_client P (SendHandshake_RunAll rdb_valid P 6380))"

text \<open>\<open>util.go\<close>\<close>

definition IsSelectCommand :: "Value \<Rightarrow> bool" where
  "IsSelectCommand v \<longleftrightarrow>
     Type v = ARRAY \<and> 0 < length (Array v) \<and> Type (Array v ! 0) = BULK_STRING
     \<and> ToLower (vbytes (Array v ! 0)) = ''select''"

definition SpawnReplicas :: "(string \<Rightarrow> bool) \<Rightarrow> 'w peer \<Rightarrow> nat \<Rightarrow> 'w run" where
  "SpawnReplicas rdb_valid P n =
     run_all (map (\<lambda>j. one_client P (\<lambda>c s. proceed (SendHandshake_RunAll rdb_valid P (6380 + int j) c s)
       (\<lambda>s1. (Passed, with_client c (ResetByteCounters (Clients s1 c)) s1)))) [0..<n])"

definition kvMap :: "(string \<times> string) list" where
  "kvMap = [(''foo'', ''123''), (''bar'', ''456''), (''baz'', ''789'')]"

text \<open>
  A propagated command; when the value received first fails and is a \<open>SELECT\<close>, the next one is
  looked at instead.
\<close>

definition receive_propagated :: "'w peer \<Rightarrow> bool \<Rightarrow> string list \<Rightarrow> bool \<Rightarrow> nat \<Rightarrow> 'w run" where
  "receive_propagated P may_select cmd skip c s =
     (let A = CommandAssertion (hd cmd) (tl cmd)
      in case RunWithoutAssert P c s of
           (Inl r, s1) \<Rightarrow> (r, s1)
         | (Inr v, s1) \<Rightarrow>
             (case Assert A skip v c s1 of
                (Failed e, s2) \<Rightarrow>
                  if may_select \<and> IsSelectCommand v then ReceiveValueTestCase P A skip c s2 else (Failed e, s2)
              | r \<Rightarrow> r))"

definition receive_sets :: "'w peer \<Rightarrow> nat \<Rightarrow> 'w run" where
  "receive_sets P c =
     run_all (map (\<lambda>(i, k, v). receive_propagated P (i = 0) [''SET'', k, v] (i + 1 < length kvMap) c)
       (enumerate 0 kvMap))"

definition send_sets :: "'w peer \<Rightarrow> nat \<Rightarrow> 'w run" where
  "send_sets P c = run_all (map (\<lambda>(k, v). send_case P ''SET'' [k, v] (SimpleStringAssertion ''OK'') c) kvMap)"

definition testReplMasterCmdProp :: "(string \<Rightarrow> bool) \<Rightarrow> 'w peer \<Rightarrow> 'w run" where
  "testReplMasterCmdProp rdb_valid P =
     run_program P [''--port'', ''6379'']
       (some_clients P 2 (\<lambda>cs. run_all
         [SendHandshake_RunAll rdb_valid P 6380 (cs ! 1), send_sets P (cs ! 0), receive_sets P (cs ! 1)]))"

definition testReplMultipleReplicas :: "(string \<Rightarrow> bool) \<Rightarrow> 'w peer \<Rightarrow> 'w run" where
  "testReplMultipleReplicas rdb_valid P =
     run_program P [''--port'', ''6379'']
       (one_client P (\<lambda>c s. proceed (SpawnReplicas rdb_valid P 3 s)
         (run_all (send_sets P c # map (receive_sets P) [c + 1 ..< c + 4]))))"

definition testWaitZeroReplicas :: "'w peer \<Rightarrow> 'w run" where
  "testWaitZeroReplicas P =
     run_program P [''--port'', ''6379''] (one_client P (WaitTestCase P 0 60000 0))"

text \<open>The counts it asks for: from 3 below \<open>n + 3\<close> in steps of a third of \<open>n\<close>, at least 1.\<close>

fun wait_counts :: "nat \<Rightarrow> nat \<Rightarrow> nat \<Rightarrow> nat \<Rightarrow> nat list" where
  "wait_counts 0 actual limit d = []"
| "wait_counts (Suc fuel) actual limit d =
     (if limit \<le> actual then [] else actual # wait_counts fuel (actual + d) limit d)"

definition testWaitZeroOffset :: "(string \<Rightarrow> bool) \<Rightarrow> 'w peer \<Rightarrow> nat \<Rightarrow> 'w run" where
  "testWaitZeroOffset rdb_valid P n =
     run_program P [''--port'', ''6379''] (run_all
       [SpawnReplicas rdb_valid P n,
        one_client P (\<lambda>c. run_all
          (map (\<lambda>a. WaitTestCase P (int a) 500 (int n) c) (wait_counts n 3 (n + 3) (max 1 (n div 3)))))])"

text \<open>The tester as a master: the program has dialled it.\<close>

definition as_master :: "'w peer \<Rightarrow> (nat \<Rightarrow> 'w run) \<Rightarrow> 'w run" where
  "as_master P k =
     run_program P [''--port'', ''6380'', ''--replicaof'', ''localhost 6379'']
       (\<lambda>s. let m = clientsSpawned s
            in case Dialled P m (Remote s) of
                 None \<Rightarrow> (Failed ConnectFailed, s)
               | Some r \<Rightarrow> k m ((absorb r (with_client m new_client s))\<lparr>clientsSpawned := m + 1\<rparr>))"

definition send_as_master :: "'w peer \<Rightarrow> string \<Rightarrow> string list \<Rightarrow> nat \<Rightarrow> 'w run" where
  "send_as_master P cmd args m s = client_send P m (SendCommand cmd args (Clients s m)) s"

definition get_ack_now :: "'w peer \<Rightarrow> nat \<Rightarrow> 'w run" where
  "get_ack_now P m s = GetAckTestCase P (SentBytesCount (Clients s m)) m s"

definition testReplReplicaSendsPing :: "'w peer \<Rightarrow> 'w run" where
  "testReplReplicaSendsPing P = as_master P (ReceiveHandshake_RunPingStep P)"

definition testReplReplicaSendsReplconf :: "'w peer \<Rightarrow> 'w run" where
  "testReplReplicaSendsReplconf P =
     as_master P (\<lambda>m. run_all
       [ReceiveHandshake_RunPingStep P m, ReceiveHandshake_RunReplconfStep1 P m, ReceiveHandshake_RunReplconfStep2 P m])"

definition testReplReplicaSendsPsync :: "'w peer \<Rightarrow> 'w run" where
  "testReplReplicaSendsPsync P =
     as_master P (\<lambda>m. run_all
       [ReceiveHandshake_RunPingStep P m, ReceiveHandshake_RunReplconfStep1 P m,
        ReceiveHandshake_RunReplconfStep2 P m, ReceiveHandshake_RunPsyncStep P m])"

definition testReplGetaAckZero :: "'w peer \<Rightarrow> 'w run" where
  "testReplGetaAckZero P = as_master P (\<lambda>m. run_all [ReceiveHandshake_RunAll P m, GetAckTestCase P 0 m])"

definition testReplGetaAckNonZero :: "'w peer \<Rightarrow> string \<Rightarrow> string \<Rightarrow> string \<Rightarrow> string \<Rightarrow> 'w run" where
  "testReplGetaAckNonZero P k1 v1 k2 v2 =
     as_master P (\<lambda>m. run_all
       [ReceiveHandshake_RunAll P m,
        \<lambda>s. (Passed, with_client m (ResetByteCounters (Clients s m)) s),
        get_ack_now P m, send_as_master P ''PING'' [] m,
        get_ack_now P m, send_as_master P ''SET'' [k1, v1] m, send_as_master P ''SET'' [k2, v2] m,
        get_ack_now P m])"

definition retried_get :: "'w peer \<Rightarrow> string \<Rightarrow> string \<Rightarrow> nat \<Rightarrow> 'w run" where
  "retried_get P key val =
     SendCommandTestCase_Run P
       ((send_command ''GET'' [key] (BulkStringAssertion val))
        \<lparr>Retries := 5, ShouldRetryFunc := Some (\<lambda>v. snd (NilAssertion v :: string report) = Pass)\<rparr>)"

definition testReplCmdProcessing :: "'w peer \<Rightarrow> 'w run" where
  "testReplCmdProcessing P =
     as_master P (\<lambda>m s. proceed (ReceiveHandshake_RunAll P m s)
       (one_client P (\<lambda>c. run_all
          (map (\<lambda>(k, v). send_as_master P ''SET'' [k, v] m) kvMap
           @ [\<lambda>s. (Passed, sleep P 1000000 s)]
           @ map (\<lambda>(k, v). retried_get P k v c) kvMap))))"

end
