(* ===== verification/Run_Logic.thy ===== *)
theory Run_Logic
  imports Protocol_Stages Codec_Properties
begin

text \<open>
  How the tester's scripts are verified, whatever server is on the other side: triples over test runs,
  and locales for what a script needs of a server. \<open>answering\<close>: a request that reaches a waiting
  connection is answered by one value, in reads that arrive within the tester's patience; then a
  command with its assertion does what the assertion says of that value. \<open>starting\<close>: the program
  starts and accepts the tester's first connection. \<open>accepting\<close>: a server that serves one connection
  accepts another.
\<close>

section \<open>Triples over test runs\<close>

definition passes :: "('w bench \<Rightarrow> bool) \<Rightarrow> 'w run \<Rightarrow> ('w bench \<Rightarrow> bool) \<Rightarrow> bool" where
  "passes Q t R \<longleftrightarrow> (\<forall>b. Q b \<longrightarrow> (\<exists>b'. t b = (Passed, b') \<and> R b'))"

lemma passesI: "(\<And>b. Q b \<Longrightarrow> \<exists>b'. t b = (Passed, b') \<and> R b') \<Longrightarrow> passes Q t R"
  by (simp add: passes_def)

lemma passesD: "passes Q t R \<Longrightarrow> Q b \<Longrightarrow> \<exists>b'. t b = (Passed, b') \<and> R b'"
  by (simp add: passes_def)

lemma passes_Passed: "passes Q t R \<Longrightarrow> Q b \<Longrightarrow> fst (t b) = Passed"
  by (auto simp: passes_def)

lemma passes_weaken: "passes Q t R \<Longrightarrow> (\<And>b. Q' b \<Longrightarrow> Q b) \<Longrightarrow> (\<And>b. R b \<Longrightarrow> R' b) \<Longrightarrow> passes Q' t R'"
  by (fastforce simp: passes_def)

lemma passes_proceed: "passes Q t R \<Longrightarrow> passes R u U \<Longrightarrow> passes Q (\<lambda>b. proceed (t b) u) U"
  by (fastforce simp: passes_def)

lemma passes_skip: "passes Q (\<lambda>b. (Passed, f b)) R \<longleftrightarrow> (\<forall>b. Q b \<longrightarrow> R (f b))"
  by (simp add: passes_def)

lemma passes_Nil: "passes Q (run_all []) Q"
  by (simp add: passes_def)

lemma passes_Cons: "passes Q t R \<Longrightarrow> passes R (run_all ts) U \<Longrightarrow> passes Q (run_all (t # ts)) U"
  by (drule (1) passes_proceed) (simp add: passes_def)

lemma passes_append: "passes Q (run_all ts) R \<Longrightarrow> passes R (run_all us) U \<Longrightarrow> passes Q (run_all (ts @ us)) U"
  using passes_proceed[of Q "run_all ts" R "run_all us" U] by (simp add: passes_def run_all_append)

lemma passes_replicate: "passes Q t Q \<Longrightarrow> passes Q (run_all (replicate n t)) Q"
proof (induction n)
  case 0
  show ?case using passes_Nil by (simp only: replicate.simps)
next
  case (Suc n)
  show ?case using passes_Cons[OF Suc.prems Suc.IH[OF Suc.prems]] by (simp only: replicate.simps)
qed

lemma passes_all: "(\<And>t. t \<in> set ts \<Longrightarrow> passes Q t Q) \<Longrightarrow> passes Q (run_all ts) Q"
proof (induction ts)
  case Nil
  show ?case by (rule passes_Nil)
next
  case (Cons t ts)
  then show ?case by (intro passes_Cons[of Q t Q]) simp_all
qed

text \<open>Runs that end with a given result.\<close>

definition ends :: "('w bench \<Rightarrow> bool) \<Rightarrow> 'w run \<Rightarrow> case_result \<Rightarrow> bool" where
  "ends Q t r \<longleftrightarrow> (\<forall>b. Q b \<longrightarrow> fst (t b) = r)"

lemma ends_weaken: "ends Q t r \<Longrightarrow> (\<And>b. Q' b \<Longrightarrow> Q b) \<Longrightarrow> ends Q' t r"
  by (simp add: ends_def)

lemma ends_first: "ends Q t r \<Longrightarrow> r \<noteq> Passed \<Longrightarrow> ends Q (run_all (t # ts)) r"
  by (fastforce simp: ends_def proceed_def split: prod.splits case_result.splits)

lemma ends_Cons: "passes Q t R \<Longrightarrow> ends R (run_all ts) r \<Longrightarrow> ends Q (run_all (t # ts)) r"
  by (fastforce simp: passes_def ends_def)

lemma ends_proceed: "passes Q t R \<Longrightarrow> ends R u r \<Longrightarrow> ends Q (\<lambda>b. proceed (t b) u) r"
  by (fastforce simp: passes_def ends_def)

text \<open>A loop over a list with an invariant about the elements it has passed.\<close>

lemma passes_map:
  assumes "\<And>x ys zs. xs = ys @ x # zs \<Longrightarrow> passes (I ys) (f x) (I (ys @ [x]))"
  shows "passes (I []) (run_all (map f xs)) (I xs)"
proof -
  have "passes (I ys) (run_all (map f zs)) (I xs)" if "xs = ys @ zs" for ys zs
    using that
  proof (induction zs arbitrary: ys)
    case Nil
    then show ?case by (simp add: passes_def)
  next
    case (Cons z zs)
    have "passes (I (ys @ [z])) (run_all (map f zs)) (I xs)" using Cons.IH[of "ys @ [z]"] Cons.prems by simp
    from passes_Cons[OF assms[OF Cons.prems] this] show ?case by (simp only: list.map)
  qed
  from this[of "[]" xs] show ?thesis by simp
qed

text \<open>The verdict on the value that arrived.\<close>

definition judged :: "'h report \<Rightarrow> case_result" where
  "judged r = (case snd r of Pass \<Rightarrow> Passed | Fail f \<Rightarrow> Failed (Mismatch f) | Crash \<Rightarrow> Panicked)"

lemma judged_simps [simp]:
  "judged (es, Pass) = Passed" "judged (es, Fail f) = Failed (Mismatch f)" "judged (es, Crash) = Panicked"
  by (simp_all add: judged_def)

section \<open>One command\<close>

text \<open>A connection of the tester with nothing under way.\<close>

definition quiet :: "RespConnection \<Rightarrow> bool" where
  "quiet c \<longleftrightarrow> net_in c = [] \<and> UnreadBuffer c = [] \<and> ReadValueInterceptor c = None \<and> budget (net_out c) = None"

text \<open>\<open>serves i s w\<close>: the other side, \<open>w\<close>, has connection \<open>i\<close> open and waiting, and \<open>s\<close> describes its state.\<close>

definition attended :: "(nat \<Rightarrow> 's \<Rightarrow> 'w \<Rightarrow> bool) \<Rightarrow> nat \<Rightarrow> 's \<Rightarrow> 'w bench \<Rightarrow> bool" where
  "attended serves i s b \<longleftrightarrow> quiet (Clients b i) \<and> serves i s (Remote b)"

lemma quiet_new_client [simp]: "quiet new_client"
  by (simp add: quiet_def new_client_def NewRespConnectionFromConn_def)

lemma Assert_quiet:
  assumes "quiet (Clients b i)"
  shows "Assert A skip v i b = (judged (A v), b)"
proof -
  have "ReadIntoBuffer (Clients b i) = Clients b i" "UnreadBuffer (Clients b i) = []"
    using assms by (simp_all add: quiet_def ReadIntoBuffer_def)
  moreover have "with_client i (Clients b i) b = b" by (simp add: with_client_def)
  ultimately show ?thesis by (simp add: Assert_def judged_def extra_data_check_def split: verdict.splits)
qed

lemma client_send_command:
  assumes "budget (net_out (Clients b i)) = None"
  obtains c where "client_send P i (SendCommand cmd args (Clients b i)) b
      = (Passed, absorb (Deliver P i (resp_array (cmd # args)) (Remote b)) (with_client i c b))"
    "net_in c = net_in (Clients b i)" "UnreadBuffer c = UnreadBuffer (Clients b i)"
    "ReadValueInterceptor c = ReadValueInterceptor (Clients b i)" "budget (net_out c) = None"
proof -
  obtain c where c: "SendCommand cmd args (Clients b i) = Some (True, c)"
    "net_in c = net_in (Clients b i)" "UnreadBuffer c = UnreadBuffer (Clients b i)"
    "ReadValueInterceptor c = ReadValueInterceptor (Clients b i)" "budget (net_out c) = None"
    "written (net_out c) = written (net_out (Clients b i)) @ resp_array (cmd # args)"
    using assms by (simp add: SendCommand_def Encode_command SendBytes_def sink_write_def)
  with that[of c] show thesis by (simp add: client_send_def)
qed

text \<open>What a delivery did to the other connections, and the other side after it.\<close>

definition spread :: "nat \<Rightarrow> (nat \<Rightarrow> string list) \<times> 'w \<Rightarrow> 'w bench \<Rightarrow> 'w bench \<Rightarrow> bool" where
  "spread i r b b' \<longleftrightarrow>
     (\<forall>e. e \<noteq> i \<longrightarrow> Clients b' e = (Clients b e)\<lparr>net_in := net_in (Clients b e) @ fst r e\<rparr>) \<and>
     Remote b' = snd r \<and> clientsSpawned b' = clientsSpawned b"

locale answering =
  fixes P :: "'w peer" and serves :: "nat \<Rightarrow> 's \<Rightarrow> 'w \<Rightarrow> bool"
    and answers :: "nat \<Rightarrow> string list \<Rightarrow> 's \<Rightarrow> Value \<Rightarrow> 's \<Rightarrow> bool"
  assumes deliver: "serves i s w \<Longrightarrow> answers i req s v t \<Longrightarrow>
    \<exists>rs w'. Deliver P i (resp_array req) w = (rs, w') \<and> concat (rs i) = wire v \<and> [] \<notin> set (rs i) \<and>
      length (rs i) \<le> Polls P \<and> serves i t w'"
begin

lemma attempt_answer:
  assumes "attended serves i s b" "answers i (ToUpper (Command tc) # Args tc) s v t" "wire_ok v"
  obtains b' where "attempt P tc i b = (Inr v, b')" "attended serves i t b'"
    "spread i (Deliver P i (resp_array (ToUpper (Command tc) # Args tc)) (Remote b)) b b'"
proof -
  have q: "quiet (Clients b i)" using assms(1) by (simp add: attended_def)
  obtain rs w' where rs: "Deliver P i (resp_array (ToUpper (Command tc) # Args tc)) (Remote b) = (rs, w')"
      "concat (rs i) = wire v" "[] \<notin> set (rs i)" "length (rs i) \<le> Polls P" "serves i t w'"
    using deliver[OF _ assms(2)] assms(1) unfolding attended_def by blast
  from client_send_command[of b i P "ToUpper (Command tc)" "Args tc"] q obtain c where
    c: "client_send P i (SendCommand (ToUpper (Command tc)) (Args tc) (Clients b i)) b = (Passed, absorb (rs, w') (with_client i c b))"
      "net_in c = []" "UnreadBuffer c = []" "ReadValueInterceptor c = None" "budget (net_out c) = None"
    unfolding quiet_def rs(1) by metis
  let ?b = "absorb (rs, w') (with_client i c b)"
  let ?c = "Clients ?b i"
  have net: "?c = c\<lparr>net_in := rs i\<rparr>" "Remote ?b = w'"
    using c(2) by (simp_all add: absorb_def with_client_def)
  have "rs i \<noteq> []" using rs(2) wire_nonempty[of v] by (metis concat.simps(1))
  then have "0 < Polls P" using rs(4) by (cases "Polls P") auto
  moreover have "pending ?c = wire v @ []" "ReadValueInterceptor ?c = None"
    "length (wire v) \<le> length (UnreadBuffer ?c @ concat (take (Polls P) (net_in ?c)))"
    using net rs c by (simp_all add: pending_def)
  ultimately obtain n u where r: "u @ concat n = []" "set n \<subseteq> set (net_in ?c)"
    "ReadValueWithTimeout (Polls P) ?c
      = (Inr v, ?c\<lparr>net_in := n, UnreadBuffer := u, LastValueBytesCount := int (length (wire v)),
                  ReceivedBytesCount := ReceivedBytesCount ?c + int (length (wire v))\<rparr>)"
    using read_wire[OF assms(3), of ?c "[]" "Polls P"] by metis
  have "n = []" "u = []" using r(1,2) net(1) rs(3) by (cases n; fastforce)+
  define d where "d = ?c\<lparr>net_in := [], UnreadBuffer := [], LastValueBytesCount := int (length (wire v)),
                  ReceivedBytesCount := ReceivedBytesCount ?c + int (length (wire v))\<rparr>"
  have read: "ReadValueWithTimeout (Polls P) ?c = (Inr v, d)"
    using r(3) \<open>n = []\<close> \<open>u = []\<close> by (simp add: d_def)
  have "quiet d" using c(4,5) net(1) by (simp_all add: d_def quiet_def)
  then have "attended serves i t (with_client i d ?b)" using rs(5) net(2) by (simp add: attended_def with_client_def)
  moreover have "attempt P tc i b = (Inr v, with_client i d ?b)"
    using c(1) read by (simp add: attempt_def RunWithoutAssert_def)
  moreover have "spread i (rs, w') b (with_client i d ?b)" by (simp add: spread_def with_client_def absorb_def)
  ultimately show thesis using that rs(1) by metis
qed

lemma run_case_answer:
  assumes "attended serves i s b" "answers i (ToUpper (Command tc) # Args tc) s v t" "wire_ok v" "Retries tc = 0"
  obtains b' where "SendCommandTestCase_Run P tc i b = (judged (Assertion tc v), b')" "attended serves i t b'"
    "spread i (Deliver P i (resp_array (ToUpper (Command tc) # Args tc)) (Remote b)) b b'"
proof -
  obtain b' where b: "attempt P tc i b = (Inr v, b')" "attended serves i t b'"
    "spread i (Deliver P i (resp_array (ToUpper (Command tc) # Args tc)) (Remote b)) b b'" by (rule attempt_answer[OF assms(1-3)])
  then have "SendCommandTestCase_Run P tc i b = (judged (Assertion tc v), b')"
    using b(2) assms(4) by (simp add: SendCommandTestCase_Run_def attended_def Assert_quiet)
  then show thesis using b(2,3) by (rule that)
qed

lemma send_case_answer:
  assumes "attended serves i s b" "answers i (ToUpper cmd # args) s v t" "wire_ok v"
  obtains b' where "send_case P cmd args A i b = (judged (A v), b')" "attended serves i t b'"
    "spread i (Deliver P i (resp_array (ToUpper cmd # args)) (Remote b)) b b'"
  using run_case_answer[of i s b "send_command cmd args A" v t] assms by (auto simp: send_command_def)

lemma send_case_verdict:
  assumes "attended serves i s b" "answers i (ToUpper cmd # args) s v t" "wire_ok v"
  shows "fst (send_case P cmd args A i b) = judged (A v)"
  by (rule send_case_answer[OF assms, of A]) simp

text \<open>A step of a script: the answer is accepted, and the server is in a state that satisfies \<open>R\<close>.\<close>

lemma send_case_passes:
  assumes "\<And>s w. serves i s w \<Longrightarrow> Q s \<Longrightarrow>
    \<exists>v t. answers i (ToUpper cmd # args) s v t \<and> wire_ok v \<and> snd (A v) = Pass \<and> R t"
  shows "passes (\<lambda>b. \<exists>s. attended serves i s b \<and> Q s) (send_case P cmd args A i) (\<lambda>b. \<exists>s. attended serves i s b \<and> R s)"
proof (rule passesI)
  fix b assume "\<exists>s. attended serves i s b \<and> Q s"
  then obtain s where s: "attended serves i s b" "Q s" by blast
  with assms obtain v t where v: "answers i (ToUpper cmd # args) s v t" "wire_ok v" "snd (A v) = Pass" "R t"
    unfolding attended_def by blast
  from send_case_answer[OF s(1) v(1,2), of A] obtain b' where
    "send_case P cmd args A i b = (judged (A v), b')" "attended serves i t b'" .
  with v(3,4) show "\<exists>b'. send_case P cmd args A i b = (Passed, b') \<and> (\<exists>s. attended serves i s b' \<and> R s)"
    by (auto simp: judged_def)
qed

text \<open>A step that ends the script: the answer is judged as \<open>r\<close>.\<close>

lemma run_case_ends:
  assumes "Retries tc = 0" "\<And>s w. serves i s w \<Longrightarrow> Q s \<Longrightarrow>
    \<exists>v t. answers i (ToUpper (Command tc) # Args tc) s v t \<and> wire_ok v \<and> judged (Assertion tc v) = r"
  shows "ends (\<lambda>b. \<exists>s. attended serves i s b \<and> Q s) (SendCommandTestCase_Run P tc i) r"
  unfolding ends_def
proof (intro allI impI)
  fix b assume "\<exists>s. attended serves i s b \<and> Q s"
  then obtain s where s: "attended serves i s b" "Q s" by blast
  with assms(2) obtain v t where v: "answers i (ToUpper (Command tc) # Args tc) s v t" "wire_ok v" "judged (Assertion tc v) = r"
    unfolding attended_def by blast
  show "fst (SendCommandTestCase_Run P tc i b) = r"
    by (rule run_case_answer[OF s(1) v(1,2) assms(1)]) (simp add: v(3))
qed

lemma send_case_ends:
  assumes "\<And>s w. serves i s w \<Longrightarrow> Q s \<Longrightarrow>
    \<exists>v t. answers i (ToUpper cmd # args) s v t \<and> wire_ok v \<and> judged (A v) = r"
  shows "ends (\<lambda>b. \<exists>s. attended serves i s b \<and> Q s) (send_case P cmd args A i) r"
  by (rule run_case_ends) (use assms in \<open>simp_all add: send_command_def\<close>)

end

section \<open>The start\<close>

text \<open>\<open>usable args\<close>: the program starts with these arguments; \<open>fresh i s\<close>: the state after the first client has come.\<close>

locale starting = answering +
  fixes usable :: "string list \<Rightarrow> bool" and fresh :: "nat \<Rightarrow> 's \<Rightarrow> bool"
  assumes start: "usable args \<Longrightarrow> \<exists>w0. Launch P args w = Some w0 \<and>
    (\<exists>w1 s. Accept P i w0 = Some w1 \<and> serves i s w1 \<and> fresh i s)"
begin

lemma first_client_reached:
  assumes "usable args"
  obtains i b' where "run_program P args (one_client P k) b = k i b'" "\<exists>s. attended serves i s b' \<and> fresh i s"
proof -
  let ?i = "clientsSpawned b"
  from start[OF assms, of "Remote b" ?i] obtain w0 w1 s where
    w: "Launch P args (Remote b) = Some w0" "Accept P ?i w0 = Some w1" "serves ?i s w1" "fresh ?i s" by blast
  let ?b = "(with_client ?i new_client (b\<lparr>Remote := w0\<rparr>))\<lparr>clientsSpawned := ?i + 1, Remote := w1\<rparr>"
  have "run_program P args (one_client P k) b = k ?i ?b"
    using w(1,2) by (simp add: run_program_def one_client_def spawnClient_def)
  moreover have "attended serves ?i s ?b" using w(3) by (simp add: attended_def with_client_def)
  ultimately show thesis using that w(4) by blast
qed

lemma stage_passes:
  assumes "usable args" "\<And>i. passes (\<lambda>b. \<exists>s. attended serves i s b \<and> fresh i s) (k i) (R i)"
  shows "fst (run_program P args (one_client P k) b) = Passed"
proof -
  from first_client_reached[OF assms(1)] obtain i b' where
    "run_program P args (one_client P k) b = k i b'" "\<exists>s. attended serves i s b' \<and> fresh i s" .
  with passes_Passed[OF assms(2)[of i], of b'] show ?thesis by simp
qed

lemma stage_ends:
  assumes "usable args" "\<And>i. ends (\<lambda>b. \<exists>s. attended serves i s b \<and> fresh i s) (k i) r"
  shows "fst (run_program P args (one_client P k) b) = r"
proof -
  from first_client_reached[OF assms(1)] obtain i b' where
    "run_program P args (one_client P k) b = k i b'" "\<exists>s. attended serves i s b' \<and> fresh i s" .
  with assms(2)[of i] show ?thesis by (simp add: ends_def)
qed

end

section \<open>Another connection\<close>

text \<open>\<open>joins j s t\<close>: accepting connection \<open>j\<close> takes the server from state \<open>s\<close> to \<open>t\<close>.\<close>

locale accepting = answering +
  fixes joins :: "nat \<Rightarrow> 's \<Rightarrow> 's \<Rightarrow> bool"
  assumes accept: "serves i s w \<Longrightarrow> joins j s t \<Longrightarrow> \<exists>w'. Accept P j w = Some w' \<and> serves j t w'"
begin

lemma next_client_reached:
  assumes "attended serves i s b" "joins (clientsSpawned b) s t"
  obtains b' where "one_client P k b = k (clientsSpawned b) b'" "attended serves (clientsSpawned b) t b'"
proof -
  let ?j = "clientsSpawned b"
  from assms obtain w' where w: "Accept P ?j (Remote b) = Some w'" "serves ?j t w'"
    using accept unfolding attended_def by blast
  let ?b = "(with_client ?j new_client b)\<lparr>clientsSpawned := ?j + 1, Remote := w'\<rparr>"
  have "one_client P k b = k ?j ?b" using w(1) by (simp add: one_client_def spawnClient_def)
  moreover have "attended serves ?j t ?b" using w(2) by (simp add: attended_def with_client_def)
  ultimately show thesis by (rule that)
qed

lemma next_client_passes:
  assumes "\<And>s j. Q s \<Longrightarrow> \<exists>t. joins j s t \<and> R j t"
    "\<And>j. passes (\<lambda>b. \<exists>s. attended serves j s b \<and> R j s) (k j) U"
  shows "passes (\<lambda>b. \<exists>s. attended serves i s b \<and> Q s) (one_client P k) U"
proof (rule passesI)
  fix b assume "\<exists>s. attended serves i s b \<and> Q s"
  then obtain s t where s: "attended serves i s b" "joins (clientsSpawned b) s t" "R (clientsSpawned b) t" using assms(1) by blast
  obtain b' where "one_client P k b = k (clientsSpawned b) b'" "attended serves (clientsSpawned b) t b'"
    by (rule next_client_reached[OF s(1,2)])
  with passesD[OF assms(2), of "clientsSpawned b" b'] s(3)
  show "\<exists>b'. one_client P k b = (Passed, b') \<and> U b'" by auto
qed

lemma next_client_ends:
  assumes "\<And>s j. Q s \<Longrightarrow> \<exists>t. joins j s t \<and> R j t"
    "\<And>j. ends (\<lambda>b. \<exists>s. attended serves j s b \<and> R j s) (k j) r"
  shows "ends (\<lambda>b. \<exists>s. attended serves i s b \<and> Q s) (one_client P k) r"
  unfolding ends_def
proof (intro allI impI)
  fix b assume "\<exists>s. attended serves i s b \<and> Q s"
  then obtain s t where s: "attended serves i s b" "joins (clientsSpawned b) s t" "R (clientsSpawned b) t" using assms(1) by blast
  obtain b' where "one_client P k b = k (clientsSpawned b) b'" "attended serves (clientsSpawned b) t b'"
    by (rule next_client_reached[OF s(1,2)])
  with assms(2)[of "clientsSpawned b"] s(3) show "fst (one_client P k b) = r" unfolding ends_def by auto
qed

end

end
