(* ===== verification/Server_Peer.thy ===== *)
theory Server_Peer
  imports Server Protocol_Stages
begin

text \<open>
  The repository's server as the other side of the tester: the process of \<open>Server\<close> behind the
  tester's connections. A request arrives in one piece, as one write over a local connection does;
  the server's output reaches the tester in the reads that \<open>segments\<close> cuts it into. The process is
  one started as a master.
\<close>

section \<open>The command line\<close>

definition default_flags :: "string \<Rightarrow> flags" where
  "default_flags cwd =
     \<lparr>flag_dir = cwd, flag_dbfilename = ''rdbfiles'', flag_port = 6379, flag_replicaof = ''master'',
      flag_appendonly = ''no'', flag_appenddirname = ''appendonlydir'', flag_appendfilename = ''appendonly.aof'',
      flag_appendfsync = ''everysec''\<rparr>"

text \<open>A flag's value; the port in decimal. \<open>None\<close>: \<open>flag.Parse\<close> ends the process.\<close>

definition set_flag :: "string \<Rightarrow> string \<Rightarrow> flags \<Rightarrow> flags option" where
  "set_flag name v F =
     (if name = ''dir'' then Some (F\<lparr>flag_dir := v\<rparr>)
      else if name = ''dbfilename'' then Some (F\<lparr>flag_dbfilename := v\<rparr>)
      else if name = ''port''
      then (case Atoi v of (n, None) \<Rightarrow> Some (F\<lparr>flag_port := n\<rparr>) | (_, Some _) \<Rightarrow> None)
      else if name = ''replicaof'' then Some (F\<lparr>flag_replicaof := v\<rparr>)
      else if name = ''appendonly'' then Some (F\<lparr>flag_appendonly := v\<rparr>)
      else if name = ''appenddirname'' then Some (F\<lparr>flag_appenddirname := v\<rparr>)
      else if name = ''appendfilename'' then Some (F\<lparr>flag_appendfilename := v\<rparr>)
      else if name = ''appendfsync'' then Some (F\<lparr>flag_appendfsync := v\<rparr>)
      else None)"

text \<open>
  \<open>flag.Parse\<close> over flags that all take a value: one or two dashes, the value behind an equals sign or
  in the next argument; \<open>store\<close> keeps it, or refuses the flag or its value.
\<close>

fun parse_args :: "(string \<Rightarrow> string \<Rightarrow> 'f \<Rightarrow> 'f option) \<Rightarrow> string list \<Rightarrow> 'f \<Rightarrow> 'f option" where
  "parse_args store [] F = Some F"
| "parse_args store (a # as) F =
     (let name = (if length a < 2 \<or> hd a \<noteq> CHR ''-'' then [] else if a ! 1 = CHR ''-'' then drop 2 a else tl a)
      in if name = [] then Some F
         else if hd name = CHR ''-'' \<or> hd name = CHR ''='' then None
         else case find_index (\<lambda>ch. ch = CHR ''='') name of
                Some i \<Rightarrow> (case store (take i name) (drop (Suc i) name) F of
                             None \<Rightarrow> None | Some F1 \<Rightarrow> parse_args store as F1)
              | None \<Rightarrow> (case as of
                           [] \<Rightarrow> None
                         | v # rest \<Rightarrow> (case store name v F of
                                         None \<Rightarrow> None | Some F1 \<Rightarrow> parse_args store rest F1)))"

definition parse_flags :: "string list \<Rightarrow> flags \<Rightarrow> flags option" where
  "parse_flags = parse_args set_flag"

section \<open>The process\<close>

record site =
  plat :: platform
  osys :: host
  workdir :: string
  start_time :: int
  segments :: "string \<Rightarrow> string list"
  polls :: nat

text \<open>A connection whose handler waits for a lock is stuck: the locks a handler leaves are never given back.\<close>

record process =
  machine :: server
  stuck :: "nat set"
  accepted :: nat
  crashed :: bool

definition idle_conn :: conn where
  "idle_conn =
     \<lparr>crd = \<lparr>rbuf = [], rsrc = []\<rparr>, cout = \<lparr>written = [], budget = None\<rparr>, authUser = [], silent = False,
      act = Serving\<rparr>"

definition launch :: "site \<Rightarrow> string list \<Rightarrow> process option" where
  "launch S args =
     (case parse_flags args (default_flags (workdir S)) of
        None \<Rightarrow> None
      | Some F \<Rightarrow>
          let r = main F (osys S) 0 (\<lambda>_. idle_conn) (start_time S)
          in Some \<lparr>machine = final r, stuck = {}, accepted = 0, crashed = (\<not> returns r)\<rparr>)"

definition admit :: "nat \<Rightarrow> process \<Rightarrow> process option" where
  "admit i p =
     (if crashed p then None
      else case start_session i (accept_conn i \<lparr>rbuf = [], rsrc = []\<rparr> \<lparr>written = [], budget = None\<rparr> (machine p)) of
             Done s \<Rightarrow> Some (p\<lparr>machine := s, accepted := max (accepted p) (Suc i)\<rparr>)
           | _ \<Rightarrow> None)"

text \<open>The goroutine of a connection goes on after something has happened to it.\<close>

definition turn :: "site \<Rightarrow> nat \<Rightarrow> (server \<Rightarrow> server) \<Rightarrow> process \<Rightarrow> process" where
  "turn S i f p =
     (if crashed p then p
      else if i \<in> stuck p then p\<lparr>machine := f (machine p)\<rparr>
      else case serve_loop (plat S) i (f (machine p)) of
             Done s \<Rightarrow> p\<lparr>machine := s\<rparr>
           | Blocked s \<Rightarrow> p\<lparr>machine := s, stuck := insert i (stuck p)\<rparr>
           | Panic s \<Rightarrow> p\<lparr>machine := s, crashed := True\<rparr>)"

definition arrive :: "nat \<Rightarrow> string \<Rightarrow> server \<Rightarrow> server" where
  "arrive i bs s = set_rd i ((rd_of i s)\<lparr>rsrc := rsrc (rd_of i s) @ [Chunk bs]\<rparr>) s"

text \<open>The goroutines that wait for a value and have got one, in the order of their connections.\<close>

definition has_value :: "nat \<Rightarrow> server \<Rightarrow> bool" where
  "has_value c s = (case act (conns s c) of PopWait ch _ _ \<Rightarrow> chans s ch \<noteq> None | _ \<Rightarrow> False)"

definition wake :: "site \<Rightarrow> process \<Rightarrow> process" where
  "wake S p = fold (\<lambda>c p. if has_value c (machine p) then turn S c (blpop_receive c) p else p) [0 ..< accepted p] p"

text \<open>What time does: deadlines pass, first those of expiring keys, then those of waiting clients.\<close>

definition due :: "nat \<Rightarrow> server \<Rightarrow> bool" where
  "due c s = (case act (conns s c) of
     PopWait _ _ (Some t) \<Rightarrow> t \<le> clock s | AckWait _ (Some t) _ \<Rightarrow> t \<le> clock s | _ \<Rightarrow> False)"

definition pass_time :: "site \<Rightarrow> int \<Rightarrow> process \<Rightarrow> process" where
  "pass_time S d p =
     (if crashed p then p
      else let s = tick d (machine p); s1 = fold fire_timer (rev [0 ..< length (timers s)]) s
           in fold (\<lambda>c p. if due c (machine p) then turn S c (wait_expire c \<circ> blpop_leave c \<circ> blpop_expire c) p else p)
                [0 ..< accepted p] (p\<lparr>machine := s1\<rparr>))"

text \<open>The reads that a change of the process causes.\<close>

definition new_reads :: "site \<Rightarrow> process \<Rightarrow> process \<Rightarrow> nat \<Rightarrow> string list" where
  "new_reads S p q e = segments S (drop (length (out e (machine p))) (out e (machine q)))"

definition reaction :: "site \<Rightarrow> (process \<Rightarrow> process) \<Rightarrow> process option \<Rightarrow> (nat \<Rightarrow> string list) \<times> process option" where
  "reaction S f w = (case w of None \<Rightarrow> (\<lambda>_. [], None) | Some p \<Rightarrow> (new_reads S p (f p), Some (f p)))"

definition server_peer :: "site \<Rightarrow> process option peer" where
  "server_peer S =
     \<lparr>Launch = (\<lambda>args w. Some (launch S args)),
      Dialled = (\<lambda>i w. None),
      Accept = (\<lambda>i w. case w of None \<Rightarrow> None | Some p \<Rightarrow> map_option Some (admit i p)),
      Deliver = (\<lambda>i bs. reaction S (\<lambda>p. wake S (turn S i (arrive i bs) p))),
      Elapse = (\<lambda>d. reaction S (pass_time S d)),
      Polls = polls S\<rparr>"

lemma server_peer_fields [simp]:
  "Launch (server_peer S) args w = Some (launch S args)"
  "Accept (server_peer S) i (Some p) = map_option Some (admit i p)"
  "Deliver (server_peer S) i bs w = reaction S (\<lambda>p. wake S (turn S i (arrive i bs) p)) w"
  "Elapse (server_peer S) d w = reaction S (pass_time S d) w"
  "Polls (server_peer S) = polls S"
  by (simp_all add: server_peer_def)

end
