(* ===== verification/Stage_Logic.thy ===== *)
theory Stage_Logic
  imports Run_Logic Server_Peer Store_Properties
begin

text \<open>
  The repository's server as the other side of the tester's scripts: what its serve loop does with one
  request, and how it starts and accepts connections. It interprets \<open>answering\<close>, \<open>starting\<close> and
  \<open>accepting\<close>.
\<close>

section \<open>One command\<close>

text \<open>
  A master with no value under way to a client in \<open>BLPOP\<close>, and a connection of it that is not a
  replica's and waits for a request, logged in or not, with nothing buffered.
\<close>

definition serviceable :: "nat \<Rightarrow> server \<Rightarrow> bool" where
  "serviceable i s \<longleftrightarrow> role_is ''master'' s \<and> i \<notin> rep_conn ` set (Replicas s) \<and> chans s = Map.empty"

definition calm :: "nat \<Rightarrow> server \<Rightarrow> bool" where
  "calm i s \<longleftrightarrow> at_prompt i s \<and> rd_of i s = \<lparr>rbuf = [], rsrc = []\<rparr> \<and> serviceable i s"

text \<open>What a request that arrives on such a connection leads to.\<close>

definition received :: "nat \<Rightarrow> string list \<Rightarrow> server \<Rightarrow> server" where
  "received i req s = set_rd i \<lparr>rbuf = [], rsrc = [Chunk (resp_array req)]\<rparr> s"

definition answers :: "platform \<Rightarrow> nat \<Rightarrow> string list \<Rightarrow> server \<Rightarrow> Value \<Rightarrow> server \<Rightarrow> bool" where
  "answers P i req s v t \<longleftrightarrow>
     serve_loop P i (received i req s) = Done t \<and> out i t = out i s @ wire v \<and> calm i t"

text \<open>Connection \<open>i\<close> of the running server, whose state is \<open>s\<close>.\<close>

definition serves :: "nat \<Rightarrow> server \<Rightarrow> process option \<Rightarrow> bool" where
  "serves i s w \<longleftrightarrow> calm i s \<and> (\<exists>p. w = Some p \<and> \<not> crashed p \<and> stuck p = {} \<and> machine p = s)"

text \<open>The network loses and invents nothing, and an answer is there within two seconds.\<close>

definition good_site :: "site \<Rightarrow> bool" where
  "good_site S \<longleftrightarrow>
     (\<forall>bs. concat (segments S bs) = bs \<and> [] \<notin> set (segments S bs) \<and> length (segments S bs) \<le> polls S)"

lemma quiet_reads: "good_site S \<Longrightarrow> segments S [] = []"
  by (auto simp: good_site_def dest: spec[of _ "[]"]) (metis concat.simps concat_eq_Nil_conv list.set_intros(1) neq_Nil_conv)

lemma wake_none: "chans (machine p) = Map.empty \<Longrightarrow> wake S p = p"
proof -
  assume "chans (machine p) = Map.empty"
  then have "\<not> has_value c (machine p)" for c by (simp add: has_value_def split: activity.splits)
  then have "fold (\<lambda>c p. if has_value c (machine p) then turn S c (blpop_receive c) p else p) cs p = p" for cs
    by (induction cs) simp_all
  then show ?thesis by (simp add: wake_def)
qed

lemma deliver_loop:
  assumes "calm i (machine p)" "\<not> crashed p" "stuck p = {}" "serve_loop (plat S) i (received i req (machine p)) = Done t"
    "chans t = Map.empty"
  shows "Deliver (server_peer S) i (resp_array req) (Some p) = (new_reads S p (p\<lparr>machine := t\<rparr>), Some (p\<lparr>machine := t\<rparr>))"
proof -
  have "arrive i (resp_array req) (machine p) = received i req (machine p)"
    using assms(1) by (simp add: arrive_def received_def calm_def)
  then have "turn S i (arrive i (resp_array req)) p = p\<lparr>machine := t\<rparr>" using assms(2-4) by (simp add: turn_def)
  moreover have "wake S (p\<lparr>machine := t\<rparr>) = p\<lparr>machine := t\<rparr>" using assms(5) by (intro wake_none) simp
  ultimately show ?thesis by (simp add: reaction_def)
qed

lemma deliver_answer:
  assumes "serves i s w" "answers (plat S) i req s v t"
  obtains p where "Deliver (server_peer S) i (resp_array req) w = (new_reads S p (p\<lparr>machine := t\<rparr>), Some (p\<lparr>machine := t\<rparr>))"
    "new_reads S p (p\<lparr>machine := t\<rparr>) i = segments S (wire v)" "\<not> crashed p" "stuck p = {}" "w = Some p" "machine p = s"
proof -
  obtain p where p: "w = Some p" "\<not> crashed p" "stuck p = {}" "machine p = s" "calm i s"
    using assms(1) by (auto simp: serves_def)
  have "Deliver (server_peer S) i (resp_array req) w = (new_reads S p (p\<lparr>machine := t\<rparr>), Some (p\<lparr>machine := t\<rparr>))"
    unfolding p(1) by (rule deliver_loop) (use assms(2) p in \<open>simp_all add: answers_def calm_def serviceable_def\<close>)
  moreover have "new_reads S p (p\<lparr>machine := t\<rparr>) i = segments S (wire v)"
    using assms(2) p(4) by (simp add: new_reads_def answers_def)
  ultimately show thesis using that[of p] p by simp
qed

interpretation server: answering "server_peer S" serves "\<lambda>i req s v t. good_site S \<and> answers (plat S) i req s v t" for S
proof
  fix i s w req v t
  assume s: "serves i s w" and a: "good_site S \<and> answers (plat S) i req s v t"
  obtain p where "Deliver (server_peer S) i (resp_array req) w = (new_reads S p (p\<lparr>machine := t\<rparr>), Some (p\<lparr>machine := t\<rparr>))"
    "new_reads S p (p\<lparr>machine := t\<rparr>) i = segments S (wire v)" "\<not> crashed p" "stuck p = {}"
    using deliver_answer[OF s conjunct2[OF a]] by metis
  moreover have "serves i t (Some (p\<lparr>machine := t\<rparr>))"
    using a calculation(3,4) by (simp add: serves_def answers_def)
  ultimately show "\<exists>rs w'. Deliver (server_peer S) i (resp_array req) w = (rs, w') \<and> concat (rs i) = wire v \<and>
      [] \<notin> set (rs i) \<and> length (rs i) \<le> Polls (server_peer S) \<and> serves i t w'"
    using a by (auto simp: good_site_def)
qed

text \<open>A client of the bench whose server is in a state that satisfies \<open>Q\<close>.\<close>

abbreviation with_server :: "nat \<Rightarrow> (server \<Rightarrow> bool) \<Rightarrow> process option bench \<Rightarrow> bool" where
  "with_server i Q b \<equiv> \<exists>s. attended serves i s b \<and> Q s"

text \<open>The same with a client that is logged in.\<close>

abbreviation client_at :: "(server \<Rightarrow> bool) \<Rightarrow> nat \<Rightarrow> process option bench \<Rightarrow> bool" where
  "client_at Q i \<equiv> with_server i (\<lambda>s. authed i s \<and> Q s)"

section \<open>The start and the connections\<close>

text \<open>The program can listen and finds no database file.\<close>

definition fresh_site :: "site \<Rightarrow> bool" where
  "fresh_site S \<longleftrightarrow> good_site S \<and> listens (osys S) \<and> open_rdb (osys S) = (\<lambda>_ _. None)"

text \<open>
  Just started: nothing stored, nobody waiting, no replica, and the default user without a password.
\<close>

definition blank :: "server \<Rightarrow> bool" where
  "blank s \<longleftrightarrow> mem s = Map.empty \<and> Replicas s = [] \<and> MasterOffset s = 0 \<and> ListRegistry s = Map.empty \<and> ZSetRegistry s = Map.empty \<and> timers s = [] \<and>
     UserRegistry s = [''default'' \<mapsto> default_user] \<and> AofFile s = None \<and> (\<forall>c. act (conns s c) = Serving)"

text \<open>What the program tells replicas of itself; the tester may start it with the port it has anyway.\<close>

definition announced :: "site \<Rightarrow> server \<Rightarrow> bool" where
  "announced S s \<longleftrightarrow> ServerInfo s ''master_replid'' = Some (IStr (RandomString (Intn (osys S)) 40)) \<and>
     ServerInfo s ''master_repl_offset'' = Some (IStr ''0'')"

definition plain_args :: "string list \<Rightarrow> bool" where
  "plain_args args \<longleftrightarrow> args = [] \<or> args = [''--port'', ''6379'']"

lemma plain_args_simps [simp]: "plain_args []" "plain_args [''--port'', ''6379'']"
  by (simp_all add: plain_args_def)

lemma parse_plain_args:
  assumes "plain_args args"
  shows "parse_flags args (default_flags w) = Some (default_flags w)"
proof -
  have n: "Atoi ''6379'' = (6379, None)" using Atoi_itoa[of 6379] by (simp add: itoa_def nat_digits.simps digit_def in_i64_def)
  have "set_flag ''port'' ''6379'' (default_flags w) = Some (default_flags w)"
    by (simp add: set_flag_def n default_flags_def)
  then have "parse_flags [''--port'', ''6379''] (default_flags w) = Some (default_flags w)"
    by (simp add: parse_flags_def)
  then show ?thesis using assms by (auto simp: plain_args_def parse_flags_def)
qed

lemma launch_blank:
  assumes "fresh_site S" "plain_args args"
  obtains p where "launch S args = Some p" "\<not> crashed p" "stuck p = {}" "\<And>i. serviceable i (machine p)"
    "blank (machine p)" "announced S (machine p)"
proof -
  have *: "listens (osys S)" "open_rdb (osys S) = (\<lambda>_ _. None)" using assms(1) by (simp_all add: fresh_site_def)
  define s where "s = store_flags (default_flags (workdir S)) (empty_server (\<lambda>_. idle_conn) (start_time S))"
  define t where "t = s\<lparr>UserRegistry := (UserRegistry s)(''default'' \<mapsto> default_user),
     ServerInfo := (ServerInfo s)(''role'' \<mapsto> IStr ''master'', ''master_replid'' \<mapsto> IStr (RandomString (Intn (osys S)) 40),
                   ''master_repl_offset'' \<mapsto> IStr ''0'')\<rparr>"
  have "flag_replicaof (default_flags w) = ''master''" "flag_appendonly (default_flags w) \<noteq> ''yes''" for w
    by (simp_all add: default_flags_def)
  then have "main (default_flags (workdir S)) (osys S) 0 (\<lambda>_. idle_conn) (start_time S) = Done t"
    using * by (simp add: main_def s_def[symmetric] start_role_def LoadRDB_def t_def Let_def)
  then have "launch S args = Some \<lparr>machine = t, stuck = {}, accepted = 0, crashed = False\<rparr>"
    by (simp add: launch_def parse_plain_args[OF assms(2)])
  moreover have "blank t" "serviceable i t" "announced S t" for i
    by (simp_all add: t_def s_def store_flags_def empty_server_def blank_def serviceable_def mem_def idle_conn_def announced_def)
  ultimately show thesis using that by simp
qed

text \<open>The server after it has accepted a connection, logged in if the default user has no password.\<close>

definition opened :: "nat \<Rightarrow> server \<Rightarrow> server" where
  "opened i s = set_act i Serving
     (set_auth i (if map_option Passwords (UserRegistry s ''default'') = Some [] then ''default'' else [])
       (accept_conn i \<lparr>rbuf = [], rsrc = []\<rparr> \<lparr>written = [], budget = None\<rparr> s))"

lemma opened_fields [simp]:
  "mem (opened i s) = mem s" "ListRegistry (opened i s) = ListRegistry s" "ZSetRegistry (opened i s) = ZSetRegistry s"
  "UserRegistry (opened i s) = UserRegistry s" "timers (opened i s) = timers s" "AofFile (opened i s) = AofFile s"
  "Replicas (opened i s) = Replicas s" "MasterOffset (opened i s) = MasterOffset s" "chans (opened i s) = chans s" "ServerInfo (opened i s) = ServerInfo s"
  "conns (opened i s) e = (if e = i
     then \<lparr>crd = \<lparr>rbuf = [], rsrc = []\<rparr>, cout = \<lparr>written = [], budget = None\<rparr>,
          authUser = (if map_option Passwords (UserRegistry s ''default'') = Some [] then ''default'' else []),
          silent = False, act = Serving\<rparr>
     else conns s e)"
  by (simp_all add: opened_def set_act_def set_auth_def accept_conn_def mem_def)

lemma opened_calm: "serviceable i s \<Longrightarrow> calm i (opened i s)"
  by (simp add: calm_def serviceable_def at_prompt_def input_ok_def healthy_def rd_of_def no_errors_def)

lemma admit_opened:
  "\<not> crashed p \<Longrightarrow> UserRegistry (machine p) ''default'' \<noteq> None \<Longrightarrow>
    admit i p = Some (p\<lparr>machine := opened i (machine p), accepted := max (accepted p) (Suc i)\<rparr>)"
  by (auto simp: admit_def start_session_def opened_def accept_conn_def)

interpretation server: accepting "server_peer S" serves "\<lambda>i req s v t. good_site S \<and> answers (plat S) i req s v t"
  "\<lambda>j s t. UserRegistry s ''default'' \<noteq> None \<and> j \<notin> rep_conn ` set (Replicas s) \<and> t = opened j s" for S
proof
  fix i j s w t
  assume "serves i s w" and t: "UserRegistry s ''default'' \<noteq> None \<and> j \<notin> rep_conn ` set (Replicas s) \<and> t = opened j s"
  then obtain p where p: "w = Some p" "\<not> crashed p" "stuck p = {}" "machine p = s" "calm i s" by (auto simp: serves_def)
  then have "serviceable j (machine p)" using t by (simp add: calm_def serviceable_def)
  from opened_calm[OF this] p t admit_opened[of p j]
  show "\<exists>w'. Accept (server_peer S) j w = Some w' \<and> serves j t w'" by (auto simp: serves_def)
qed

text \<open>The first client of a server that has just started is logged in as the default user.\<close>

abbreviation first_client :: "site \<Rightarrow> nat \<Rightarrow> process option bench \<Rightarrow> bool" where
  "first_client S i \<equiv> with_server i (\<lambda>s. authUser (conns s i) = ''default'' \<and> blank s \<and> announced S s)"

interpretation server: starting "server_peer S" serves "\<lambda>i req s v t. good_site S \<and> answers (plat S) i req s v t"
  "\<lambda>args. fresh_site S \<and> plain_args args" "\<lambda>i s. authUser (conns s i) = ''default'' \<and> blank s \<and> announced S s" for S
proof
  fix args :: "string list" and w i assume args: "fresh_site S \<and> plain_args args"
  from launch_blank[OF conjunct1[OF this] conjunct2[OF this]] obtain p where
    p: "launch S args = Some p" "\<not> crashed p" "stuck p = {}" "\<And>i. serviceable i (machine p)" "blank (machine p)"
      "announced S (machine p)" by metis
  let ?p = "p\<lparr>machine := opened i (machine p), accepted := max (accepted p) (Suc i)\<rparr>"
  have d: "UserRegistry (machine p) ''default'' = Some default_user" using p(5) by (simp add: blank_def)
  then have "admit i p = Some ?p" using p(2) admit_opened[of p i] by simp
  moreover have "serves i (opened i (machine p)) (Some ?p)"
    using p(2,3) opened_calm[OF p(4)] by (simp add: serves_def)
  moreover have "authUser (conns (opened i (machine p)) i) = ''default''" "blank (opened i (machine p))" "announced S (opened i (machine p))"
    using p(5,6) d by (simp_all add: blank_def default_user_def announced_def)
  ultimately show "\<exists>w0. Launch (server_peer S) args w = Some w0 \<and>
      (\<exists>w1 s. Accept (server_peer S) i w0 = Some w1 \<and> serves i s w1 \<and> authUser (conns s i) = ''default'' \<and> blank s \<and> announced S s)"
    using p(1) by auto
qed

text \<open>A site for the examples: what is written is read at once and in one piece.\<close>

definition local_site :: site where
  "local_site =
     \<lparr>plat = plain_platform,
      osys = \<lparr>listens = True, dials = False, makes_dir = True, manifest_data = None, writes_manifest = True,
              aof_reader = (\<lambda>_. None), aof_appender = (\<lambda>_. None), open_rdb = (\<lambda>_ _. None), Intn = (\<lambda>_. 0)\<rparr>,
      workdir = ''/srv'', start_time = 0, segments = (\<lambda>bs. if bs = [] then [] else [bs]), polls = 1\<rparr>"

lemma fresh_local_site [simp]: "fresh_site local_site"
  by (simp add: fresh_site_def good_site_def local_site_def)

end
