(* ===== verification/Basic_Stages.thy ===== *)
theory Basic_Stages
  imports Stage_Logic Assertion_Properties List_Properties
begin

text \<open>
  The tester's basic stages against the repository's server: the two programs together, from the start
  of the server to the verdict. Each command has an exchange lemma (what the server answers and how
  its state changes) and a step (the command with its assertion, as a triple); a stage is a chain of
  steps.
\<close>

section \<open>Exchanges\<close>

lemma received_simps [simp]:
  "mem (received i req s) = mem s" "ListRegistry (received i req s) = ListRegistry s"
  "UserRegistry (received i req s) = UserRegistry s" "ServerInfo (received i req s) = ServerInfo s"
  "Replicas (received i req s) = Replicas s" "chans (received i req s) = chans s"
  "next_chan (received i req s) = next_chan s" "clock (received i req s) = clock s"
  "timers (received i req s) = timers s" "out e (received i req s) = out e s"
  "authUser (conns (received i req s) e) = authUser (conns s e)"
  "act (conns (received i req s) e) = act (conns s e)"
  "rd_of i (received i req s) = \<lparr>rbuf = [], rsrc = [Chunk (resp_array req)]\<rparr>"
  "stream_of i (received i req s) = resp_array req" "load_list k (received i req s) = load_list k s"
  by (simp_all add: received_def stream_of_def stream_def load_list_def)

lemma received_set_rd [simp]: "set_rd i r (received i req s) = set_rd i r s"
  by (simp add: received_def)

lemma read_out [simp]: "stream \<lparr>rbuf = [], rsrc = []\<rparr> = []" "no_errors \<lparr>rbuf = [], rsrc = []\<rparr>"
  by (simp_all add: stream_def no_errors_def)

lemma received_prompt:
  assumes "calm i s"
  shows "at_prompt i (received i req s)" "healthy i (received i req s)" "input_ok i (received i req s)"
    "in_chunk (rd_of i (received i req s)) (resp_array req) []" "role_is ''master'' (received i req s)"
  using assms by (simp_all add: calm_def serviceable_def at_prompt_def received_def in_chunk_def no_errors_def)

text \<open>A server that has answered the only request waits for the next.\<close>

definition resting :: "nat \<Rightarrow> server \<Rightarrow> server" where
  "resting i u = set_rd i \<lparr>rbuf = [], rsrc = []\<rparr> u"

lemma resting_simps [simp]:
  "mem (resting i s) = mem s" "ListRegistry (resting i s) = ListRegistry s"
  "UserRegistry (resting i s) = UserRegistry s" "clock (resting i s) = clock s" "timers (resting i s) = timers s"
  "Replicas (resting i s) = Replicas s" "MasterOffset (resting i s) = MasterOffset s" "ServerInfo (resting i s) = ServerInfo s"
  "authUser (conns (resting i s) e) = authUser (conns s e)" "act (conns (resting i s) e) = act (conns s e)"
  by (simp_all add: resting_def)

lemma answersI:
  assumes "serve_loop P i (received i req s) = serve_loop P i u" "at_prompt i u" "stream_of i u = []"
    "out i u = out i s @ wire v" "serviceable i u"
  shows "answers P i req s v (resting i u)"
proof -
  have "serve_loop P i u = Done (resting i u)" using serve_done[OF assms(2,3), of P] by (simp add: resting_def)
  with assms show ?thesis
    by (simp add: answers_def calm_def serviceable_def resting_def no_errors_def)
qed

lemma stage_words [simp]:
  "arg_ok ''PING''" "arg_ok ''ECHO''" "arg_ok ''RPUSH''" "arg_ok ''LPUSH''" "arg_ok ''LLEN''" "arg_ok ''LPOP''"
  "arg_ok ''LRANGE''" "arg_ok ''WHOAMI''" "arg_ok ''GETUSER''"
  by (simp_all add: arg_ok_graphic graphic_def)

lemma stage_letters [simp]:
  "upper_char CHR ''p'' = CHR ''P''" "upper_char CHR ''i'' = CHR ''I''" "upper_char CHR ''n'' = CHR ''N''"
  "upper_char CHR ''c'' = CHR ''C''" "upper_char CHR ''h'' = CHR ''H''" "upper_char CHR ''o'' = CHR ''O''"
  "upper_char CHR ''s'' = CHR ''S''" "upper_char CHR ''g'' = CHR ''G''" "upper_char CHR ''e'' = CHR ''E''"
  "upper_char CHR ''t'' = CHR ''T''"
  by code_simp+

lemma stage_words_upper [simp]:
  "ToUpper ''PING'' = ''PING''" "ToUpper ''ECHO'' = ''ECHO''" "ToUpper ''RPUSH'' = ''RPUSH''" "ToUpper ''LPUSH'' = ''LPUSH''"
  "ToUpper ''LLEN'' = ''LLEN''" "ToUpper ''LPOP'' = ''LPOP''" "ToUpper ''LRANGE'' = ''LRANGE''"
  "ToUpper ''WHOAMI'' = ''WHOAMI''" "ToUpper ''GETUSER'' = ''GETUSER''"
  by code_simp+

text \<open>The dispatch of a request that has just arrived.\<close>

lemma serve_received:
  assumes "calm i s" "arg_ok cmd" "ToUpper cmd = cmd"
  shows "serve_loop P i (received i (cmd # args) s)
    = and_then (dispatch P cmd i (set_rd i \<lparr>rbuf = bulks args, rsrc = []\<rparr> s)) (serve_loop P i)"
  using serve_command_chunk[OF received_prompt(1,4)[OF assms(1)] assms(2,3), of P] by (simp add: received_def)

lemma answers_reply:
  assumes "calm i s" "serve_loop P i (received i req s) = serve_loop P i (reply i (wire v) (set_rd i r u))"
    "stream r = []" "no_errors r" "calm i u" "out i u = out i s"
  shows "answers P i req s v (resting i (reply i (wire v) u))"
proof -
  have "answers P i req s v (resting i (reply i (wire v) (set_rd i r u)))"
    using assms by (intro answersI) (auto simp: calm_def serviceable_def at_prompt_def stream_of_def)
  then show ?thesis by (simp add: resting_def reply_set_rd)
qed

lemma answers_PING:
  assumes "calm i s" "authed i s"
  shows "answers P i [''PING''] s (NewSimpleStringValue ''PONG'') (resting i (reply i (''+PONG'' @ crlf) s))"
proof -
  let ?r = "\<lparr>rbuf = [], rsrc = []\<rparr>"
  have "HandlePing i (set_rd i ?r s) = Done (reply i (''+PONG'' @ crlf) (set_rd i ?r s))"
    using assms
    by (auto simp: HandlePing_def reply_def conn_write_def raw_write_def advance_repl_offset_def calm_def at_prompt_def healthy_def
      serviceable_def sink_write_def split: prod.splits)
  then have "serve_loop P i (received i [''PING''] s) = serve_loop P i (reply i (wire (NewSimpleStringValue ''PONG'')) (set_rd i ?r s))"
    using serve_received[OF assms(1), of "''PING''" P "[]"] by (simp add: dispatch_words)
  from answers_reply[OF assms(1) this _ _ assms(1) refl] show ?thesis by (simp add: stream_def no_errors_def)
qed

lemma field_in_chunk:
  "arg_ok a \<Longrightarrow> read_field \<lparr>rbuf = bulk a @ u, rsrc = ds\<rparr> = (a @ crlf, None, \<lparr>rbuf = u, rsrc = ds\<rparr>)"
  by (rule read_field_in_chunk) (simp_all add: in_chunk_def)

lemma answers_ECHO:
  assumes "calm i s" "authed i s" "arg_ok w"
  shows "answers P i [''ECHO'', w] s (NewBulkStringValue w) (resting i (reply i (bulk w) s))"
proof -
  let ?r = "\<lparr>rbuf = [], rsrc = []\<rparr>"
  have "HandleEcho i (set_rd i \<lparr>rbuf = bulk w, rsrc = []\<rparr> s) = Done (reply i (bulk w) (set_rd i ?r s))"
    using assms field_in_chunk[OF assms(3), of "[]" "[]"] by (simp add: HandleEcho_def)
  then have "serve_loop P i (received i [''ECHO'', w] s) = serve_loop P i (reply i (wire (NewBulkStringValue w)) (set_rd i ?r s))"
    using serve_received[OF assms(1), of "''ECHO''" P "[w]"] by (simp add: dispatch_words bulk_def)
  from answers_reply[OF assms(1) this _ _ assms(1) refl] show ?thesis by (simp add: stream_def no_errors_def bulk_def)
qed

lemma wire_strings: "wire (NewStringArrayValue xs) = resp_array xs"
  by (simp add: NewStringArrayValue_def resp_array_def array_header_def bulks_def bulk_def[abs_def] comp_def)

text \<open>What else an exchange may touch: nothing but the answering connection's buffers and the log file.\<close>

definition same_sessions :: "server \<Rightarrow> server \<Rightarrow> bool" where
  "same_sessions s t \<longleftrightarrow>
     (\<forall>e. authUser (conns t e) = authUser (conns s e) \<and> act (conns t e) = act (conns s e)) \<and> same_rest s t"

lemma same_sessionsD:
  assumes "same_sessions s t"
  shows "authUser (conns t e) = authUser (conns s e)" "act (conns t e) = act (conns s e)"
    "UserRegistry t = UserRegistry s" "ListRegistry t = ListRegistry s" "timers t = timers s" "clock t = clock s"
    "Replicas t = Replicas s"
  using assms by (simp_all add: same_sessions_def same_rest_def)

lemma same_sessionsI [simp]:
  "same_sessions s (resting i (reply i d s))"
  "same_sessions s (resting i (reply i d (set_rd i r s)))"
  "same_sessions s (resting i (reply i d (master_set k v (set_rd i r s))))"
  by (simp_all add: same_sessions_def same_rest_def resting_def)

lemma serve_SET_received:
  assumes "calm i s" "authed i s" "arg_ok k" "arg_ok v"
  obtains r where "stream r = bulks opts" "no_errors r" "rsrc r = []"
    "serve_loop P i (received i (''SET'' # k # v # opts) s)
      = serve_loop P i (set_option i k (reply i ok_reply (master_set k v (set_rd i r s))))"
proof -
  let ?s = "set_rd i \<lparr>rbuf = bulks (k # v # opts), rsrc = []\<rparr> s"
  have "authed i ?s" "role_is ''master'' ?s" "input_ok i ?s" "stream_of i ?s = bulk k @ bulk v @ bulks opts"
    using assms by (simp_all add: calm_def serviceable_def input_ok_def no_errors_def stream_of_def stream_def)
  from HandleSet_request[OF this assms(3,4)] obtain r where r: "stream r = bulks opts" "no_errors r" "rsrc r = []"
    "HandleSet i ?s = Done (set_option i k (reply i ok_reply (master_set k v (set_rd i r s))))"
    by auto
  with that serve_received[OF assms(1), of "''SET''" P "k # v # opts"] show thesis by (simp add: dispatch_words)
qed

lemma calm_reply_master_set:
  assumes "calm i s" "no_errors r"
  shows "at_prompt i (reply i d (master_set k v (set_rd i r s)))" "serviceable i (reply i d (master_set k v (set_rd i r s)))"
    "out i (reply i d (master_set k v (set_rd i r s))) = out i s @ d"
  using assms by (auto simp: calm_def serviceable_def at_prompt_def master_set_out input_ok_def)

lemma answers_SET_state:
  assumes "calm i s" "authed i s" "arg_ok k" "arg_ok v"
  obtains r where "no_errors r"
    "answers P i [''SET'', k, v] s (NewSimpleStringValue ''OK'') (resting i (reply i ok_reply (master_set k v (set_rd i r s))))"
proof -
  from serve_SET_received[OF assms, of "[]" P] obtain r where r: "stream r = []" "no_errors r"
    "serve_loop P i (received i [''SET'', k, v] s)
      = serve_loop P i (set_option i k (reply i ok_reply (master_set k v (set_rd i r s))))"
    by auto
  let ?u = "reply i ok_reply (master_set k v (set_rd i r s))"
  have st: "stream_of i ?u = []" using r(1) by (simp add: stream_of_def)
  have "answers P i [''SET'', k, v] s (NewSimpleStringValue ''OK'') (resting i ?u)"
    using calm_reply_master_set[OF assms(1) r(2)] st r(3)
    by (intro answersI) (simp_all add: set_option_nothing ok_reply_def)
  with r(2) show thesis by (rule that)
qed

lemma answers_SET:
  assumes "calm i s" "authed i s" "arg_ok k" "arg_ok v"
  obtains t where "answers P i [''SET'', k, v] s (NewSimpleStringValue ''OK'') t" "mem t = (mem s)(k \<mapsto> v)" "same_sessions s t"
proof -
  obtain r where
    r: "answers P i [''SET'', k, v] s (NewSimpleStringValue ''OK'') (resting i (reply i ok_reply (master_set k v (set_rd i r s))))"
    by (rule answers_SET_state[OF assms, of P])
  show thesis by (rule that[OF r]) simp_all
qed

lemma answers_GET:
  assumes "calm i s" "authed i s" "arg_ok k"
  shows "answers P i [''GET'', k] s (case mem s k of Some v \<Rightarrow> NewBulkStringValue v | None \<Rightarrow> NewNilValue)
    (resting i (reply i (case mem s k of Some v \<Rightarrow> bulk v | None \<Rightarrow> nil_bulk) s))"
proof -
  let ?r = "\<lparr>rbuf = [], rsrc = []\<rparr>" and ?d = "case mem s k of Some v \<Rightarrow> bulk v | None \<Rightarrow> nil_bulk"
    and ?v = "case mem s k of Some v \<Rightarrow> NewBulkStringValue v | None \<Rightarrow> NewNilValue"
  have w: "wire ?v = ?d" by (simp add: bulk_def nil_bulk_def split: option.splits)
  have "HandleGet i (set_rd i \<lparr>rbuf = bulk k, rsrc = []\<rparr> s) = Done (reply i ?d (set_rd i ?r s))"
    using assms field_in_chunk[OF assms(3), of "[]" "[]"] by (auto simp: HandleGet_def split: option.splits)
  then have "serve_loop P i (received i [''GET'', k] s) = serve_loop P i (reply i (wire ?v) (set_rd i ?r s))"
    using serve_received[OF assms(1), of "''GET''" P "[k]"] w by (simp add: dispatch_words)
  from answers_reply[OF assms(1) this _ _ assms(1) refl] w show ?thesis by (simp add: stream_def no_errors_def)
qed

section \<open>Steps on strings\<close>

text \<open>Arguments the tester can read back: no line end, no space around, and of a length that exists.\<close>

definition word_ok :: "string \<Rightarrow> bool" where
  "word_ok x \<longleftrightarrow> arg_ok x \<and> in_i64 (int (length x))"

lemma wire_ok_words [simp]:
  "wire_ok (NewSimpleStringValue s) = one_line s" "wire_ok (NewBulkStringValue s) = in_i64 (int (length s))"
  "wire_ok (NewIntegerValue n) = in_i64 n" "wire_ok NewNilValue" "wire_ok (NewErrorValue s) = one_line s"
  by (simp_all add: value_constructors)

lemma expected_pass [simp]:
  "snd (SimpleStringAssertion x (NewSimpleStringValue x)) = Pass" "snd (BulkStringAssertion x (NewBulkStringValue x)) = Pass"
  "snd (IntegerAssertion n (NewIntegerValue n)) = Pass" "snd (NilAssertion NewNilValue) = Pass"
  by (simp_all add: assertion_defs)

lemma command_step:
  assumes "good_site S" "wire_ok v" "snd (A v) = Pass"
    "\<And>s. calm i s \<Longrightarrow> Q s \<Longrightarrow> \<exists>t. answers (plat S) i (ToUpper cmd # args) s v t \<and> R t"
  shows "passes (with_server i Q) (send_case (server_peer S) cmd args A i) (with_server i R)"
proof (rule server.send_case_passes)
  fix s w assume "serves i s w" "Q s"
  then show "\<exists>v t. (good_site S \<and> answers (plat S) i (ToUpper cmd # args) s v t) \<and> wire_ok v \<and> snd (A v) = Pass \<and> R t"
    using assms unfolding serves_def by blast
qed

lemma ping_step:
  assumes "good_site S" "ToUpper cmd = ''PING''" "\<And>s. Q s \<Longrightarrow> authed i s" "\<And>s t. Q s \<Longrightarrow> same_sessions s t \<Longrightarrow> mem t = mem s \<Longrightarrow> R t"
  shows "passes (with_server i Q) (send_case (server_peer S) cmd [] (SimpleStringAssertion ''PONG'') i) (with_server i R)"
proof (rule command_step[OF assms(1), where v = "NewSimpleStringValue ''PONG''"])
  fix s assume s: "calm i s" "Q s"
  have "R (resting i (reply i (''+PONG'' @ crlf) s))" by (intro assms(4)[OF s(2)]) simp_all
  with answers_PING[OF s(1) assms(3)[OF s(2)]] assms(2)
  show "\<exists>t. answers (plat S) i [ToUpper cmd] s (NewSimpleStringValue ''PONG'') t \<and> R t" by auto
qed (simp_all add: HasPrefix_def crlf_def)

lemma echo_step:
  assumes "good_site S" "ToUpper cmd = ''ECHO''" "word_ok w" "\<And>s. Q s \<Longrightarrow> authed i s"
    "\<And>s t. Q s \<Longrightarrow> same_sessions s t \<Longrightarrow> mem t = mem s \<Longrightarrow> R t"
  shows "passes (with_server i Q) (send_case (server_peer S) cmd [w] (BulkStringAssertion w) i) (with_server i R)"
proof (rule command_step[OF assms(1), where v = "NewBulkStringValue w"])
  fix s assume s: "calm i s" "Q s"
  have "R (resting i (reply i (bulk w) s))" by (intro assms(5)[OF s(2)]) simp_all
  with answers_ECHO[OF s(1) assms(4)[OF s(2)]] assms(2,3)
  show "\<exists>t. answers (plat S) i [ToUpper cmd, w] s (NewBulkStringValue w) t \<and> R t" by (auto simp: word_ok_def)
qed (use assms(3) in \<open>simp_all add: word_ok_def\<close>)

lemma set_step:
  assumes "good_site S" "ToUpper cmd = ''SET''" "word_ok k" "word_ok w" "\<And>s. Q s \<Longrightarrow> authed i s"
    "\<And>s t. Q s \<Longrightarrow> same_sessions s t \<Longrightarrow> mem t = (mem s)(k \<mapsto> w) \<Longrightarrow> R t"
  shows "passes (with_server i Q) (send_case (server_peer S) cmd [k, w] (SimpleStringAssertion ''OK'') i) (with_server i R)"
proof (rule command_step[OF assms(1), where v = "NewSimpleStringValue ''OK''"])
  fix s assume s: "calm i s" "Q s"
  obtain t where "answers (plat S) i [''SET'', k, w] s (NewSimpleStringValue ''OK'') t" "mem t = (mem s)(k \<mapsto> w)"
    "same_sessions s t"
    using answers_SET[OF s(1) assms(5)[OF s(2)]] assms(3,4) by (metis word_ok_def)
  with assms(2) assms(6)[OF s(2)]
  show "\<exists>t. answers (plat S) i [ToUpper cmd, k, w] s (NewSimpleStringValue ''OK'') t \<and> R t" by auto
qed (simp_all add: HasPrefix_def crlf_def)

lemma get_step:
  assumes "good_site S" "ToUpper cmd = ''GET''" "word_ok k" "\<And>s. Q s \<Longrightarrow> authed i s \<and> mem s k = Some w" "word_ok w"
    "\<And>s t. Q s \<Longrightarrow> same_sessions s t \<Longrightarrow> mem t = mem s \<Longrightarrow> R t"
  shows "passes (with_server i Q) (send_case (server_peer S) cmd [k] (BulkStringAssertion w) i) (with_server i R)"
proof (rule command_step[OF assms(1), where v = "NewBulkStringValue w"])
  fix s assume s: "calm i s" "Q s"
  have "R (resting i (reply i (bulk w) s))" by (intro assms(6)[OF s(2)]) simp_all
  with answers_GET[OF s(1), of k] assms(2,3) assms(4)[OF s(2)]
  show "\<exists>t. answers (plat S) i [ToUpper cmd, k] s (NewBulkStringValue w) t \<and> R t" by (auto simp: word_ok_def)
qed (use assms(5) in \<open>simp_all add: word_ok_def\<close>)

lemma get_nothing_step:
  assumes "good_site S" "ToUpper cmd = ''GET''" "word_ok k" "\<And>s. Q s \<Longrightarrow> authed i s \<and> mem s k = None"
    "\<And>s t. Q s \<Longrightarrow> same_sessions s t \<Longrightarrow> mem t = mem s \<Longrightarrow> R t"
  shows "passes (with_server i Q) (send_case (server_peer S) cmd [k] NilAssertion i) (with_server i R)"
proof (rule command_step[OF assms(1), where v = NewNilValue])
  fix s assume s: "calm i s" "Q s"
  have "R (resting i (reply i nil_bulk s))" by (intro assms(5)[OF s(2)]) simp_all
  with answers_GET[OF s(1), of k] assms(2,3) assms(4)[OF s(2)]
  show "\<exists>t. answers (plat S) i [ToUpper cmd, k] s NewNilValue t \<and> R t" by (auto simp: word_ok_def)
qed simp_all

text \<open>With \<open>PX\<close>, and the passing of time.\<close>

lemma expire_after_frame [simp]:
  "at_prompt i (expire_after d k s) = at_prompt i s" "rd_of i (expire_after d k s) = rd_of i s"
  "serviceable i (expire_after d k s) = serviceable i s"
  by (simp_all add: expire_after_def at_prompt_def input_ok_def healthy_def rd_of_def serviceable_def)

lemma serviceable_set_rd [simp]: "serviceable e (set_rd i r s) = serviceable e s"
  by (simp add: serviceable_def)

lemma answers_SET_PX:
  assumes "calm i s" "authed i s" "arg_ok k" "arg_ok v" "in_i64 ms"
  obtains t where "answers P i [''SET'', k, v, ''PX'', itoa ms] s (NewSimpleStringValue ''OK'') t" "mem t = (mem s)(k \<mapsto> v)"
    "timers t = timers s @ [(clock t + i64 (ms * 1000000), k)]" "\<And>e. authUser (conns t e) = authUser (conns s e)"
    "\<And>e. act (conns t e) = act (conns s e)"
proof -
  from serve_SET_received[OF assms(1-4), of "[''PX'', itoa ms]" P] obtain r where
    r: "stream r = bulks [''PX'', itoa ms]" "no_errors r" "rsrc r = []"
    "serve_loop P i (received i [''SET'', k, v, ''PX'', itoa ms] s)
      = serve_loop P i (set_option i k (reply i ok_reply (master_set k v (set_rd i r s))))"
    by auto
  let ?u = "reply i ok_reply (master_set k v (set_rd i r s))"
  have "input_ok i ?u" "rsrc (rd_of i ?u) = []" "stream_of i ?u = bulk ''PX'' @ bulk (itoa ms) @ []"
    using r(1-3) by (simp_all add: input_ok_def stream_of_def)
  from set_option_PX[OF this command_words(3,9) assms(5)] obtain r2 where
    r2: "set_option i k ?u = expire_after (i64 (ms * 1000000)) k (set_rd i r2 ?u)" "stream r2 = []" "no_errors r2"
    by blast
  let ?w = "expire_after (i64 (ms * 1000000)) k (set_rd i r2 ?u)"
  have "at_prompt i ?w" "stream_of i ?w = []" "serviceable i ?w" "out i ?w = out i s @ ok_reply"
    using calm_reply_master_set[OF assms(1) r(2), of ok_reply k v] r2(2,3) by (simp_all add: stream_of_def)
  then have "answers P i [''SET'', k, v, ''PX'', itoa ms] s (NewSimpleStringValue ''OK'') (resting i ?w)"
    using r(4) r2(1) by (intro answersI) (simp_all add: ok_reply_def)
  then show thesis by (rule that) (simp_all add: expire_after_def)
qed

definition expired :: "int \<Rightarrow> server \<Rightarrow> server" where
  "expired d s = fold fire_timer (rev [0 ..< length (timers s)]) (tick d s)"

lemma expired_frame: "conns (expired d s) = conns s" "serviceable i (expired d s) = serviceable i s"
proof -
  have "conns (fold fire_timer ns u) = conns u \<and> serviceable i (fold fire_timer ns u) = serviceable i u" for ns u
    by (induction ns arbitrary: u) (auto simp: fire_timer_def mem_delete_def serviceable_def)
  then show "conns (expired d s) = conns s" "serviceable i (expired d s) = serviceable i s"
    by (simp_all add: expired_def tick_def serviceable_def)
qed

lemma sleep_step:
  assumes "good_site S" "\<And>s. Q s \<Longrightarrow> (\<forall>c. act (conns s c) = Serving) \<and> R (expired d s)"
  shows "passes (with_server i Q) (\<lambda>b. (Passed, sleep (server_peer S) d b)) (with_server i R)"
proof (rule passesI)
  fix b assume "with_server i Q b"
  then obtain s p where s: "calm i s" "quiet (Clients b i)" "Q s" and
    p: "Remote b = Some p" "\<not> crashed p" "stuck p = {}" "machine p = s"
    by (auto simp: attended_def serves_def)
  let ?p = "p\<lparr>machine := expired d s\<rparr>"
  have "\<not> due c (expired d s)" for c using assms(2)[OF s(3)] by (simp add: due_def expired_frame)
  then have "fold (\<lambda>c p. if due c (machine p) then turn S c (wait_expire c \<circ> blpop_leave c \<circ> blpop_expire c) p else p) cs ?p = ?p" for cs
    by (induction cs) simp_all
  then have pass: "pass_time S d p = ?p" using p(2,4) by (simp add: pass_time_def expired_def tick_def Let_def)
  have "new_reads S p ?p e = []" for e using p(4) quiet_reads[OF assms(1)] by (simp add: new_reads_def out_def expired_frame)
  with pass p(1) have "sleep (server_peer S) d b = b\<lparr>Remote := Some ?p\<rparr>"
    by (simp add: sleep_def absorb_def reaction_def)
  moreover have "calm i (expired d s)" using s(1) by (simp add: calm_def at_prompt_def input_ok_def healthy_def rd_of_def no_errors_def expired_frame)
  ultimately show "\<exists>b'. (Passed, sleep (server_peer S) d b) = (Passed, b') \<and> with_server i R b'"
    using p(2,3) s(2) assms(2)[OF s(3)] by (auto simp: attended_def serves_def)
qed

section \<open>The basic stages\<close>

lemma client_stage_passes:
  assumes "fresh_site S" "\<And>i. passes (client_at blank i) (k i) (\<lambda>_. True)"
  shows "fst (run_program (server_peer S) [] (one_client (server_peer S) k) b) = Passed"
  by (rule server.stage_passes[OF conjI[OF assms(1) plain_args_simps(1)]], rule passes_weaken[OF assms(2)]) (auto simp: CheckAuth_def)

text \<open>In the steps, what a state is known to satisfy is closed by \<open>simp\<close>.\<close>

lemmas session_simps = same_sessionsD word_ok_def blank_def

lemma ping_stages:
  assumes "fresh_site S"
  shows "fst (testPingPongOnce (server_peer S) b) = Passed" "fst (testPingPongMultiple (server_peer S) b) = Passed"
proof -
  have S: "good_site S" using assms by (simp add: fresh_site_def)
  let ?in = "\<lambda>i. client_at (\<lambda>_. True) i"
  have ping: "passes (?in i) (runPing (server_peer S) i) (?in i)" for i
    unfolding runPing_def by (rule ping_step[OF S]) (simp_all add: session_simps)
  have "passes (?in i) (run_all (replicate n (runPing (server_peer S) i))) (?in i)" for i n
    by (rule passes_replicate[OF ping])
  then show "fst (testPingPongMultiple (server_peer S) b) = Passed"
    unfolding testPingPongMultiple_def by (intro client_stage_passes[OF assms]) (blast intro: passes_weaken)
  show "fst (testPingPongOnce (server_peer S) b) = Passed"
    unfolding testPingPongOnce_def using ping
    by (intro client_stage_passes[OF assms]) (blast intro: passes_weaken[OF ping[unfolded runPing_def]])
qed

lemma echo_stage:
  assumes "fresh_site S" "word_ok word"
  shows "fst (testEcho (server_peer S) word b) = Passed"
  unfolding testEcho_def
proof (rule client_stage_passes[OF assms(1)])
  fix i
  have "good_site S" using assms(1) by (simp add: fresh_site_def)
  then have "passes (client_at blank i) (send_case (server_peer S) ''echo'' [word] (BulkStringAssertion word) i) (with_server i (\<lambda>_. True))"
    using assms(2) by (rule_tac echo_step) (simp_all add: session_simps)
  then show "passes (client_at blank i) (send_case (server_peer S) ''echo'' [word] (BulkStringAssertion word) i) (\<lambda>_. True)"
    by (rule passes_weaken) simp_all
qed

lemma get_set_stage:
  assumes "fresh_site S" "word_ok key" "word_ok val"
  shows "fst (testGetSet (server_peer S) key val b) = Passed"
  unfolding testGetSet_def
proof (rule client_stage_passes[OF assms(1)])
  fix i
  have "good_site S" using assms(1) by (simp add: fresh_site_def)
  then show "passes (client_at blank i)
      (run_all [send_case (server_peer S) ''set'' [key, val] (SimpleStringAssertion ''OK'') i,
                send_case (server_peer S) ''get'' [key] (BulkStringAssertion val) i]) (\<lambda>_. True)"
    using assms(2,3)
    by (intro passes_Cons[OF set_step[where R = "\<lambda>s. authed i s \<and> mem s key = Some val"]]
        passes_Cons[OF get_step[where R = "\<lambda>_. True"]] passes_weaken[OF passes_Nil])
       (simp_all add: session_simps)
qed

lemma expiry_stage:
  assumes "fresh_site S" "word_ok key" "word_ok val"
  shows "fst (testExpiry (server_peer S) key val b) = Passed"
  unfolding testExpiry_def
proof (rule client_stage_passes[OF assms(1)])
  fix i
  have S: "good_site S" using assms(1) by (simp add: fresh_site_def)
  let ?Q = "\<lambda>s. authed i s \<and> (\<forall>c. act (conns s c) = Serving) \<and> mem s = [key \<mapsto> val] \<and> timers s = [(clock s + 100000000, key)]"
  have 1: "passes (client_at blank i)
      (send_case (server_peer S) ''set'' [key, val, ''PX'', ''100''] (SimpleStringAssertion ''OK'') i) (with_server i ?Q)"
  proof (rule command_step[OF S, where v = "NewSimpleStringValue ''OK''"])
    fix s assume s: "calm i s" "authed i s \<and> blank s"
    have "itoa 100 = ''100''" by code_simp
    moreover from s(2) assms(2,3) have "authed i s" "arg_ok key" "arg_ok val" "in_i64 100" by (simp_all add: word_ok_def in_i64_def)
    then obtain t where
      t: "answers (plat S) i [''SET'', key, val, ''PX'', itoa 100] s (NewSimpleStringValue ''OK'') t" "mem t = (mem s)(key \<mapsto> val)"
      "timers t = timers s @ [(clock t + i64 (100 * 1000000), key)]" "\<And>e. authUser (conns t e) = authUser (conns s e)"
      "\<And>e. act (conns t e) = act (conns s e)"
      using answers_SET_PX[OF s(1)] by blast
    moreover from t(2-5) s(2) have "?Q t" by (simp add: blank_def i64_id in_i64_def)
    ultimately show "\<exists>t. answers (plat S) i [ToUpper ''set'', key, val, ''PX'', ''100''] s (NewSimpleStringValue ''OK'') t \<and> ?Q t"
      by (intro exI[of _ t]) simp
  qed (simp_all add: HasPrefix_def crlf_def)
  have 2: "passes (with_server i ?Q) (send_case (server_peer S) ''get'' [key] (BulkStringAssertion val) i) (with_server i ?Q)"
    using assms(2,3) by (intro get_step[OF S]) (simp_all add: session_simps)
  have 3: "passes (with_server i ?Q) (\<lambda>b. (Passed, sleep (server_peer S) 101000000 b)) (client_at (\<lambda>s. mem s key = None) i)"
    using first_timer[of _ 100000000 key "[]" 101000000]
    by (intro sleep_step[OF S]) (simp add: expired_frame, simp add: expired_def)
  have 4: "passes (client_at (\<lambda>s. mem s key = None) i) (send_case (server_peer S) ''get'' [key] NilAssertion i) (with_server i (\<lambda>_. True))"
    using assms(2) by (intro get_nothing_step[OF S]) simp_all
  show "passes (client_at blank i)
      (run_all [send_case (server_peer S) ''set'' [key, val, ''PX'', ''100''] (SimpleStringAssertion ''OK'') i,
                send_case (server_peer S) ''get'' [key] (BulkStringAssertion val) i,
                \<lambda>b. (Passed, sleep (server_peer S) 101000000 b),
                send_case (server_peer S) ''get'' [key] NilAssertion i]) (\<lambda>_. True)"
    by (intro passes_Cons[OF 1] passes_Cons[OF 2] passes_Cons[OF 3] passes_Cons[OF 4] passes_weaken[OF passes_Nil]) simp_all
qed

section \<open>Property\<close>

text \<open>
  C1: The server passes the tester's basic stages (\<open>PING\<close> once and repeated, \<open>ECHO\<close>, \<open>SET\<close> and
  \<open>GET\<close>, and expiry, with the tester's sleep of 101 milliseconds), for any words the tester picks that
  have no line end in them and no space around, on any site where the server can start and no reply
  takes longer than the tester waits, however the network splits the replies.
\<close>

theorem basic_stages_pass:
  assumes "fresh_site S" "word_ok word" "word_ok key" "word_ok val"
  shows "fst (testPingPongOnce (server_peer S) b) = Passed \<and> fst (testPingPongMultiple (server_peer S) b) = Passed \<and>
    fst (testEcho (server_peer S) word b) = Passed \<and> fst (testGetSet (server_peer S) key val b) = Passed \<and>
    fst (testExpiry (server_peer S) key val b) = Passed"
  using ping_stages[OF assms(1)] echo_stage[OF assms(1,2)] get_set_stage[OF assms(1,3,4)] expiry_stage[OF assms(1,3,4)]
  by blast

lemma word_ok_examples [simp]: "word_ok ''fruit''" "word_ok ''apple''" "word_ok ''pear''"
  by (simp_all add: word_ok_def in_i64_def)

lemma basic_stages_pass_example:
  "fst (testExpiry (server_peer local_site) ''fruit'' ''apple''
     \<lparr>Clients = \<lambda>_. new_client, clientsSpawned = 0, Remote = None\<rparr>) = Passed"
  using basic_stages_pass[of local_site "''pear''" "''fruit''" "''apple''"] by simp

end
