(* ===== verification/List_Stages.thy ===== *)
theory List_Stages
  imports Basic_Stages
begin

text \<open>
  The tester's list stages against the repository's server.
\<close>

section \<open>Exchanges on lists\<close>

text \<open>One list, without waiting clients; as long as it has no element it need not exist.\<close>

definition listed :: "string \<Rightarrow> string list \<Rightarrow> server \<Rightarrow> bool" where
  "listed k ys s \<longleftrightarrow> ListRegistry s = [k \<mapsto> \<lparr>elements = ys, clients = []\<rparr>] \<or> ys = [] \<and> ListRegistry s = Map.empty"

lemma listed_load [simp]: "listed k ys s \<Longrightarrow> load_list k s = \<lparr>elements = ys, clients = []\<rparr>"
  by (auto simp: listed_def load_list_def new_list_def)

lemma listed_queue: "listed k ys s \<Longrightarrow> queue_ok s"
  by (auto simp: listed_def queue_ok_def split: if_splits)

lemma listed_after [simp]:
  "listed k ys s \<Longrightarrow> listed k zs (put_list k \<lparr>elements = zs, clients = []\<rparr> s)"
  "listed k ys (resting i (reply i d s)) = listed k ys s" "listed k ys (received i req s) = listed k ys s"
  by (auto simp: listed_def)

lemma calm_put_list [simp]: "calm i s \<Longrightarrow> calm i (put_list k l s)"
  by (simp add: calm_def serviceable_def at_prompt_def) (simp add: put_list_def input_ok_def healthy_def rd_of_def no_errors_def)

lemma received_put_list [simp]: "put_list k l (received i req s) = received i req (put_list k l s)"
  by (simp add: received_def put_list_set_rd)

lemma answers_RPUSH:
  assumes "calm i s" "authed i s" "listed k ys s" "arg_ok k" "\<forall>x \<in> set xs. arg_ok x"
  shows "answers P i (''RPUSH'' # k # xs) s (NewIntegerValue (int (length ys + length xs)))
    (resting i (reply i (int_reply (int (length ys + length xs))) (put_list k \<lparr>elements = ys @ xs, clients = []\<rparr> s)))"
proof -
  let ?n = "int (length ys + length xs)"
  have "authed i (received i (''RPUSH'' # k # xs) s)" "queue_ok (received i (''RPUSH'' # k # xs) s)"
    using assms(2,3) by (simp_all add: listed_queue)
  from serve_rpush[OF received_prompt(1)[OF assms(1)] this received_prompt(4)[OF assms(1)] _ _ assms(4,5), of P]
  have "serve_loop P i (received i (''RPUSH'' # k # xs) s) = serve_loop P i (reply i (wire (NewIntegerValue ?n))
      (set_rd i \<lparr>rbuf = [], rsrc = []\<rparr> (put_list k \<lparr>elements = ys @ xs, clients = []\<rparr> s)))"
    using assms(3) by (simp add: int_reply_def put_list_set_rd)
  from answers_reply[OF assms(1) this] assms(1) show ?thesis by (simp add: int_reply_def)
qed

lemma answers_LPUSH:
  assumes "calm i s" "authed i s" "listed k ys s" "arg_ok k" "\<forall>x \<in> set xs. arg_ok x"
  shows "answers P i (''LPUSH'' # k # xs) s (NewIntegerValue (int (length xs + length ys)))
    (resting i (reply i (int_reply (int (length xs + length ys))) (put_list k \<lparr>elements = rev xs @ ys, clients = []\<rparr> s)))"
proof -
  let ?n = "int (length xs + length ys)" and ?s = "set_rd i \<lparr>rbuf = bulk k @ bulks xs, rsrc = []\<rparr> s"
  have "authed i ?s" "rd_of i ?s = \<lparr>rbuf = bulk k @ bulks xs, rsrc = []\<rparr>" using assms(2) by simp_all
  from HandleLPush_chunk[OF this assms(4,5)]
  have "HandleLPush i ?s = Done (reply i (wire (NewIntegerValue ?n))
      (set_rd i \<lparr>rbuf = [], rsrc = []\<rparr> (put_list k \<lparr>elements = rev xs @ ys, clients = []\<rparr> s)))"
    using assms(3) by (simp add: int_reply_def put_list_set_rd lpush_def fold_cons Let_def)
  then have "serve_loop P i (received i (''LPUSH'' # k # xs) s) = serve_loop P i (reply i (wire (NewIntegerValue ?n))
      (set_rd i \<lparr>rbuf = [], rsrc = []\<rparr> (put_list k \<lparr>elements = rev xs @ ys, clients = []\<rparr> s)))"
    using serve_received[OF assms(1), of "''LPUSH''" P "k # xs"] by (simp add: dispatch_words)
  from answers_reply[OF assms(1) this] assms(1) show ?thesis by (simp add: int_reply_def)
qed

lemma answers_LLEN:
  assumes "calm i s" "authed i s" "arg_ok k"
  shows "answers P i [''LLEN'', k] s (NewIntegerValue (int (length (elements (load_list k s)))))
    (resting i (reply i (int_reply (int (length (elements (load_list k s))))) s))"
proof -
  let ?n = "int (length (elements (load_list k s)))"
  have "HandleLLen i (set_rd i \<lparr>rbuf = bulk k, rsrc = []\<rparr> s)
      = Done (reply i (wire (NewIntegerValue ?n)) (set_rd i \<lparr>rbuf = [], rsrc = []\<rparr> s))"
    using assms field_in_chunk[OF assms(3), of "[]" "[]"]
    by (auto simp: HandleLLen_def int_reply_def load_list_def new_list_def split: option.splits)
  then have "serve_loop P i (received i [''LLEN'', k] s)
      = serve_loop P i (reply i (wire (NewIntegerValue ?n)) (set_rd i \<lparr>rbuf = [], rsrc = []\<rparr> s))"
    using serve_received[OF assms(1), of "''LLEN''" P "[k]"] by (simp add: dispatch_words)
  from answers_reply[OF assms(1) this] assms(1) show ?thesis by (simp add: int_reply_def)
qed

lemma answers_LRANGE:
  assumes "calm i s" "authed i s" "arg_ok k" "in_i64 a" "in_i64 b"
    "case ListRegistry s k of None \<Rightarrow> xs = []
     | Some l \<Rightarrow> lrange (elements l) a b = Some (resp_array xs)"
  shows "answers P i [''LRANGE'', k, itoa a, itoa b] s (NewStringArrayValue xs) (resting i (reply i (resp_array xs) s))"
proof -
  let ?req = "[''LRANGE'', k, itoa a, itoa b]"
  have "authed i (received i ?req s)" "stream_of i (received i ?req s) = resp_array ?req @ []"
    using assms(2) by simp_all
  from serve_lrange[OF received_prompt(1)[OF assms(1)] this stage_words(7) stage_words_upper(7) assms(3-5), of P] obtain r where r: "stream r = []" "no_errors r"
    "serve_loop P i (received i ?req s) = (case ListRegistry s k of
       None \<Rightarrow> serve_loop P i (reply i empty_array (set_rd i r s))
     | Some l \<Rightarrow> (case lrange (elements l) a b of
         None \<Rightarrow> Panic (set_rd i r s)
       | Some response \<Rightarrow> serve_loop P i (reply i response (set_rd i r s))))"
    by (simp only: received_set_rd received_simps) blast
  have "resp_array [] = empty_array" by (simp add: resp_array_def array_header_def empty_array_def) code_simp
  then have "serve_loop P i (received i ?req s) = serve_loop P i (reply i (wire (NewStringArrayValue xs)) (set_rd i r s))"
    using r(3) assms(6) by (cases "ListRegistry s k") (simp_all add: wire_strings)
  from answers_reply[OF assms(1) this r(1,2) assms(1) refl] show ?thesis by (simp add: wire_strings)
qed

lemma answers_LPOP:
  assumes "calm i s" "authed i s" "ListRegistry s k = Some \<lparr>elements = ys, clients = []\<rparr>" "n \<le> length ys" "arg_ok k" "in_i64 (int n)"
    "v = (if n = 1 then NewBulkStringValue (hd ys) else NewStringArrayValue (take n ys))"
  shows "answers P i (''LPOP'' # k # (if n = 1 then [] else [itoa (int n)])) s v
    (resting i (reply i (wire v) (put_list k \<lparr>elements = drop n ys, clients = []\<rparr> s)))"
proof -
  let ?req = "''LPOP'' # k # (if n = 1 then [] else [itoa (int n)])"
  have "authed i (received i ?req s)" "ListRegistry (received i ?req s) k = Some \<lparr>elements = ys, clients = []\<rparr>"
    "n \<le> length (elements \<lparr>elements = ys, clients = []\<rparr>)"
    using assms by simp_all
  from serve_lpop[OF received_prompt(1)[OF assms(1)] this received_prompt(4)[OF assms(1)] _ _ assms(5,6), of P]
  have "serve_loop P i (received i ?req s) = serve_loop P i (reply i (popped_reply n ys)
      (set_rd i \<lparr>rbuf = [], rsrc = []\<rparr> (put_list k \<lparr>elements = drop n ys, clients = []\<rparr> s)))"
    by (simp add: put_list_set_rd)
  moreover have "popped_reply n ys = wire v" using assms(7) by (simp add: popped_reply_def wire_strings bulk_def)
  ultimately have "serve_loop P i (received i ?req s) = serve_loop P i (reply i (wire v)
      (set_rd i \<lparr>rbuf = [], rsrc = []\<rparr> (put_list k \<lparr>elements = drop n ys, clients = []\<rparr> s)))"
    by simp
  from answers_reply[OF assms(1) this] assms(1) show ?thesis by simp
qed

section \<open>Steps on lists\<close>

text \<open>Words, and not more of them than the decoder can allocate.\<close>

definition words_ok :: "string list \<Rightarrow> bool" where
  "words_ok xs \<longleftrightarrow> (\<forall>x \<in> set xs. word_ok x) \<and> 72 * int (length xs) \<le> 2 ^ 48"

lemma words_okD:
  assumes "words_ok xs"
  shows "\<forall>x \<in> set xs. arg_ok x" "in_i64 (int (length xs))" "wire_ok (NewStringArrayValue xs)"
  using assms by (auto simp: words_ok_def word_ok_def in_i64_def NewStringArrayValue_def value_constructors)

lemma words_ok_parts [simp]:
  assumes "words_ok xs"
  shows "words_ok (take n xs)" "words_ok (drop n xs)" "words_ok (tl xs)"
proof -
  have *: "words_ok ys" if "set ys \<subseteq> set xs" "length ys \<le> length xs" for ys
    using assms that unfolding words_ok_def by (smt (verit) of_nat_mono subset_iff)
  show "words_ok (take n xs)" "words_ok (drop n xs)" "words_ok (tl xs)"
    by (rule *; cases xs; auto dest: in_set_takeD in_set_dropD)+
qed

lemma words_ok_Nil [simp]: "words_ok []"
  by (simp add: words_ok_def)

lemma expected_strings [simp]: "words_ok xs \<Longrightarrow> snd (OrderedBulkStringArrayAssertion xs (NewStringArrayValue xs)) = Pass"
  by (rule string_list.passes_expected, rule words_okD(3))

abbreviation at_list :: "string \<Rightarrow> string list \<Rightarrow> nat \<Rightarrow> process option bench \<Rightarrow> bool" where
  "at_list k ys \<equiv> client_at (listed k ys)"

lemma rpush_step:
  assumes "good_site S" "word_ok k" "words_ok (ys @ xs)" "n = int (length (ys @ xs))"
  shows "passes (at_list k ys i) (command_case (server_peer S) (''RPUSH'' # k # xs, IntegerAssertion n) i) (at_list k (ys @ xs) i)"
  unfolding command_case.simps
proof (rule command_step[OF assms(1), where v = "NewIntegerValue n"])
  fix s assume s: "calm i s" "authed i s \<and> listed k ys s"
  have "\<forall>x \<in> set xs. arg_ok x" using words_okD(1)[OF assms(3)] by simp
  from answers_RPUSH[OF s(1) _ _ _ this] s(2) assms(2,4)
  show "\<exists>t. answers (plat S) i (ToUpper ''RPUSH'' # k # xs) s (NewIntegerValue n) t \<and> (authed i t \<and> listed k (ys @ xs) t)"
    by (intro exI conjI) (auto simp: word_ok_def)
qed (use words_okD(2)[OF assms(3)] assms(4) in simp_all)

lemma lpush_step:
  assumes "good_site S" "word_ok k" "words_ok (xs @ ys)" "n = int (length (xs @ ys))"
  shows "passes (at_list k ys i) (command_case (server_peer S) (''LPUSH'' # k # xs, IntegerAssertion n) i) (at_list k (rev xs @ ys) i)"
  unfolding command_case.simps
proof (rule command_step[OF assms(1), where v = "NewIntegerValue n"])
  fix s assume s: "calm i s" "authed i s \<and> listed k ys s"
  have "\<forall>x \<in> set xs. arg_ok x" using words_okD(1)[OF assms(3)] by simp
  from answers_LPUSH[OF s(1) _ _ _ this] s(2) assms(2,4)
  show "\<exists>t. answers (plat S) i (ToUpper ''LPUSH'' # k # xs) s (NewIntegerValue n) t \<and> (authed i t \<and> listed k (rev xs @ ys) t)"
    by (intro exI conjI) (auto simp: word_ok_def)
qed (use words_okD(2)[OF assms(3)] assms(4) in simp_all)

lemma llen_step:
  assumes "good_site S" "word_ok q" "words_ok ys" "n = (if q = k then int (length ys) else 0)"
  shows "passes (at_list k ys i) (command_case (server_peer S) ([''LLEN'', q], IntegerAssertion n) i) (at_list k ys i)"
  unfolding command_case.simps
proof (rule command_step[OF assms(1), where v = "NewIntegerValue n"])
  fix s assume s: "calm i s" "authed i s \<and> listed k ys s"
  have "int (length (elements (load_list q s))) = n"
    using s(2) assms(4) by (auto simp: listed_def load_list_def new_list_def)
  with answers_LLEN[OF s(1), of q "plat S"] s(2) assms(2)
  show "\<exists>t. answers (plat S) i [ToUpper ''LLEN'', q] s (NewIntegerValue n) t \<and> (authed i t \<and> listed k ys t)"
    by (intro exI conjI) (auto simp: word_ok_def)
qed (use words_okD(2)[OF assms(3)] assms(4) in \<open>simp_all add: in_i64_def\<close>)

text \<open>The elements from one index to another, as \<open>take\<close> and \<open>drop\<close>.\<close>

lemma lrange_step:
  assumes "good_site S" "word_ok q" "words_ok xs" "in_i64 a" "in_i64 b"
    "if q = k then ys \<noteq> [] \<and> in_i64 (int (length ys)) \<and> lrange ys a b = Some (resp_array xs) else xs = []"
  shows "passes (at_list k ys i)
    (command_case (server_peer S) ([''LRANGE'', q, itoa a, itoa b], OrderedBulkStringArrayAssertion xs) i) (at_list k ys i)"
  unfolding command_case.simps
proof (rule command_step[OF assms(1), where v = "NewStringArrayValue xs"])
  fix s assume s: "calm i s" "authed i s \<and> listed k ys s"
  have "case ListRegistry s q of None \<Rightarrow> xs = [] | Some l \<Rightarrow> lrange (elements l) a b = Some (resp_array xs)"
    using s(2) assms(6) by (auto simp: listed_def split: if_splits)
  from answers_LRANGE[OF s(1) _ _ assms(4,5) this] s(2) assms(2)
  show "\<exists>t. answers (plat S) i [ToUpper ''LRANGE'', q, itoa a, itoa b] s (NewStringArrayValue xs) t \<and> (authed i t \<and> listed k ys t)"
    by (intro exI conjI) (auto simp: word_ok_def)
qed (use words_okD(3)[OF assms(3)] assms(3) in simp_all)

lemma lpop_step:
  assumes "good_site S" "word_ok k" "words_ok ys" "1 < n" "n \<le> length ys"
  shows "passes (at_list k ys i)
      (command_case (server_peer S) ([''LPOP'', k, itoa (int n)], OrderedBulkStringArrayAssertion (take n ys)) i)
      (at_list k (drop n ys) i)"
  unfolding command_case.simps
proof (rule command_step[OF assms(1), where v = "NewStringArrayValue (take n ys)"])
  fix s assume s: "calm i s" "authed i s \<and> listed k ys s"
  have "in_i64 (int n)" using words_okD(2)[OF assms(3)] assms(5) by (simp add: in_i64_def)
  moreover have "ListRegistry s k = Some \<lparr>elements = ys, clients = []\<rparr>" using s(2) assms(4,5) by (auto simp: listed_def)
  ultimately show "\<exists>t. answers (plat S) i [ToUpper ''LPOP'', k, itoa (int n)] s (NewStringArrayValue (take n ys)) t \<and>
      (authed i t \<and> listed k (drop n ys) t)"
    using answers_LPOP[OF s(1), of k ys n "NewStringArrayValue (take n ys)" "plat S"] s(2) assms(2,4,5)
    by (intro exI conjI) (auto simp: word_ok_def)
qed (use words_okD(3)[of "take n ys"] assms(3) in simp_all)

lemma lpop_first_step:
  assumes "good_site S" "word_ok k" "words_ok ys" "ys \<noteq> []"
  shows "passes (at_list k ys i)
      (command_case (server_peer S) ([''LPOP'', k], BulkStringAssertion (hd ys)) i) (at_list k (tl ys) i)"
  unfolding command_case.simps
proof (rule command_step[OF assms(1), where v = "NewBulkStringValue (hd ys)"])
  fix s assume s: "calm i s" "authed i s \<and> listed k ys s"
  have "ListRegistry s k = Some \<lparr>elements = ys, clients = []\<rparr>" "1 \<le> length ys" "drop 1 ys = tl ys"
    using s(2) assms(4) by (auto simp: listed_def drop_Suc Suc_le_eq)
  with answers_LPOP[OF s(1), of k ys 1 "NewBulkStringValue (hd ys)" "plat S"] s(2) assms(2)
  show "\<exists>t. answers (plat S) i [ToUpper ''LPOP'', k] s (NewBulkStringValue (hd ys)) t \<and> (authed i t \<and> listed k (tl ys) t)"
    by (intro exI conjI) (auto simp: word_ok_def in_i64_def)
qed (use assms(3,4) in \<open>auto simp: words_ok_def word_ok_def\<close>)

lemma lrange_part:
  assumes "ys \<noteq> []" "in_i64 a" "in_i64 b" "in_i64 (int (length ys))" "clamp_index (int (length ys)) a = int p"
    "clamp_index (int (length ys)) b = int q - 1" "p \<le> q"
  shows "lrange ys a b = Some (resp_array (take (q - p) (drop p ys)))"
  using lrange_resp_array[OF assms(1-6)] assms(7) by (simp add: nat_diff_distrib')

lemma range_step:
  assumes "good_site S" "word_ok k" "words_ok ys" "ys \<noteq> []" "in_i64 a" "in_i64 b" "clamp_index (int (length ys)) a = int p"
    "clamp_index (int (length ys)) b = int q - 1" "p \<le> q" "xs = take (q - p) (drop p ys)" "x = itoa a" "y = itoa b"
  shows "passes (at_list k ys i)
    (command_case (server_peer S) ([''LRANGE'', k, x, y], OrderedBulkStringArrayAssertion xs) i) (at_list k ys i)"
  unfolding assms(10-12) using lrange_part[OF assms(4-6) words_okD(2)[OF assms(3)] assms(7-9)] assms(3,4)
  by (intro lrange_step[OF assms(1,2) _ assms(5,6)]) (simp_all add: words_okD)

lemma range_missing_step:
  assumes "good_site S" "word_ok q" "q \<noteq> k" "in_i64 a" "in_i64 b" "x = itoa a" "y = itoa b"
  shows "passes (at_list k ys i)
    (command_case (server_peer S) ([''LRANGE'', q, x, y], OrderedBulkStringArrayAssertion []) i) (at_list k ys i)"
  unfolding assms(6,7) using assms(3) by (intro lrange_step[OF assms(1,2) _ assms(4,5)]) simp_all

section \<open>The list stages\<close>

lemma list_stage_passes:
  assumes "fresh_site S" "\<And>i. passes (at_list k [] i) (MultiCommandTestCase (server_peer S) cwas i) (at_list k ys i)"
  shows "fst (run_program (server_peer S) [] (one_client (server_peer S) (MultiCommandTestCase (server_peer S) cwas)) b) = Passed"
proof (rule client_stage_passes[OF assms(1)])
  fix i
  show "passes (client_at blank i) (MultiCommandTestCase (server_peer S) cwas i) (\<lambda>_. True)"
    by (rule passes_weaken[OF assms(2)]) (auto simp: blank_def listed_def)
qed

text \<open>A script: each command's step in turn.\<close>

lemma script_passes:
  assumes "fresh_site S" "\<And>i. passes (at_list k [] i) (run_all (map (\<lambda>cwa. command_case (server_peer S) cwa i) cwas)) (at_list k ys i)"
  shows "fst (run_program (server_peer S) [] (one_client (server_peer S) (MultiCommandTestCase (server_peer S) cwas)) b) = Passed"
  using assms by (intro list_stage_passes) (simp_all add: MultiCommandTestCase_def)

lemma index_words [simp]: "itoa 0 = ''0''" "itoa 1 = ''1''" "itoa (-1) = ''-1''" "itoa (-2) = ''-2''"
  by code_simp+

lemma words_ok_in_i64:
  "words_ok xs \<Longrightarrow> m \<le> 2 * int (length xs) \<Longrightarrow> - int (length xs) - 1 \<le> m \<Longrightarrow> in_i64 m"
  by (simp add: words_ok_def in_i64_def)

lemma push_stages:
  assumes "fresh_site S" "word_ok key" "words_ok [x0, x1, x2]"
  shows "fst (testListRpush1 (server_peer S) [key, x0] b) = Passed" "fst (testListRpush2 (server_peer S) key x0 x1 x2 b) = Passed"
    "fst (testListLpush (server_peer S) key x0 x1 x2 b) = Passed"
proof -
  have S: "good_site S" using assms(1) by (simp add: fresh_site_def)
  have w: "words_ok [x0]" "words_ok [x0, x1]" "words_ok [x2]" "words_ok [x1, x0, x2]" "words_ok [x0, x1, x2]"
    using assms(3) by (simp_all add: words_ok_def)
  show "fst (testListRpush1 (server_peer S) [key, x0] b) = Passed"
    unfolding testListRpush1_def
  proof (rule client_stage_passes[OF assms(1)])
    fix i
    have "passes (at_list key [] i) (command_case (server_peer S) ([''RPUSH'', key, x0], IntegerAssertion 1) i) (at_list key ([] @ [x0]) i)"
      using S assms(2) w by (intro rpush_step) simp_all
    then show "passes (client_at blank i) (send_case (server_peer S) ''RPUSH'' [key, x0] (IntegerAssertion 1) i) (\<lambda>_. True)"
      unfolding command_case.simps by (rule passes_weaken) (auto simp: blank_def listed_def)
  qed
  show "fst (testListRpush2 (server_peer S) key x0 x1 x2 b) = Passed"
    unfolding testListRpush2_def
    by (rule script_passes[OF assms(1), where k = key and ys = "(([] @ [x0]) @ [x1]) @ [x2]"], unfold list.map, intro passes_Cons[OF rpush_step] passes_Nil)
       (use S assms(2) w in simp_all)
  have range: "passes (at_list key (rev [x1, x0] @ rev [x2] @ []) i)
      (command_case (server_peer S) ([''LRANGE'', key, itoa 0, itoa (-1)], OrderedBulkStringArrayAssertion [x0, x1, x2]) i)
      (at_list key (rev [x1, x0] @ rev [x2] @ []) i)" for i
    using S assms(2) w by (intro range_step[where a = 0 and b = "-1" and p = 0 and q = 3]) (simp_all add: clamp_index_def in_i64_def)
  show "fst (testListLpush (server_peer S) key x0 x1 x2 b) = Passed"
    unfolding testListLpush_def
    by (rule script_passes[OF assms(1), where k = key and ys = "rev [x1, x0] @ rev [x2] @ []"], unfold list.map, intro passes_Cons[OF lpush_step] passes_Cons[OF range] passes_Nil)
       (use S assms(2) w in simp_all)
qed

lemma longer_push_stages:
  assumes "fresh_site S" "word_ok key" "words_ok (first @ second)" "length first = 2" "length second = 3"
    "words_ok elems" "word_ok (missing_key n)" "missing_key n \<noteq> key"
  shows "fst (testListRpush3 (server_peer S) key first second b) = Passed" "fst (testListLlen (server_peer S) key elems n b) = Passed"
proof -
  have S: "good_site S" using assms(1) by (simp add: fresh_site_def)
  have w: "words_ok first" using assms(3) by (simp add: words_ok_def)
  show "fst (testListRpush3 (server_peer S) key first second b) = Passed"
    unfolding testListRpush3_def append.simps
    by (rule script_passes[OF assms(1), where k = key and ys = "([] @ first) @ second"], unfold list.map, intro passes_Cons[OF rpush_step] passes_Nil)
       (use S assms w in simp_all)
  show "fst (testListLlen (server_peer S) key elems n b) = Passed"
    unfolding testListLlen_def append.simps Let_def
    by (rule script_passes[OF assms(1), where k = key and ys = "[] @ elems"], unfold list.map, intro passes_Cons[OF rpush_step] passes_Cons[OF llen_step] passes_Nil)
       (use S assms in simp_all)
qed

lemma pop_stages:
  assumes "fresh_site S" "word_ok key" "words_ok elems" "1 < n" "n < length elems"
  shows "fst (testListLpop1 (server_peer S) key elems b) = Passed" "fst (testListLpop2 (server_peer S) key elems n b) = Passed"
proof -
  have S: "good_site S" using assms(1) by (simp add: fresh_site_def)
  have rest: "passes (at_list key ys i)
      (command_case (server_peer S) ([''LRANGE'', key, itoa 0, itoa (-1)], OrderedBulkStringArrayAssertion ys) i)
      (at_list key ys i)" if "words_ok ys" "ys \<noteq> []" for i ys
    using S assms(2) that by (intro range_step[where a = 0 and b = "-1" and p = 0 and q = "length ys"]) 
      (auto simp: clamp_index_def in_i64_def Suc_le_eq)
  have ne: "tl elems \<noteq> []" "elems \<noteq> []" using assms(4,5) by (cases elems; auto)+
  show "fst (testListLpop1 (server_peer S) key elems b) = Passed"
    unfolding testListLpop1_def append.simps
    by (rule script_passes[OF assms(1), where k = key and ys = "tl elems"], unfold list.map,
        intro passes_Cons[OF rpush_step[where ys = "[]", unfolded append_Nil]] passes_Cons[OF lpop_first_step] passes_Cons[OF rest] passes_Nil)
       (use S assms ne in simp_all)
  show "fst (testListLpop2 (server_peer S) key elems n b) = Passed"
    unfolding testListLpop2_def append.simps
    by (rule script_passes[OF assms(1), where k = key and ys = "drop n elems"], unfold list.map,
        intro passes_Cons[OF rpush_step[where ys = "[]", unfolded append_Nil]] passes_Cons[OF lpop_step] passes_Cons[OF rest] passes_Nil)
       (use S assms ne in simp_all)
qed

text \<open>The indices of the range stages, on lists with at least two elements.\<close>

lemma range_stages:
  assumes "fresh_site S" "word_ok key" "words_ok elems" "2 \<le> length elems" "m < length elems" "word_ok (missing_key n)" "missing_key n \<noteq> key"
  shows "fst (testListLrangePosIdx (server_peer S) key elems m n b) = Passed"
    "fst (testListLrangeNegIndex (server_peer S) key elems m b) = Passed"
proof -
  let ?n = "length elems"
  let ?at = "\<lambda>x y xs i. passes (at_list key elems i)
    (command_case (server_peer S) ([''LRANGE'', key, x, y], OrderedBulkStringArrayAssertion xs) i) (at_list key elems i)"
  have S: "good_site S" using assms(1) by (simp add: fresh_site_def)
  have ne: "elems \<noteq> []" using assms(4) by auto
  have ok: "in_i64 j" if "- int ?n - 1 \<le> j" "j \<le> 2 * int ?n" for j
    using words_ok_in_i64[OF assms(3)] that by blast
  note R = range_step[OF S assms(2,3) ne]
  have to_m: "?at ''0'' (itoa j) (take (m + 1) elems) i" if "j = int m \<or> j = int m - int ?n" for i j
    using assms(4,5) that by (intro R[where a = 0 and b = j and p = 0 and q = "m + 1"] ok) (auto simp: clamp_index_def)
  have from_m: "?at (itoa j) (itoa k) (drop m elems) i"
    if "j = int m \<or> j = int m - int ?n" "k = int ?n - 1 \<or> k = -1" for i j k
    using assms(4,5) that by (intro R[where a = j and b = k and p = m and q = "?n"] ok) (auto simp: clamp_index_def)
  have all: "?at (itoa j) (itoa k) elems i"
    if "j = 0 \<or> j = - int ?n - 1" "k = int ?n - 1 \<or> k = -1 \<or> k = int ?n * 2" for i j k
    using assms(4) that by (intro R[where a = j and b = k and p = 0 and q = "?n"] ok) (auto simp: clamp_index_def)
  have none: "?at ''1'' ''0'' [] i" "?at ''-1'' ''-2'' [] i" for i
    using assms(4) by (intro R[where a = 1 and b = 0 and p = 1 and q = 1] ok, auto simp: clamp_index_def)
      (intro R[where a = "-1" and b = "-2" and p = "?n - 1" and q = "?n - 1"] ok, auto simp: clamp_index_def of_nat_diff)
  have missing: "passes (at_list key elems i)
    (command_case (server_peer S) ([''LRANGE'', missing_key n, ''0'', ''1''], OrderedBulkStringArrayAssertion []) i) (at_list key elems i)" for i
    using assms(6,7) by (intro range_missing_step[OF S, where a = 0 and b = 1]) (simp_all add: in_i64_def)
  have push: "passes (at_list key [] i) (command_case (server_peer S) (''RPUSH'' # key # elems, IntegerAssertion (int ?n)) i) (at_list key elems i)" for i
    using rpush_step[OF S assms(2), of "[]" elems] assms(3) by simp
  show "fst (testListLrangePosIdx (server_peer S) key elems m n b) = Passed"
    unfolding testListLrangePosIdx_def append.simps Let_def
    by (rule script_passes[OF assms(1), where k = key and ys = elems], unfold list.map,
        intro passes_Cons[OF push] passes_Cons[OF to_m] passes_Cons[OF from_m] passes_Cons[OF none(1)] passes_Cons[OF missing]
          passes_Cons[OF all[where j = 0, unfolded index_words]] passes_Nil)
       simp_all
  show "fst (testListLrangeNegIndex (server_peer S) key elems m b) = Passed"
    unfolding testListLrangeNegIndex_def append.simps Let_def
    by (rule script_passes[OF assms(1), where k = key and ys = elems], unfold list.map,
        intro passes_Cons[OF push] passes_Cons[OF to_m] passes_Cons[OF from_m] passes_Cons[OF none(2)]
          passes_Cons[OF all[where j = 0, unfolded index_words]] passes_Cons[OF all] passes_Nil)
       simp_all
qed

section \<open>Property\<close>

text \<open>
  C2: The server passes the tester's nine stages on \<open>RPUSH\<close> (a new list, one element at a time, several
  at once), \<open>LPUSH\<close>, \<open>LLEN\<close>, \<open>LRANGE\<close> (with positive and with negative indices) and \<open>LPOP\<close> (one element
  and several), for any words the tester picks, lists of which the count \<open>p\<close> leaves some element, and
  a missing key that is not the list's.
\<close>

theorem list_stages_pass:
  assumes "fresh_site S" "word_ok key" "words_ok [x0, x1, x2]" "words_ok (first @ second)" "length first = 2" "length second = 3"
    "words_ok elems" "m < length elems" "1 < p" "p < length elems" "word_ok (missing_key n)" "missing_key n \<noteq> key"
  shows "fst (testListRpush1 (server_peer S) [key, x0] b) = Passed \<and> fst (testListRpush2 (server_peer S) key x0 x1 x2 b) = Passed \<and>
    fst (testListRpush3 (server_peer S) key first second b) = Passed \<and> fst (testListLpush (server_peer S) key x0 x1 x2 b) = Passed \<and>
    fst (testListLlen (server_peer S) key elems n b) = Passed \<and>
    fst (testListLrangePosIdx (server_peer S) key elems m n b) = Passed \<and>
    fst (testListLrangeNegIndex (server_peer S) key elems m b) = Passed \<and>
    fst (testListLpop1 (server_peer S) key elems b) = Passed \<and> fst (testListLpop2 (server_peer S) key elems p b) = Passed"
  using push_stages[OF assms(1-3)] longer_push_stages[OF assms(1,2,4-7,11,12)] range_stages[OF assms(1,2,7) _ assms(8,11,12)]
    pop_stages[OF assms(1,2,7,9,10)] assms(9,10) by simp

lemma list_stage_words [simp]:
  "words_ok [''pear'', ''apple'', ''fruit'']" "words_ok [''pear'', ''apple'', ''fruit'', ''pear'', ''apple'']"
  "word_ok (missing_key 7)" "missing_key 7 \<noteq> ''fruit''"
proof -
  have "itoa 7 = ''7''" by code_simp
  then show "word_ok (missing_key 7)" "missing_key 7 \<noteq> ''fruit''"
    by (auto simp: missing_key_def word_ok_def in_i64_def arg_ok_graphic graphic_def)
qed (simp_all add: words_ok_def)

lemma list_stages_pass_example:
  "fst (testListLpop2 (server_peer local_site) ''fruit'' [''pear'', ''apple'', ''fruit''] 2
     \<lparr>Clients = \<lambda>_. new_client, clientsSpawned = 0, Remote = None\<rparr>) = Passed"
  using list_stages_pass[of local_site "''fruit''" "''pear''" "''apple''" "''fruit''" "[''pear'', ''apple'']"
      "[''fruit'', ''pear'', ''apple'']" "[''pear'', ''apple'', ''fruit'']" 1 2 7] by simp

end
