(* ===== verification/Auth_Stages.thy ===== *)
theory Auth_Stages
  imports Basic_Stages Auth_Properties
begin

text \<open>
  The tester's stages on users and authentication against the repository's server, among them those
  with two connections.
\<close>

section \<open>Exchanges\<close>

lemma subcommands:
  "ToUpper (TrimSpace (''WHOAMI'' @ crlf)) = ''WHOAMI''" "ToUpper (TrimSpace (''GETUSER'' @ crlf)) = ''GETUSER''"
  by code_simp+

lemma answers_WHOAMI:
  assumes "calm i s" "authed i s"
  shows "answers P i [''ACL'', ''WHOAMI''] s (NewBulkStringValue (authUser (conns s i)))
    (resting i (reply i (bulk (authUser (conns s i))) s))"
proof -
  let ?u = "authUser (conns s i)"
  have "HandleACL i (set_rd i \<lparr>rbuf = bulk ''WHOAMI'', rsrc = []\<rparr> s)
      = Done (reply i (wire (NewBulkStringValue ?u)) (set_rd i \<lparr>rbuf = [], rsrc = []\<rparr> s))"
    using assms field_in_chunk[of "''WHOAMI''" "[]" "[]"] subcommands by (simp add: HandleACL_def acl_whoami_def Let_def)
  then have "serve_loop P i (received i [''ACL'', ''WHOAMI''] s)
      = serve_loop P i (reply i (wire (NewBulkStringValue ?u)) (set_rd i \<lparr>rbuf = [], rsrc = []\<rparr> s))"
    using serve_received[OF assms(1), of "''ACL''" P "[''WHOAMI'']"] by (simp add: dispatch_words)
  from answers_reply[OF assms(1) this _ _ assms(1) refl] show ?thesis by (simp add: bulk_def)
qed

text \<open>A refused \<open>ACL WHOAMI\<close>: the argument is left over and read as a command that does not exist.\<close>

lemma answers_WHOAMI_refused:
  assumes "calm i s" "\<not> authed i s"
  obtains t where "answers P i [''ACL'', ''WHOAMI''] s (NewErrorValue ''NOAUTH Authentication required.'') t"
    "same_sessions s t" "mem t = mem s" "Replicas t = Replicas s"
proof -
  let ?u = "reply i noauth_reply (set_rd i \<lparr>rbuf = bulk ''WHOAMI'', rsrc = []\<rparr> s)"
  have "serve_loop P i (received i [''ACL'', ''WHOAMI''] s) = serve_loop P i ?u"
    using serve_received[OF assms(1), of "''ACL''" P "[''WHOAMI'']"] assms(2) by (simp add: dispatch_words HandleACL_def)
  moreover have "act (conns ?u i) = Serving" "input_ok i ?u" "stream_of i ?u = bulk ''WHOAMI'' @ []"
    using assms(1) by (simp_all add: calm_def at_prompt_def no_errors_def stream_def)
  from serve_skipped_bulk[OF this, of P] obtain r where r: "stream r = []" "no_errors r"
    "serve_loop P i ?u = serve_loop P i (set_rd i r ?u)"
    by (auto simp: dispatch_def)
  ultimately have "serve_loop P i (received i [''ACL'', ''WHOAMI''] s)
      = serve_loop P i (reply i (wire (NewErrorValue ''NOAUTH Authentication required.'')) (set_rd i r s))"
    by (simp add: reply_set_rd noauth_reply_def)
  from answers_reply[OF assms(1) this r(1,2) assms(1) refl] show thesis by (rule that) simp_all
qed

definition user_value :: "user \<Rightarrow> Value" where
  "user_value u = NewArrayValue [NewBulkStringValue ''flags'', NewStringArrayValue (Flags u),
     NewBulkStringValue ''passwords'', NewStringArrayValue (Passwords u)]"

lemma answers_GETUSER:
  assumes "calm i s" "authed i s" "UserRegistry s n = Some u" "arg_ok n"
  shows "answers P i [''ACL'', ''GETUSER'', n] s (user_value u) (resting i (reply i (wire (user_value u)) s))"
proof -
  have w: "getuser_response u = wire (user_value u)"
  proof -
    have four: "''*4'' = ''*'' @ itoa (int (length (replicate 4 (0::nat))))" by code_simp
    have "wire (NewBulkStringValue x) = bulk x" for x by (simp add: bulk_def)
    then show ?thesis
      unfolding getuser_response_def user_value_def four wire_constructors(5)
      by (simp add: fold_bulks wire_strings resp_array_def array_header_def del: wire_constructors(4))
  qed
  have "HandleACL i (set_rd i \<lparr>rbuf = bulk ''GETUSER'' @ bulk n, rsrc = []\<rparr> s)
      = Done (reply i (wire (user_value u)) (set_rd i \<lparr>rbuf = [], rsrc = []\<rparr> s))"
    using assms field_in_chunk[of "''GETUSER''" "bulk n" "[]"] field_in_chunk[OF assms(4), of "[]" "[]"] w subcommands
    by (simp add: HandleACL_def acl_getuser_def Let_def)
  then have "serve_loop P i (received i [''ACL'', ''GETUSER'', n] s)
      = serve_loop P i (reply i (wire (user_value u)) (set_rd i \<lparr>rbuf = [], rsrc = []\<rparr> s))"
    using serve_received[OF assms(1), of "''ACL''" P "[''GETUSER'', n]"] by (simp add: dispatch_words)
  from answers_reply[OF assms(1) this _ _ assms(1) refl] show ?thesis by simp
qed

lemma mem_users [simp]: "mem (s\<lparr>UserRegistry := x\<rparr>) = mem s"
  by (simp add: mem_def)

lemma answers_SETUSER:
  assumes "calm i s" "authed i s" "UserRegistry s n = Some u" "arg_ok n" "arg_ok p" "arg_ok (''>'' @ p)"
  obtains t where "answers P i [''ACL'', ''SETUSER'', n, ''>'' @ p] s (NewSimpleStringValue ''OK'') t"
    "UserRegistry t = (UserRegistry s)(n \<mapsto> add_password (password_hash p) u)" "mem t = mem s" "Replicas t = Replicas s"
    "\<And>e. authUser (conns t e) = authUser (conns s e)"
proof -
  let ?s = "set_rd i \<lparr>rbuf = bulks [''SETUSER'', n, ''>'' @ p], rsrc = []\<rparr> s"
  have "authed i ?s" "input_ok i ?s" "stream_of i ?s = bulks [''SETUSER'', n, ''>'' @ p] @ []"
    using assms(2) by (simp_all add: input_ok_def no_errors_def stream_of_def stream_def)
  from HandleACL_setuser[OF this _ _ assms(4,6,5)] assms(3) obtain r where r: "stream r = []" "no_errors r"
    "HandleACL i ?s = Done (reply i ok_reply ((set_rd i r s)\<lparr>UserRegistry :=
       (UserRegistry s)(n \<mapsto> add_password (password_hash p) u)\<rparr>))"
    by auto
  let ?u = "s\<lparr>UserRegistry := (UserRegistry s)(n \<mapsto> add_password (password_hash p) u)\<rparr>"
  have c: "calm i ?u" "out i ?u = out i s"
    using assms(1) by (simp_all add: calm_def serviceable_def at_prompt_def input_ok_def healthy_def rd_of_def out_def no_errors_def)
  have "(set_rd i r s)\<lparr>UserRegistry := (UserRegistry s)(n \<mapsto> add_password (password_hash p) u)\<rparr> = set_rd i r ?u"
    by (simp add: set_rd_def)
  then have "serve_loop P i (received i [''ACL'', ''SETUSER'', n, ''>'' @ p] s)
      = serve_loop P i (reply i (wire (NewSimpleStringValue ''OK'')) (set_rd i r ?u))"
    using serve_received[OF assms(1), of "''ACL''" P "[''SETUSER'', n, ''>'' @ p]"] r(3)
    by (simp add: dispatch_words ok_reply_def)
  from answers_reply[OF assms(1) this r(1,2) c] show thesis by (rule that) simp_all
qed

lemma answers_AUTH:
  assumes "calm i s" "UserRegistry s n = Some u" "arg_ok n" "arg_ok p"
  obtains t where "answers P i [''AUTH'', n, p] s
      (if password_hash p \<in> set (Passwords u) then NewSimpleStringValue ''OK''
       else NewErrorValue ''WRONGPASS invalid username-password pair or user is disabled.'') t"
    "UserRegistry t = UserRegistry s" "mem t = mem s" "Replicas t = Replicas s"
    "authUser (conns t i) = (if password_hash p \<in> set (Passwords u) then n else authUser (conns s i))"
proof -
  let ?req = "[''AUTH'', n, p]" and ?ok = "password_hash p \<in> set (Passwords u)"
  let ?r = "received i ?req s"
  have "stream_of i ?r = resp_array ?req @ []" by simp
  from serve_auth[OF received_prompt(1)[OF assms(1)] this auth_words(1) auth_words(12) assms(3,4), of P] obtain r where
    "stream r = []" "no_errors r" and "UserRegistry ?r n = None \<longrightarrow> serve_loop P i ?r = Panic (set_rd i r ?r)"
    and r: "\<forall>ui. UserRegistry ?r n = Some ui \<longrightarrow> password_hash p \<in> set (Passwords ui) \<longrightarrow>
       serve_loop P i ?r = serve_loop P i (reply i ok_reply (set_auth i n (set_rd i r ?r)))"
    "\<forall>ui. UserRegistry ?r n = Some ui \<longrightarrow> password_hash p \<notin> set (Passwords ui) \<longrightarrow>
       serve_loop P i ?r = serve_loop P i (reply i wrongpass (set_rd i r ?r))" .
  define v where "v = (if ?ok then NewSimpleStringValue ''OK''
       else NewErrorValue ''WRONGPASS invalid username-password pair or user is disabled.'')"
  define w where "w = (if ?ok then set_auth i n s else s)"
  have c: "calm i w" "out i w = out i s"
    using assms(1) by (simp_all add: w_def calm_def serviceable_def at_prompt_def)
      (simp_all add: set_auth_def rd_of_def)
  have "set_auth i n (set_rd i r s) = set_rd i r (set_auth i n s)" by (cases "conns s i") (simp add: set_auth_def set_rd_def)
  then have "serve_loop P i (received i ?req s) = serve_loop P i (reply i (wire v) (set_rd i r w))"
    using r assms(2) by (simp add: v_def w_def ok_reply_def)
  from answers_reply[OF assms(1) this \<open>stream r = []\<close> \<open>no_errors r\<close> c] show thesis
    unfolding v_def by (rule that) (simp_all add: w_def)
qed

section \<open>Steps\<close>

text \<open>Client \<open>i\<close> is logged in as \<open>who\<close> (as nobody: the empty name), \<open>u\<close> is the default user.\<close>

abbreviation session :: "string \<Rightarrow> user \<Rightarrow> (string \<rightharpoonup> string) \<Rightarrow> nat \<Rightarrow> process option bench \<Rightarrow> bool" where
  "session who u m i \<equiv> with_server i (\<lambda>s. authUser (conns s i) = who \<and> UserRegistry s = [''default'' \<mapsto> u] \<and> Replicas s = [] \<and> mem s = m)"

lemma default_authed [simp]: "CheckAuth ''default''" "\<not> CheckAuth []"
  by (simp_all add: CheckAuth_def)

lemma whoami_step:
  assumes "good_site S"
  shows "passes (session ''default'' u m i) (AclWhoamiTestCase (server_peer S) ''default'' i) (session ''default'' u m i)"
  unfolding AclWhoamiTestCase_def
proof (rule command_step[OF assms, where v = "NewBulkStringValue ''default''"])
  fix s assume s: "calm i s" "authUser (conns s i) = ''default'' \<and> UserRegistry s = [''default'' \<mapsto> u] \<and> Replicas s = [] \<and> mem s = m"
  have upper: "ToUpper ''ACL'' = ''ACL''" by simp
  show "\<exists>t. answers (plat S) i (ToUpper ''ACL'' # [''WHOAMI'']) s (NewBulkStringValue ''default'') t \<and>
      authUser (conns t i) = ''default'' \<and> UserRegistry t = [''default'' \<mapsto> u] \<and> Replicas t = [] \<and> mem t = m"
    unfolding upper using answers_WHOAMI[OF s(1), of "plat S"] s(2)
    by (intro exI[of _ "resting i (reply i (bulk ''default'') s)"]) simp
qed (simp_all add: in_i64_def)

lemma prefix_accepts:
  "HasPrefix x p \<Longrightarrow> snd (PrefixAndSubstringsAssertion ERROR True (Some (error_prefix p)) [] (NewErrorValue x)) = Pass"
  by (simp add: PrefixAndSubstringsAssertion_def error_prefix_def check_prefix_def contains_all_def DataTypeAssertion_def
    IsValueOfDataTypeStoredAsByteSlice_def)

lemma refusals:
  "wire_ok (NewErrorValue ''NOAUTH Authentication required.'')"
  "wire_ok (NewErrorValue ''WRONGPASS invalid username-password pair or user is disabled.'')"
  "snd (PrefixAndSubstringsAssertion ERROR True (Some (error_prefix ''NOAUTH '')) [] (NewErrorValue ''NOAUTH Authentication required.'')) = Pass"
  "snd (PrefixAndSubstringsAssertion ERROR True (Some (error_prefix ''WRONGPASS '')) []
     (NewErrorValue ''WRONGPASS invalid username-password pair or user is disabled.'')) = Pass"
  by (simp_all add: HasPrefix_def crlf_def prefix_accepts)

lemma whoami_refused_step:
  assumes "good_site S"
  shows "passes (session [] u m i) (AclWhoamiErrorTestCase (server_peer S) ''NOAUTH '' i) (session [] u m i)"
  unfolding AclWhoamiErrorTestCase_def
proof (rule command_step[OF assms, where v = "NewErrorValue ''NOAUTH Authentication required.''"])
  fix s assume s: "calm i s" "authUser (conns s i) = [] \<and> UserRegistry s = [''default'' \<mapsto> u] \<and> Replicas s = [] \<and> mem s = m"
  have upper: "ToUpper ''ACL'' = ''ACL''" by simp
  obtain t where "answers (plat S) i [''ACL'', ''WHOAMI''] s (NewErrorValue ''NOAUTH Authentication required.'') t"
    "same_sessions s t" "mem t = mem s" "Replicas t = Replicas s"
    using answers_WHOAMI_refused[OF s(1), of "plat S"] s(2) by auto
  then show "\<exists>t. answers (plat S) i (ToUpper ''ACL'' # [''WHOAMI'']) s (NewErrorValue ''NOAUTH Authentication required.'') t \<and>
      authUser (conns t i) = [] \<and> UserRegistry t = [''default'' \<mapsto> u] \<and> Replicas t = [] \<and> mem t = m"
    unfolding upper using s(2) by (intro exI[of _ t]) (simp add: same_sessionsD)
qed (rule refusals)+

definition password_ok :: "string \<Rightarrow> bool" where
  "password_ok p \<longleftrightarrow> word_ok p \<and> arg_ok (''>'' @ p)"

lemma setuser_step:
  assumes "good_site S" "password_ok p"
  shows "passes (session ''default'' u m i)
    (send_case (server_peer S) ''ACL'' [''SETUSER'', ''default'', ''>'' @ p] (SimpleStringAssertion ''OK'') i)
    (session ''default'' (add_password (password_hash p) u) m i)"
proof (rule command_step[OF assms(1), where v = "NewSimpleStringValue ''OK''"])
  fix s assume s: "calm i s" "authUser (conns s i) = ''default'' \<and> UserRegistry s = [''default'' \<mapsto> u] \<and> Replicas s = [] \<and> mem s = m"
  have upper: "ToUpper ''ACL'' = ''ACL''" by simp
  have p: "authed i s" "UserRegistry s ''default'' = Some u" "arg_ok p" "arg_ok (''>'' @ p)"
    using s(2) assms(2) by (simp_all add: password_ok_def word_ok_def)
  obtain t where "answers (plat S) i [''ACL'', ''SETUSER'', ''default'', ''>'' @ p] s (NewSimpleStringValue ''OK'') t"
    "UserRegistry t = (UserRegistry s)(''default'' \<mapsto> add_password (password_hash p) u)" "mem t = mem s" "Replicas t = Replicas s"
    "\<And>e. authUser (conns t e) = authUser (conns s e)"
    using answers_SETUSER[OF s(1) p(1,2) _ p(3,4)] by auto
  then show "\<exists>t. answers (plat S) i (ToUpper ''ACL'' # [''SETUSER'', ''default'', ''>'' @ p]) s (NewSimpleStringValue ''OK'') t \<and>
      authUser (conns t i) = ''default'' \<and> UserRegistry t = [''default'' \<mapsto> add_password (password_hash p) u] \<and> Replicas t = [] \<and> mem t = m"
    unfolding upper using s(2) by (intro exI[of _ t]) simp
qed (simp_all add: HasPrefix_def crlf_def)

lemma auth_step:
  assumes "good_site S" "password_ok p" "password_hash p \<in> set (Passwords u)"
  shows "passes (session who u m i)
    (send_case (server_peer S) ''AUTH'' [''default'', p] (SimpleStringAssertion ''OK'') i) (session ''default'' u m i)"
proof (rule command_step[OF assms(1), where v = "NewSimpleStringValue ''OK''"])
  fix s assume s: "calm i s" "authUser (conns s i) = who \<and> UserRegistry s = [''default'' \<mapsto> u] \<and> Replicas s = [] \<and> mem s = m"
  have upper: "ToUpper ''AUTH'' = ''AUTH''" by simp
  have p: "UserRegistry s ''default'' = Some u" "arg_ok p" using s(2) assms(2) by (simp_all add: password_ok_def word_ok_def)
  obtain t where "answers (plat S) i [''AUTH'', ''default'', p] s (NewSimpleStringValue ''OK'') t"
    "UserRegistry t = UserRegistry s" "mem t = mem s" "Replicas t = Replicas s" "authUser (conns t i) = ''default''"
    using answers_AUTH[OF s(1) p(1) _ p(2), of "plat S"] assms(3) by auto
  then show "\<exists>t. answers (plat S) i (ToUpper ''AUTH'' # [''default'', p]) s (NewSimpleStringValue ''OK'') t \<and>
      authUser (conns t i) = ''default'' \<and> UserRegistry t = [''default'' \<mapsto> u] \<and> Replicas t = [] \<and> mem t = m"
    unfolding upper using s(2) by (intro exI[of _ t]) simp
qed (simp_all add: HasPrefix_def crlf_def)

text \<open>A password's hash has 64 characters.\<close>

lemma sha_block_length: "length hs = 8 \<Longrightarrow> length (sha_block hs w) = 8"
  by (simp add: sha_block_def split: prod.splits)

lemma sha_blocks_length: "length hs = 8 \<Longrightarrow> length (sha_blocks n hs ws) = 8"
  by (induction n hs ws rule: sha_blocks.induct) (simp_all add: sha_block_length)

lemma words_length: "length (concat (map (\<lambda>w. be_bytes 4 (unat w)) ws)) = 4 * length (ws :: w32 list)"
proof -
  have "length (be_bytes k n) = k" for k n by (induction k n rule: be_bytes.induct) simp_all
  then show ?thesis by (induction ws) simp_all
qed

lemma hex_length: "length (EncodeToString bs) = 2 * length bs"
  by (induction bs) (simp_all add: EncodeToString_def)

lemma password_hash_length: "length (password_hash p) = 64"
  using sha_blocks_length[of sha_init]
  by (simp add: password_hash_def Sum256_def hex_length words_length Let_def sha_init_def)

lemma getuser_step:
  assumes "good_site S" "wire_ok (user_value u)" "specs \<noteq> []"
    "\<And>e. e \<in> set specs \<Longrightarrow> 0 \<le> Index (Asserted e) \<and> Index (Asserted e) < 4 \<and> snd (on_element e (user_value u)) = Pass"
  shows "passes (session ''default'' u m i)
    (send_case (server_peer S) ''ACL'' [''GETUSER'', ''default''] (ArrayElementsAssertion specs) i) (session ''default'' u m i)"
proof (rule command_step[OF assms(1,2)])
  show "snd (ArrayElementsAssertion specs (user_value u)) = Pass"
    using assms(3,4) by (subst ArrayElementsAssertion_in_range(1)) (auto simp: user_value_def)
  fix s assume s: "calm i s" "authUser (conns s i) = ''default'' \<and> UserRegistry s = [''default'' \<mapsto> u] \<and> Replicas s = [] \<and> mem s = m"
  have upper: "ToUpper ''ACL'' = ''ACL''" by simp
  have "authed i s" "UserRegistry s ''default'' = Some u" using s(2) by simp_all
  from answers_GETUSER[OF s(1) this, of "plat S"] s(2)
  show "\<exists>t. answers (plat S) i (ToUpper ''ACL'' # [''GETUSER'', ''default'']) s (user_value u) t \<and>
      authUser (conns t i) = ''default'' \<and> UserRegistry t = [''default'' \<mapsto> u] \<and> Replicas t = [] \<and> mem t = m"
    unfolding upper by (intro exI[of _ "resting i (reply i (wire (user_value u)) s)"]) simp
qed

lemma wire_ok_users [simp]:
  "wire_ok (user_value default_user)" "wire_ok (user_value (add_password (password_hash p) default_user))"
  using password_hash_length[of p]
  by (simp_all add: user_value_def default_user_def add_password_def value_constructors NewStringArrayValue_def in_i64_def)

text \<open>The flags and the passwords as the tester asks for them.\<close>

lemmas getuser_simps = flag_assertions_def password_assertions_def element_spec_def on_element_def hooked_def
  and_also_verdict hook_def BulkStringPresentInArrayAssertion_def BulkStringAbsentFromArrayAssertion_def user_value_def default_user_def add_password_def NewStringArrayValue_def password_hash_def assertion_defs

lemma flags_step:
  assumes "good_site S"
  shows "passes (session ''default'' default_user m i) (RunForFlagsTemplateOnly (server_peer S) ''default'' i) (session ''default'' default_user m i)"
    "passes (session ''default'' default_user m i) (AclGetuserTestCase (server_peer S) ''default'' (Some [''nopass'']) None None i)
       (session ''default'' default_user m i)"
    "passes (session ''default'' default_user m i) (AclGetuserTestCase (server_peer S) ''default'' (Some [''nopass'']) None (Some []) i)
       (session ''default'' default_user m i)"
    "passes (session ''default'' (add_password (password_hash p) default_user) m i)
       (AclGetuserTestCase (server_peer S) ''default'' None (Some [''nopass'']) (Some [p]) i)
       (session ''default'' (add_password (password_hash p) default_user) m i)"
  unfolding RunForFlagsTemplateOnly_def AclGetuserTestCase_def Let_def
  by (rule getuser_step[OF assms wire_ok_users(1)]; auto simp: getuser_simps)+
    (rule getuser_step[OF assms wire_ok_users(2)]; auto simp: getuser_simps)

lemma auth_wrong_step:
  assumes "good_site S" "word_ok p" "password_hash p \<notin> set (Passwords u)"
  shows "passes (session who u m i) (AuthTestCase (server_peer S) ''default'' p False i) (session who u m i)"
  unfolding AuthTestCase_def if_False
proof (rule command_step[OF assms(1), where v = "NewErrorValue ''WRONGPASS invalid username-password pair or user is disabled.''"])
  fix s assume s: "calm i s" "authUser (conns s i) = who \<and> UserRegistry s = [''default'' \<mapsto> u] \<and> Replicas s = [] \<and> mem s = m"
  have upper: "ToUpper ''AUTH'' = ''AUTH''" by simp
  have p: "UserRegistry s ''default'' = Some u" "arg_ok p" using s(2) assms(2) by (simp_all add: word_ok_def)
  obtain t where "answers (plat S) i [''AUTH'', ''default'', p] s
      (NewErrorValue ''WRONGPASS invalid username-password pair or user is disabled.'') t"
    "UserRegistry t = UserRegistry s" "mem t = mem s" "Replicas t = Replicas s" "authUser (conns t i) = authUser (conns s i)"
    using answers_AUTH[OF s(1) p(1) _ p(2), of "plat S"] assms(3) by auto
  then show "\<exists>t. answers (plat S) i (ToUpper ''AUTH'' # [''default'', p]) s
      (NewErrorValue ''WRONGPASS invalid username-password pair or user is disabled.'') t \<and>
      authUser (conns t i) = who \<and> UserRegistry t = [''default'' \<mapsto> u] \<and> Replicas t = [] \<and> mem t = m"
    unfolding upper using s(2) by (intro exI[of _ t]) simp
qed (rule refusals)+

text \<open>A wrong password with the right password's hash would be let in, and the tester would notice.\<close>

lemma auth_wrong_ends:
  assumes "good_site S" "word_ok p" "password_hash p \<in> set (Passwords u)"
  shows "ends (session who u m i) (AuthTestCase (server_peer S) ''default'' p False i) (Failed (Mismatch (WrongType ERROR SIMPLE_STRING)))"
  unfolding AuthTestCase_def if_False
proof (rule server.send_case_ends)
  fix s w assume "serves i s w" and q: "authUser (conns s i) = who \<and> UserRegistry s = [''default'' \<mapsto> u] \<and> Replicas s = [] \<and> mem s = m"
  then have s: "calm i s" "UserRegistry s ''default'' = Some u" by (simp_all add: serves_def)
  have upper: "ToUpper ''AUTH'' = ''AUTH''" and p: "arg_ok p" using assms(2) by (simp_all add: word_ok_def)
  obtain t where "answers (plat S) i [''AUTH'', ''default'', p] s (NewSimpleStringValue ''OK'') t"
    using answers_AUTH[OF s _ p, of "plat S"] assms(3) by auto
  then show "\<exists>v t. (good_site S \<and> answers (plat S) i (ToUpper ''AUTH'' # [''default'', p]) s v t) \<and> wire_ok v \<and>
      judged (PrefixAndSubstringsAssertion ERROR True (Some (error_prefix ''WRONGPASS '')) [] v :: string report)
        = Failed (Mismatch (WrongType ERROR SIMPLE_STRING))"
    unfolding upper using assms(1)
    by (intro exI[of _ "NewSimpleStringValue ''OK''"] exI[of _ t])
      (simp add: PrefixAndSubstringsAssertion_def DataTypeAssertion_def IsValueOfDataTypeStoredAsByteSlice_def HasPrefix_def crlf_def)
qed

section \<open>Stages\<close>

abbreviation new_session :: "nat \<Rightarrow> process option bench \<Rightarrow> bool" where
  "new_session \<equiv> session ''default'' default_user Map.empty"

lemma first_client_session: "first_client S i b \<Longrightarrow> new_session i b"
  by (auto simp: blank_def)

lemma session_stage_passes:
  assumes "fresh_site S" "\<And>i. passes (new_session i) (k i) (R i)"
  shows "fst (run_program (server_peer S) [] (one_client (server_peer S) k) b) = Passed"
  by (rule server.stage_passes[OF conjI[OF assms(1) plain_args_simps(1)]], rule passes_weaken[OF assms(2)], rule first_client_session)

text \<open>Another connection, to a server whose default user has a password, is not logged in.\<close>

lemma second_client:
  assumes "Passwords u \<noteq> []" "\<And>i. passes (session [] u m i) (k i) (R i)"
  shows "passes (session who u m j) (one_client (server_peer S) k) (\<lambda>_. True)"
proof (rule server.next_client_passes[where R = "\<lambda>i s. authUser (conns s i) = [] \<and> UserRegistry s = [''default'' \<mapsto> u] \<and> Replicas s = [] \<and> mem s = m"])
  show "passes (session [] u m i) (k i) (\<lambda>_. True)" for i by (rule passes_weaken[OF assms(2)]) simp_all
qed (use assms(1) in \<open>simp add: fun_upd_def\<close>)

lemma read_user_stages:
  assumes "fresh_site S" "password_ok p"
  shows "fst (testWhoami (server_peer S) b) = Passed" "fst (testGetUserResponse (server_peer S) b) = Passed"
    "fst (testGetUserNopassFlagRetrieval (server_peer S) b) = Passed" "fst (testGetUserPasswordsRetrieval (server_peer S) b) = Passed"
    "fst (testSetUserPassword (server_peer S) p b) = Passed"
proof -
  have S: "good_site S" using assms(1) by (simp add: fresh_site_def)
  show "fst (testWhoami (server_peer S) b) = Passed"
    unfolding testWhoami_def by (rule session_stage_passes[OF assms(1) whoami_step[OF S]])
  show "fst (testGetUserResponse (server_peer S) b) = Passed"
    unfolding testGetUserResponse_def by (rule session_stage_passes[OF assms(1) flags_step(1)[OF S]])
  show "fst (testGetUserNopassFlagRetrieval (server_peer S) b) = Passed"
    unfolding testGetUserNopassFlagRetrieval_def by (rule session_stage_passes[OF assms(1) flags_step(2)[OF S]])
  show "fst (testGetUserPasswordsRetrieval (server_peer S) b) = Passed"
    unfolding testGetUserPasswordsRetrieval_def by (rule session_stage_passes[OF assms(1) flags_step(3)[OF S]])
  show "fst (testSetUserPassword (server_peer S) p b) = Passed"
    unfolding testSetUserPassword_def AclSetuserTestCase_def list.map append.simps
    by (rule session_stage_passes[OF assms(1)],
        rule passes_Cons[OF flags_step(3)[OF S] passes_Cons[OF setuser_step[OF S assms(2), unfolded append.simps] passes_Cons[OF flags_step(4)[OF S] passes_Nil]]])
qed

lemma default_user_stage:
  assumes "fresh_site S" "password_ok p"
  shows "fst (testdefaultUserAuthentication (server_peer S) p b) = Passed"
proof -
  let ?u = "add_password (password_hash p) default_user"
  have S: "good_site S" using assms(1) by (simp add: fresh_site_def)
  have "Passwords ?u \<noteq> []" by (simp add: add_password_def)
  note second = second_client[OF this whoami_refused_step[OF S]]
  show ?thesis
    unfolding testdefaultUserAuthentication_def AclSetuserTestCase_def list.map append.simps
    by (rule session_stage_passes[OF assms(1)],
        rule passes_proceed[OF passes_Cons[OF setuser_step[OF S assms(2), unfolded append.simps] passes_Cons[OF whoami_step[OF S] passes_Nil]]
          second])
qed

text \<open>The commands the tester sends over the second connection once it is logged in.\<close>

lemma authenticated_case:
  assumes "good_site S" "word_ok word" "word_ok (''key-'' @ itoa a)" "word_ok (''value-'' @ itoa e)" "word_ok (''nonexistent-key-'' @ itoa d)"
    "t \<in> set (authenticated_cases (server_peer S) a e d word)"
  shows "passes (client_at (\<lambda>s. mem s (''nonexistent-key-'' @ itoa d) = None) i) (t i)
    (client_at (\<lambda>s. mem s (''nonexistent-key-'' @ itoa d) = None) i)"
proof -
  let ?I = "client_at (\<lambda>s. mem s (''nonexistent-key-'' @ itoa d) = None) i"
  have "passes ?I (send_case (server_peer S) ''SET'' [''key-'' @ itoa a, ''value-'' @ itoa e] (SimpleStringAssertion ''OK'') i) ?I"
    using assms(3,4) by (intro set_step[OF assms(1)]) (simp_all add: same_sessionsD)
  moreover have "passes ?I (send_case (server_peer S) ''GET'' [''nonexistent-key-'' @ itoa d] NilAssertion i) ?I"
    using assms(5) by (intro get_nothing_step[OF assms(1)]) (simp_all add: same_sessionsD)
  moreover have "passes ?I (send_case (server_peer S) ''PING'' [] (SimpleStringAssertion ''PONG'') i) ?I"
    by (intro ping_step[OF assms(1)]) (simp_all add: same_sessionsD)
  moreover have "passes ?I (send_case (server_peer S) ''ECHO'' [word] (BulkStringAssertion word) i) ?I"
    using assms(2) by (intro echo_step[OF assms(1)]) (simp_all add: same_sessionsD)
  ultimately show ?thesis using assms(6) by (auto simp only: authenticated_cases_def list.set insert_iff empty_iff)
qed

lemma auth_session_stage:
  assumes "fresh_site S" "password_ok p" "word_ok word" "word_ok (''key-'' @ itoa a)" "word_ok (''value-'' @ itoa e)"
    "word_ok (''nonexistent-key-'' @ itoa d)" "set chosen \<subseteq> set (authenticated_cases (server_peer S) a e d word)"
  shows "fst (testAuthCommandAuthentication (server_peer S) p chosen b) = Passed"
proof -
  let ?u = "add_password (password_hash p) default_user" and ?I = "client_at (\<lambda>s. mem s (''nonexistent-key-'' @ itoa d) = None)"
  have S: "good_site S" using assms(1) by (simp add: fresh_site_def)
  have pw: "Passwords ?u \<noteq> []" "password_hash p \<in> set (Passwords ?u)" by (simp_all add: add_password_def)
  have "passes (?I i) (run_all (map (\<lambda>t. t i) chosen)) (?I i)" for i
    using authenticated_case[OF S assms(3-6)] assms(7) by (intro passes_all) auto
  then have rest: "passes (session ''default'' ?u Map.empty i) (run_all (map (\<lambda>t. t i) chosen)) (?I i)" for i
    by (rule passes_weaken) auto
  have "passes (session [] ?u Map.empty i) (run_all ([AclWhoamiErrorTestCase (server_peer S) ''NOAUTH '' i,
      send_case (server_peer S) ''AUTH'' [''default'', p] (SimpleStringAssertion ''OK'') i,
      AclWhoamiTestCase (server_peer S) ''default'' i] @ map (\<lambda>t. t i) chosen)) (?I i)" for i
    by (rule passes_append[OF passes_Cons[OF whoami_refused_step[OF S] passes_Cons[OF auth_step[OF S assms(2) pw(2)]
          passes_Cons[OF whoami_step[OF S] passes_Nil]]] rest])
  note second = second_client[OF pw(1) this]
  show ?thesis
    unfolding testAuthCommandAuthentication_def append.simps
    by (rule session_stage_passes[OF assms(1)],
        rule passes_proceed[OF passes_Cons[OF setuser_step[OF S assms(2), unfolded append.simps] passes_Cons[OF whoami_step[OF S] passes_Nil]]
          second[unfolded append.simps]])
qed

section \<open>Properties\<close>

text \<open>
  C3: The server passes the tester's stages on users: what \<open>ACL WHOAMI\<close> and \<open>ACL GETUSER\<close> say before
  and after a password is set, and, over two connections, that a connection opened after that is
  refused, can log in with the password and can then use the commands the tester picks.
\<close>

theorem user_stages_pass:
  assumes "fresh_site S" "password_ok p" "word_ok word" "word_ok (''key-'' @ itoa a)" "word_ok (''value-'' @ itoa e)"
    "word_ok (''nonexistent-key-'' @ itoa d)" "set chosen \<subseteq> set (authenticated_cases (server_peer S) a e d word)"
  shows "fst (testWhoami (server_peer S) b) = Passed \<and> fst (testGetUserResponse (server_peer S) b) = Passed \<and>
    fst (testGetUserNopassFlagRetrieval (server_peer S) b) = Passed \<and>
    fst (testGetUserPasswordsRetrieval (server_peer S) b) = Passed \<and> fst (testSetUserPassword (server_peer S) p b) = Passed \<and>
    fst (testdefaultUserAuthentication (server_peer S) p b) = Passed \<and>
    fst (testAuthCommandAuthentication (server_peer S) p chosen b) = Passed"
  using read_user_stages[OF assms(1,2)] default_user_stage[OF assms(1,2)] auth_session_stage[OF assms] by blast

lemma user_words [simp]: "password_ok ''secret''" "word_ok (''key-'' @ itoa 7)" "word_ok (''value-'' @ itoa 7)"
  "word_ok (''nonexistent-key-'' @ itoa 7)" "word_ok (''wrongpassword-'' @ itoa 7)"
proof -
  have "itoa 7 = ''7''" by code_simp
  then show "word_ok (''key-'' @ itoa 7)" "word_ok (''value-'' @ itoa 7)" "word_ok (''nonexistent-key-'' @ itoa 7)"
    "word_ok (''wrongpassword-'' @ itoa 7)"
    by (simp_all add: word_ok_def in_i64_def arg_ok_graphic graphic_def)
qed (simp add: password_ok_def word_ok_def in_i64_def)

lemma user_stages_pass_example:
  "fst (testAuthCommandAuthentication (server_peer local_site) ''secret''
      (take 2 (authenticated_cases (server_peer local_site) 7 7 7 ''fruit''))
     \<lparr>Clients = \<lambda>_. new_client, clientsSpawned = 0, Remote = None\<rparr>) = Passed"
  using user_stages_pass[OF fresh_local_site user_words(1) word_ok_examples(1) user_words(2-4) set_take_subset] by blast

text \<open>
  C38: The stage on \<open>AUTH\<close> passes exactly when the wrong password that the tester tries has another
  SHA-256 hash than the right one: the server compares nothing but hashes, and the tester would not
  accept a wrong password that is let in.
\<close>

theorem auth_stage_decides:
  assumes "fresh_site S" "password_ok p" "word_ok (''wrongpassword-'' @ itoa n)"
  shows "fst (testAuthCommandResponse (server_peer S) p n b) = Passed
    \<longleftrightarrow> password_hash (''wrongpassword-'' @ itoa n) \<noteq> password_hash p"
proof -
  let ?w = "''wrongpassword-'' @ itoa n" and ?u = "add_password (password_hash p) default_user"
  have S: "good_site S" using assms(1) by (simp add: fresh_site_def)
  have set: "passes (new_session i) (AclSetuserTestCase (server_peer S) ''default'' [p] i) (session ''default'' ?u Map.empty i)" for i
    unfolding AclSetuserTestCase_def list.map append.simps by (rule setuser_step[OF S assms(2), unfolded append.simps])
  have P: "Passwords ?u = [password_hash p]" by (simp add: add_password_def default_user_def)
  show ?thesis
  proof (cases "password_hash ?w = password_hash p")
    case True
    then have wrong: "ends (session ''default'' ?u Map.empty i) (AuthTestCase (server_peer S) ''default'' ?w False i)
        (Failed (Mismatch (WrongType ERROR SIMPLE_STRING)))" for i
      using P by (intro auth_wrong_ends[OF S assms(3)]) simp
    have "fst (testAuthCommandResponse (server_peer S) p n b) = Failed (Mismatch (WrongType ERROR SIMPLE_STRING))"
      unfolding testAuthCommandResponse_def
      by (rule server.stage_ends[OF conjI[OF assms(1) plain_args_simps(1)]], rule ends_weaken[OF ends_Cons[OF set ends_first[OF wrong]]])
        (simp, rule first_client_session)
    with True show ?thesis by simp
  next
    case False
    have wrong: "passes (session ''default'' ?u Map.empty i) (AuthTestCase (server_peer S) ''default'' ?w False i) (session ''default'' ?u Map.empty i)" for i
      using P False by (intro auth_wrong_step[OF S assms(3)]) simp
    have right: "passes (session ''default'' ?u Map.empty i) (AuthTestCase (server_peer S) ''default'' p True i) (session ''default'' ?u Map.empty i)" for i
      unfolding AuthTestCase_def if_True using P by (intro auth_step[OF S assms(2)]) simp
    have "fst (testAuthCommandResponse (server_peer S) p n b) = Passed"
      unfolding testAuthCommandResponse_def
      by (rule session_stage_passes[OF assms(1)], rule passes_Cons[OF set passes_Cons[OF wrong passes_Cons[OF right passes_Nil]]])
    with False show ?thesis by blast
  qed
qed

lemma auth_stage_decides_example:
  "fst (testAuthCommandResponse (server_peer local_site) ''secret'' 7
     \<lparr>Clients = \<lambda>_. new_client, clientsSpawned = 0, Remote = None\<rparr>) = Passed
    \<longleftrightarrow> password_hash (''wrongpassword-'' @ itoa 7) \<noteq> password_hash ''secret''"
  by (rule auth_stage_decides[OF fresh_local_site user_words(1,5)])

end
