(* ===== verification/Group_Logic.thy ===== *)
theory Group_Logic
  imports Run_Logic
begin

text \<open>
  How the tester's group of blocked clients is verified: a client that sends a command and gets nothing
  back yet, one that is looked at and has nothing, one that has a value.
\<close>

section \<open>One client\<close>

text \<open>A connection with nothing under way but reads that are still to be made.\<close>

definition inbox :: "string list \<Rightarrow> RespConnection \<Rightarrow> bool" where
  "inbox rs c \<longleftrightarrow> net_in c = rs \<and> UnreadBuffer c = [] \<and> ReadValueInterceptor c = None \<and> budget (net_out c) = None"

lemma inbox_Nil: "inbox [] c \<longleftrightarrow> quiet c"
  by (simp add: inbox_def quiet_def)

lemma inbox_more: "quiet c \<Longrightarrow> inbox rs (c\<lparr>net_in := net_in c @ rs\<rparr>)"
  by (simp add: inbox_def quiet_def)

text \<open>Only client \<open>i\<close> changed, and not the other side.\<close>

definition only_client :: "nat \<Rightarrow> 'w bench \<Rightarrow> 'w bench \<Rightarrow> bool" where
  "only_client i b b' \<longleftrightarrow> (\<forall>e. e \<noteq> i \<longrightarrow> Clients b' e = Clients b e) \<and> Remote b' = Remote b"

lemma client_waits:
  assumes "quiet (Clients b i)" "Deliver P i (resp_array (cmd # args)) (Remote b) = (\<lambda>_. [], w)"
  obtains b' where "client_send P i (SendCommand cmd args (Clients b i)) b = (Passed, b')"
    "quiet (Clients b' i)" "\<forall>e. e \<noteq> i \<longrightarrow> Clients b' e = Clients b e" "Remote b' = w"
    "clientsSpawned b' = clientsSpawned b"
proof -
  from client_send_command[of b i P cmd args] assms obtain c where
    "client_send P i (SendCommand cmd args (Clients b i)) b = (Passed, absorb (\<lambda>_. [], w) (with_client i c b))"
    "net_in c = []" "UnreadBuffer c = []" "ReadValueInterceptor c = None" "budget (net_out c) = None"
    unfolding quiet_def by metis
  then show thesis
    by (intro that[of "absorb (\<lambda>_. [], w) (with_client i c b)"]) (simp_all add: absorb_def with_client_def quiet_def)
qed

lemma quiet_ReadIntoBuffer: "quiet c \<Longrightarrow> ReadIntoBuffer c = c"
  by (simp add: quiet_def ReadIntoBuffer_def)

lemma no_response_quiet: "quiet (Clients b i) \<Longrightarrow> fst (NoResponseTestCase i b) = Passed"
  by (simp add: NoResponseTestCase_def quiet_ReadIntoBuffer) (simp add: quiet_def)

lemma no_response_inbox:
  "inbox (d # ds) (Clients b i) \<Longrightarrow> d \<noteq> [] \<Longrightarrow> fst (NoResponseTestCase i b) = Failed (Unexpected d)"
  by (simp add: NoResponseTestCase_def ReadIntoBuffer_def inbox_def)

lemma client_receives:
  assumes "wire_ok v" "concat rs = wire v" "[] \<notin> set rs" "length rs \<le> Polls P" "inbox rs (Clients b i)"
  obtains b' where "UnreadBuffer (ReadIntoBuffer (Clients b i)) \<noteq> []"
    "ReceiveValueTestCase P A skip i (with_client i (ReadIntoBuffer (Clients b i)) b) = (judged (A v), b')"
    "quiet (Clients b' i)" "only_client i b b'"
proof -
  obtain d ds where rs: "rs = d # ds" using assms(2) wire_nonempty[of v] by (cases rs) auto
  let ?c = "ReadIntoBuffer (Clients b i)"
  have c: "net_in ?c = ds" "UnreadBuffer ?c = d" "ReadValueInterceptor ?c = None" "budget (net_out ?c) = None"
    using assms(5) rs by (simp_all add: inbox_def ReadIntoBuffer_def)
  have "0 < Polls P" "pending ?c = wire v @ []" "length (wire v) \<le> length (UnreadBuffer ?c @ concat (take (Polls P) (net_in ?c)))"
    using assms(2,4) rs c by (auto simp: pending_def)
  from read_wire[OF assms(1) this(2,1,3) c(3)] obtain n u where r: "u @ concat n = []" "set n \<subseteq> set ds"
    "ReadValueWithTimeout (Polls P) ?c = (Inr v, ?c\<lparr>net_in := n, UnreadBuffer := u, LastValueBytesCount := int (length (wire v)),
        ReceivedBytesCount := ReceivedBytesCount ?c + int (length (wire v))\<rparr>)"
    using c(1) by metis
  have "n = []" "u = []" using r(1,2) assms(3) rs by (cases n; fastforce)+
  define e where "e = ?c\<lparr>net_in := [], UnreadBuffer := [], LastValueBytesCount := int (length (wire v)),
      ReceivedBytesCount := ReceivedBytesCount ?c + int (length (wire v))\<rparr>"
  let ?b = "with_client i e (with_client i ?c b)"
  have "quiet (Clients ?b i)" using c by (simp add: quiet_def e_def with_client_def)
  moreover have "RunWithoutAssert P i (with_client i ?c b) = (Inr v, ?b)"
    using r(3) \<open>n = []\<close> \<open>u = []\<close> by (simp add: RunWithoutAssert_def e_def with_client_def)
  ultimately show thesis
    using that[of ?b] c(2) assms(3) rs Assert_quiet[of ?b i A skip v]
    by (simp add: ReceiveValueTestCase_def only_client_def) (auto simp: with_client_def)
qed

section \<open>The passes over the group\<close>

lemma expect_pass_quiet:
  "quiet (Clients s i) \<Longrightarrow> expect_pass P t (i # rest) kept received s = expect_pass P t rest (kept @ [i]) received s"
proof -
  assume q: "quiet (Clients s i)"
  then have "with_client i (ReadIntoBuffer (Clients s i)) s = s" by (simp add: quiet_ReadIntoBuffer with_client_def)
  with q show ?thesis by (simp add: Let_def quiet_def)
qed

lemma expect_pass_value:
  assumes "wire_ok v" "concat rs = wire v" "[] \<notin> set rs" "length rs \<le> Polls P" "inbox rs (Clients s i)"
    "snd (AssertionForReceivedResponse t v) = Pass" "received + 1 = ResponseExpectingClientsCount t"
  obtains s' where "expect_pass P t (i # rest) kept received s = ((Passed, True, kept @ rest, received + 1), s')"
    "quiet (Clients s' i)" "only_client i s s'"
proof -
  obtain s' where "UnreadBuffer (ReadIntoBuffer (Clients s i)) \<noteq> []"
    "ReceiveValueTestCase P (AssertionForReceivedResponse t) False i (with_client i (ReadIntoBuffer (Clients s i)) s)
      = (judged (AssertionForReceivedResponse t v), s')" "quiet (Clients s' i)" "only_client i s s'"
    by (rule client_receives[OF assms(1-5), of "AssertionForReceivedResponse t" False])
  then show thesis using assms(6,7) by (intro that[of s']) (simp_all add: judged_def Let_def with_client_def)
qed

text \<open>
  One response is expected of two clients. The tester looks at the later one first; if it has none, at
  the other one; whoever is left must have none.
\<close>

lemma first_of_two:
  assumes "rev (GroupClients t) = [i, j]" "ResponseExpectingClientsCount t = 1" "0 < n"
    "wire_ok v" "concat rs = wire v" "[] \<notin> set rs" "length rs \<le> Polls P" "inbox rs (Clients s i)"
    "snd (AssertionForReceivedResponse t v) = Pass"
  obtains s' where "AssertResponses P n t s = run_all [NoResponseTestCase j] (sleep P 1000000 s')"
    "quiet (Clients s' i)" "only_client i s s'"
proof -
  obtain m where n: "n = Suc m" using assms(3) by (cases n) auto
  obtain s' where "expect_pass P t (i # [j]) [] 0 s = ((Passed, True, [] @ [j], 0 + 1), s')" "quiet (Clients s' i)" "only_client i s s'"
    by (rule expect_pass_value[OF assms(4-9)]) (simp add: assms(2))
  then show thesis by (intro that[of s']) (simp_all add: AssertResponses_def assms(1,2) n)
qed

lemma second_of_two:
  assumes "rev (GroupClients t) = [i, j]" "ResponseExpectingClientsCount t = 1" "0 < n" "quiet (Clients s i)"
    "wire_ok v" "concat rs = wire v" "[] \<notin> set rs" "length rs \<le> Polls P" "inbox rs (Clients s j)"
    "snd (AssertionForReceivedResponse t v) = Pass"
  obtains s' where "AssertResponses P n t s = run_all [NoResponseTestCase i] (sleep P 1000000 s')"
    "quiet (Clients s' j)" "only_client j s s'"
proof -
  obtain m where n: "n = Suc m" using assms(3) by (cases n) auto
  obtain s' where "expect_pass P t (j # []) ([] @ [i]) 0 s = ((Passed, True, ([] @ [i]) @ [], 0 + 1), s')" "quiet (Clients s' j)" "only_client j s s'"
    by (rule expect_pass_value[OF assms(5-10)]) (simp add: assms(2))
  then show thesis using expect_pass_quiet[OF assms(4), of P t "[j]" "[]" 0]
    by (intro that[of s']) (simp_all add: AssertResponses_def assms(1,2) n)
qed

text \<open>Both clients have a value: the tester reports what the one it looks at last has received.\<close>

lemma both_of_two:
  assumes "rev (GroupClients t) = [i, j]" "i \<noteq> j" "ResponseExpectingClientsCount t = 1" "0 < n" "wire_ok v" "concat rs = wire v"
    "[] \<notin> set rs" "length rs \<le> Polls P" "inbox rs (Clients s i)" "inbox us (Clients s j)" "us \<noteq> []" "[] \<notin> set us"
    "snd (AssertionForReceivedResponse t v) = Pass" "\<And>w. Elapse P 1000000 w = (\<lambda>_. [], w)"
  shows "fst (AssertResponses P n t s) = Failed (Unexpected (hd us))"
proof -
  obtain s' where s': "AssertResponses P n t s = run_all [NoResponseTestCase j] (sleep P 1000000 s')" "only_client i s s'"
    by (rule first_of_two[OF assms(1,3-9,13)])
  obtain d ds where d: "us = d # ds" "d \<noteq> []" using assms(11,12) by (cases us) auto
  have "inbox (d # ds) (Clients (sleep P 1000000 s') j)"
    using assms(2,10,14) s'(2) d by (simp add: only_client_def sleep_def absorb_def)
  from no_response_inbox[OF this d(2)] s'(1) d(1) show ?thesis
    by (cases "NoResponseTestCase j (sleep P 1000000 s')") simp
qed

end
