(* ===== verification/Master_Logic.thy ===== *)
theory Master_Logic
  imports Group_Logic Assertion_Properties
begin

text \<open>
  How the stages in which the tester plays the master are verified: a program that has dialled the
  tester says something, the tester judges and answers it, and the program goes on. \<open>dialling\<close> is what
  these scripts need of the program.
\<close>

section \<open>Reading what is there\<close>

text \<open>The reads that are still to be made give \<open>bs\<close>, within the tester's patience.\<close>

definition arriving :: "'w peer \<Rightarrow> string \<Rightarrow> string list \<Rightarrow> bool" where
  "arriving P bs rs \<longleftrightarrow> concat rs = bs \<and> [] \<notin> set rs \<and> length rs \<le> Polls P"

lemma arriving_Nil: "arriving P [] rs \<Longrightarrow> rs = []"
  by (cases rs) (auto simp: arriving_def)

lemma reads_value:
  assumes "wire_ok v" "arriving P (wire v) rs" "inbox rs (Clients b i)"
  obtains b' where "RunWithoutAssert P i b = (Inr v, b')" "quiet (Clients b' i)" "only_client i b b'"
    "SentBytesCount (Clients b' i) = SentBytesCount (Clients b i)" "clientsSpawned b' = clientsSpawned b"
proof -
  let ?c = "Clients b i"
  have rs: "concat rs = wire v" "[] \<notin> set rs" "length rs \<le> Polls P" using assms(2) by (simp_all add: arriving_def)
  have c: "net_in ?c = rs" "UnreadBuffer ?c = []" "ReadValueInterceptor ?c = None" "budget (net_out ?c) = None"
    using assms(3) by (simp_all add: inbox_def)
  have "rs \<noteq> []" using rs(1) wire_nonempty[of v] by (metis concat.simps(1))
  then have "0 < Polls P" using rs(3) by (cases rs) simp_all
  moreover have "pending ?c = wire v @ []" "length (wire v) \<le> length (UnreadBuffer ?c @ concat (take (Polls P) (net_in ?c)))"
    using rs c by (simp_all add: pending_def)
  ultimately obtain n u where r: "u @ concat n = []" "set n \<subseteq> set (net_in ?c)"
    "ReadValueWithTimeout (Polls P) ?c = (Inr v, ?c\<lparr>net_in := n, UnreadBuffer := u, LastValueBytesCount := int (length (wire v)),
        ReceivedBytesCount := ReceivedBytesCount ?c + int (length (wire v))\<rparr>)"
    using read_wire[OF assms(1) _ _ _ c(3)] by metis
  have "n = []" "u = []" using r(1,2) rs(2) c(1) by (cases n; fastforce)+
  define d where "d = ?c\<lparr>net_in := [], UnreadBuffer := [], LastValueBytesCount := int (length (wire v)),
      ReceivedBytesCount := ReceivedBytesCount ?c + int (length (wire v))\<rparr>"
  have "ReadValueWithTimeout (Polls P) ?c = (Inr v, d)" using r(3) \<open>n = []\<close> \<open>u = []\<close> by (simp add: d_def)
  then have "RunWithoutAssert P i b = (Inr v, with_client i d b)" by (simp add: RunWithoutAssert_def)
  then show thesis
    by (rule that) (use c(3,4) in \<open>simp_all add: d_def quiet_def only_client_def with_client_def\<close>)
qed

text \<open>Bytes that are written on a quiet connection.\<close>

lemma sends_bytes:
  assumes "quiet (Clients b i)"
  obtains c where "client_send P i (Some (SendBytes bs (Clients b i))) b = (Passed, absorb (Deliver P i bs (Remote b)) (with_client i c b))"
    "quiet c" "SentBytesCount c = SentBytesCount (Clients b i) + int (length bs)"
proof -
  obtain c where c: "SendBytes bs (Clients b i) = (True, c)" "quiet c" "written (net_out c) = written (net_out (Clients b i)) @ bs"
    "SentBytesCount c = SentBytesCount (Clients b i) + int (length bs)"
    using assms by (simp add: SendBytes_def sink_write_def quiet_def)
  then show thesis by (intro that[of c]) (simp_all add: client_send_def)
qed

section \<open>A command that may be retried\<close>

context answering begin

lemma settled_answer:
  assumes "attended serves i s b" "answers i (ToUpper (Command tc) # Args tc) s v t" "wire_ok v"
    "ShouldRetryFunc tc = Some retry" "\<not> retry v"
  obtains b' where "SendCommandTestCase_Run P tc i b = (judged (Assertion tc v), b')" "attended serves i t b'"
proof -
  obtain b' where b: "attempt P tc i b = (Inr v, b')" "attended serves i t b'" by (rule attempt_answer[OF assms(1-3)])
  then have "SendCommandTestCase_Run P tc i b = (judged (Assertion tc v), b')"
    using assms(4,5) by (cases "Retries tc") (simp_all add: SendCommandTestCase_Run_def attended_def Assert_quiet)
  then show thesis using b(2) by (rule that)
qed

end

section \<open>A program that has dialled\<close>

text \<open>
  \<open>reacts i bs s words t\<close>: when \<open>bs\<close> arrives on the connection the program has opened as connection \<open>i\<close>,
  a program in state \<open>s\<close> says \<open>words\<close> on it and is in state \<open>t\<close>.
\<close>

locale dialling =
  fixes P :: "'w peer" and joined :: "nat \<Rightarrow> 's \<Rightarrow> 'w \<Rightarrow> bool"
    and reacts :: "nat \<Rightarrow> string \<Rightarrow> 's \<Rightarrow> string \<Rightarrow> 's \<Rightarrow> bool"
  assumes reaction: "joined i s w \<Longrightarrow> reacts i bs s words t \<Longrightarrow>
    \<exists>rs w'. Deliver P i bs w = (rs, w') \<and> arriving P words (rs i) \<and> joined i t w'"
begin

text \<open>The program is in state \<open>s\<close> and has said \<open>words\<close>; the tester has sent \<open>n\<close> bytes since it started to count.\<close>

definition hearing :: "nat \<Rightarrow> string \<Rightarrow> int \<Rightarrow> 's \<Rightarrow> 'w bench \<Rightarrow> bool" where
  "hearing i words n s b \<longleftrightarrow>
     (\<exists>rs. inbox rs (Clients b i) \<and> arriving P words rs) \<and> joined i s (Remote b) \<and> SentBytesCount (Clients b i) = n"

lemma hearing_quiet: "hearing i [] n s b \<Longrightarrow> quiet (Clients b i)"
  by (auto simp: hearing_def inbox_Nil dest!: arriving_Nil)

lemma sent_bytes:
  assumes "quiet (Clients b i)" "joined i s (Remote b)" "reacts i bs s words t"
  obtains b' where "client_send P i (Some (SendBytes bs (Clients b i))) b = (Passed, b')"
    "hearing i words (SentBytesCount (Clients b i) + int (length bs)) t b'" "clientsSpawned b' = clientsSpawned b"
    "spread i (Deliver P i bs (Remote b)) b b'"
proof -
  obtain c where c: "client_send P i (Some (SendBytes bs (Clients b i))) b = (Passed, absorb (Deliver P i bs (Remote b)) (with_client i c b))"
    "quiet c" "SentBytesCount c = SentBytesCount (Clients b i) + int (length bs)"
    by (rule sends_bytes[OF assms(1)])
  obtain rs w' where "Deliver P i bs (Remote b) = (rs, w')" "arriving P words (rs i)" "joined i t w'"
    using reaction[OF assms(2,3)] by blast
  moreover have "inbox (rs i) (c\<lparr>net_in := net_in c @ rs i\<rparr>)" by (rule inbox_more[OF c(2)])
  ultimately show thesis using c
    by (intro that[of "absorb (rs, w') (with_client i c b)"]) (auto simp: hearing_def absorb_def with_client_def spread_def)
qed

lemma heard_value:
  assumes "hearing i (wire v) n s b" "wire_ok v"
  obtains b' where "RunWithoutAssert P i b = (Inr v, b')" "quiet (Clients b' i)" "joined i s (Remote b')"
    "SentBytesCount (Clients b' i) = n" "clientsSpawned b' = clientsSpawned b"
proof -
  obtain rs where rs: "inbox rs (Clients b i)" "arriving P (wire v) rs" "joined i s (Remote b)" "SentBytesCount (Clients b i) = n"
    using assms(1) by (auto simp: hearing_def)
  obtain b' where "RunWithoutAssert P i b = (Inr v, b')" "quiet (Clients b' i)" "only_client i b b'"
    "SentBytesCount (Clients b' i) = SentBytesCount (Clients b i)" "clientsSpawned b' = clientsSpawned b"
    by (rule reads_value[OF assms(2) rs(2,1)])
  with rs(3,4) show thesis by (intro that[of b']) (simp_all add: only_client_def)
qed

text \<open>The tester receives a command and answers it.\<close>

lemma receive_step:
  assumes "hearing i (wire v) n s b" "wire_ok v" "snd (A v) = Pass" "Resp_Codec.Encode response = Some bs" "reacts i bs s words t"
  obtains b' where "ReceiveCommandTestCase P A response skip i b = ((Passed, b'), Some v)"
    "hearing i words (n + int (length bs)) t b'" "clientsSpawned b' = clientsSpawned b"
proof -
  obtain b1 where b1: "RunWithoutAssert P i b = (Inr v, b1)" "quiet (Clients b1 i)" "joined i s (Remote b1)"
    "SentBytesCount (Clients b1 i) = n" "clientsSpawned b1 = clientsSpawned b"
    by (rule heard_value[OF assms(1,2)])
  obtain b2 where "client_send P i (Some (SendBytes bs (Clients b1 i))) b1 = (Passed, b2)"
    "hearing i words (SentBytesCount (Clients b1 i) + int (length bs)) t b2" "clientsSpawned b2 = clientsSpawned b1"
    by (rule sent_bytes[OF b1(2,3) assms(5)])
  with b1 assms(3,4) show thesis
    by (intro that[of b2]) (simp_all add: ReceiveCommandTestCase_def Assert_quiet judged_def SendValue_def)
qed

text \<open>The tester sends a command that is not answered, or one that is.\<close>

lemma send_step:
  assumes "hearing i [] n s b" "reacts i (resp_array (cmd # args)) s words t"
  obtains b' where "send_as_master P cmd args i b = (Passed, b')"
    "hearing i words (n + int (length (resp_array (cmd # args)))) t b'" "clientsSpawned b' = clientsSpawned b"
    "spread i (Deliver P i (resp_array (cmd # args)) (Remote b)) b b'"
proof -
  have b: "joined i s (Remote b)" "SentBytesCount (Clients b i) = n" using assms(1) by (simp_all add: hearing_def)
  obtain b' where "client_send P i (Some (SendBytes (resp_array (cmd # args)) (Clients b i))) b = (Passed, b')"
    "hearing i words (SentBytesCount (Clients b i) + int (length (resp_array (cmd # args)))) t b'" "clientsSpawned b' = clientsSpawned b"
    "spread i (Deliver P i (resp_array (cmd # args)) (Remote b)) b b'"
    by (rule sent_bytes[OF hearing_quiet[OF assms(1)] b(1) assms(2)])
  with b show thesis by (intro that[of b']) (simp_all add: send_as_master_def SendCommand_def Encode_command)
qed

lemma ask_step:
  assumes "hearing i [] n s b" "reacts i (resp_array (ToUpper cmd # args)) s (wire v) t" "wire_ok v" "snd (A v) = Pass"
  obtains b' where "send_case P cmd args A i b = (Passed, b')"
    "hearing i [] (n + int (length (resp_array (ToUpper cmd # args)))) t b'" "clientsSpawned b' = clientsSpawned b"
proof -
  obtain b1 where b1: "client_send P i (SendCommand (ToUpper cmd) args (Clients b i)) b = (Passed, b1)"
    "hearing i (wire v) (n + int (length (resp_array (ToUpper cmd # args)))) t b1" "clientsSpawned b1 = clientsSpawned b"
    by (rule send_step[OF assms(1,2)]) (simp add: send_as_master_def)
  obtain b2 where b2: "RunWithoutAssert P i b1 = (Inr v, b2)" "quiet (Clients b2 i)" "joined i t (Remote b2)"
    "SentBytesCount (Clients b2 i) = n + int (length (resp_array (ToUpper cmd # args)))" "clientsSpawned b2 = clientsSpawned b1"
    by (rule heard_value[OF b1(2) assms(3)])
  have "hearing i [] (n + int (length (resp_array (ToUpper cmd # args)))) t b2"
    using b2(2-4) by (auto simp: hearing_def inbox_Nil arriving_def intro!: exI[of _ "[]"])
  with b1(1,3) b2 assms(4) show thesis
    by (intro that[of b2])
      (simp_all add: SendCommandTestCase_Run_def send_command_def attempt_def Assert_quiet judged_def)
qed

lemma reset_step:
  assumes "hearing i words n s b"
  shows "hearing i words 0 s (with_client i (ResetByteCounters (Clients b i)) b)"
  using assms by (auto simp: hearing_def with_client_def ResetByteCounters_def inbox_def)

end

section \<open>The handshake\<close>

text \<open>The file the tester sends.\<close>

lemma DecodeString_length: "DecodeString s = Some t \<Longrightarrow> 2 * length t = length s"
  by (induction s arbitrary: t rule: DecodeString.induct) (auto split: option.splits)

lemma DecodeString_digits: "even (length s) \<Longrightarrow> \<forall>c \<in> set s. hex_val c \<noteq> None \<Longrightarrow> DecodeString s \<noteq> None"
  by (induction s rule: DecodeString.induct) auto

lemma hex_digits: "c \<in> set ''0123456789abcdef'' \<Longrightarrow> hex_val c \<noteq> None"
  by (auto simp: hex_val_def)

lemma tester_file: "DecodeString tester_rdb_hex \<noteq> None"
proof (rule DecodeString_digits)
  have "set tester_rdb_hex \<subseteq> set ''0123456789abcdef''" by (simp add: tester_rdb_hex_def)
  then show "\<forall>c \<in> set tester_rdb_hex. hex_val c \<noteq> None" using hex_digits by blast
qed (simp add: tester_rdb_hex_def)

text \<open>
  A program that joins the tester as a replica. \<open>stage i k\<close> is its state once it has been sent \<open>k\<close>
  messages of the handshake on connection \<open>i\<close>; \<open>able\<close> is what the start needs.
\<close>

abbreviation fullresync_line :: string where
  "fullresync_line \<equiv> ''FULLRESYNC 75cd7bc10c49047e0d163660f3b90625b1af31dc 0''"

definition command_value :: "string list \<Rightarrow> Value" where
  "command_value = NewStringArrayValue"

locale joining = dialling P joined reacts
  for P :: "'w peer" and joined :: "nat \<Rightarrow> 's \<Rightarrow> 'w \<Rightarrow> bool" and reacts :: "nat \<Rightarrow> string \<Rightarrow> 's \<Rightarrow> string \<Rightarrow> 's \<Rightarrow> bool" +
  fixes able :: bool and stage :: "nat \<Rightarrow> nat \<Rightarrow> 's"
  assumes dials: "able \<Longrightarrow> \<exists>w0 rs w1. Launch P [''--port'', ''6380'', ''--replicaof'', ''localhost 6379''] w = Some w0 \<and>
      Dialled P i w0 = Some (rs, w1) \<and> arriving P (wire (command_value [''PING''])) (rs i) \<and> joined i (stage i 0) w1"
    and after_pong: "reacts i (wire (NewSimpleStringValue ''PONG'')) (stage i 0)
      (wire (command_value [''REPLCONF'', ''listening-port'', ''6380''])) (stage i 1)"
    and after_port: "reacts i (wire (NewSimpleStringValue ''OK'')) (stage i 1)
      (wire (command_value [''REPLCONF'', ''capa'', ''psync2''])) (stage i 2)"
    and after_capa: "reacts i (wire (NewSimpleStringValue ''OK'')) (stage i 2)
      (wire (command_value [''PSYNC'', ''?'', ''-1''])) (stage i 3)"
    and after_psync: "reacts i (wire (NewSimpleStringValue fullresync_line)) (stage i 3) [] (stage i 4)"
    and after_file: "able \<Longrightarrow> DecodeString tester_rdb_hex = Some contents \<Longrightarrow> reacts i (EncodeFullResyncRDBFile contents) (stage i 4) [] (stage i 5)"
begin

text \<open>The program has said \<open>v\<close>, or nothing; nobody else has connected.\<close>

definition at_stage :: "nat \<Rightarrow> string \<Rightarrow> nat \<Rightarrow> 'w bench \<Rightarrow> bool" where
  "at_stage i words k b \<longleftrightarrow> (\<exists>n. hearing i words n (stage i k) b) \<and> clientsSpawned b = i + 1"

lemma simple_encodes: "Resp_Codec.Encode (NewSimpleStringValue x) = Some (wire (NewSimpleStringValue x))"
  by (simp add: NewSimpleStringValue_def encodeSimpleString_def)

lemma commands_ok:
  "wire_ok (command_value [''PING''])" "wire_ok (command_value [''REPLCONF'', ''listening-port'', ''6380''])"
  "wire_ok (command_value [''REPLCONF'', ''capa'', ''psync2''])" "wire_ok (command_value [''PSYNC'', ''?'', ''-1''])"
  by (simp_all add: command_value_def NewStringArrayValue_def value_constructors in_i64_def)

lemma received:
  assumes "wire_ok v" "snd (A v) = Pass" "reacts i (wire (NewSimpleStringValue x)) (stage i k) words (stage i l)" "at_stage i (wire v) k b"
  obtains b' where "ReceiveCommandTestCase P A (NewSimpleStringValue x) skip i b = ((Passed, b'), Some v)" "at_stage i words l b'"
proof -
  obtain n where n: "hearing i (wire v) n (stage i k) b" "clientsSpawned b = i + 1" using assms(4) by (auto simp: at_stage_def)
  obtain b' where "ReceiveCommandTestCase P A (NewSimpleStringValue x) skip i b = ((Passed, b'), Some v)"
    "hearing i words (n + int (length (wire (NewSimpleStringValue x)))) (stage i l) b'" "clientsSpawned b' = clientsSpawned b"
    by (rule receive_step[where A = A, OF n(1) assms(1,2) simple_encodes assms(3)])
  with n(2) show thesis by (intro that[of b']) (auto simp: at_stage_def)
qed

text \<open>A step that judges one command and answers it.\<close>

lemma step_passes:
  assumes "wire_ok v" "snd (A v :: string report) = Pass" "reacts i (wire (NewSimpleStringValue x)) (stage i k) words (stage i l)"
  shows "passes (at_stage i (wire v) k) (\<lambda>b. fst (ReceiveCommandTestCase P A (NewSimpleStringValue x) skip i b)) (at_stage i words l)"
proof (rule passesI)
  fix b assume "at_stage i (wire v) k b"
  from received[where A = A, OF assms this, of skip] show
    "\<exists>b'. fst (ReceiveCommandTestCase P A (NewSimpleStringValue x) skip i b) = (Passed, b') \<and> at_stage i words l b'"
    by (metis fst_conv)
qed

lemma ping_passes:
  "passes (at_stage i (wire (command_value [''PING''])) 0) (ReceiveHandshake_RunPingStep P i)
    (at_stage i (wire (command_value [''REPLCONF'', ''listening-port'', ''6380''])) 1)"
  unfolding ReceiveHandshake_RunPingStep_def
  by (rule step_passes[OF commands_ok(1) _ after_pong]) (simp add: assertion_defs CommandAssertion_def OnlyCommandAssertion_def check_command_def command_value_def NewStringArrayValue_def)

lemma port_passes:
  "passes (at_stage i (wire (command_value [''REPLCONF'', ''listening-port'', ''6380''])) 1) (ReceiveHandshake_RunReplconfStep1 P i)
    (at_stage i (wire (command_value [''REPLCONF'', ''capa'', ''psync2''])) 2)"
  unfolding ReceiveHandshake_RunReplconfStep1_def
  by (rule step_passes[OF commands_ok(2) _ after_port]) (simp add: assertion_defs CommandAssertion_def OnlyCommandAssertion_def check_command_def command_value_def NewStringArrayValue_def)

lemma capa_passes:
  "passes (at_stage i (wire (command_value [''REPLCONF'', ''capa'', ''psync2''])) 2) (ReceiveHandshake_RunReplconfStep2 P i)
    (at_stage i (wire (command_value [''PSYNC'', ''?'', ''-1''])) 3)"
proof (rule passesI)
  let ?v = "command_value [''REPLCONF'', ''capa'', ''psync2'']"
  fix b assume b: "at_stage i (wire ?v) 2 b"
  have "snd (OnlyCommandAssertion ''REPLCONF'' ?v :: string report) = Pass"
    by (simp add: assertion_defs CommandAssertion_def OnlyCommandAssertion_def check_command_def command_value_def NewStringArrayValue_def)
  from received[where A = "OnlyCommandAssertion ''REPLCONF''", OF commands_ok(3) this after_capa b, of False] obtain b' where
    "ReceiveCommandTestCase P (OnlyCommandAssertion ''REPLCONF'') (NewSimpleStringValue ''OK'') False i b = ((Passed, b'), Some ?v)"
    "at_stage i (wire (command_value [''PSYNC'', ''?'', ''-1''])) 3 b'" .
  moreover have "check_capabilities (Array ?v) = Passed"
    by (simp add: check_capabilities_def command_value_def NewStringArrayValue_def)
  ultimately show "\<exists>b'. ReceiveHandshake_RunReplconfStep2 P i b = (Passed, b') \<and>
      at_stage i (wire (command_value [''PSYNC'', ''?'', ''-1''])) 3 b'"
    by (auto simp: ReceiveHandshake_RunReplconfStep2_def)
qed

lemma psync_passes:
  "passes (at_stage i (wire (command_value [''PSYNC'', ''?'', ''-1''])) 3) (ReceiveHandshake_RunPsyncStep P i) (at_stage i [] 4)"
  unfolding ReceiveHandshake_RunPsyncStep_def
  by (rule step_passes[OF commands_ok(4) _ after_psync]) (simp add: assertion_defs CommandAssertion_def OnlyCommandAssertion_def check_command_def command_value_def NewStringArrayValue_def)

lemma file_passes:
  assumes able
  shows "passes (at_stage i [] 4) (ReceiveHandshake_RunSendRDBStep P i) (at_stage i [] 5)"
proof (rule passesI)
  fix b assume "at_stage i [] 4 b"
  then obtain n where n: "hearing i [] n (stage i 4) b" "clientsSpawned b = i + 1" by (auto simp: at_stage_def)
  obtain contents where contents: "DecodeString tester_rdb_hex = Some contents" using tester_file by auto
  have "joined i (stage i 4) (Remote b)" using n(1) by (simp add: hearing_def)
  from sent_bytes[OF hearing_quiet[OF n(1)] this after_file[OF assms contents]] obtain b' where
    "client_send P i (Some (SendBytes (EncodeFullResyncRDBFile contents) (Clients b i))) b = (Passed, b')"
    "hearing i [] (SentBytesCount (Clients b i) + int (length (EncodeFullResyncRDBFile contents))) (stage i 5) b'"
    "clientsSpawned b' = clientsSpawned b" by metis
  with n(2) contents show "\<exists>b'. ReceiveHandshake_RunSendRDBStep P i b = (Passed, b') \<and> at_stage i [] 5 b'"
    by (auto simp: ReceiveHandshake_RunSendRDBStep_def at_stage_def)
qed

lemma handshake_passes:
  assumes able
  shows "passes (at_stage i (wire (command_value [''PING''])) 0) (ReceiveHandshake_RunAll P i) (at_stage i [] 5)"
  unfolding ReceiveHandshake_RunAll_def
  by (rule passes_Cons[OF ping_passes passes_Cons[OF port_passes passes_Cons[OF capa_passes passes_Cons[OF psync_passes
      passes_Cons[OF file_passes[OF assms] passes_Nil]]]]])

section \<open>The stages on the handshake\<close>

lemma as_master_passes:
  assumes able "\<And>i. passes (at_stage i (wire (command_value [''PING''])) 0) (k i) (R i)"
  shows "fst (as_master P k b) = Passed"
proof -
  let ?i = "clientsSpawned b"
  obtain w0 rs w1 where w: "Launch P [''--port'', ''6380'', ''--replicaof'', ''localhost 6379''] (Remote b) = Some w0"
    "Dialled P ?i w0 = Some (rs, w1)" "arriving P (wire (command_value [''PING''])) (rs ?i)" "joined ?i (stage ?i 0) w1"
    using dials[OF assms(1), of "Remote b" ?i] by blast
  let ?b = "(absorb (rs, w1) (with_client ?i new_client (b\<lparr>Remote := w0\<rparr>)))\<lparr>clientsSpawned := ?i + 1\<rparr>"
  have "inbox (rs ?i) (new_client\<lparr>net_in := net_in new_client @ rs ?i\<rparr>)" by (rule inbox_more) simp
  then have "at_stage ?i (wire (command_value [''PING''])) 0 ?b"
    using w(3,4) by (auto simp: at_stage_def hearing_def absorb_def with_client_def)
  moreover have "as_master P k b = k ?i ?b" using w(1,2) by (simp add: as_master_def run_program_def Let_def)
  ultimately show ?thesis using passes_Passed[OF assms(2)] by simp
qed

lemma handshake_stages:
  assumes able
  shows "fst (testReplReplicaSendsPing P b) = Passed" "fst (testReplReplicaSendsReplconf P b) = Passed"
    "fst (testReplReplicaSendsPsync P b) = Passed"
  unfolding testReplReplicaSendsPing_def testReplReplicaSendsReplconf_def testReplReplicaSendsPsync_def
  by (rule as_master_passes[OF assms ping_passes])
    (rule as_master_passes[OF assms passes_Cons[OF ping_passes passes_Cons[OF port_passes passes_Cons[OF capa_passes passes_Nil]]]],
     rule as_master_passes[OF assms passes_Cons[OF ping_passes passes_Cons[OF port_passes
       passes_Cons[OF capa_passes passes_Cons[OF psync_passes passes_Nil]]]]])

end

end
