(* ===== verification/Replica_Peer.thy ===== *)
theory Replica_Peer
  imports Server_Peer
begin

text \<open>
  The repository's server started with \<open>--replicaof\<close>, as the other side of the tester when that plays
  the master. \<open>main\<close> dials the master and goes through the handshake before it accepts anybody: it
  writes a command, waits for a line, and so on, then waits for a file. Until then the process is what
  it has heard so far; then it is what \<open>main\<close> makes of all of it. A client that connects during the
  handshake would wait; the model does not accept it.
\<close>

section \<open>The handshake in time\<close>

text \<open>The commands \<open>ConnectToMaster\<close>, \<open>HandleReplConfSlave\<close> and \<open>HandlePsyncSlave\<close> write, in this order.\<close>

definition handshake_texts :: "flags \<Rightarrow> string list" where
  "handshake_texts F =
     [resp_array [''PING''], resp_array [''REPLCONF'', ''listening-port'', itoa (flag_port F)],
      resp_array [''REPLCONF'', ''capa'', ''psync2''], resp_array [''PSYNC'', ''?'', ''-1'']]"

text \<open>How many of the next \<open>n\<close> lines have arrived, and what is behind them.\<close>

fun lines_arrived :: "nat \<Rightarrow> rd \<Rightarrow> nat \<times> rd" where
  "lines_arrived 0 r = (0, r)"
| "lines_arrived (Suc n) r =
     (case ReadString r of
        (_, None, r1) \<Rightarrow> (let (k, r2) = lines_arrived n r1 in (Suc k, r2))
      | _ \<Rightarrow> (0, r))"

text \<open>
  Whether everything has arrived that the handshake waits for: three replies, the answer to \<open>PSYNC\<close>, the
  length of the file and the file. A length that makes \<open>make\<close> panic ends the waiting too.
\<close>

definition file_arrived :: "rd \<Rightarrow> bool" where
  "file_arrived r =
     (case ReadString r of
        (lengthLine, None, r1) \<Rightarrow>
          (let len = fst (Atoi (TrimSpace (TrimPrefix lengthLine ''$'')))
           in len < 0 \<or> 2 ^ 48 < len \<or> (case ReadFull (nat len) r1 of (_, e, _) \<Rightarrow> e = None))
      | _ \<Rightarrow> False)"

definition handshake_over :: "rd \<Rightarrow> bool" where
  "handshake_over r = (let (k, r1) = lines_arrived 4 r in k = 4 \<and> file_arrived r1)"

record handshake =
  run_flags :: flags
  master_conn :: nat
  heard :: "string list"
  since :: int

definition heard_rd :: "handshake \<Rightarrow> rd" where
  "heard_rd h = \<lparr>rbuf = [], rsrc = map Chunk (heard h)\<rparr>"

definition told :: "handshake \<Rightarrow> string" where
  "told h = concat (take (Suc (fst (lines_arrived 3 (heard_rd h)))) (handshake_texts (run_flags h)))"

section \<open>The process\<close>

datatype replica_life = Joining handshake | Running process

text \<open>\<open>main\<close> once it can run through; its goroutine then serves what the master has sent behind the file.\<close>

definition joined_process :: "site \<Rightarrow> handshake \<Rightarrow> process" where
  "joined_process S h =
     (let mc = master_conn h;
          r = main (run_flags h) (osys S) mc ((\<lambda>_. idle_conn)(mc := idle_conn\<lparr>crd := heard_rd h\<rparr>)) (since h)
      in turn S mc id \<lparr>machine = final r, stuck = {}, accepted = Suc mc, crashed = (\<not> returns r)\<rparr>)"

definition replica_launch :: "site \<Rightarrow> string list \<Rightarrow> replica_life option" where
  "replica_launch S args =
     (case parse_flags args (default_flags (workdir S)) of
        None \<Rightarrow> None
      | Some F \<Rightarrow>
          if flag_replicaof F = ''master'' then map_option Running (launch S args)
          else if listens (osys S) \<and> dials (osys S) \<and> 2 \<le> length (Split (CHR '' '') (flag_replicaof F))
          then Some (Joining \<lparr>run_flags = F, master_conn = 0, heard = [], since = start_time S\<rparr>)
          else None)"

text \<open>Bytes from the master during the handshake.\<close>

definition hear :: "site \<Rightarrow> string \<Rightarrow> handshake \<Rightarrow> (nat \<Rightarrow> string list) \<times> replica_life option" where
  "hear S bs h =
     (let h1 = h\<lparr>heard := heard h @ [bs]\<rparr>; before = (\<lambda>e. if e = master_conn h then length (told h) else 0)
      in if handshake_over (heard_rd h1)
         then (\<lambda>e. segments S (drop (before e) (out e (machine (joined_process S h1)))), Some (Running (joined_process S h1)))
         else (\<lambda>e. segments S (if e = master_conn h then drop (length (told h)) (told h1) else []), Some (Joining h1)))"

definition running_reaction ::
  "site \<Rightarrow> (process \<Rightarrow> process) \<Rightarrow> process \<Rightarrow> (nat \<Rightarrow> string list) \<times> replica_life option"
where
  "running_reaction S f p = (new_reads S p (f p), Some (Running (f p)))"

definition replica_peer :: "site \<Rightarrow> replica_life option peer" where
  "replica_peer S =
     \<lparr>Launch = (\<lambda>args w. Some (replica_launch S args)),
      Dialled = (\<lambda>i w. case w of
        Some (Joining h) \<Rightarrow>
          Some (\<lambda>e. segments S (if e = i then told (h\<lparr>master_conn := i\<rparr>) else []), Some (Joining (h\<lparr>master_conn := i\<rparr>)))
        | _ \<Rightarrow> None),
      Accept = (\<lambda>i w. case w of Some (Running p) \<Rightarrow> map_option (Some \<circ> Running) (admit i p) | _ \<Rightarrow> None),
      Deliver = (\<lambda>i bs w. case w of
          None \<Rightarrow> (\<lambda>_. [], None)
        | Some (Joining h) \<Rightarrow> if i = master_conn h then hear S bs h else (\<lambda>_. [], w)
        | Some (Running p) \<Rightarrow> running_reaction S (\<lambda>p. wake S (turn S i (arrive i bs) p)) p),
      Elapse = (\<lambda>d w. case w of
          None \<Rightarrow> (\<lambda>_. [], None)
        | Some (Joining h) \<Rightarrow> (\<lambda>_. [], Some (Joining (h\<lparr>since := since h + d\<rparr>)))
        | Some (Running p) \<Rightarrow> running_reaction S (pass_time S d) p),
      Polls = polls S\<rparr>"

lemma replica_peer_fields [simp]:
  "Launch (replica_peer S) args w = Some (replica_launch S args)"
  "Dialled (replica_peer S) i (Some (Joining h))
    = Some (\<lambda>e. segments S (if e = i then told (h\<lparr>master_conn := i\<rparr>) else []), Some (Joining (h\<lparr>master_conn := i\<rparr>)))"
  "Accept (replica_peer S) i (Some (Running p)) = map_option (Some \<circ> Running) (admit i p)"
  "Deliver (replica_peer S) i bs (Some (Joining h)) = (if i = master_conn h then hear S bs h else (\<lambda>_. [], Some (Joining h)))"
  "Deliver (replica_peer S) i bs (Some (Running p)) = running_reaction S (\<lambda>p. wake S (turn S i (arrive i bs) p)) p"
  "Elapse (replica_peer S) d (Some (Running p)) = running_reaction S (pass_time S d) p"
  "Polls (replica_peer S) = polls S"
  by (simp_all add: replica_peer_def)

end
