(* ===== verification/Replica_Stages.thy ===== *)
theory Replica_Stages
  imports Master_Logic Replica_Peer Replication_Properties Basic_Stages
begin

text \<open>
  The stages in which the tester plays the master, against the repository's server as a replica: the
  handshake, the acknowledgement of offsets, and propagated commands that a client then reads back.
\<close>

section \<open>What has arrived\<close>

lemma read_text: "LF \<notin> set l \<Longrightarrow> ReadString \<lparr>rbuf = [], rsrc = Chunk (l @ crlf) # ds\<rparr> = (l @ crlf, None, \<lparr>rbuf = [], rsrc = ds\<rparr>)"
  using ReadString_in_chunk[of "\<lparr>rbuf = [], rsrc = Chunk (l @ crlf) # ds\<rparr>" "l @ [CR]" "[]" ds]
  by (simp add: in_chunk_def crlf_def)

lemma read_nothing: "ReadString \<lparr>rbuf = [], rsrc = []\<rparr> = ([], Some EOF, \<lparr>rbuf = [], rsrc = []\<rparr>)"
  by (simp add: ReadString_def)

definition texts_rd :: "string list \<Rightarrow> rd" where
  "texts_rd ls = \<lparr>rbuf = [], rsrc = map (\<lambda>l. Chunk (l @ crlf)) ls\<rparr>"

lemma lines_arrived_texts:
  "\<forall>l \<in> set ls. LF \<notin> set l \<Longrightarrow> lines_arrived n (texts_rd ls) = (min n (length ls), texts_rd (drop n ls))"
proof (induction n arbitrary: ls)
  case (Suc n)
  then show ?case by (cases ls) (simp_all add: texts_rd_def read_text read_nothing)
qed simp

section \<open>The handshake\<close>

definition replica_flags :: "site \<Rightarrow> flags" where
  "replica_flags S = (default_flags (workdir S))\<lparr>flag_port := 6380, flag_replicaof := ''localhost 6379''\<rparr>"

lemma replica_flags: "parse_flags [''--port'', ''6380'', ''--replicaof'', ''localhost 6379''] (default_flags (workdir S)) = Some (replica_flags S)"
proof -
  have "Atoi ''6380'' = (6380, None)" using Atoi_itoa[of 6380] by (simp add: itoa_def nat_digits.simps digit_def in_i64_def)
  then show ?thesis by (simp add: parse_flags_def set_flag_def default_flags_def replica_flags_def)
qed

definition replies :: "string list" where
  "replies = [''+PONG'', ''+OK'', ''+OK'', CHR ''+'' # fullresync_line]"

definition in_handshake :: "site \<Rightarrow> nat \<Rightarrow> nat \<Rightarrow> handshake" where
  "in_handshake S i k =
     \<lparr>run_flags = replica_flags S, master_conn = i, heard = map (\<lambda>l. l @ crlf) (take k replies), since = start_time S\<rparr>"

lemma replies_lines: "\<forall>l \<in> set (take k replies). LF \<notin> set l"
proof -
  have "\<forall>l \<in> set replies. LF \<notin> set l" by (simp add: replies_def)
  then show ?thesis using set_take_subset[of k replies] by blast
qed

lemma heard_in_handshake: "heard_rd (in_handshake S i k) = texts_rd (take k replies)"
  by (simp add: heard_rd_def in_handshake_def texts_rd_def comp_def)

lemma told_in_handshake: "k \<le> 4 \<Longrightarrow> told (in_handshake S i k) = concat (take (Suc (min 3 k)) (handshake_texts (replica_flags S)))"
  unfolding told_def heard_in_handshake lines_arrived_texts[OF replies_lines]
  by (simp add: in_handshake_def replies_def min_def)

lemma not_over: "k \<le> 4 \<Longrightarrow> \<not> handshake_over (heard_rd (in_handshake S i k))"
  unfolding handshake_over_def heard_in_handshake lines_arrived_texts[OF replies_lines]
  by (auto simp: file_arrived_def texts_rd_def read_nothing replies_def)

lemma in_handshake_next: "k < 4 \<Longrightarrow> (in_handshake S i k)\<lparr>heard := heard (in_handshake S i k) @ [replies ! k @ crlf]\<rparr> = in_handshake S i (Suc k)"
proof -
  assume "k < 4"
  then have "take (Suc k) replies = take k replies @ [replies ! k]" by (intro take_Suc_conv_app_nth) (simp add: replies_def)
  then show ?thesis by (simp add: in_handshake_def)
qed

lemma hear_reply:
  assumes "k < 4"
  shows "Deliver (replica_peer S) i (replies ! k @ crlf) (Some (Joining (in_handshake S i k)))
    = (\<lambda>e. segments S (if e = i \<and> k < 3 then handshake_texts (replica_flags S) ! Suc k else []),
       Some (Joining (in_handshake S i (Suc k))))"
proof -
  let ?T = "handshake_texts (replica_flags S)"
  have i: "master_conn (in_handshake S i k) = i" by (simp add: in_handshake_def)
  have "drop (length (concat (take (Suc (min 3 k)) ?T))) (concat (take (Suc (min 3 (Suc k))) ?T)) = (if k < 3 then ?T ! Suc k else [])"
  proof (cases "k < 3")
    case True
    then have "take (Suc (Suc k)) ?T = take (Suc k) ?T @ [?T ! Suc k]" by (intro take_Suc_conv_app_nth) (simp add: handshake_texts_def)
    moreover have "min 3 k = k" "min 3 (Suc k) = Suc k" using True by simp_all
    ultimately show ?thesis using True by simp
  qed (use assms in \<open>simp add: min_def\<close>)
  then have "drop (length (told (in_handshake S i k))) (told (in_handshake S i (Suc k))) = (if k < 3 then ?T ! Suc k else [])"
    using assms told_in_handshake[of k S i] told_in_handshake[of "Suc k" S i] by simp
  then show ?thesis
    using assms not_over[of "Suc k"] by (auto simp: hear_def i in_handshake_next Let_def)
qed

lemma handshake_wire:
  "handshake_texts (replica_flags S) ! 0 = wire (command_value [''PING''])"
  "handshake_texts (replica_flags S) ! Suc 0 = wire (command_value [''REPLCONF'', ''listening-port'', ''6380''])"
  "handshake_texts (replica_flags S) ! Suc (Suc 0) = wire (command_value [''REPLCONF'', ''capa'', ''psync2''])"
  "handshake_texts (replica_flags S) ! Suc (Suc (Suc 0)) = wire (command_value [''PSYNC'', ''?'', ''-1''])"
proof -
  have "itoa 6380 = ''6380''" by (simp add: itoa_def digit_def nat_digits.simps)
  then show
    "handshake_texts (replica_flags S) ! 0 = wire (command_value [''PING''])"
    "handshake_texts (replica_flags S) ! Suc 0 = wire (command_value [''REPLCONF'', ''listening-port'', ''6380''])"
    "handshake_texts (replica_flags S) ! Suc (Suc 0) = wire (command_value [''REPLCONF'', ''capa'', ''psync2''])"
    "handshake_texts (replica_flags S) ! Suc (Suc (Suc 0)) = wire (command_value [''PSYNC'', ''?'', ''-1''])"
    by (simp_all add: handshake_texts_def replica_flags_def wire_strings command_value_def)
qed

lemma replies_wire:
  "wire (NewSimpleStringValue ''PONG'') = replies ! 0 @ crlf" "wire (NewSimpleStringValue ''OK'') = replies ! 1 @ crlf"
  "wire (NewSimpleStringValue ''OK'') = replies ! 2 @ crlf" "wire (NewSimpleStringValue fullresync_line) = replies ! 3 @ crlf"
  by (simp_all add: replies_def)

section \<open>The end of the handshake\<close>

text \<open>The site of a replica: it can listen, its master answers, and there is no database file.\<close>

definition joining_site :: "site \<Rightarrow> bool" where
  "joining_site S \<longleftrightarrow> fresh_site S \<and> dials (osys S)"

definition after_file_heard :: "site \<Rightarrow> nat \<Rightarrow> string \<Rightarrow> handshake" where
  "after_file_heard S i contents = (in_handshake S i 4)\<lparr>heard := heard (in_handshake S i 4) @ [EncodeFullResyncRDBFile contents]\<rparr>"

lemma heard_after_file:
  "heard_rd (after_file_heard S i contents)
    = \<lparr>rbuf = [], rsrc = map (\<lambda>l. Chunk (l @ crlf)) replies @ [Chunk (EncodeFullResyncRDBFile contents)]\<rparr>"
  by (simp add: heard_rd_def after_file_heard_def in_handshake_def replies_def)

lemma read_replies:
  "ReadString \<lparr>rbuf = [], rsrc = Chunk (CHR ''+'' # CHR ''P'' # CHR ''O'' # CHR ''N'' # CHR ''G'' # crlf) # ds\<rparr> = (''+PONG'' @ crlf, None, \<lparr>rbuf = [], rsrc = ds\<rparr>)"
  "ReadString \<lparr>rbuf = [], rsrc = Chunk (CHR ''+'' # CHR ''O'' # CHR ''K'' # crlf) # ds\<rparr> = (''+OK'' @ crlf, None, \<lparr>rbuf = [], rsrc = ds\<rparr>)"
  using read_text[of "''+PONG''" ds] read_text[of "''+OK''" ds] by simp_all

lemma read_length:
  assumes "in_i64 (int (length contents))"
  shows "ReadString \<lparr>rbuf = [], rsrc = [Chunk (EncodeFullResyncRDBFile contents)]\<rparr>
      = (CHR ''$'' # itoa (int (length contents)) @ crlf, None, \<lparr>rbuf = contents, rsrc = []\<rparr>)"
    "fst (Atoi (TrimSpace (TrimPrefix (CHR ''$'' # itoa (int (length contents)) @ crlf) ''$''))) = int (length contents)"
    "ReadFull (length contents) \<lparr>rbuf = contents, rsrc = []\<rparr> = (contents, None, \<lparr>rbuf = [], rsrc = []\<rparr>)"
proof -
  let ?n = "itoa (int (length contents))"
  have "ReadString \<lparr>rbuf = [], rsrc = [Chunk (EncodeFullResyncRDBFile contents)]\<rparr>
      = ((CHR ''$'' # ?n @ [CR]) @ [LF], None, \<lparr>rbuf = contents, rsrc = []\<rparr>)"
    by (rule ReadString_in_chunk) (simp_all add: in_chunk_def EncodeFullResyncRDBFile_def crlf_def)
  then show "ReadString \<lparr>rbuf = [], rsrc = [Chunk (EncodeFullResyncRDBFile contents)]\<rparr>
      = (CHR ''$'' # ?n @ crlf, None, \<lparr>rbuf = contents, rsrc = []\<rparr>)" by (simp add: crlf_def)
  show "fst (Atoi (TrimSpace (TrimPrefix (CHR ''$'' # ?n @ crlf) ''$''))) = int (length contents)"
    using assms by (simp add: TrimPrefix_def HasPrefix_def Atoi_itoa)
  show "ReadFull (length contents) \<lparr>rbuf = contents, rsrc = []\<rparr> = (contents, None, \<lparr>rbuf = [], rsrc = []\<rparr>)"
    by (simp add: ReadFull_def)
qed

lemma over_after_file:
  assumes "in_i64 (int (length contents))"
  shows "handshake_over (heard_rd (after_file_heard S i contents))"
proof -
  have "lines_arrived 4 (heard_rd (after_file_heard S i contents)) = (4, \<lparr>rbuf = [], rsrc = [Chunk (EncodeFullResyncRDBFile contents)]\<rparr>)"
    using read_text[of "CHR ''+'' # fullresync_line"]
    by (simp add: heard_after_file replies_def eval_nat_numeral read_replies)
  then show ?thesis using read_length[OF assms] by (simp add: handshake_over_def file_arrived_def Let_def)
qed

lemma skip_replies:
  "skip_line \<lparr>rbuf = [], rsrc = Chunk (CHR ''+'' # CHR ''P'' # CHR ''O'' # CHR ''N'' # CHR ''G'' # crlf) # ds\<rparr> = \<lparr>rbuf = [], rsrc = ds\<rparr>"
  "skip_line \<lparr>rbuf = [], rsrc = Chunk (CHR ''+'' # CHR ''O'' # CHR ''K'' # crlf) # ds\<rparr> = \<lparr>rbuf = [], rsrc = ds\<rparr>"
  "LF \<notin> set l \<Longrightarrow> skip_line \<lparr>rbuf = [], rsrc = Chunk (l @ crlf) # ds\<rparr> = \<lparr>rbuf = [], rsrc = ds\<rparr>"
  by (simp_all add: skip_line_def read_replies read_text)

lemma write_open: "budget (cout (conns s c)) = None \<Longrightarrow> \<not> silent (conns s c) \<Longrightarrow>
  conn_write c d s = (s\<lparr>conns := (conns s)(c := (conns s c)\<lparr>cout := (cout (conns s c))\<lparr>written := written (cout (conns s c)) @ d\<rparr>\<rparr>)\<rparr>, True)"
  by (simp add: conn_write_def raw_write_def sink_write_def)

text \<open>The connection to the master after the handshake.\<close>

definition joined_conn :: "site \<Rightarrow> string \<Rightarrow> conn" where
  "joined_conn S user =
     \<lparr>crd = \<lparr>rbuf = [], rsrc = []\<rparr>, cout = \<lparr>written = concat (handshake_texts (replica_flags S)), budget = None\<rparr>,
      authUser = user, silent = True, act = Serving\<rparr>"

lemma handshake_literals:
  "resp_array [''PING''] = ''*1'' @ crlf @ ''$4'' @ crlf @ ''PING'' @ crlf"
  "resp_array [''REPLCONF'', ''capa'', ''psync2''] = ''*3'' @ crlf @ ''$8'' @ crlf @ ''REPLCONF'' @ crlf @ ''$4'' @ crlf @ ''capa'' @ crlf
      @ ''$6'' @ crlf @ ''psync2'' @ crlf"
  "resp_array [''PSYNC'', ''?'', ''-1''] = ''*3'' @ crlf @ ''$5'' @ crlf @ ''PSYNC'' @ crlf @ ''$1'' @ crlf @ ''?''
      @ crlf @ ''$2'' @ crlf @ ''-1'' @ crlf"
  "resp_array [''REPLCONF'', ''listening-port'', p] = ''*3'' @ crlf @ ''$8'' @ crlf @ ''REPLCONF'' @ crlf @ ''$14'' @ crlf @ ''listening-port'' @ crlf
      @ ''$'' @ itoa (int (length p)) @ crlf @ p @ crlf"
  by (simp_all add: resp_array_def array_header_def bulk_def itoa_def nat_digits.simps digit_def)

lemma ConnectToMaster_joins:
  assumes "conns s mc = idle_conn\<lparr>crd := heard_rd (after_file_heard S mc contents)\<rparr>" "length contents \<le> 2 ^ 48"
  shows "ConnectToMaster True mc (itoa (flag_port (replica_flags S))) s
    = Done (s\<lparr>conns := (conns s)(mc := joined_conn S []), ServerInfo := (ServerInfo s)(''repl_offset'' \<mapsto> IInt 0)\<rparr>)"
proof -
  have i: "in_i64 (int (length contents))" using assms(2) by (simp add: in_i64_def)
  have l: "LF \<notin> set (CHR ''+'' # fullresync_line)" by simp
  show ?thesis
    using assms read_length[OF i] skip_replies(3)[OF l]
    by (simp add: ConnectToMaster_def HandleReplConfSlave_def HandlePsyncSlave_def heard_after_file replies_def idle_conn_def
        write_open rd_of_def set_rd_def skip_replies set_silent_def handshake_literals handshake_texts_def joined_conn_def Let_def)
qed

lemma main_joins:
  assumes "joining_site S" "length contents \<le> 2 ^ 48"
  obtains t where
    "main (replica_flags S) (osys S) i ((\<lambda>_. idle_conn)(i := idle_conn\<lparr>crd := heard_rd (after_file_heard S i contents)\<rparr>)) (start_time S) = Done t"
    "conns t = (\<lambda>_. idle_conn)(i := joined_conn S ''default'')" "UserRegistry t = [''default'' \<mapsto> default_user]"
    "chans t = Map.empty" "timers t = []" "role_is ''slave'' t" "ServerInfo t ''repl_offset'' = Some (IInt 0)" "mem t = Map.empty"
proof -
  let ?F = "replica_flags S" and ?cs = "(\<lambda>_. idle_conn)(i := idle_conn\<lparr>crd := heard_rd (after_file_heard S i contents)\<rparr>)"
  have S: "listens (osys S)" "dials (osys S)" "open_rdb (osys S) = (\<lambda>_ _. None)"
    using assms(1) by (simp_all add: joining_site_def fresh_site_def)
  have F: "flag_replicaof ?F \<noteq> ''master''" "flag_appendonly ?F \<noteq> ''yes''"
    "Split (CHR '' '') (flag_replicaof ?F) = [''localhost'', ''6379'']"
    by (simp_all add: replica_flags_def default_flags_def)
  define s where "s = (store_flags ?F (empty_server ?cs (start_time S)))\<lparr>UserRegistry := [''default'' \<mapsto> default_user],
    ServerInfo := [''role'' \<mapsto> IStr ''slave'', ''masterHost'' \<mapsto> IStr ''localhost'', ''masterPort'' \<mapsto> IStr ''6379'']\<rparr>"
  define u where "u = s\<lparr>conns := (conns s)(i := joined_conn S []), ServerInfo := (ServerInfo s)(''repl_offset'' \<mapsto> IInt 0)\<rparr>"
  have c: "conns s i = idle_conn\<lparr>crd := heard_rd (after_file_heard S i contents)\<rparr>"
    by (simp add: s_def store_flags_def empty_server_def)
  have "start_role ?F (osys S) i ((store_flags ?F (empty_server ?cs (start_time S)))\<lparr>UserRegistry := [''default'' \<mapsto> default_user]\<rparr>)
      = start_session i u"
    using F S(2) ConnectToMaster_joins[OF c assms(2)]
    by (simp add: start_role_def s_def u_def store_flags_def empty_server_def joined_conn_def Let_def)
  also have "\<dots> = Done (set_act i Serving (set_auth i ''default'' u))"
    by (simp add: start_session_def u_def s_def default_user_def)
  finally have "main ?F (osys S) i ?cs (start_time S) = Done (set_act i Serving (set_auth i ''default'' u))"
    using F(2) S(1,3) by (simp add: main_def LoadRDB_def Let_def store_flags_def empty_server_def)
  then show thesis
    by (rule that)
      (simp_all add: u_def s_def store_flags_def empty_server_def set_act_def set_auth_def joined_conn_def mem_def)
qed

text \<open>
  A replica in step on connection \<open>d\<close>: it has applied \<open>off\<close> bytes, its store is \<open>m\<close>, and the other
  connections are as they should be.
\<close>

definition in_step :: "nat \<Rightarrow> int \<Rightarrow> (string \<rightharpoonup> string) \<Rightarrow> process \<Rightarrow> bool" where
  "in_step d off m p \<longleftrightarrow> \<not> crashed p \<and> stuck p = {} \<and> following d off (machine p) \<and>
     rd_of d (machine p) = \<lparr>rbuf = [], rsrc = []\<rparr> \<and> mem (machine p) = m \<and> chans (machine p) = Map.empty"

lemma joined_in_step:
  assumes "joining_site S" "length contents \<le> 2 ^ 48"
  obtains p where "joined_process S (after_file_heard S i contents) = p" "in_step i 0 Map.empty p"
    "conns (machine p) = (\<lambda>_. idle_conn)(i := joined_conn S ''default'')" "UserRegistry (machine p) = [''default'' \<mapsto> default_user]"
    "timers (machine p) = []"
proof -
  obtain t where t:
    "main (replica_flags S) (osys S) i ((\<lambda>_. idle_conn)(i := idle_conn\<lparr>crd := heard_rd (after_file_heard S i contents)\<rparr>)) (start_time S) = Done t"
    "conns t = (\<lambda>_. idle_conn)(i := joined_conn S ''default'')" "UserRegistry t = [''default'' \<mapsto> default_user]"
    "chans t = Map.empty" "timers t = []" "role_is ''slave'' t" "ServerInfo t ''repl_offset'' = Some (IInt 0)" "mem t = Map.empty"
    by (rule main_joins[OF assms])
  have f: "following i 0 t" "rd_of i t = \<lparr>rbuf = [], rsrc = []\<rparr>"
    using t(2,6,7) by (simp_all add: following_def input_ok_def rd_of_def joined_conn_def CheckAuth_def)
  then have "serve_loop (plat S) i t = Done (set_rd i \<lparr>rbuf = [], rsrc = []\<rparr> t)"
    by (intro serve_loop_eof) (simp_all add: following_def stream_of_def)
  also have "set_rd i \<lparr>rbuf = [], rsrc = []\<rparr> t = t" using f(2) set_rd_same[of i t] by simp
  finally have run: "serve_loop (plat S) i t = Done t" .
  have h: "master_conn (after_file_heard S i contents) = i" "run_flags (after_file_heard S i contents) = replica_flags S"
    "since (after_file_heard S i contents) = start_time S" by (simp_all add: after_file_heard_def in_handshake_def)
  have "joined_process S (after_file_heard S i contents) = \<lparr>machine = t, stuck = {}, accepted = Suc i, crashed = False\<rparr>"
    using t(1) run by (simp add: joined_process_def h turn_def)
  then show thesis by (rule that) (use t f in \<open>simp_all add: in_step_def\<close>)
qed

section \<open>The stream\<close>

definition follow_words :: "repl_cmd \<Rightarrow> int \<Rightarrow> string" where
  "follow_words c off = (case c of RGetAck \<Rightarrow> ack_response (itoa off) | _ \<Rightarrow> [])"

definition follow_mem :: "repl_cmd \<Rightarrow> (string \<rightharpoonup> string) \<Rightarrow> (string \<rightharpoonup> string)" where
  "follow_mem c m = (case c of RSet k v \<Rightarrow> m(k \<mapsto> v) | _ \<Rightarrow> m)"

definition follow_offset :: "repl_cmd \<Rightarrow> int \<Rightarrow> int" where
  "follow_offset c off = i64 (off + int (length (resp_array (repl_args c))))"

lemma follow_parts: "follow c (m, off, acks) = (follow_mem c m, follow_offset c off, acks @ follow_words c off)"
  by (cases c) (simp_all add: follow_words_def follow_mem_def follow_offset_def)

lemma in_step_command:
  assumes "in_step d off m p" "repl_cmd_ok c"
  obtains q where "Deliver (replica_peer S) d (resp_array (repl_args c)) (Some (Running p))
      = (\<lambda>e. segments S (if e = d then follow_words c off else []), Some (Running q))"
    "in_step d (follow_offset c off) (follow_mem c m) q" "beside d (machine p) (machine q)" "accepted q = accepted p"
proof -
  let ?s = "machine p"
  have p: "\<not> crashed p" "stuck p = {}" "following d off ?s" "rd_of d ?s = \<lparr>rbuf = [], rsrc = []\<rparr>" "mem ?s = m" "chans ?s = Map.empty"
    using assms(1) by (simp_all add: in_step_def)
  let ?u = "set_rd d \<lparr>rbuf = [], rsrc = [Chunk (resp_array (repl_args c))]\<rparr> ?s"
  have u: "following d off ?u" by (rule following_set_rd[OF p(3)]) (simp add: no_errors_def)
  have "stream_of d ?u = repl_wire [c]" "input_ok d ?u" by (simp_all add: stream_def no_errors_def)
  then have "at_stream d ?u [c]" by (intro at_stream_wire)
  then obtain t off' where t: "serve_loop (plat S) d ?u = Done t" "following d off' t" "rd_of d t = \<lparr>rbuf = [], rsrc = []\<rparr>" "beside d ?u t"
    "(mem t, off', out d t) = fold follow [c] (mem ?u, off, out d ?u)"
    using serve_follow_through[OF u, of "[c]" "plat S"] assms(2) by auto
  then have f: "mem t = follow_mem c m" "off' = follow_offset c off" "out d t = out d ?s @ follow_words c off"
    using p(5) by (simp_all add: follow_parts del: follow.simps)
  have b: "beside d ?s t" using beside_trans[OF beside_steps(2) t(4)] .
  let ?q = "p\<lparr>machine := t\<rparr>"
  have "chans t = Map.empty" using b p(6) by (simp add: beside_def)
  then have q: "in_step d (follow_offset c off) (follow_mem c m) ?q" using p(1,2) t(2,3) f by (simp add: in_step_def)
  have "turn S d (arrive d (resp_array (repl_args c))) p = ?q" using p t(1) by (simp add: turn_def arrive_def)
  moreover have "wake S ?q = ?q" using \<open>chans t = Map.empty\<close> by (intro wake_none) simp
  moreover have "out e t = out e ?s" if "e \<noteq> d" for e using b that by (simp add: beside_def out_def)
  ultimately have "Deliver (replica_peer S) d (resp_array (repl_args c)) (Some (Running p))
      = (\<lambda>e. segments S (if e = d then follow_words c off else []), Some (Running ?q))"
    using f(3) by (auto simp: running_reaction_def new_reads_def)
  then show thesis using q b by (intro that[of ?q]) simp_all
qed

section \<open>The replica joins\<close>

definition replica_reacts :: "site \<Rightarrow> nat \<Rightarrow> string \<Rightarrow> replica_life \<Rightarrow> string \<Rightarrow> replica_life \<Rightarrow> bool" where
  "replica_reacts S i bs s words t \<longleftrightarrow>
     (\<exists>rs. Deliver (replica_peer S) i bs (Some s) = (rs, Some t) \<and> rs i = segments S words)"

definition replica_stage :: "site \<Rightarrow> nat \<Rightarrow> nat \<Rightarrow> replica_life" where
  "replica_stage S i k =
     (if k < 5 then Joining (in_handshake S i k)
      else Running (joined_process S (after_file_heard S i (the (DecodeString tester_rdb_hex)))))"

lemma tester_file_size: "DecodeString tester_rdb_hex = Some contents \<Longrightarrow> length contents \<le> 2 ^ 48 \<and> in_i64 (int (length contents))"
  using DecodeString_length[of tester_rdb_hex contents] by (simp add: tester_rdb_hex_def in_i64_def)

lemma replica_file:
  assumes "joining_site S" "DecodeString tester_rdb_hex = Some contents"
  shows "replica_reacts S i (EncodeFullResyncRDBFile contents) (replica_stage S i 4) [] (replica_stage S i 5)"
proof -
  note size = tester_file_size[OF assms(2)]
  obtain p where p: "joined_process S (after_file_heard S i contents) = p" "in_step i 0 Map.empty p"
    "conns (machine p) = (\<lambda>_. idle_conn)(i := joined_conn S ''default'')" "UserRegistry (machine p) = [''default'' \<mapsto> default_user]"
    "timers (machine p) = []"
    by (rule joined_in_step[OF assms(1) conjunct1[OF size]])
  have h: "master_conn (in_handshake S i 4) = i" by (simp add: in_handshake_def)
  have "told (in_handshake S i 4) = concat (handshake_texts (replica_flags S))"
    using told_in_handshake[of 4 S i] by (simp add: handshake_texts_def eval_nat_numeral)
  moreover have "out i (machine p) = concat (handshake_texts (replica_flags S))" using p(3) by (simp add: out_def joined_conn_def)
  ultimately show ?thesis
    using over_after_file[OF conjunct2[OF size], of S i] p(1) assms(2) h
    by (simp add: replica_reacts_def replica_stage_def hear_def after_file_heard_def[symmetric] Let_def)
qed

lemma replica_dials:
  assumes "joining_site S"
  shows "\<exists>w0 rs w1. Launch (replica_peer S) [''--port'', ''6380'', ''--replicaof'', ''localhost 6379''] w = Some w0 \<and>
    Dialled (replica_peer S) i w0 = Some (rs, w1) \<and> rs i = segments S (wire (command_value [''PING''])) \<and>
    w1 = Some (replica_stage S i 0)"
proof -
  have S: "listens (osys S)" "dials (osys S)" using assms by (simp_all add: joining_site_def fresh_site_def)
  have F: "flag_replicaof (replica_flags S) \<noteq> ''master''" "2 \<le> length (Split (CHR '' '') (flag_replicaof (replica_flags S)))"
    by (simp_all add: replica_flags_def)
  then have w0: "replica_launch S [''--port'', ''6380'', ''--replicaof'', ''localhost 6379''] = Some (Joining (in_handshake S 0 0))"
    using S replica_flags[of S] by (simp add: replica_launch_def in_handshake_def)
  have h: "(in_handshake S 0 0)\<lparr>master_conn := i\<rparr> = in_handshake S i 0" by (simp add: in_handshake_def)
  have "told (in_handshake S i 0) = wire (command_value [''PING''])"
    using told_in_handshake[of 0 S i] handshake_wire(1)[of S] by (simp add: handshake_texts_def)
  with w0 show ?thesis by (simp add: h replica_stage_def)
qed

lemma replica_replies:
  assumes "k < 4"
  shows "replica_reacts S i (replies ! k @ crlf) (replica_stage S i k)
    (if k < 3 then handshake_texts (replica_flags S) ! Suc k else []) (replica_stage S i (Suc k))"
  using hear_reply[OF assms, of S i] assms by (simp add: replica_reacts_def replica_stage_def)

interpretation replica: joining "replica_peer S" "\<lambda>i s w. good_site S \<and> w = Some s" "replica_reacts S" "joining_site S" "replica_stage S" for S
proof
  fix i s w bs words t
  assume "good_site S \<and> w = Some s" "replica_reacts S i bs s words t"
  then obtain rs where S: "good_site S" "Deliver (replica_peer S) i bs w = (rs, Some t)" "rs i = segments S words"
    by (auto simp: replica_reacts_def)
  then have "arriving (replica_peer S) words (rs i)" by (simp add: arriving_def good_site_def)
  with S show "\<exists>rs w'. Deliver (replica_peer S) i bs w = (rs, w') \<and> arriving (replica_peer S) words (rs i) \<and> good_site S \<and> w' = Some t"
    by blast
next
  fix w i assume S: "joining_site S"
  then have g: "good_site S" by (simp add: joining_site_def fresh_site_def)
  obtain w0 rs w1 where w: "Launch (replica_peer S) [''--port'', ''6380'', ''--replicaof'', ''localhost 6379''] w = Some w0"
    "Dialled (replica_peer S) i w0 = Some (rs, w1)" "rs i = segments S (wire (command_value [''PING'']))" "w1 = Some (replica_stage S i 0)"
    using replica_dials[OF S, of w i] by blast
  have "arriving (replica_peer S) (wire (command_value [''PING''])) (rs i)" using g by (simp add: w(3) arriving_def good_site_def)
  with g w(1,2,4) show "\<exists>w0 rs w1. Launch (replica_peer S) [''--port'', ''6380'', ''--replicaof'', ''localhost 6379''] w = Some w0 \<and>
      Dialled (replica_peer S) i w0 = Some (rs, w1) \<and> arriving (replica_peer S) (wire (command_value [''PING''])) (rs i) \<and>
      good_site S \<and> w1 = Some (replica_stage S i 0)" by blast
next
  fix i
  show "replica_reacts S i (wire (NewSimpleStringValue ''PONG'')) (replica_stage S i 0)
      (wire (command_value [''REPLCONF'', ''listening-port'', ''6380''])) (replica_stage S i 1)"
    using replica_replies[of 0 S i] by (simp only: replies_wire(1) handshake_wire) simp
  show "replica_reacts S i (wire (NewSimpleStringValue ''OK'')) (replica_stage S i 1)
      (wire (command_value [''REPLCONF'', ''capa'', ''psync2''])) (replica_stage S i 2)"
    using replica_replies[of 1 S i] by (simp add: replies_wire(2) handshake_wire numeral_2_eq_2 del: wire_constructors)
  show "replica_reacts S i (wire (NewSimpleStringValue ''OK'')) (replica_stage S i 2)
      (wire (command_value [''PSYNC'', ''?'', ''-1''])) (replica_stage S i 3)"
    using replica_replies[of 2 S i] by (simp add: replies_wire(3) handshake_wire numeral_2_eq_2 numeral_3_eq_3 del: wire_constructors)
  show "replica_reacts S i (wire (NewSimpleStringValue fullresync_line)) (replica_stage S i 3) [] (replica_stage S i 4)"
    using replica_replies[of 3 S i] by (simp add: replies_wire(4) del: wire_constructors)
qed (rule replica_file)

section \<open>A replica in step\<close>

text \<open>
  The tester has a replica on connection \<open>i\<close>, its only one, that has applied \<open>off\<close> bytes and stores
  \<open>m\<close>; it has counted \<open>n\<close> bytes sent. No client has connected yet.
\<close>

definition unvisited :: "nat \<Rightarrow> process \<Rightarrow> bool" where
  "unvisited i p \<longleftrightarrow> UserRegistry (machine p) = [''default'' \<mapsto> default_user] \<and> timers (machine p) = [] \<and>
     (\<forall>e. e \<noteq> i \<longrightarrow> conns (machine p) e = idle_conn)"

definition synced :: "site \<Rightarrow> nat \<Rightarrow> int \<Rightarrow> (string \<rightharpoonup> string) \<Rightarrow> int \<Rightarrow> replica_life option bench \<Rightarrow> bool" where
  "synced S i off m n b \<longleftrightarrow>
     (\<exists>p. in_step i off m p \<and> unvisited i p \<and> replica.hearing S i [] n (Running p) b) \<and> clientsSpawned b = i + 1"

lemma joined_synced:
  assumes "joining_site S" "replica.at_stage S i [] 5 b"
  obtains n where "synced S i 0 Map.empty n b"
proof -
  obtain n where n: "replica.hearing S i [] n (replica_stage S i 5) b" "clientsSpawned b = i + 1"
    using assms(2) by (auto simp: replica.at_stage_def)
  obtain contents where c: "DecodeString tester_rdb_hex = Some contents" using tester_file by auto
  obtain p where p: "joined_process S (after_file_heard S i contents) = p" "in_step i 0 Map.empty p"
    "conns (machine p) = (\<lambda>_. idle_conn)(i := joined_conn S ''default'')" "UserRegistry (machine p) = [''default'' \<mapsto> default_user]"
    "timers (machine p) = []"
    by (rule joined_in_step[OF assms(1) conjunct1[OF tester_file_size[OF c]]])
  have "replica_stage S i 5 = Running p" using p(1) c by (simp add: replica_stage_def)
  then show thesis using n p(2-5) by (intro that[of n]) (auto simp: synced_def unvisited_def)
qed

lemma command_reacts:
  assumes "in_step d off m p" "repl_cmd_ok c" "unvisited d p"
  obtains q where "replica_reacts S d (resp_array (repl_args c)) (Running p) (follow_words c off) (Running q)"
    "in_step d (follow_offset c off) (follow_mem c m) q" "unvisited d q"
proof -
  obtain q where q: "Deliver (replica_peer S) d (resp_array (repl_args c)) (Some (Running p))
      = (\<lambda>e. segments S (if e = d then follow_words c off else []), Some (Running q))"
    "in_step d (follow_offset c off) (follow_mem c m) q" "beside d (machine p) (machine q)" "accepted q = accepted p"
    by (rule in_step_command[OF assms(1,2)])
  moreover have "unvisited d q" using q(3) assms(3) by (simp add: unvisited_def beside_def)
  ultimately show thesis by (intro that[of q]) (simp_all add: replica_reacts_def)
qed

lemma master_sends:
  assumes "repl_args c = cmd # args" "repl_cmd_ok c" "follow_words c off = []"
  shows "passes (synced S i off m n) (send_as_master (replica_peer S) cmd args i)
    (synced S i (follow_offset c off) (follow_mem c m) (n + int (length (resp_array (repl_args c)))))"
proof (rule passesI)
  fix b assume "synced S i off m n b"
  then obtain p where p: "in_step i off m p" "unvisited i p" "replica.hearing S i [] n (Running p) b" "clientsSpawned b = i + 1"
    by (auto simp: synced_def)
  obtain q where q: "replica_reacts S i (resp_array (repl_args c)) (Running p) (follow_words c off) (Running q)"
    "in_step i (follow_offset c off) (follow_mem c m) q" "unvisited i q" by (rule command_reacts[OF p(1) assms(2) p(2)])
  obtain b' where "send_as_master (replica_peer S) cmd args i b = (Passed, b')"
    "replica.hearing S i [] (n + int (length (resp_array (cmd # args)))) (Running q) b'" "clientsSpawned b' = clientsSpawned b"
    by (rule replica.send_step[OF p(3) q(1)[unfolded assms(1,3)]])
  then show "\<exists>b'. send_as_master (replica_peer S) cmd args i b = (Passed, b') \<and>
      synced S i (follow_offset c off) (follow_mem c m) (n + int (length (resp_array (repl_args c)))) b'"
    using p(4) q(2,3) by (auto simp: synced_def assms(1))
qed

lemma ack_words: "ack_response x = wire (command_value [''REPLCONF'', ''ACK'', x])"
  by (simp add: command_value_def wire_strings ack_response_def resp_array_def array_header_def bulk_def itoa_def nat_digits.simps digit_def)

lemma itoa_size: "in_i64 n \<Longrightarrow> length (itoa n) \<le> 20"
  using nat_digits_length[of "nat n" 18] nat_digits_length[of "nat (- n)" 18] by (auto simp: itoa_def in_i64_def nat_less_iff)

lemma ack_verdict: "snd (CommandAssertion ''REPLCONF'' [''ACK'', x] (command_value [''REPLCONF'', ''ACK'', x]) :: string report) = Pass"
  by (simp add: assertion_defs CommandAssertion_def check_command_def command_value_def NewStringArrayValue_def)

lemma ack_step:
  assumes "in_i64 off"
  shows "passes (synced S i off m n) (GetAckTestCase (replica_peer S) off i) (synced S i (i64 (off + 37)) m (n + 37))"
proof (rule passesI)
  let ?c = RGetAck
  have ok: "repl_cmd_ok ?c" by simp
  fix b assume "synced S i off m n b"
  then obtain p where p: "in_step i off m p" "unvisited i p" "replica.hearing S i [] n (Running p) b" "clientsSpawned b = i + 1"
    by (auto simp: synced_def)
  obtain q where q: "replica_reacts S i (resp_array (repl_args ?c)) (Running p) (follow_words ?c off) (Running q)"
    "in_step i (follow_offset ?c off) (follow_mem ?c m) q" "unvisited i q" by (rule command_reacts[OF p(1) ok p(2)])
  have size: "length (resp_array [''REPLCONF'', ''GETACK'', ''*'']) = 37"
    by (simp add: resp_array_def array_header_def bulk_def itoa_def nat_digits.simps)
  have w: "ToUpper ''REPLCONF'' = ''REPLCONF''" by simp
  let ?v = "command_value [''REPLCONF'', ''ACK'', itoa off]"
  have "wire_ok ?v" using itoa_size[OF assms] by (simp add: command_value_def NewStringArrayValue_def value_constructors in_i64_def)
  moreover have "replica_reacts S i (resp_array (ToUpper ''REPLCONF'' # [''GETACK'', ''*''])) (Running p) (wire ?v) (Running q)"
    using q(1) by (simp only: w repl_args.simps follow_words_def ack_words repl_cmd.case)
  ultimately obtain b' where "send_case (replica_peer S) ''REPLCONF'' [''GETACK'', ''*''] (CommandAssertion ''REPLCONF'' [''ACK'', itoa off]) i b = (Passed, b')"
    "replica.hearing S i [] (n + int (length (resp_array (ToUpper ''REPLCONF'' # [''GETACK'', ''*''])))) (Running q) b'"
    "clientsSpawned b' = clientsSpawned b"
    using replica.ask_step[where A = "CommandAssertion ''REPLCONF'' [''ACK'', itoa off]", OF p(3) _ _ ack_verdict] by blast
  then show "\<exists>b'. GetAckTestCase (replica_peer S) off i b = (Passed, b') \<and> synced S i (i64 (off + 37)) m (n + 37) b'"
    using p(4) q(2,3) size w
    by (auto simp: GetAckTestCase_def synced_def follow_offset_def follow_mem_def simp del: ToUpper.simps)
qed

section \<open>The stages on offsets\<close>

lemma handshake_synced:
  assumes "joining_site S" "\<And>i n. passes (synced S i 0 Map.empty n) (k i) (R i n)"
  shows "fst (as_master (replica_peer S) (\<lambda>i s. proceed (ReceiveHandshake_RunAll (replica_peer S) i s) (k i)) b) = Passed"
proof (rule replica.as_master_passes[OF assms(1)])
  fix i
  have "passes (replica.at_stage S i [] 5) (k i) (\<lambda>_. True)"
  proof (rule passesI)
    fix b assume "replica.at_stage S i [] 5 b"
    then obtain n where "synced S i 0 Map.empty n b" by (rule joined_synced[OF assms(1)])
    then show "\<exists>b'. k i b = (Passed, b') \<and> True" using passesD[OF assms(2)] by blast
  qed
  from passes_proceed[OF replica.handshake_passes[OF assms(1)] this]
  show "passes (replica.at_stage S i (wire (command_value [''PING''])) 0)
      (\<lambda>s. proceed (ReceiveHandshake_RunAll (replica_peer S) i s) (k i)) (\<lambda>_. True)" .
qed

lemma run_all_Cons: "run_all (t # ts) = (\<lambda>s. proceed (t s) (run_all ts))"
  by (rule ext) simp

lemma ack_zero_stage: "joining_site S \<Longrightarrow> fst (testReplGetaAckZero (replica_peer S) b) = Passed"
proof -
  assume S: "joining_site S"
  have "in_i64 0" by (simp add: in_i64_def)
  from handshake_synced[OF S passes_Cons[OF ack_step[OF this] passes_Nil]] show ?thesis
    by (simp only: testReplGetaAckZero_def run_all_Cons)
qed

text \<open>Once the counters are reset, the tester counts what the replica counts.\<close>

lemma reset_passes:
  "passes (synced S i off m n) (\<lambda>b. (Passed, with_client i (ResetByteCounters (Clients b i)) b)) (synced S i off m 0)"
  unfolding passes_skip using replica.reset_step by (fastforce simp: synced_def with_client_def)

lemma ack_now:
  assumes "0 \<le> off" "off + 37 \<le> max_int64"
  shows "passes (synced S i off m off) (get_ack_now (replica_peer S) i) (synced S i (off + 37) m (off + 37))"
proof (rule passesI)
  fix b assume b: "synced S i off m off b"
  then have "SentBytesCount (Clients b i) = off" by (auto simp: synced_def replica.hearing_def)
  moreover have "i64 (off + 37) = off + 37" using assms by (simp add: i64_id in_i64_def)
  ultimately show "\<exists>b'. get_ack_now (replica_peer S) i b = (Passed, b') \<and> synced S i (off + 37) m (off + 37) b'"
    using passesD[OF ack_step b] assms by (simp add: get_ack_now_def in_i64_def)
qed

lemma send_now:
  assumes "repl_args c = cmd # args" "repl_cmd_ok c" "follow_words c off = []" "0 \<le> off"
    "l = int (length (resp_array (repl_args c)))" "off + l \<le> max_int64"
  shows "passes (synced S i off m off) (send_as_master (replica_peer S) cmd args i) (synced S i (off + l) (follow_mem c m) (off + l))"
proof -
  have "follow_offset c off = off + l" using assms(4-6) by (simp add: follow_offset_def i64_id in_i64_def)
  with master_sends[OF assms(1-3), of S i m off] assms(5) show ?thesis by simp
qed

lemma stream_sizes:
  "int (length (resp_array (repl_args RPing))) = 14" "int (length (resp_array (repl_args RGetAck))) = 37"
  by (simp_all add: resp_array_def array_header_def bulk_def itoa_def nat_digits.simps)

lemma bulk_size: "length x \<le> 1000000 \<Longrightarrow> length (bulk x) \<le> 1000012"
  using nat_digits_length[of "length x" 6] by (simp add: bulk_def itoa_def crlf_def)

lemma set_size: "length k \<le> 1000000 \<Longrightarrow> length v \<le> 1000000 \<Longrightarrow> int (length (resp_array (repl_args (RSet k v)))) \<le> 3000000"
  using bulk_size[of k] bulk_size[of v]
  by (simp add: resp_array_def array_header_def bulk_def[of "''SET''"] itoa_def nat_digits.simps crlf_def)

text \<open>
  Words the tester can pick as keys and values of commands that are counted: of at most a million bytes.
\<close>

lemma ack_counting_stage:
  assumes "joining_site S" "\<forall>x \<in> {k1, v1, k2, v2}. arg_ok x \<and> length x \<le> 1000000"
  shows "fst (testReplGetaAckNonZero (replica_peer S) k1 v1 k2 v2 b) = Passed"
proof -
  let ?l1 = "int (length (resp_array (repl_args (RSet k1 v1))))" and ?l2 = "int (length (resp_array (repl_args (RSet k2 v2))))"
  have l: "0 \<le> ?l1" "?l1 \<le> 3000000" "0 \<le> ?l2" "?l2 \<le> 3000000" using assms(2) set_size[of k1 v1] set_size[of k2 v2] by simp_all
  let ?m1 = "follow_mem (RSet k1 v1) Map.empty"
  have 1: "passes (synced S i 0 Map.empty 0) (get_ack_now (replica_peer S) i) (synced S i 37 Map.empty 37)" for i
    using ack_now[of 0 S i Map.empty] by simp
  have 2: "passes (synced S i 37 Map.empty 37) (send_as_master (replica_peer S) ''PING'' [] i) (synced S i 51 Map.empty 51)" for i
    using send_now[of RPing "''PING''" "[]" 37 14 S i Map.empty] stream_sizes(1) by (simp add: follow_words_def follow_mem_def)
  have 3: "passes (synced S i 51 Map.empty 51) (get_ack_now (replica_peer S) i) (synced S i 88 Map.empty 88)" for i
    using ack_now[of 51 S i Map.empty] by simp
  have 4: "passes (synced S i 88 Map.empty 88) (send_as_master (replica_peer S) ''SET'' [k1, v1] i) (synced S i (88 + ?l1) ?m1 (88 + ?l1))" for i
    using assms(2) l by (intro send_now) (simp_all add: follow_words_def)
  have 5: "passes (synced S i (88 + ?l1) ?m1 (88 + ?l1)) (send_as_master (replica_peer S) ''SET'' [k2, v2] i)
      (synced S i (88 + ?l1 + ?l2) (follow_mem (RSet k2 v2) ?m1) (88 + ?l1 + ?l2))" for i
    using assms(2) l by (intro send_now) (simp_all add: follow_words_def)
  have 6: "passes (synced S i (88 + ?l1 + ?l2) m (88 + ?l1 + ?l2)) (get_ack_now (replica_peer S) i)
      (synced S i (88 + ?l1 + ?l2 + 37) m (88 + ?l1 + ?l2 + 37))" for i m
    using l by (intro ack_now) simp_all
  from handshake_synced[OF assms(1) passes_Cons[OF reset_passes passes_Cons[OF 1 passes_Cons[OF 2 passes_Cons[OF 3
      passes_Cons[OF 4 passes_Cons[OF 5 passes_Cons[OF 6 passes_Nil]]]]]]]] show ?thesis
    by (simp only: testReplGetaAckNonZero_def run_all_Cons)
qed

section \<open>A client of the replica\<close>

text \<open>Client \<open>j\<close> is logged in and its goroutine waits for a command; nobody waits for anything else.\<close>

definition visitor :: "nat \<Rightarrow> nat \<Rightarrow> process \<Rightarrow> bool" where
  "visitor i j p \<longleftrightarrow> i \<noteq> j \<and> at_prompt j (machine p) \<and> rd_of j (machine p) = \<lparr>rbuf = [], rsrc = []\<rparr> \<and>
     authed j (machine p) \<and> timers (machine p) = [] \<and> (\<forall>e. act (conns (machine p) e) = Serving)"

lemma admit_visitor:
  assumes "in_step i off m p" "unvisited i p" "i \<noteq> j"
  obtains q where "admit j p = Some q" "in_step i off m q" "visitor i j q"
proof -
  let ?q = "p\<lparr>machine := opened j (machine p), accepted := max (accepted p) (Suc j)\<rparr>"
  have u: "UserRegistry (machine p) = [''default'' \<mapsto> default_user]" "timers (machine p) = []" "\<forall>e. e \<noteq> i \<longrightarrow> conns (machine p) e = idle_conn"
    using assms(2) by (simp_all add: unvisited_def)
  have f: "following i off (machine p)" "\<not> crashed p" using assms(1) by (simp_all add: in_step_def)
  have "admit j p = Some ?q" using admit_opened[OF f(2), of j] u(1) by simp
  moreover have "in_step i off m ?q" using assms(1,3) by (simp add: in_step_def following_def input_ok_def rd_of_def)
  moreover have "visitor i j ?q"
    using u f(1) assms(3) by (auto simp: visitor_def at_prompt_def input_ok_def healthy_def rd_of_def no_errors_def CheckAuth_def
        default_user_def following_def idle_conn_def)
  ultimately show thesis by (rule that)
qed

text \<open>Everything the tester's bench knows once a client has connected.\<close>

definition visited :: "site \<Rightarrow> nat \<Rightarrow> nat \<Rightarrow> (string \<rightharpoonup> string) \<Rightarrow> replica_life option bench \<Rightarrow> bool" where
  "visited S i j m b \<longleftrightarrow>
     (\<exists>p off n. in_step i off m p \<and> visitor i j p \<and> replica.hearing S i [] n (Running p) b) \<and> quiet (Clients b j)"

lemma client_visits:
  assumes "synced S i off m n b" "\<And>j. passes (visited S i j m) (k j) R"
  shows "\<exists>b'. one_client (replica_peer S) k b = (Passed, b') \<and> R b'"
proof -
  let ?j = "i + 1"
  have ne: "i \<noteq> ?j" by simp
  obtain p where p: "in_step i off m p" "unvisited i p" "replica.hearing S i [] n (Running p) b" "clientsSpawned b = ?j"
    using assms(1) by (auto simp: synced_def)
  obtain q where q: "admit ?j p = Some q" "in_step i off m q" "visitor i ?j q" by (rule admit_visitor[OF p(1,2) ne])
  let ?b = "(with_client ?j new_client b)\<lparr>clientsSpawned := ?j + 1, Remote := Some (Running q)\<rparr>"
  have "Remote b = Some (Running p)" using p(3) by (simp add: replica.hearing_def)
  then have "one_client (replica_peer S) k b = k ?j ?b"
    using p(4) q(1) by (simp add: one_client_def spawnClient_def)
  moreover have "replica.hearing S i [] n (Running q) ?b"
    using p(3) unfolding replica.hearing_def by (simp add: with_client_def)
  then have "visited S i ?j m ?b" using q(2,3) by (auto simp: visited_def with_client_def)
  ultimately show ?thesis using passesD[OF assms(2), of ?j ?b] by simp
qed

lemma visited_set:
  assumes "arg_ok k" "arg_ok v"
  shows "passes (visited S i j m) (send_as_master (replica_peer S) ''SET'' [k, v] i) (visited S i j (m(k \<mapsto> v)))"
proof (rule passesI)
  let ?c = "RSet k v"
  fix b assume "visited S i j m b"
  then obtain p off n where p: "in_step i off m p" "visitor i j p" "replica.hearing S i [] n (Running p) b" "quiet (Clients b j)"
    by (auto simp: visited_def)
  have ok: "repl_cmd_ok ?c" using assms by simp
  obtain q where q: "Deliver (replica_peer S) i (resp_array (repl_args ?c)) (Some (Running p))
      = (\<lambda>e. segments S (if e = i then follow_words ?c off else []), Some (Running q))"
    "in_step i (follow_offset ?c off) (follow_mem ?c m) q" "beside i (machine p) (machine q)" "accepted q = accepted p"
    by (rule in_step_command[OF p(1) ok])
  have r: "replica_reacts S i (resp_array [''SET'', k, v]) (Running p) [] (Running q)"
    using q(1) by (simp add: replica_reacts_def follow_words_def)
  have R: "Remote b = Some (Running p)" "good_site S" using p(3) by (simp_all add: replica.hearing_def)
  obtain b' where b': "send_as_master (replica_peer S) ''SET'' [k, v] i b = (Passed, b')"
    "replica.hearing S i [] (n + int (length (resp_array [''SET'', k, v]))) (Running q) b'"
    "spread i (Deliver (replica_peer S) i (resp_array [''SET'', k, v]) (Remote b)) b b'"
    by (rule replica.send_step[OF p(3) r])
  have "i \<noteq> j" using p(2) by (simp add: visitor_def)
  then have "Clients b' j = Clients b j" using b'(3) q(1) R(1) quiet_reads[OF R(2)] by (simp add: spread_def follow_words_def)
  moreover have "visitor i j q" using p(2) q(2,3)
    by (auto simp: visitor_def beside_def at_prompt_def input_ok_def healthy_def rd_of_def in_step_def following_def)
  ultimately show "\<exists>b'. send_as_master (replica_peer S) ''SET'' [k, v] i b = (Passed, b') \<and> visited S i j (m(k \<mapsto> v)) b'"
    using b'(1,2) p(4) q(2) by (auto simp: visited_def follow_mem_def)
qed

section \<open>Reading the store back\<close>

definition runs :: "site \<Rightarrow> nat \<Rightarrow> process \<Rightarrow> replica_life option \<Rightarrow> bool" where
  "runs S j p w \<longleftrightarrow> good_site S \<and> w = Some (Running p)"

definition run_answers :: "site \<Rightarrow> nat \<Rightarrow> string list \<Rightarrow> process \<Rightarrow> Value \<Rightarrow> process \<Rightarrow> bool" where
  "run_answers S j req p v q \<longleftrightarrow> replica_reacts S j (resp_array req) (Running p) (wire v) (Running q)"

interpretation visit: answering "replica_peer S" "runs S" "run_answers S" for S
proof
  fix j p w req v q
  assume "runs S j p w" "run_answers S j req p v q"
  then obtain rs where S: "good_site S" "Deliver (replica_peer S) j (resp_array req) w = (rs, Some (Running q))" "rs j = segments S (wire v)"
    by (auto simp: runs_def run_answers_def replica_reacts_def)
  then show "\<exists>rs w'. Deliver (replica_peer S) j (resp_array req) w = (rs, w') \<and> concat (rs j) = wire v \<and> [] \<notin> set (rs j) \<and>
      length (rs j) \<le> Polls (replica_peer S) \<and> runs S j q w'"
    by (simp add: good_site_def runs_def)
qed

definition reading :: "site \<Rightarrow> nat \<Rightarrow> nat \<Rightarrow> (string \<rightharpoonup> string) \<Rightarrow> replica_life option bench \<Rightarrow> bool" where
  "reading S i j m b \<longleftrightarrow> (\<exists>p off. in_step i off m p \<and> visitor i j p \<and> attended (runs S) j p b)"

lemma waits_a_little:
  "passes (visited S i j m) (\<lambda>b. (Passed, sleep (replica_peer S) d b)) (reading S i j m)"
  unfolding passes_skip
proof (intro allI impI)
  fix b assume "visited S i j m b"
  then obtain p off n where p: "in_step i off m p" "visitor i j p" "replica.hearing S i [] n (Running p) b" "quiet (Clients b j)"
    by (auto simp: visited_def)
  have R: "Remote b = Some (Running p)" "good_site S" using p(3) by (simp_all add: replica.hearing_def)
  let ?q = "p\<lparr>machine := tick d (machine p)\<rparr>"
  have v: "timers (machine p) = []" "\<forall>e. act (conns (machine p) e) = Serving" "\<not> crashed p"
    using p(1,2) by (simp_all add: visitor_def in_step_def)
  then have "\<not> due c (machine ?q)" for c by (simp add: due_def tick_def)
  then have "fold (\<lambda>c p. if due c (machine p) then turn S c (wait_expire c \<circ> blpop_leave c \<circ> blpop_expire c) p else p) cs ?q = ?q" for cs
    by (induction cs) simp_all
  then have "pass_time S d p = ?q" using v by (simp add: pass_time_def tick_def Let_def)
  then have "sleep (replica_peer S) d b = b\<lparr>Remote := Some (Running ?q)\<rparr>"
    using R(1) quiet_reads[OF R(2)] by (simp add: sleep_def absorb_def running_reaction_def new_reads_def tick_def out_def)
  moreover have "in_step i off m ?q" "visitor i j ?q"
    using p(1,2) by (simp_all add: in_step_def visitor_def following_def at_prompt_def input_ok_def healthy_def rd_of_def tick_def mem_def)
  ultimately show "reading S i j m (sleep (replica_peer S) d b)"
    using p(4) R(2) by (auto simp: reading_def attended_def runs_def)
qed

lemma serve_GET:
  assumes "at_prompt j s" "rd_of j s = \<lparr>rbuf = [], rsrc = []\<rparr>" "authed j s" "arg_ok k" "mem s k = Some v"
  shows "serve_loop P j (received j [''GET'', k] s) = Done (reply j (bulk v) s)"
proof -
  let ?r = "\<lparr>rbuf = [], rsrc = []\<rparr>"
  have "HandleGet j (set_rd j \<lparr>rbuf = bulk k, rsrc = []\<rparr> s) = Done (reply j (bulk v) (set_rd j ?r s))"
    using assms(3-5) field_in_chunk[OF assms(4), of "[]" "[]"] by (simp add: HandleGet_def)
  moreover have "at_prompt j (received j [''GET'', k] s)" "in_chunk (rd_of j (received j [''GET'', k] s)) (resp_array [''GET'', k]) []"
    using assms(1) by (simp_all add: at_prompt_def received_def in_chunk_def no_errors_def)
  from serve_command_chunk[OF this command_words(2,8), of P]
  have "serve_loop P j (received j [''GET'', k] s) = and_then (dispatch P ''GET'' j (set_rd j \<lparr>rbuf = bulk k, rsrc = []\<rparr> s)) (serve_loop P j)"
    by simp
  ultimately have "serve_loop P j (received j [''GET'', k] s) = serve_loop P j (reply j (bulk v) (set_rd j ?r s))"
    by (simp add: dispatch_words)
  also have "\<dots> = Done (set_rd j ?r (reply j (bulk v) s))" by (rule serve_done_reply[OF assms(1)]) simp_all
  also have "set_rd j ?r (reply j (bulk v) s) = reply j (bulk v) s"
    using assms(2) set_rd_same[of j "reply j (bulk v) s"] by simp
  finally show ?thesis .
qed

lemma visitor_GET:
  assumes "in_step i off m p" "visitor i j p" "arg_ok k" "m k = Some v"
  obtains q where "run_answers S j [''GET'', k] p (NewBulkStringValue v) q" "in_step i off m q" "visitor i j q"
proof -
  let ?s = "machine p" and ?q = "p\<lparr>machine := reply j (bulk v) (machine p)\<rparr>"
  have p: "\<not> crashed p" "stuck p = {}" "mem ?s = m" "chans ?s = Map.empty" using assms(1) by (simp_all add: in_step_def)
  have v: "at_prompt j ?s" "rd_of j ?s = \<lparr>rbuf = [], rsrc = []\<rparr>" "authed j ?s" "i \<noteq> j" using assms(2) by (simp_all add: visitor_def)
  have "arrive j (resp_array [''GET'', k]) ?s = received j [''GET'', k] ?s" using v(2) by (simp add: arrive_def received_def)
  then have "turn S j (arrive j (resp_array [''GET'', k])) p = ?q"
    using serve_GET[OF v(1-3) assms(3), of v "plat S"] assms(4) p by (simp add: turn_def)
  moreover have "wake S ?q = ?q" using p(4) by (intro wake_none) simp
  moreover have "out j (reply j (bulk v) ?s) = out j ?s @ wire (NewBulkStringValue v)" using v(1) by (simp add: at_prompt_def bulk_def)
  ultimately have "run_answers S j [''GET'', k] p (NewBulkStringValue v) ?q"
    by (simp add: run_answers_def replica_reacts_def running_reaction_def new_reads_def del: wire_constructors)
  moreover have "conns (reply j (bulk v) ?s) i = conns ?s i" using v(4) by (simp add: reply_def conn_write_def raw_write_def split: prod.splits)
  then have "in_step i off m ?q" using assms(1) by (simp add: in_step_def following_def input_ok_def rd_of_def)
  moreover have "visitor i j ?q" using assms(2) by (simp add: visitor_def)
  ultimately show thesis by (rule that)
qed

lemma get_passes:
  assumes "word_ok k" "m k = Some v" "word_ok v"
  shows "passes (reading S i j m) (retried_get (replica_peer S) k v j) (reading S i j m)"
proof (rule passesI)
  fix b assume "reading S i j m b"
  then obtain p off where p: "in_step i off m p" "visitor i j p" "attended (runs S) j p b" by (auto simp: reading_def)
  have "arg_ok k" "wire_ok (NewBulkStringValue v)" using assms(1,3) by (simp_all add: word_ok_def)
  obtain q where q: "run_answers S j [''GET'', k] p (NewBulkStringValue v) q" "in_step i off m q" "visitor i j q"
    by (rule visitor_GET[OF p(1,2) \<open>arg_ok k\<close> assms(2)])
  let ?tc = "(send_command ''GET'' [k] (BulkStringAssertion v))
        \<lparr>Retries := 5, ShouldRetryFunc := Some (\<lambda>v. snd (NilAssertion v :: string report) = Pass)\<rparr>"
  have tc: "ShouldRetryFunc ?tc = Some (\<lambda>v. snd (NilAssertion v :: string report) = Pass)" "Assertion ?tc = BulkStringAssertion v"
    "ToUpper (Command ?tc) # Args ?tc = [''GET'', k]" by (simp_all add: send_command_def)
  have more: "\<not> snd (NilAssertion (NewBulkStringValue v) :: string report) = Pass" by (simp add: assertion_defs NewBulkStringValue_def)
  obtain b' where "SendCommandTestCase_Run (replica_peer S) ?tc j b = (judged (Assertion ?tc (NewBulkStringValue v)), b')"
    "attended (runs S) j q b'"
    by (rule visit.settled_answer[OF p(3) q(1)[folded tc(3)] \<open>wire_ok (NewBulkStringValue v)\<close> tc(1) more])
  then show "\<exists>b'. retried_get (replica_peer S) k v j b = (Passed, b') \<and> reading S i j m b'"
    using q(2,3) tc(2) by (auto simp: retried_get_def reading_def judged_def)
qed

section \<open>Property\<close>

lemma kv_words [simp]: "word_ok ''foo''" "word_ok ''bar''" "word_ok ''baz''" "word_ok ''123''" "word_ok ''456''" "word_ok ''789''"
  by (simp_all add: word_ok_def in_i64_def arg_ok_graphic graphic_def)

lemma kv_args [simp]: "arg_ok ''foo''" "arg_ok ''bar''" "arg_ok ''baz''" "arg_ok ''123''" "arg_ok ''456''" "arg_ok ''789''"
  by (simp_all add: arg_ok_graphic graphic_def)

lemma processing_stage:
  assumes "joining_site S"
  shows "fst (testReplCmdProcessing (replica_peer S) b) = Passed"
proof -
  let ?P = "replica_peer S" and ?m = "Map.empty(''foo'' \<mapsto> ''123'', ''bar'' \<mapsto> ''456'', ''baz'' \<mapsto> ''789'')"
  let ?k = "\<lambda>i c. run_all (map (\<lambda>(k, v). send_as_master ?P ''SET'' [k, v] i) kvMap @ [\<lambda>s. (Passed, sleep ?P 1000000 s)]
      @ map (\<lambda>(k, v). retried_get ?P k v c) kvMap)"
  have sets: "passes (visited S i j Map.empty) (run_all (map (\<lambda>(k, v). send_as_master ?P ''SET'' [k, v] i) kvMap)) (visited S i j ?m)" for i j
    unfolding kvMap_def list.map prod.case
    by (rule passes_Cons[OF visited_set passes_Cons[OF visited_set passes_Cons[OF visited_set passes_Nil]]]) simp_all
  have gets: "passes (reading S i j ?m) (run_all (map (\<lambda>(k, v). retried_get ?P k v j) kvMap)) (reading S i j ?m)" for i j
    unfolding kvMap_def list.map prod.case
    by (rule passes_Cons[OF get_passes passes_Cons[OF get_passes passes_Cons[OF get_passes passes_Nil]]]) simp_all
  have "passes (visited S i j Map.empty) (?k i j) (reading S i j ?m)" for i j
    by (rule passes_append[OF sets passes_append[OF passes_Cons[OF waits_a_little passes_Nil] gets]])
  then have all: "passes (visited S i j Map.empty) (?k i j) (\<lambda>_. True)" for i j by (rule passes_weaken) simp_all
  have "passes (synced S i 0 Map.empty n) (one_client ?P (?k i)) (\<lambda>_. True)" for i n
    by (rule passesI, rule client_visits[OF _ all])
  from handshake_synced[OF assms this] show ?thesis by (simp only: testReplCmdProcessing_def)
qed

text \<open>
  C4: Started as a replica, the server passes the tester's stages in which the tester is the master: the
  handshake up to each of its commands, the acknowledgement of offset 0 and of offsets that grow by
  every byte of the stream, and propagated \<open>SET\<close>s that a client then reads back; for any keys and values
  of up to a million bytes without a line end, on any site where it can start, dial its master and
  find no database file, however the network splits what it says.
\<close>

theorem replica_stages_pass:
  assumes "joining_site S" "\<forall>x \<in> {k1, v1, k2, v2}. arg_ok x \<and> length x \<le> 1000000"
  shows "fst (testReplReplicaSendsPing (replica_peer S) b) = Passed \<and> fst (testReplReplicaSendsReplconf (replica_peer S) b) = Passed \<and>
    fst (testReplReplicaSendsPsync (replica_peer S) b) = Passed \<and> fst (testReplGetaAckZero (replica_peer S) b) = Passed \<and>
    fst (testReplGetaAckNonZero (replica_peer S) k1 v1 k2 v2 b) = Passed \<and> fst (testReplCmdProcessing (replica_peer S) b) = Passed"
  using replica.handshake_stages[OF assms(1)] ack_zero_stage[OF assms(1)] ack_counting_stage[OF assms] processing_stage[OF assms(1)]
  by blast

lemma replica_stages_pass_example:
  "fst (testReplGetaAckNonZero (replica_peer (local_site\<lparr>osys := (osys local_site)\<lparr>dials := True\<rparr>\<rparr>)) ''foo'' ''123'' ''bar'' ''456''
     \<lparr>Clients = \<lambda>_. new_client, clientsSpawned = 0, Remote = None\<rparr>) = Passed"
proof -
  have "joining_site (local_site\<lparr>osys := (osys local_site)\<lparr>dials := True\<rparr>\<rparr>)"
    using fresh_local_site by (simp add: joining_site_def fresh_site_def good_site_def)
  moreover have "\<forall>x \<in> {''foo'', ''123'', ''bar'', ''456''}. arg_ok x \<and> length x \<le> 1000000" by simp
  ultimately show ?thesis using replica_stages_pass by blast
qed

end
