(* ===== verification/Primary_Logic.thy ===== *)
theory Primary_Logic
  imports Basic_Stages Group_Logic Replication_Properties
begin

text \<open>
  The repository's server as the master of replicas that the tester plays: what it answers to
  \<open>REPLCONF\<close>, \<open>PSYNC\<close> and \<open>WAIT\<close>, what a \<open>SET\<close> makes it send to whom, and how a crowd of
  connections is followed, each with the reads that are still to be made on it.
\<close>

section \<open>Exchanges\<close>

lemma primary_words [simp]:
  "arg_ok ''PSYNC''" "arg_ok ''listening-port''" "arg_ok ''capa''" "arg_ok ''psync2''" "arg_ok ''?''" "arg_ok ''-1''"
  "arg_ok ''6380''" "arg_ok ''0''"
  by (simp_all add: arg_ok_graphic graphic_def)

lemma primary_upper [simp]:
  "ToUpper ''REPLCONF'' = ''REPLCONF''" "ToUpper ''PSYNC'' = ''PSYNC''" "ToUpper ''WAIT'' = ''WAIT''" "ToUpper ''SET'' = ''SET''"
  "ToUpper ''listening-port'' = ''LISTENING-PORT''" "ToUpper ''capa'' = ''CAPA''"
  by code_simp+

lemma answers_REPLCONF:
  assumes "calm i s" "sub = ''listening-port'' \<or> sub = ''capa''" "arg_ok val"
  shows "answers P i [''REPLCONF'', sub, val] s (NewSimpleStringValue ''OK'') (resting i (reply i ok_reply s))"
proof -
  have sub: "arg_ok sub" "ToUpper sub = ''LISTENING-PORT'' \<or> ToUpper sub = ''CAPA''"
    using assms(2) by (elim disjE; simp only: primary_words primary_upper simp_thms)+
  let ?s = "set_rd i \<lparr>rbuf = [], rsrc = []\<rparr> s"
  have f: "read_field \<lparr>rbuf = bulks [sub, val], rsrc = []\<rparr> = (sub @ crlf, None, \<lparr>rbuf = bulk val, rsrc = []\<rparr>)"
    "read_field \<lparr>rbuf = bulk val, rsrc = []\<rparr> = (val @ crlf, None, \<lparr>rbuf = [], rsrc = []\<rparr>)"
    using field_in_chunk[OF sub(1), of "bulk val" "[]"] field_in_chunk[OF assms(3), of "[]" "[]"] by simp_all
  have "role_is ''master'' s" using assms(1) by (simp add: calm_def serviceable_def)
  then have "HandleReplConf i (set_rd i \<lparr>rbuf = bulks [sub, val], rsrc = []\<rparr> s) = Done (reply i ok_reply ?s)"
    using f sub arg_ok_trim[OF sub(1)]
    by (auto simp: HandleReplConf_def Let_def)
  then have "serve_loop P i (received i [''REPLCONF'', sub, val] s) = serve_loop P i (reply i (wire (NewSimpleStringValue ''OK'')) ?s)"
    using serve_received[OF assms(1), of "''REPLCONF''" P "[sub, val]"] by (simp add: dispatch_words ok_reply_def)
  from answers_reply[OF assms(1) this _ _ assms(1) refl] show ?thesis by (simp add: ok_reply_def)
qed

text \<open>What \<open>PSYNC\<close> writes, in two writes, and whom it registers.\<close>

definition rdb_file :: string where
  "rdb_file = the (DecodeString emptyRdbHex)"

lemma rdb_file: "DecodeString emptyRdbHex = Some rdb_file" "length rdb_file = 88"
proof -
  have "map_option length (DecodeString emptyRdbHex) = Some 88" by code_simp
  then show "DecodeString emptyRdbHex = Some rdb_file" "length rdb_file = 88" by (auto simp: rdb_file_def)
qed

definition resync :: "string \<Rightarrow> string" where
  "resync replid = ''FULLRESYNC '' @ replid @ '' 0''"

definition registered :: "nat \<Rightarrow> string \<Rightarrow> server \<Rightarrow> server" where
  "registered i d s = (let t = resting i (reply i d s) in t\<lparr>Replicas := Replicas t @ [\<lparr>rep_conn = i, rep_offset = 0\<rparr>]\<rparr>)"

lemma reply_reply: "healthy i s \<Longrightarrow> reply i e (reply i d s) = reply i (d @ e) s"
  by (auto simp: reply_def conn_write_def raw_write_def sink_write_def healthy_def)

lemma set_rd_Replicas: "set_rd i r (s\<lparr>Replicas := rs\<rparr>) = (set_rd i r s)\<lparr>Replicas := rs\<rparr>"
  by (simp add: set_rd_def)

lemma serve_PSYNC:
  assumes "calm i s" "ServerInfo s ''master_replid'' = Some (IStr replid)" "ServerInfo s ''master_repl_offset'' = Some (IStr ''0'')"
  shows "serve_loop P i (received i [''PSYNC'', ''?'', ''-1''] s)
    = Done (registered i (wire (NewSimpleStringValue (resync replid)) @ rdb_wire rdb_file) s)"
proof -
  let ?d = "wire (NewSimpleStringValue (resync replid)) @ rdb_wire rdb_file"
  let ?r = "\<lparr>rbuf = bulks [''?'', ''-1''], rsrc = []\<rparr>" and ?e = "\<lparr>rbuf = [], rsrc = []\<rparr>"
  let ?t = "(reply i ?d (set_rd i ?e s))\<lparr>Replicas := Replicas s @ [\<lparr>rep_conn = i, rep_offset = 0\<rparr>]\<rparr>"
  have h: "healthy i s" "role_is ''master'' s" using assms(1) by (simp_all add: calm_def at_prompt_def serviceable_def)
  have skips: "skip_line (skip_line (skip_line (skip_line ?r))) = ?e" by code_simp
  have "HandlePsyncMaster i (set_rd i ?r s) = Done ?t"
    using h assms(2,3) skips
    by (simp add: HandlePsyncMaster_def conn_write_healthy rdb_file(1) Let_def reply_reply resync_def rdb_wire_def)
  then have "serve_loop P i (received i [''PSYNC'', ''?'', ''-1''] s) = serve_loop P i ?t"
    using serve_received[OF assms(1), of "''PSYNC''" P "[''?'', ''-1'']"] by (simp add: dispatch_words)
  also have "\<dots> = Done (set_rd i ?e ?t)"
    using assms(1) by (intro serve_done) (simp_all add: calm_def at_prompt_def input_ok_def stream_of_def)
  also have "set_rd i ?e ?t = registered i ?d s"
    by (simp add: registered_def resting_def reply_set_rd Let_def set_rd_Replicas)
  finally show ?thesis .
qed

lemma answers_WAIT:
  assumes "calm i s" "Replicas s = [] \<or> MasterOffset s = 0" "in_i64 n" "in_i64 ms"
  shows "answers P i [''WAIT'', itoa n, itoa ms] s (NewIntegerValue (int (length (Replicas s))))
    (resting i (reply i (int_reply (int (length (Replicas s)))) s))"
proof -
  let ?s = "set_rd i \<lparr>rbuf = [], rsrc = []\<rparr> s"
  have f: "read_field \<lparr>rbuf = bulks [itoa n, itoa ms], rsrc = []\<rparr> = (itoa n @ crlf, None, \<lparr>rbuf = bulk (itoa ms), rsrc = []\<rparr>)"
    "read_field \<lparr>rbuf = bulk (itoa ms), rsrc = []\<rparr> = (itoa ms @ crlf, None, \<lparr>rbuf = [], rsrc = []\<rparr>)"
    using field_in_chunk[of "itoa n" "bulk (itoa ms)" "[]"] field_in_chunk[of "itoa ms" "[]" "[]"] by simp_all
  have "HandleWait i (set_rd i \<lparr>rbuf = bulks [itoa n, itoa ms], rsrc = []\<rparr> s)
      = Done (reply i (int_reply (int (length (Replicas s)))) ?s)"
    using f assms(2) by (auto simp: HandleWait_def Let_def)
  then have "serve_loop P i (received i [''WAIT'', itoa n, itoa ms] s)
      = serve_loop P i (reply i (wire (NewIntegerValue (int (length (Replicas s))))) ?s)"
    using serve_received[OF assms(1), of "''WAIT''" P "[itoa n, itoa ms]"] by (simp add: dispatch_words int_reply_def)
  from answers_reply[OF assms(1) this _ _ assms(1) refl] show ?thesis by (simp add: int_reply_def)
qed

section \<open>A company of connections\<close>

text \<open>
  The clients of a stage are the connections from \<open>m\<close> below \<open>n\<close>; those in \<open>js\<close> have become replicas, in
  this order, and \<open>ws\<close> is what they have all been sent since. Each waits for a request.
\<close>

definition company :: "site \<Rightarrow> nat \<Rightarrow> nat \<Rightarrow> nat list \<Rightarrow> string list \<Rightarrow> server \<Rightarrow> bool" where
  "company S m n js ws s \<longleftrightarrow> role_is ''master'' s \<and> chans s = Map.empty \<and> announced S s \<and>
     UserRegistry s = [''default'' \<mapsto> default_user] \<and> (ws = [] \<longrightarrow> MasterOffset s = 0) \<and>
     map rep_conn (Replicas s) = js \<and> distinct js \<and> set js \<subseteq> {m ..< n} \<and>
     (\<forall>k \<in> {m ..< n}. at_prompt k s \<and> rd_of k s = \<lparr>rbuf = [], rsrc = []\<rparr> \<and> authed k s)"

lemma company_replicas: "company S m n js ws s \<Longrightarrow> rep_conn ` set (Replicas s) = set js"
  unfolding company_def by (metis list.set_map)

lemma company_calm: "company S m n js ws s \<Longrightarrow> i \<in> {m ..< n} \<Longrightarrow> i \<notin> set js \<Longrightarrow> calm i s \<and> authed i s"
  using company_replicas[of S m n js ws s] by (auto simp: company_def calm_def serviceable_def)

lemma company_replicas_ok: "company S m n js ws s \<Longrightarrow> replicas_ok s"
  using company_replicas[of S m n js ws s] by (auto simp: company_def replicas_ok_def at_prompt_def)

lemma at_prompt_resting [simp]:
  "chans (resting i s) = chans s" "out k (resting i s) = out k s"
  "at_prompt k (resting i s) \<longleftrightarrow> (if k = i then act (conns s i) = Serving \<and> healthy i s else at_prompt k s)"
  "rd_of k (resting i s) = (if k = i then \<lparr>rbuf = [], rsrc = []\<rparr> else rd_of k s)"
  by (auto simp: resting_def at_prompt_def input_ok_def)

lemma at_prompt_reply_any [simp]: "at_prompt k s \<Longrightarrow> at_prompt k (reply i d s)"
  by (simp add: at_prompt_def input_ok_def)

lemma at_prompt_fields: "at_prompt k s \<Longrightarrow> act (conns s k) = Serving \<and> healthy k s"
  by (simp add: at_prompt_def)

lemma company_reply: "company S m n js ws s \<Longrightarrow> company S m n js ws (resting i (reply i d s))"
  using at_prompt_fields[of i s] by (auto simp: company_def announced_def)

lemma company_master_set:
  assumes "company S m n js ws s" "no_errors r"
  shows "company S m n js (ws @ [w]) (resting i (reply i d (master_set k v (set_rd i r s))))"
proof -
  have "at_prompt e (master_set k v (set_rd i r s))" if "at_prompt e s" for e
    using that assms(2) by (cases "e = i") (simp_all add: at_prompt_def input_ok_def master_set_out(2))
  with assms(1) at_prompt_fields[of i "master_set k v (set_rd i r s)"] show ?thesis
    by (auto simp: company_def announced_def)
qed

lemma company_registered:
  assumes "company S m n js [] s" "i \<in> {m ..< n}" "i \<notin> set js"
  shows "company S m n (js @ [i]) [] (registered i d s)"
proof -
  have "company S m n js [] (resting i (reply i d s))" by (rule company_reply[OF assms(1)])
  with assms(2,3) show ?thesis
    by (auto simp: company_def registered_def Let_def announced_def at_prompt_def input_ok_def)
qed

lemma company_opened:
  assumes "company S m n js ws s" "m \<le> n"
  shows "company S m (Suc n) js ws (opened n s)"
proof -
  have "n \<notin> set js" using assms(1) by (auto simp: company_def)
  then have "serviceable n s" using assms(1) company_replicas[OF assms(1)] by (simp add: company_def serviceable_def)
  from opened_calm[OF this] have n: "at_prompt n (opened n s)" "rd_of n (opened n s) = \<lparr>rbuf = [], rsrc = []\<rparr>"
    by (simp_all add: calm_def)
  have other: "at_prompt k (opened n s) = at_prompt k s" "rd_of k (opened n s) = rd_of k s" if "k \<noteq> n" for k
    using that by (simp_all add: at_prompt_def input_ok_def healthy_def rd_of_def)
  have "at_prompt k (opened n s) \<and> rd_of k (opened n s) = \<lparr>rbuf = [], rsrc = []\<rparr> \<and> authed k (opened n s)" if "k \<in> {m ..< Suc n}" for k
    using that n other[of k] assms(1) by (cases "k = n") (auto simp: company_def default_user_def CheckAuth_def)
  then show ?thesis using assms by (auto simp: company_def announced_def)
qed

lemma company_blank:
  assumes "serviceable 0 s" "blank s" "announced S s"
  shows "company S m m [] [] s"
  using assms by (simp add: company_def serviceable_def blank_def)


section \<open>The company and the tester\<close>

definition assembly ::
  "site \<Rightarrow> nat \<Rightarrow> nat \<Rightarrow> nat list \<Rightarrow> string list \<Rightarrow> (nat \<Rightarrow> RespConnection \<Rightarrow> bool) \<Rightarrow> process option bench \<Rightarrow> bool"
where
  "assembly S m n js ws f b \<longleftrightarrow> clientsSpawned b = n \<and>
     (\<exists>p. Remote b = Some p \<and> \<not> crashed p \<and> stuck p = {} \<and> company S m n js ws (machine p)) \<and>
     (\<forall>k \<in> {m ..< n}. f k (Clients b k))"

text \<open>Nothing is under way but what the replicas have been sent.\<close>

abbreviation crowd :: "site \<Rightarrow> nat \<Rightarrow> nat \<Rightarrow> nat list \<Rightarrow> string list \<Rightarrow> process option bench \<Rightarrow> bool" where
  "crowd S m n js ws \<equiv>
     assembly S m n js ws (\<lambda>k. inbox (if k \<in> set js then concat (map (segments S) ws) else []))"

lemma assembly_client: "assembly S m n js ws f b \<Longrightarrow> k \<in> {m ..< n} \<Longrightarrow> f k (Clients b k)"
  by (simp add: assembly_def)

lemma crowd_serves:
  assumes "assembly S m n js ws f b" "i \<in> {m ..< n}" "i \<notin> set js"
  obtains s where "serves i s (Remote b)" "company S m n js ws s"
  using assms company_calm[OF _ assms(2,3)] by (fastforce simp: assembly_def serves_def)

lemma read_words: "good_site S \<Longrightarrow> length us \<le> 1 \<Longrightarrow> segments S (concat us) = concat (map (segments S) us)"
  using quiet_reads[of S] by (cases us) auto

lemma crowd_case:
  assumes "good_site S" "i \<in> {m ..< n}" "i \<notin> set js" "wire_ok v" "snd (A v) = Pass" "length us \<le> 1"
    "\<And>s. company S m n js ws s \<Longrightarrow> \<exists>t. answers (plat S) i (ToUpper cmd # args) s v t \<and> company S m n js (ws @ us) t \<and>
      (\<forall>k. k \<noteq> i \<longrightarrow> out k t = out k s @ (if k \<in> set js then concat us else []))"
  shows "passes (crowd S m n js ws) (send_case (server_peer S) cmd args A i) (crowd S m n js (ws @ us))"
proof (rule passesI)
  fix b assume b: "crowd S m n js ws b"
  let ?req = "ToUpper cmd # args"
  obtain s where s: "serves i s (Remote b)" "company S m n js ws s" by (rule crowd_serves[OF b assms(2,3)])
  have "quiet (Clients b i)" using assms(3) assembly_client[OF b assms(2)] by (simp flip: inbox_Nil)
  then have at: "attended serves i s b" using s(1) by (simp add: attended_def)
  obtain t where t: "answers (plat S) i ?req s v t" "company S m n js (ws @ us) t"
    "\<forall>k. k \<noteq> i \<longrightarrow> out k t = out k s @ (if k \<in> set js then concat us else [])" using assms(7)[OF s(2)] by blast
  obtain b' where b': "send_case (server_peer S) cmd args A i b = (judged (A v), b')" "attended serves i t b'"
    "spread i (Deliver (server_peer S) i (resp_array ?req) (Remote b)) b b'"
    using server.send_case_answer[OF at conjI[OF assms(1) t(1)] assms(4), of A] by blast
  obtain p where p: "Deliver (server_peer S) i (resp_array ?req) (Remote b) = (new_reads S p (p\<lparr>machine := t\<rparr>), Some (p\<lparr>machine := t\<rparr>))"
    "\<not> crashed p" "stuck p = {}" "machine p = s" using deliver_answer[OF s(1) t(1)] by metis
  have reads: "new_reads S p (p\<lparr>machine := t\<rparr>) k = (if k \<in> set js then concat (map (segments S) us) else [])" if "k \<noteq> i" for k
    using that t(3) p(4) read_words[OF assms(1,6)] quiet_reads[OF assms(1)] by (simp add: new_reads_def)
  have "inbox (if k \<in> set js then concat (map (segments S) (ws @ us)) else []) (Clients b' k)" if "k \<in> {m ..< n}" for k
  proof (cases "k = i")
    case True
    then show ?thesis using b'(2) assms(3) by (simp add: attended_def inbox_Nil)
  next
    case False
    then have "Clients b' k = (Clients b k)\<lparr>net_in := net_in (Clients b k) @ new_reads S p (p\<lparr>machine := t\<rparr>) k\<rparr>"
      using b'(3) p(1) by (simp add: spread_def)
    with reads[OF False] b that show ?thesis by (auto simp: assembly_def inbox_def)
  qed
  moreover have "Remote b' = Some (p\<lparr>machine := t\<rparr>)" "clientsSpawned b' = n"
    using b'(3) p(1) b by (simp_all add: spread_def assembly_def)
  ultimately show "\<exists>b'. send_case (server_peer S) cmd args A i b = (Passed, b') \<and> crowd S m n js (ws @ us) b'"
    using b'(1) assms(5) p(2,3) t(2) by (auto simp: assembly_def judged_def)
qed


lemma crowd_reply:
  assumes "good_site S" "i \<in> {m ..< n}" "i \<notin> set js" "wire_ok v" "snd (A v) = Pass"
    "\<And>s. company S m n js ws s \<Longrightarrow> answers (plat S) i (ToUpper cmd # args) s v (resting i (reply i d s))"
  shows "passes (crowd S m n js ws) (send_case (server_peer S) cmd args A i) (crowd S m n js ws)"
proof -
  have "passes (crowd S m n js ws) (send_case (server_peer S) cmd args A i) (crowd S m n js (ws @ []))"
  proof (rule crowd_case[where v = v])
    fix s assume s: "company S m n js ws s"
    show "\<exists>t. answers (plat S) i (ToUpper cmd # args) s v t \<and> company S m n js (ws @ []) t \<and>
        (\<forall>k. k \<noteq> i \<longrightarrow> out k t = out k s @ (if k \<in> set js then concat [] else []))"
      using assms(6)[OF s] company_reply[OF s] by (intro exI[of _ "resting i (reply i d s)"]) simp
  qed (use assms in simp_all)
  then show ?thesis unfolding append_Nil2 .
qed

lemma crowd_set:
  assumes "good_site S" "i \<in> {m ..< n}" "i \<notin> set js" "arg_ok k" "arg_ok v"
  shows "passes (crowd S m n js ws) (send_case (server_peer S) ''SET'' [k, v] (SimpleStringAssertion ''OK'') i)
    (crowd S m n js (ws @ [resp_array [''SET'', k, v]]))"
proof (rule crowd_case[where v = "NewSimpleStringValue ''OK''"])
  fix s assume s: "company S m n js ws s"
  note c = company_calm[OF s assms(2,3)]
  obtain r where r: "no_errors r" "answers (plat S) i [''SET'', k, v] s (NewSimpleStringValue ''OK'')
      (resting i (reply i ok_reply (master_set k v (set_rd i r s))))"
    by (rule answers_SET_state[OF conjunct1[OF c] conjunct2[OF c] assms(4,5), of "plat S"])
  let ?t = "resting i (reply i ok_reply (master_set k v (set_rd i r s)))"
  have ok: "replicas_ok (set_rd i r s)" using company_replicas_ok[OF s] by (simp add: replicas_ok_def)
  have "out e ?t = out e s @ (if e \<in> set js then concat [resp_array [''SET'', k, v]] else [])" if "e \<noteq> i" for e
    using that master_set_sends(1)[OF ok, of e k v] master_set_out(1)[of e "set_rd i r s" k v] company_replicas[OF s] by simp
  then show "\<exists>t. answers (plat S) i (ToUpper ''SET'' # [k, v]) s (NewSimpleStringValue ''OK'') t \<and>
      company S m n js (ws @ [resp_array [''SET'', k, v]]) t \<and>
      (\<forall>e. e \<noteq> i \<longrightarrow> out e t = out e s @ (if e \<in> set js then concat [resp_array [''SET'', k, v]] else []))"
    using r company_master_set[OF s r(1)] by (intro exI[of _ ?t]) simp
qed (use assms in \<open>simp_all add: HasPrefix_def crlf_def\<close>)

lemma crowd_wait:
  assumes "good_site S" "i \<in> {m ..< n}" "i \<notin> set js" "in_i64 a" "in_i64 ms" "in_i64 (int (length js))"
  shows "passes (crowd S m n js []) (WaitTestCase (server_peer S) a ms (int (length js)) i) (crowd S m n js [])"
  unfolding WaitTestCase_def
proof (rule crowd_reply[where v = "NewIntegerValue (int (length js))"])
  fix s assume s: "company S m n js [] s"
  then have "length (Replicas s) = length js" "MasterOffset s = 0" by (auto simp: company_def)
  with answers_WAIT[of i s a ms "plat S"] company_calm[OF s assms(2,3)] assms(4,5)
  show "answers (plat S) i (ToUpper ''WAIT'' # [itoa a, itoa ms]) s (NewIntegerValue (int (length js)))
      (resting i (reply i (int_reply (int (length js))) s))" by simp
qed (use assms in simp_all)

section \<open>The handshake of a replica\<close>

lemma crowd_ping:
  assumes "good_site S" "i \<in> {m ..< n}" "i \<notin> set js"
  shows "passes (crowd S m n js ws) (SendHandshake_RunPingStep (server_peer S) i) (crowd S m n js ws)"
  unfolding SendHandshake_RunPingStep_def
proof (rule crowd_reply[where v = "NewSimpleStringValue ''PONG''"])
  fix s assume "company S m n js ws s"
  from company_calm[OF this assms(2,3)] answers_PING[of i s "plat S"]
  show "answers (plat S) i (ToUpper ''PING'' # []) s (NewSimpleStringValue ''PONG'') (resting i (reply i (''+PONG'' @ crlf) s))"
    by simp
qed (use assms in \<open>simp_all add: HasPrefix_def crlf_def\<close>)

lemma crowd_replconf:
  assumes "good_site S" "i \<in> {m ..< n}" "i \<notin> set js"
  shows "passes (crowd S m n js ws) (SendHandshake_RunReplconfStep (server_peer S) port i) (crowd S m n js ws)"
proof -
  have "passes (crowd S m n js ws) (send_case (server_peer S) ''REPLCONF'' [sub, val] (SimpleStringAssertion ''OK'') i) (crowd S m n js ws)"
    if "sub = ''listening-port'' \<or> sub = ''capa''" "arg_ok val" for sub val
  proof (rule crowd_reply[where v = "NewSimpleStringValue ''OK''"])
    fix s assume "company S m n js ws s"
    from answers_REPLCONF[OF conjunct1[OF company_calm[OF this assms(2,3)]] that]
    show "answers (plat S) i (ToUpper ''REPLCONF'' # [sub, val]) s (NewSimpleStringValue ''OK'') (resting i (reply i ok_reply s))"
      by (simp only: primary_upper)
  qed (use assms in \<open>simp_all add: HasPrefix_def crlf_def\<close>)
  from passes_proceed[OF this[of "''listening-port''" "itoa port"] this[of "''capa''" "''psync2''"]]
  show ?thesis by (simp add: passes_def SendHandshake_RunReplconfStep_def)
qed


section \<open>The resynchronisation\<close>

text \<open>\<open>rand.Intn(n)\<close> is below \<open>n\<close>.\<close>

definition fair_site :: "site \<Rightarrow> bool" where
  "fair_site S \<longleftrightarrow> (\<forall>k. Intn (osys S) k < length charset)"

definition replid_char :: "char \<Rightarrow> bool" where
  "replid_char c \<longleftrightarrow> list_ex (\<lambda>(a, b). a \<le> c \<and> c \<le> b) [(CHR ''A'', CHR ''Z''), (CHR ''a'', CHR ''z''), (CHR ''0'', CHR ''9'')]"

lemma replid:
  assumes "fair_site S"
  shows "length (RandomString (Intn (osys S)) 40) = 40" "list_all replid_char (RandomString (Intn (osys S)) 40)"
proof -
  have "list_all replid_char charset" by code_simp
  then have "replid_char (charset ! k)" if "k < length charset" for k using that by (simp add: list_all_length)
  then show "length (RandomString (Intn (osys S)) 40) = 40" "list_all replid_char (RandomString (Intn (osys S)) 40)"
    using assms by (simp_all add: RandomString_def fair_site_def list_all_iff)
qed

lemma match_letters: "foldr (\<lambda>f. f) (map matcher (map Lit w @ rs)) k (w @ t) = foldr (\<lambda>f. f) (map matcher rs) k t"
  by (induction w) simp_all

lemma match_times: "list_all replid_char w \<Longrightarrow>
    (matcher (Class [(CHR ''A'', CHR ''Z''), (CHR ''a'', CHR ''z''), (CHR ''0'', CHR ''9'')]) ^^ length w) k (w @ t) = k t"
  by (induction w arbitrary: k) (simp_all add: replid_char_def)

lemma match_resync:
  assumes "length w = 40" "list_all replid_char w"
  shows "Match fullresync_pattern (resync w)"
proof -
  let ?c = "Class [(CHR ''A'', CHR ''Z''), (CHR ''a'', CHR ''z''), (CHR ''0'', CHR ''9'')]"
  let ?all = "\<lambda>rs. foldr (\<lambda>f. f) (map matcher rs) (\<lambda>t. True)"
  have "matcher fullresync_pattern (\<lambda>t. True) (resync w)
      = ?all (map Lit ''FULLRESYNC '' @ ([Times 40 ?c] @ map Lit '' 0'')) (''FULLRESYNC '' @ (w @ '' 0''))"
    by (simp only: fullresync_pattern_def resync_def matcher.simps)
  also have "\<dots> = ?all ([Times 40 ?c] @ map Lit '' 0'') (w @ '' 0'')" by (rule match_letters)
  also have "\<dots> = (matcher ?c ^^ length w) (?all (map Lit '' 0'' @ [])) (w @ '' 0'')"
    by (simp only: assms(1) append_Nil2 append.simps list.map foldr.simps comp_def matcher.simps)
  also have "\<dots> = ?all (map Lit '' 0'' @ []) ('' 0'' @ [])" by (simp only: match_times[OF assms(2)] append_Nil2)
  also have "\<dots> = ?all [] []" by (rule match_letters)
  finally have "matcher fullresync_pattern (\<lambda>t. True) (resync w)" by simp
  then show ?thesis by (cases "resync w") simp_all
qed


lemma resync_line:
  assumes "list_all replid_char w"
  shows "wire_ok (NewSimpleStringValue (resync w))"
proof -
  have "\<not> replid_char CR" by code_simp
  then have "CR \<notin> set w" using assms by (auto simp: list_all_iff)
  then have "CR \<notin> set (resync w)" by (simp add: resync_def)
  then show ?thesis by (simp add: one_line_no_CR)
qed

lemma resync_accepted:
  assumes "length w = 40" "list_all replid_char w"
  shows "snd ((RegexAssertion SIMPLE_STRING fullresync_pattern ''FULLRESYNC 8371b4fb1155b71f4a04d3e1bc3e18c4a990aeeb 0''
      :: string RESPAssertion) (NewSimpleStringValue (resync w))) = Pass"
proof -
  have "list_all replid_char ''8371b4fb1155b71f4a04d3e1bc3e18c4a990aeeb''" by code_simp
  from match_resync[OF _ this]
  have "Match fullresync_pattern ''FULLRESYNC 8371b4fb1155b71f4a04d3e1bc3e18c4a990aeeb 0''" by (simp add: resync_def)
  with match_resync[OF assms] show ?thesis
    by (simp add: RegexAssertion_def DataTypeAssertion_def IsValueOfDataTypeStoredAsByteSlice_def assertion_defs NewSimpleStringValue_def)
qed

text \<open>A connection on which the file of the resynchronisation is under way, and nothing else.\<close>

definition awaiting_rdb :: "site \<Rightarrow> RespConnection \<Rightarrow> bool" where
  "awaiting_rdb S c \<longleftrightarrow> pending c = rdb_wire rdb_file \<and> [] \<notin> set (net_in c) \<and> length (net_in c) \<le> polls S \<and> 0 < polls S \<and>
     ReadValueInterceptor c = None \<and> budget (net_out c) = None"

lemma crowd_psync:
  assumes "good_site S" "fair_site S" "i \<in> {m ..< n}" "i \<notin> set js"
  shows "passes (crowd S m n js []) (SendHandshake_RunPsyncStep (server_peer S) i)
    (assembly S m n (js @ [i]) [] (\<lambda>k c. if k = i then awaiting_rdb S c else quiet c))"
proof (rule passesI)
  fix b assume b: "crowd S m n js [] b"
  let ?P = "server_peer S" and ?id = "RandomString (Intn (osys S)) 40"
  let ?v = "NewSimpleStringValue (resync ?id)"
  define d where "d = wire ?v @ rdb_wire rdb_file"
  have idle: "quiet (Clients b k)" if "k \<in> {m ..< n}" for k
    using assembly_client[OF b that] by (simp flip: inbox_Nil split: if_splits)
  obtain p where p: "Remote b = Some p" "\<not> crashed p" "stuck p = {}" "company S m n js [] (machine p)"
    using b by (auto simp: assembly_def)
  note c = company_calm[OF p(4) assms(3,4), THEN conjunct1]
  let ?t = "registered i d (machine p)"
  have loop: "serve_loop (plat S) i (received i [''PSYNC'', ''?'', ''-1''] (machine p)) = Done ?t"
    unfolding d_def using p(4) by (intro serve_PSYNC[OF c]) (simp_all add: company_def announced_def)
  have t: "company S m n (js @ [i]) [] ?t" by (rule company_registered[OF p(4) assms(3,4)])
  then have "chans ?t = Map.empty" by (simp add: company_def)
  note D = deliver_loop[OF c p(2,3) loop this]
  let ?rs = "new_reads S p (p\<lparr>machine := ?t\<rparr>)"
  have out: "out k ?t = out k (machine p) @ (if k = i then d else [])" for k
    using c by (simp add: registered_def Let_def calm_def at_prompt_def)
  have reads: "?rs k = segments S (if k = i then d else [])" for k by (simp add: new_reads_def out)
  have arrived: "concat (?rs i) = d" "[] \<notin> set (?rs i)" "length (?rs i) \<le> polls S" "?rs k = [] \<or> k = i" for k
    using assms(1) quiet_reads[OF assms(1)] by (simp_all add: reads good_site_def)
  obtain e where d: "client_send ?P i (SendCommand ''PSYNC'' [''?'', ''-1''] (Clients b i)) b
      = (Passed, absorb (?rs, Some (p\<lparr>machine := ?t\<rparr>)) (with_client i e b))"
    "net_in e = []" "UnreadBuffer e = []" "ReadValueInterceptor e = None" "budget (net_out e) = None"
    using client_send_command[of b i ?P "''PSYNC''" "[''?'', ''-1'']"] idle[OF assms(3)] D p(1) unfolding quiet_def by metis
  let ?b = "absorb (?rs, Some (p\<lparr>machine := ?t\<rparr>)) (with_client i e b)"
  let ?c = "Clients ?b i"
  have net: "net_in ?c = ?rs i" "UnreadBuffer ?c = []" "ReadValueInterceptor ?c = None" "budget (net_out ?c) = None"
    using d(2-5) by (simp_all add: absorb_def with_client_def)
  have "?rs i \<noteq> []" using arrived(1) wire_nonempty[of ?v] unfolding d_def by (metis append_is_Nil_conv concat.simps(1))
  then have polls: "0 < polls S" using arrived(3) by (cases "polls S") auto
  have ok: "wire_ok ?v" by (rule resync_line[OF replid(2)[OF assms(2)]])
  have q: "pending ?c = wire ?v @ rdb_wire rdb_file" "0 < Polls ?P"
    "length (wire ?v) \<le> length (UnreadBuffer ?c @ concat (take (Polls ?P) (net_in ?c)))"
    using net arrived polls by (simp_all add: pending_def d_def)
  obtain ns u where r: "u @ concat ns = rdb_wire rdb_file" "set ns \<subseteq> set (net_in ?c)"
    "ReadValueWithTimeout (Polls ?P) ?c = (Inr ?v, ?c\<lparr>net_in := ns, UnreadBuffer := u, LastValueBytesCount := int (length (wire ?v)),
       ReceivedBytesCount := ReceivedBytesCount ?c + int (length (wire ?v))\<rparr>)"
    by (rule read_wire[OF ok q net(3)])
  define f where "f = ?c\<lparr>net_in := ns, UnreadBuffer := u, LastValueBytesCount := int (length (wire ?v)),
       ReceivedBytesCount := ReceivedBytesCount ?c + int (length (wire ?v))\<rparr>"
  obtain k where "ns = drop k (?rs i)" using ReadValueWithTimeout_drop[of "Polls ?P" ?c] r(3) net(1) by auto
  then have "length ns \<le> polls S" using arrived(3) by simp
  then have f: "awaiting_rdb S f" using r(1,2) net arrived(2) polls by (auto simp: awaiting_rdb_def f_def pending_def)
  have "RunWithoutAssert ?P i ?b = (Inr ?v, with_client i f ?b)" unfolding RunWithoutAssert_def r(3) by (simp add: f_def)
  then have "attempt ?P ((send_command ''PSYNC'' [''?'', ''-1''] A)\<lparr>ShouldSkipUnreadDataCheck := True\<rparr>) i b = (Inr ?v, with_client i f ?b)" for A
    using d(1) by (simp add: attempt_def send_command_def)
  then have "SendHandshake_RunPsyncStep ?P i b = (Passed, with_client i f ?b)"
    using resync_accepted[OF replid[OF assms(2)]]
    by (simp add: SendHandshake_RunPsyncStep_def SendCommandTestCase_Run_def Assert_def send_command_def)
  moreover have "quiet (Clients (with_client i f ?b) k)" if "k \<in> {m ..< n}" "k \<noteq> i" for k
    using idle[OF that(1)] that(2) arrived(4)[of k] by (simp add: with_client_def absorb_def)
  ultimately show "\<exists>b'. SendHandshake_RunPsyncStep ?P i b = (Passed, b') \<and>
      assembly S m n (js @ [i]) [] (\<lambda>k c. if k = i then awaiting_rdb S c else quiet c) b'"
    using b f p(2,3) t by (intro exI[of _ "with_client i f ?b"]) (simp add: assembly_def with_client_def absorb_def)
qed

lemma crowd_rdb:
  assumes "rdb_valid rdb_file" "i \<in> {m ..< n}"
  shows "passes (assembly S m n (js @ [i]) [] (\<lambda>k c. if k = i then awaiting_rdb S c else quiet c))
    (SendHandshake_RunReceiveRDBStep rdb_valid (server_peer S) i) (crowd S m n (js @ [i]) [])"
proof (rule passesI)
  fix b assume b: "assembly S m n (js @ [i]) [] (\<lambda>k c. if k = i then awaiting_rdb S c else quiet c) b"
  let ?P = "server_peer S" and ?c = "Clients b i"
  have c: "awaiting_rdb S ?c" using assembly_client[OF b assms(2)] by simp
  have f: "rdb_file \<noteq> []" "in_i64 (int (length rdb_file))" using rdb_file(2) by (auto simp: in_i64_def)
  have q: "pending ?c = rdb_wire rdb_file @ []" "0 < Polls ?P"
    "length (rdb_wire rdb_file) \<le> length (UnreadBuffer ?c @ concat (take (Polls ?P) (net_in ?c)))"
    using c by (simp_all add: awaiting_rdb_def pending_def)
  obtain ns u where r: "u @ concat ns = []" "set ns \<subseteq> set (net_in ?c)"
    "ReadFullResyncRDBFile (Polls ?P) ?c = (Inr rdb_file, ?c\<lparr>net_in := ns, UnreadBuffer := u,
       LastValueBytesCount := int (length (rdb_wire rdb_file)), ReceivedBytesCount := ReceivedBytesCount ?c + int (length (rdb_wire rdb_file))\<rparr>)"
    by (rule read_rdb[OF f q])
  define e where "e = ?c\<lparr>net_in := ns, UnreadBuffer := u, LastValueBytesCount := int (length (rdb_wire rdb_file)),
     ReceivedBytesCount := ReceivedBytesCount ?c + int (length (rdb_wire rdb_file))\<rparr>"
  have "[] \<notin> set ns" using r(2) c by (auto simp: awaiting_rdb_def)
  then have "ns = []" "u = []" using r(1) by (cases ns; simp)+
  then have e: "quiet e" using c by (simp add: e_def quiet_def awaiting_rdb_def)
  then have "extra_data_check i (with_client i e b) = (Passed, with_client i e b)"
    by (simp add: extra_data_check_def quiet_ReadIntoBuffer with_client_def) (simp add: quiet_def)
  then have "SendHandshake_RunReceiveRDBStep rdb_valid ?P i b = (Passed, with_client i e b)"
    using r(3) assms(1) by (simp add: SendHandshake_RunReceiveRDBStep_def e_def)
  moreover have "crowd S m n (js @ [i]) [] (with_client i e b)"
    using b e by (simp add: assembly_def with_client_def inbox_Nil)
  ultimately show "\<exists>b'. SendHandshake_RunReceiveRDBStep rdb_valid ?P i b = (Passed, b') \<and> crowd S m n (js @ [i]) [] b'" by blast
qed

lemma crowd_handshake:
  assumes "good_site S" "fair_site S" "rdb_valid rdb_file" "i \<in> {m ..< n}" "i \<notin> set js"
  shows "passes (crowd S m n js []) (SendHandshake_RunAll rdb_valid (server_peer S) port i) (crowd S m n (js @ [i]) [])"
  unfolding SendHandshake_RunAll_def
  by (intro passes_Cons[OF crowd_ping] passes_Cons[OF crowd_replconf] passes_Cons[OF crowd_psync] passes_Cons[OF crowd_rdb]
      passes_Nil assms)


section \<open>Clients come\<close>

lemma crowd_spawn:
  assumes "m \<le> n"
  shows "passes (crowd S m n js ws) (spawnClient (server_peer S)) (crowd S m (Suc n) js ws)"
proof (rule passesI)
  fix b assume b: "crowd S m n js ws b"
  then obtain p where p: "Remote b = Some p" "\<not> crashed p" "stuck p = {}" "company S m n js ws (machine p)"
    by (auto simp: assembly_def)
  let ?p = "p\<lparr>machine := opened n (machine p), accepted := max (Server_Peer.accepted p) (Suc n)\<rparr>"
  let ?b = "(with_client n new_client b)\<lparr>clientsSpawned := n + 1, Remote := Some ?p\<rparr>"
  have "UserRegistry (machine p) ''default'' \<noteq> None" using p(4) by (simp add: company_def)
  from admit_opened[OF p(2) this, of n] have "spawnClient (server_peer S) b = (Passed, ?b)"
    using b p(1) by (simp add: spawnClient_def assembly_def)
  moreover have "n \<notin> set js" using p(4) by (auto simp: company_def)
  then have "inbox (if k \<in> set js then concat (map (segments S) ws) else []) (Clients ?b k)" if "k \<in> {m ..< Suc n}" for k
    using that assembly_client[OF b, of k] by (cases "k = n") (simp_all add: with_client_def inbox_Nil)
  ultimately show "\<exists>b'. spawnClient (server_peer S) b = (Passed, b') \<and> crowd S m (Suc n) js ws b'"
    using p(2,3) company_opened[OF p(4) assms] by (intro exI[of _ ?b]) (simp add: assembly_def)
qed

lemma crowd_one_client:
  assumes "m \<le> n" "passes (crowd S m (Suc n) js ws) (k n) R"
  shows "passes (crowd S m n js ws) (one_client (server_peer S) k) R"
proof (rule passesI)
  fix b assume b: "crowd S m n js ws b"
  then have "clientsSpawned b = n" by (simp add: assembly_def)
  with passesD[OF passes_proceed[OF crowd_spawn[OF assms(1)] assms(2)] b]
  show "\<exists>b'. one_client (server_peer S) k b = (Passed, b') \<and> R b'" by (simp add: one_client_def)
qed

lemma crowd_two_clients:
  assumes "m \<le> n" "passes (crowd S m (Suc (Suc n)) js ws) (k [n, Suc n]) R"
  shows "passes (crowd S m n js ws) (some_clients (server_peer S) 2 k) R"
proof (rule passesI)
  fix b assume b: "crowd S m n js ws b"
  have c: "[clientsSpawned b ..< clientsSpawned b + 2] = [n, Suc n]" using b by (simp add: assembly_def upt_rec)
  have s: "SpawnClients (server_peer S) 2 = run_all [spawnClient (server_peer S), spawnClient (server_peer S)]"
    by (simp add: SpawnClients_def numeral_2_eq_2)
  have "m \<le> Suc n" using assms(1) by simp
  then have "passes (crowd S m n js ws) (SpawnClients (server_peer S) 2) (crowd S m (Suc (Suc n)) js ws)"
    unfolding s by (intro passes_Cons[OF crowd_spawn[OF assms(1)]] passes_Cons[OF crowd_spawn] passes_Nil)
  from passesD[OF passes_proceed[OF this assms(2)] b]
  show "\<exists>b'. some_clients (server_peer S) 2 k b = (Passed, b') \<and> R b'" unfolding some_clients_def c .
qed

lemma primary_stage:
  assumes "fresh_site S" "\<And>m. passes (crowd S m m [] []) k (R m)"
  shows "fst (run_program (server_peer S) [''--port'', ''6379''] k b) = Passed"
proof -
  obtain p where p: "launch S [''--port'', ''6379''] = Some p" "\<not> crashed p" "stuck p = {}" "\<And>i. serviceable i (machine p)"
    "blank (machine p)" "announced S (machine p)" using launch_blank[OF assms(1) plain_args_simps(2)] by metis
  have "crowd S (clientsSpawned b) (clientsSpawned b) [] [] (b\<lparr>Remote := Some p\<rparr>)"
    using p(2,3) company_blank[OF p(4-6)] by (simp add: assembly_def)
  from passesD[OF assms(2) this] p(1) show ?thesis by (auto simp: run_program_def)
qed

lemma crowd_reset:
  "passes (crowd S m n js ws) (\<lambda>b. (Passed, with_client c (ResetByteCounters (Clients b c)) b)) (crowd S m n js ws)"
  unfolding passes_skip by (auto simp: assembly_def with_client_def ResetByteCounters_def inbox_def)

lemma spawn_replicas:
  assumes "good_site S" "fair_site S" "rdb_valid rdb_file" "m \<le> n"
  shows "passes (crowd S m n js []) (SpawnReplicas rdb_valid (server_peer S) c) (crowd S m (n + c) (js @ [n ..< n + c]) [])"
proof -
  let ?I = "\<lambda>ys. crowd S m (n + length ys) (js @ [n ..< n + length ys]) []"
  let ?f = "\<lambda>j. one_client (server_peer S) (\<lambda>c s. proceed (SendHandshake_RunAll rdb_valid (server_peer S) (6380 + int j) c s)
     (\<lambda>s1. (Passed, with_client c (ResetByteCounters (Clients s1 c)) s1)))"
  have "passes (?I ys) (?f x) (?I (ys @ [x]))" for x and ys :: "nat list"
  proof -
    let ?n = "n + length ys" and ?js = "js @ [n ..< n + length ys]"
    have "passes (crowd S m (Suc ?n) ?js []) (\<lambda>s. proceed (SendHandshake_RunAll rdb_valid (server_peer S) (6380 + int x) ?n s)
        (\<lambda>s1. (Passed, with_client ?n (ResetByteCounters (Clients s1 ?n)) s1))) (crowd S m (Suc ?n) (?js @ [?n]) [])"
      if "?n \<notin> set js"
      using that assms by (intro passes_proceed[OF crowd_handshake crowd_reset]) simp_all
    then have "passes (crowd S m ?n ?js []) (?f x) (crowd S m (Suc ?n) (?js @ [?n]) [])" if "?n \<notin> set js"
      using that assms(4) by (intro crowd_one_client) simp_all
    moreover have "?n \<notin> set js" if "crowd S m ?n ?js [] b" for b
      using that by (auto simp: assembly_def company_def)
    ultimately have "passes (crowd S m ?n ?js []) (?f x) (crowd S m (Suc ?n) (?js @ [?n]) [])"
      unfolding passes_def by blast
    then show ?thesis by simp
  qed
  from passes_map[of "[0 ..< c]" ?I ?f, OF this] show ?thesis unfolding SpawnReplicas_def by simp
qed

end
