(* ===== verification/Primary_Stages.thy ===== *)
theory Primary_Stages
  imports Primary_Logic
begin

text \<open>
  The server as the master of the tester's replicas: it passes the stages of \<open>Protocol_Stages\<close> in
  which the tester takes part in the handshake, waits for propagated commands and counts replicas
  with \<open>WAIT\<close>.
\<close>

section \<open>What a replica has been sent\<close>

text \<open>A connection that has the values \<open>vs\<close> to read, some of their reads made already.\<close>

definition mailbox :: "site \<Rightarrow> Value list \<Rightarrow> RespConnection \<Rightarrow> bool" where
  "mailbox S vs c \<longleftrightarrow> ReadValueInterceptor c = None \<and> budget (net_out c) = None \<and>
     (\<exists>k. UnreadBuffer c = concat (take k (concat (map (segments S \<circ> wire) vs))) \<and>
          net_in c = drop k (concat (map (segments S \<circ> wire) vs)))"

lemma mailbox_Nil: "mailbox S [] c \<longleftrightarrow> quiet c"
  by (auto simp: mailbox_def quiet_def)

lemma mailbox_inbox: "inbox (concat (map (segments S) (map wire vs))) c \<Longrightarrow> mailbox S vs c"
  unfolding mailbox_def inbox_def by (intro conjI exI[of _ 0]) simp_all

lemma concat_rest:
  assumes "u @ concat (drop j (B @ R)) = concat R" "[] \<notin> set B"
  obtains q where "u = concat (take q R)" "drop j (B @ R) = drop q R"
proof (cases "length B \<le> j")
  case True
  then have d: "drop j (B @ R) = drop (j - length B) R" by simp
  with assms(1) have "u @ concat (drop (j - length B) R) = concat (take (j - length B) R) @ concat (drop (j - length B) R)"
    by (metis append_take_drop_id concat_append)
  with d show thesis by (intro that[of "j - length B"]) simp_all
next
  case False
  then have "drop j B \<noteq> []" by simp
  moreover have "[] \<notin> set (drop j B)" using assms(2) in_set_dropD by fastforce
  ultimately have "concat (drop j B) \<noteq> []" by (cases "drop j B") auto
  with assms(1) False have False by simp
  then show thesis ..
qed

lemma reads_next:
  assumes "good_site S" "wire_ok v" "mailbox S (v # vs) c"
  obtains c' where "ReadValueWithTimeout (polls S) c = (Inr v, c')" "mailbox S vs c'"
proof -
  let ?B = "segments S (wire v)" and ?R = "concat (map (segments S \<circ> wire) vs)"
  have B: "concat ?B = wire v" "[] \<notin> set ?B" "length ?B \<le> polls S" using assms(1) by (simp_all add: good_site_def)
  obtain k where c: "UnreadBuffer c = concat (take k (?B @ ?R))" "net_in c = drop k (?B @ ?R)"
    "ReadValueInterceptor c = None" "budget (net_out c) = None" using assms(3) by (auto simp: mailbox_def)
  have "?B \<noteq> []" using B(1) wire_nonempty[of v] by (metis concat.simps(1))
  then have p: "0 < polls S" using B(3) by (cases "polls S") auto
  have "concat (take k ds) @ concat (drop k ds) = concat ds" for ds :: "string list" by (simp flip: concat_append)
  then have "pending c = concat (?B @ ?R)" unfolding pending_def c(1,2) .
  then have q: "pending c = wire v @ concat ?R" using B(1) by simp
  have "take k (?B @ ?R) @ take (polls S) (drop k (?B @ ?R)) = take (k + polls S) (?B @ ?R)" by (rule take_add[symmetric])
  also have "\<dots> = ?B @ take (k + polls S - length ?B) ?R" using B(3) by simp
  finally have "UnreadBuffer c @ concat (take (polls S) (net_in c)) = wire v @ concat (take (k + polls S - length ?B) ?R)"
    using B(1) unfolding c(1,2) concat_append[symmetric] by simp
  then have len: "length (wire v) \<le> length (UnreadBuffer c @ concat (take (polls S) (net_in c)))" by simp
  obtain ns u where r: "u @ concat ns = concat ?R" "ReadValueWithTimeout (polls S) c
      = (Inr v, c\<lparr>net_in := ns, UnreadBuffer := u, LastValueBytesCount := int (length (wire v)),
                  ReceivedBytesCount := ReceivedBytesCount c + int (length (wire v))\<rparr>)"
    by (rule read_wire[OF assms(2) q p len c(3)])
  obtain j where "ns = drop j (net_in c)" using ReadValueWithTimeout_drop[of "polls S" c] r(2) by auto
  then have ns: "ns = drop (j + k) (?B @ ?R)" unfolding c(2) drop_drop .
  obtain q where "u = concat (take q ?R)" "ns = drop q ?R" using concat_rest[OF r(1)[unfolded ns] B(2)] ns by metis
  with c(3,4) r(2) show thesis by (intro that) (auto simp: mailbox_def)
qed

lemma check_args_bulks: "check_args n as (map NewBulkStringValue as) = Pass"
  by (induction as arbitrary: n) (simp_all add: assertion_defs)

lemma propagated_ok:
  assumes "args \<noteq> []" "ToUpper (hd args) = hd args"
  shows "snd ((CommandAssertion (hd args) (tl args) :: string RESPAssertion) (NewStringArrayValue args)) = Pass"
  using assms check_args_bulks
  by (cases args) (simp_all add: assertion_defs CommandAssertion_def OnlyCommandAssertion_def check_command_def NewStringArrayValue_def)

lemma receives_propagated:
  assumes "good_site S" "wire_ok (NewStringArrayValue cmd)" "cmd \<noteq> []" "ToUpper (hd cmd) = hd cmd"
    "mailbox S (NewStringArrayValue cmd # vs) (Clients b i)" "skip \<or> vs = []"
  obtains b' where "receive_propagated (server_peer S) may cmd skip i b = (Passed, b')" "mailbox S vs (Clients b' i)"
    "only_client i b b'"
proof -
  let ?v = "NewStringArrayValue cmd"
  obtain c where c: "ReadValueWithTimeout (polls S) (Clients b i) = (Inr ?v, c)" "mailbox S vs c"
    by (rule reads_next[OF assms(1,2,5)])
  let ?b = "with_client i c b"
  have "RunWithoutAssert (server_peer S) i b = (Inr ?v, ?b)" using c(1) by (simp add: RunWithoutAssert_def)
  moreover have "Assert (CommandAssertion (hd cmd) (tl cmd)) skip ?v i ?b = (Passed, ?b)"
  proof (cases skip)
    case False
    then have "quiet (Clients ?b i)" using assms(6) c(2) by (simp add: mailbox_Nil with_client_def)
    from Assert_quiet[OF this] propagated_ok[OF assms(3,4)] show ?thesis by (simp add: judged_def)
  qed (use propagated_ok[OF assms(3,4)] in \<open>simp add: Assert_def\<close>)
  ultimately have "receive_propagated (server_peer S) may cmd skip i b = (Passed, ?b)" by (simp add: receive_propagated_def)
  then show thesis using c(2) by (intro that[of ?b]) (simp_all add: with_client_def only_client_def)
qed

definition set_args :: "string \<times> string \<Rightarrow> string list" where
  "set_args kv = [''SET'', fst kv, snd kv]"

lemma kvMap_ok: "kv \<in> set kvMap \<Longrightarrow> arg_ok (fst kv) \<and> arg_ok (snd kv) \<and> wire_ok (NewStringArrayValue (set_args kv))"
  by (auto simp: kvMap_def set_args_def NewStringArrayValue_def value_constructors in_i64_def arg_ok_graphic graphic_def)

text \<open>All of it is received in order; the other connections are left alone.\<close>

lemma receive_sets_passes:
  assumes "good_site S"
  shows "passes (\<lambda>b. mailbox S (map (NewStringArrayValue \<circ> set_args) kvMap) (Clients b i) \<and> Q b)
    (receive_sets (server_peer S) i) (\<lambda>b. \<exists>b'. only_client i b' b \<and> Q b')"
proof -
  let ?vs = "\<lambda>n. map (NewStringArrayValue \<circ> set_args) (drop n kvMap)"
  let ?I = "\<lambda>(ys :: (nat \<times> string \<times> string) list) b. mailbox S (?vs (length ys)) (Clients b i) \<and> (\<exists>b'. only_client i b' b \<and> Q b')"
  let ?f = "\<lambda>(n, k, v). receive_propagated (server_peer S) (n = 0) [''SET'', k, v] (n + 1 < length kvMap) i"
  have step: "passes (?I ys) (?f x) (?I (ys @ [x]))" if x: "enumerate 0 kvMap = ys @ x # zs" for x ys zs
  proof (rule passesI)
    fix b assume b: "?I ys b"
    let ?n = "length ys"
    have "length (enumerate 0 kvMap) = length kvMap" by simp
    then have n: "?n < length kvMap" using x by simp
    have "x = enumerate 0 kvMap ! ?n" using x by simp
    then have f: "?f x = receive_propagated (server_peer S) (?n = 0) (set_args (kvMap ! ?n)) (?n + 1 < length kvMap) i"
      using n by (simp add: nth_enumerate_eq set_args_def split: prod.split)
    have "?vs ?n = NewStringArrayValue (set_args (kvMap ! ?n)) # ?vs (Suc ?n)" using n by (simp add: Cons_nth_drop_Suc[symmetric])
    then have m: "mailbox S (NewStringArrayValue (set_args (kvMap ! ?n)) # ?vs (Suc ?n)) (Clients b i)" using b by simp
    have last: "?n + 1 < length kvMap \<or> ?vs (Suc ?n) = []" using n by auto
    have ok: "wire_ok (NewStringArrayValue (set_args (kvMap ! ?n)))" using kvMap_ok[OF nth_mem[OF n]] by simp
    have up: "set_args (kvMap ! ?n) \<noteq> []" "ToUpper (hd (set_args (kvMap ! ?n))) = hd (set_args (kvMap ! ?n))"
      using primary_upper(4) by (simp_all add: set_args_def)
    obtain b' where b': "?f x b = (Passed, b')" "mailbox S (?vs (Suc ?n)) (Clients b' i)" "only_client i b b'"
      unfolding f by (rule receives_propagated[OF assms ok up m last])
    then show "\<exists>b'. ?f x b = (Passed, b') \<and> ?I (ys @ [x]) b'" using b by (auto simp: only_client_def)
  qed
  have "passes (?I []) (receive_sets (server_peer S) i) (?I (enumerate 0 kvMap))"
    unfolding receive_sets_def by (rule passes_map[where I = ?I], rule step)
  then show ?thesis by (rule passes_weaken) (auto simp: only_client_def)
qed

lemma send_sets_passes:
  assumes "good_site S" "i \<in> {m ..< n}" "i \<notin> set js"
  shows "passes (crowd S m n js []) (send_sets (server_peer S) i) (crowd S m n js (map (resp_array \<circ> set_args) kvMap))"
proof -
  let ?I = "\<lambda>ys. crowd S m n js (map (resp_array \<circ> set_args) ys)"
  let ?f = "\<lambda>(k, v). send_case (server_peer S) ''SET'' [k, v] (SimpleStringAssertion ''OK'') i"
  have step: "passes (?I ys) (?f x) (?I (ys @ [x]))" if x: "kvMap = ys @ x # zs" for x ys zs
  proof -
    have "x \<in> set kvMap" unfolding x by simp
    then have "arg_ok (fst x)" "arg_ok (snd x)" using kvMap_ok by blast+
    from crowd_set[OF assms this, of "map (resp_array \<circ> set_args) ys"] show ?thesis
      by (cases x) (simp only: prod.case fst_conv snd_conv map_append list.map comp_apply set_args_def)
  qed
  have "passes (?I []) (run_all (map ?f kvMap)) (?I kvMap)" by (rule passes_map[where I = ?I], rule step)
  then show ?thesis unfolding send_sets_def by (simp only: list.map)
qed

text \<open>Every replica has the commands in its mailbox, and each is looked at in turn.\<close>

lemma crowd_mailbox:
  assumes "crowd S m n js (map (resp_array \<circ> set_args) kvMap) b" "k \<in> set js"
  shows "mailbox S (map (NewStringArrayValue \<circ> set_args) kvMap) (Clients b k)"
proof (rule mailbox_inbox)
  have "k \<in> {m ..< n}" using assms by (auto simp: assembly_def company_def)
  note assembly_client[OF assms(1) this, unfolded if_P[OF assms(2)]]
  moreover have "map wire (map (NewStringArrayValue \<circ> set_args) kvMap) = map (resp_array \<circ> set_args) kvMap" by simp
  ultimately show "inbox (concat (map (segments S) (map wire (map (NewStringArrayValue \<circ> set_args) kvMap)))) (Clients b k)"
    by (simp only:)
qed

lemma all_receive:
  assumes "good_site S" "distinct ks"
  shows "passes (\<lambda>b. \<forall>k \<in> set ks. mailbox S (map (NewStringArrayValue \<circ> set_args) kvMap) (Clients b k))
    (run_all (map (receive_sets (server_peer S)) ks)) (\<lambda>_. True)"
  using assms(2)
proof (induction ks)
  case Nil
  show ?case by (simp add: passes_def)
next
  case (Cons k ks)
  let ?M = "\<lambda>b k. mailbox S (map (NewStringArrayValue \<circ> set_args) kvMap) (Clients b k)"
  have "passes (\<lambda>b. \<forall>j \<in> set (k # ks). ?M b j) (receive_sets (server_peer S) k) (\<lambda>b. \<forall>j \<in> set ks. ?M b j)"
    by (rule passes_weaken[OF receive_sets_passes[OF assms(1), where Q = "\<lambda>b. \<forall>j \<in> set ks. ?M b j"]])
      (use Cons.prems in \<open>auto simp: only_client_def\<close>)
  moreover have "passes (\<lambda>b. \<forall>j \<in> set ks. ?M b j) (run_all (map (receive_sets (server_peer S)) ks)) (\<lambda>_. True)"
    by (rule Cons.IH) (use Cons.prems in simp)
  ultimately show ?case unfolding list.map by (rule passes_Cons)
qed


section \<open>Property\<close>

lemma wait_counts_bound: "a \<in> set (wait_counts fuel x limit d) \<Longrightarrow> a < limit"
  by (induction fuel x limit d rule: wait_counts.induct) (auto split: if_splits)

lemma single_replica_stages:
  assumes "fresh_site S" "fair_site S" "rdb_valid rdb_file"
  shows "fst (testReplMasterReplconf (server_peer S) b) = Passed" "fst (testReplMasterPsync (server_peer S) b) = Passed"
    "fst (testReplMasterPsyncRdb rdb_valid (server_peer S) b) = Passed"
proof -
  have S: "good_site S" using assms(1) by (simp add: fresh_site_def)
  have i: "m \<in> {m ..< Suc m}" "m \<notin> set []" for m by simp_all
  show "fst (testReplMasterReplconf (server_peer S) b) = Passed"
    unfolding testReplMasterReplconf_def
    by (rule primary_stage[OF assms(1), where R = "\<lambda>m. crowd S m (Suc m) [] []"], rule crowd_one_client[OF order_refl])
      (intro passes_Cons[OF crowd_ping] passes_Cons[OF crowd_replconf] passes_Nil S i)
  show "fst (testReplMasterPsync (server_peer S) b) = Passed"
    unfolding testReplMasterPsync_def
    by (rule primary_stage[OF assms(1), where R = "\<lambda>m. assembly S m (Suc m) ([] @ [m]) [] (\<lambda>k c. if k = m then awaiting_rdb S c else quiet c)"], rule crowd_one_client[OF order_refl])
      (intro passes_Cons[OF crowd_ping] passes_Cons[OF crowd_replconf] passes_Cons[OF crowd_psync] passes_Nil S assms(2) i)
  show "fst (testReplMasterPsyncRdb rdb_valid (server_peer S) b) = Passed"
    unfolding testReplMasterPsyncRdb_def
    by (rule primary_stage[OF assms(1)], rule crowd_one_client[OF order_refl])
      (rule crowd_handshake[where rdb_valid = rdb_valid, OF S assms(2,3) i])
qed

lemma propagation_stages:
  assumes "fresh_site S" "fair_site S" "rdb_valid rdb_file"
  shows "fst (testReplMasterCmdProp rdb_valid (server_peer S) b) = Passed"
    "fst (testReplMultipleReplicas rdb_valid (server_peer S) b) = Passed"
proof -
  have S: "good_site S" using assms(1) by (simp add: fresh_site_def)
  let ?ws = "map (resp_array \<circ> set_args) kvMap"
  have received: "passes (crowd S m n js ?ws) (run_all (map (receive_sets (server_peer S)) js)) (\<lambda>_. True)" if "distinct js" for m n js
    by (rule passes_weaken[OF all_receive[OF S that]]) (blast intro: crowd_mailbox)+
  have one: "passes (crowd S m (Suc (Suc m)) [] []) (run_all [SendHandshake_RunAll rdb_valid (server_peer S) 6380 (Suc m),
      send_sets (server_peer S) m, receive_sets (server_peer S) (Suc m)]) (\<lambda>_. True)" for m
    using received[of "[Suc m]" m "Suc (Suc m)"] assms(2,3)
    by (intro passes_Cons[OF crowd_handshake[OF S]] passes_Cons[OF send_sets_passes[OF S]]) simp_all
  show "fst (testReplMasterCmdProp rdb_valid (server_peer S) b) = Passed"
    unfolding testReplMasterCmdProp_def
    by (rule primary_stage[OF assms(1)], rule crowd_two_clients[OF order_refl]) (use one in simp)
  have three: "passes (crowd S m (Suc m) [] []) (\<lambda>s. proceed (SpawnReplicas rdb_valid (server_peer S) 3 s)
      (run_all (send_sets (server_peer S) m # map (receive_sets (server_peer S)) [m + 1 ..< m + 4]))) (\<lambda>_. True)" for m
  proof (rule passes_proceed)
    show "passes (crowd S m (Suc m) [] []) (SpawnReplicas rdb_valid (server_peer S) 3) (crowd S m (m + 4) [m + 1 ..< m + 4] [])"
      using spawn_replicas[where rdb_valid = rdb_valid, OF S assms(2,3), of m "Suc m" "[]" 3] by (simp add: numeral_eq_Suc)
    show "passes (crowd S m (m + 4) [m + 1 ..< m + 4] [])
        (run_all (send_sets (server_peer S) m # map (receive_sets (server_peer S)) [m + 1 ..< m + 4])) (\<lambda>_. True)"
      by (rule passes_Cons[OF send_sets_passes[OF S] received]) simp_all
  qed
  show "fst (testReplMultipleReplicas rdb_valid (server_peer S) b) = Passed"
    unfolding testReplMultipleReplicas_def
    by (rule primary_stage[OF assms(1)], rule crowd_one_client[OF order_refl], rule three)
qed

lemma wait_stages:
  assumes "fresh_site S" "fair_site S" "rdb_valid rdb_file" "in_i64 (int n + 3)"
  shows "fst (testWaitZeroReplicas (server_peer S) b) = Passed" "fst (testWaitZeroOffset rdb_valid (server_peer S) n b) = Passed"
proof -
  have S: "good_site S" using assms(1) by (simp add: fresh_site_def)
  have none: "passes (crowd S m (Suc m) [] []) (WaitTestCase (server_peer S) 0 60000 0 m) (crowd S m (Suc m) [] [])" for m
    using crowd_wait[OF S, of m m "Suc m" "[]" 0 60000] by (simp add: in_i64_def)
  show "fst (testWaitZeroReplicas (server_peer S) b) = Passed"
    unfolding testWaitZeroReplicas_def
    by (rule primary_stage[OF assms(1)], rule crowd_one_client[OF order_refl], rule none)
  have some: "passes (crowd S m m [] []) (run_all
       [SpawnReplicas rdb_valid (server_peer S) n,
        one_client (server_peer S) (\<lambda>c. run_all
          (map (\<lambda>a. WaitTestCase (server_peer S) (int a) 500 (int n) c) (wait_counts n 3 (n + 3) (max 1 (n div 3)))))])
      (crowd S m (Suc (m + n)) [m ..< m + n] [])" for m
  proof (intro passes_Cons[OF spawn_replicas[where rdb_valid = rdb_valid, OF S assms(2,3) order_refl]] passes_Cons[OF crowd_one_client] passes_Nil)
    show "passes (crowd S m (Suc (m + n)) ([] @ [m ..< m + n]) []) (run_all
        (map (\<lambda>a. WaitTestCase (server_peer S) (int a) 500 (int n) (m + n)) (wait_counts n 3 (n + 3) (max 1 (n div 3)))))
      (crowd S m (Suc (m + n)) [m ..< m + n] [])"
      unfolding append_Nil
    proof (rule passes_all)
      fix t assume "t \<in> set (map (\<lambda>a. WaitTestCase (server_peer S) (int a) 500 (int n) (m + n)) (wait_counts n 3 (n + 3) (max 1 (n div 3))))"
      then obtain a where a: "t = WaitTestCase (server_peer S) (int a) 500 (int n) (m + n)" "a < n + 3"
        using wait_counts_bound by fastforce
      then show "passes (crowd S m (Suc (m + n)) [m ..< m + n] []) t (crowd S m (Suc (m + n)) [m ..< m + n] [])"
        using crowd_wait[OF S, of "m + n" m "Suc (m + n)" "[m ..< m + n]" "int a" 500] assms(4) by (simp add: in_i64_def)
    qed
  qed (simp | rule passes_Nil)+
  show "fst (testWaitZeroOffset rdb_valid (server_peer S) n b) = Passed"
    unfolding testWaitZeroOffset_def by (rule primary_stage[OF assms(1)], rule some)
qed

text \<open>
  C5: Started as a master, the server passes the tester's stages in which the tester plays replicas and
  clients: the handshake up to \<open>REPLCONF\<close>, up to \<open>PSYNC\<close> and with the file, the propagation of
  \<open>SET\<close>s to one replica and to three, and \<open>WAIT\<close> without replicas and with any number of them
  before the first write. \<open>rand.Intn\<close> stays below its bound and the parser the tester uses accepts
  the file that the server sends; the network splits all streams as it likes.
\<close>

theorem primary_stages_pass:
  assumes "fresh_site S" "fair_site S" "rdb_valid rdb_file" "in_i64 (int n + 3)"
  shows "fst (testReplMasterReplconf (server_peer S) b) = Passed \<and> fst (testReplMasterPsync (server_peer S) b) = Passed \<and>
    fst (testReplMasterPsyncRdb rdb_valid (server_peer S) b) = Passed \<and>
    fst (testReplMasterCmdProp rdb_valid (server_peer S) b) = Passed \<and>
    fst (testReplMultipleReplicas rdb_valid (server_peer S) b) = Passed \<and>
    fst (testWaitZeroReplicas (server_peer S) b) = Passed \<and> fst (testWaitZeroOffset rdb_valid (server_peer S) n b) = Passed"
  using single_replica_stages[of S rdb_valid b] propagation_stages[of S rdb_valid b] wait_stages[of S rdb_valid n b] assms by blast

lemma fair_local_site [simp]: "fair_site local_site"
  by (simp add: fair_site_def local_site_def charset_def)

lemma primary_stages_pass_example:
  "fst (testReplMultipleReplicas (\<lambda>bs. length bs = 88) (server_peer local_site)
     \<lparr>Clients = \<lambda>_. new_client, clientsSpawned = 0, Remote = None\<rparr>) = Passed"
  using primary_stages_pass[of local_site "\<lambda>bs. length bs = 88" 3] rdb_file(2) by (simp add: in_i64_def)

end
