(* ===== verification/Sample_Codec.thy ===== *)
theory Sample_Codec
  imports Reader Go_Text
begin

text \<open>
  The tester's own tests run it against small servers that are wrong on purpose
  (\<open>redis-tester/internal/test\_helpers/scenarios\<close>). This theory holds what these servers share: how
  they read commands and write replies. There are two such codecs, each copied into several servers:
  one for every RESP value, and one for commands only.

  The servers' connections stay open while they are looked at, so a reader that runs out of bytes
  waits for more. \<open>make\<close> of a negative length panics; memory is not limited.
\<close>

section \<open>Reading a connection\<close>

text \<open>What an operation on the connection leads to: it waits for input, fails, panics, or returns.\<close>

datatype 'a fetch = Waiting | Failing | Panicking | Fetched 'a rd

primrec fetch_then :: "'a fetch \<Rightarrow> ('a \<Rightarrow> rd \<Rightarrow> 'b fetch) \<Rightarrow> 'b fetch" where
  "fetch_then Waiting f = Waiting"
| "fetch_then Failing f = Failing"
| "fetch_then Panicking f = Panicking"
| "fetch_then (Fetched x r) f = f x r"

definition fetch_line :: "rd \<Rightarrow> string fetch" where
  "fetch_line r =
     (case ReadString r of
        (l, None, r1) \<Rightarrow> Fetched l r1
      | (_, Some EOF, _) \<Rightarrow> Waiting
      | (_, Some IOErr, _) \<Rightarrow> Failing)"

definition fetch_byte :: "rd \<Rightarrow> char fetch" where
  "fetch_byte r =
     (case ReadByte r of
        (Some b, _, r1) \<Rightarrow> Fetched b r1
      | (None, Some IOErr, _) \<Rightarrow> Failing
      | (None, _, _) \<Rightarrow> Waiting)"

text \<open>
  One \<open>Read\<close> into a slice of \<open>n\<close> bytes: from the buffer when it has any, otherwise from the next
  chunk. It may return fewer bytes, and the rest of the slice keeps its zeros.
\<close>

definition fetch_some :: "nat \<Rightarrow> rd \<Rightarrow> string fetch" where
  "fetch_some n r =
     (if n = 0 then Fetched [] r
      else if rbuf r \<noteq> [] then Fetched (take n (rbuf r)) (r\<lparr>rbuf := drop n (rbuf r)\<rparr>)
      else case rsrc r of
             [] \<Rightarrow> Waiting
           | ReadErr # es \<Rightarrow> Failing
           | Chunk c # es \<Rightarrow> Fetched (take n c) \<lparr>rbuf = drop n c, rsrc = es\<rparr>)"

definition zero_filled :: "nat \<Rightarrow> string \<Rightarrow> string" where
  "zero_filled n bs = bs @ replicate (n - length bs) (CHR 0x00)"

definition fetch_int :: "rd \<Rightarrow> int fetch" where
  "fetch_int r =
     fetch_then (fetch_line r) (\<lambda>line r1. case Atoi (TrimSpace line) of (n, None) \<Rightarrow> Fetched n r1 | (_, Some _) \<Rightarrow> Failing)"

text \<open>The content of a bulk string and the line end after it, in both codecs.\<close>

definition fetch_content :: "int \<Rightarrow> rd \<Rightarrow> string fetch" where
  "fetch_content len r =
     (if len < 0 then Panicking
      else fetch_then (fetch_some (nat len) r) (\<lambda>bs r1.
             fetch_then (fetch_line r1) (\<lambda>_ r2. Fetched (zero_filled (nat len) bs) r2)))"

section \<open>The codec for every value\<close>

datatype RESPType = TypeSimpleString | TypeError | TypeInteger | TypeBulkString | TypeNil | TypeArray

datatype RESPValue = RESPValue (RType: RESPType) (RStr: string) (RInteger: int) (RArray: "RESPValue list")

definition SimpleString :: "string \<Rightarrow> RESPValue" where
  "SimpleString s = RESPValue TypeSimpleString s 0 []"

definition ErrorR :: "string \<Rightarrow> RESPValue" where
  "ErrorR s = RESPValue TypeError s 0 []"

definition IntegerR :: "int \<Rightarrow> RESPValue" where
  "IntegerR i = RESPValue TypeInteger [] i []"

definition BulkString :: "string \<Rightarrow> RESPValue" where
  "BulkString s = RESPValue TypeBulkString s 0 []"

definition NilR :: RESPValue where
  "NilR = RESPValue TypeNil [] 0 []"

definition ArrayR :: "RESPValue list \<Rightarrow> RESPValue" where
  "ArrayR elements = RESPValue TypeArray [] 0 elements"

lemmas sample_values = SimpleString_def ErrorR_def IntegerR_def BulkString_def NilR_def ArrayR_def

fun Encode_value :: "RESPValue \<Rightarrow> string" where
  "Encode_value (RESPValue t s i elements) =
     (case t of
        TypeSimpleString \<Rightarrow> ''+'' @ s @ crlf
      | TypeError \<Rightarrow> ''-'' @ s @ crlf
      | TypeInteger \<Rightarrow> '':'' @ itoa i @ crlf
      | TypeBulkString \<Rightarrow> ''$'' @ itoa (int (length s)) @ crlf @ s @ crlf
      | TypeNil \<Rightarrow> ''$-1'' @ crlf
      | TypeArray \<Rightarrow> ''*'' @ itoa (int (length elements)) @ crlf @ concat (map Encode_value elements))"

definition readSimpleString :: "rd \<Rightarrow> RESPValue fetch" where
  "readSimpleString r = fetch_then (fetch_line r) (\<lambda>line r1. Fetched (SimpleString (TrimSpace line)) r1)"

definition readError :: "rd \<Rightarrow> RESPValue fetch" where
  "readError r = fetch_then (fetch_line r) (\<lambda>line r1. Fetched (ErrorR (TrimSpace line)) r1)"

definition readInteger :: "rd \<Rightarrow> RESPValue fetch" where
  "readInteger r = fetch_then (fetch_int r) (\<lambda>i r1. Fetched (IntegerR i) r1)"

definition readBulkString :: "rd \<Rightarrow> RESPValue fetch" where
  "readBulkString r =
     fetch_then (fetch_int r) (\<lambda>len r1.
       if len = - 1 then Fetched NilR r1
       else fetch_then (fetch_content len r1) (\<lambda>s r2. Fetched (BulkString s) r2))"

text \<open>
  \<open>Read\<close> calls itself for the elements of an array; \<open>d\<close> bounds how deep arrays are nested, and every
  level has read a byte. \<open>readElements\<close> is the loop of \<open>readArray\<close>.
\<close>

fun Read_within :: "nat \<Rightarrow> rd \<Rightarrow> RESPValue fetch"
  and readElements :: "nat \<Rightarrow> nat \<Rightarrow> rd \<Rightarrow> RESPValue list fetch"
where
  "Read_within 0 r = Waiting"
| "Read_within (Suc d) r =
     fetch_then (fetch_byte r) (\<lambda>b r1.
       if b = CHR ''+'' then readSimpleString r1
       else if b = CHR ''-'' then readError r1
       else if b = CHR '':'' then readInteger r1
       else if b = CHR ''$'' then readBulkString r1
       else if b = CHR ''*''
       then fetch_then (fetch_int r1) (\<lambda>len r2.
              if len = - 1 then Fetched NilR r2
              else if len < 0 then Panicking
              else fetch_then (readElements d (nat len) r2) (\<lambda>es r3. Fetched (ArrayR es) r3))
       else Failing)"
| "readElements d 0 r = Fetched [] r"
| "readElements d (Suc n) r =
     fetch_then (Read_within d r) (\<lambda>e r1. fetch_then (readElements d n r1) (\<lambda>es r2. Fetched (e # es) r2))"

definition Read :: "rd \<Rightarrow> RESPValue fetch" where
  "Read r = Read_within (Suc (rd_size r)) r"

definition ReadCommand :: "rd \<Rightarrow> string list fetch" where
  "ReadCommand r =
     fetch_then (Read r) (\<lambda>v r1.
       if RType v \<noteq> TypeArray then Failing
       else if \<forall>e \<in> set (RArray v). RType e = TypeBulkString then Fetched (map RStr (RArray v)) r1
       else Failing)"

section \<open>The codec for commands\<close>

definition read_argument :: "rd \<Rightarrow> string fetch" where
  "read_argument r =
     fetch_then (fetch_byte r) (\<lambda>b r1.
       if b \<noteq> CHR ''$'' then Failing else fetch_then (fetch_int r1) (\<lambda>len r2. fetch_content len r2))"

fun read_arguments :: "nat \<Rightarrow> rd \<Rightarrow> string list fetch" where
  "read_arguments 0 r = Fetched [] r"
| "read_arguments (Suc n) r =
     fetch_then (read_argument r) (\<lambda>a r1. fetch_then (read_arguments n r1) (\<lambda>as r2. Fetched (a # as) r2))"

definition read_command :: "rd \<Rightarrow> string list fetch" where
  "read_command r =
     fetch_then (fetch_byte r) (\<lambda>b r1.
       if b \<noteq> CHR ''*'' then Failing
       else fetch_then (fetch_int r1) (\<lambda>len r2.
              if len < 0 then Panicking else read_arguments (nat len) r2))"

definition EncodeSimpleString :: "string \<Rightarrow> string" where
  "EncodeSimpleString str = ''+'' @ str @ crlf"

definition EncodeBulkString :: "string \<Rightarrow> string" where
  "EncodeBulkString str = ''$'' @ itoa (int (length str)) @ crlf @ str @ crlf"

definition EncodeNil :: string where
  "EncodeNil = ''$-1'' @ crlf"

definition EncodeError :: "string \<Rightarrow> string" where
  "EncodeError err = ''-'' @ err @ crlf"

definition EncodeInteger :: "int \<Rightarrow> string" where
  "EncodeInteger i = '':'' @ itoa i @ crlf"

definition EncodeArray :: "string list \<Rightarrow> string" where
  "EncodeArray elements =
     (if elements = [] then ''*0'' @ crlf
      else ''*'' @ itoa (int (length elements)) @ crlf @ concat (map EncodeBulkString elements))"

end
