(* ===== verification/Sample_Server.thy ===== *)
theory Sample_Server
  imports Sample_Codec Server_Peer
begin

text \<open>
  The frame of the sample servers (\<open>main.go\<close>, \<open>config.go\<close> and \<open>server.go\<close> of each): the start, the
  accepting of connections, and the goroutine of a connection, which reads a command, has it
  processed, and writes the reply. What the servers differ in is a \<open>program\<close>.
\<close>

section \<open>State\<close>

text \<open>A connection: its input, what was written to it, and what its goroutine was started with.\<close>

record 'c sock =
  inp :: rd
  outp :: sink
  is_open :: bool
  started_with :: 'c

text \<open>A running server: its connections and its own state. A panic ends the process.\<close>

record ('c, 'm) sample =
  Socks :: "nat \<Rightarrow> 'c sock"
  Own :: 'm
  Down :: bool

definition set_sock :: "nat \<Rightarrow> ('c sock \<Rightarrow> 'c sock) \<Rightarrow> ('c, 'm) sample \<Rightarrow> ('c, 'm) sample" where
  "set_sock i f x = x\<lparr>Socks := (Socks x)(i := f (Socks x i))\<rparr>"

text \<open>\<open>conn.Write\<close>, which fails on a closed connection.\<close>

definition conn_write :: "nat \<Rightarrow> string \<Rightarrow> ('c, 'm) sample \<Rightarrow> bool \<times> ('c, 'm) sample" where
  "conn_write i bs x =
     (if \<not> is_open (Socks x i) then (False, x)
      else let (k, ok) = sink_write (outp (Socks x i)) bs in (ok, set_sock i (outp_update (\<lambda>_. k)) x))"

section \<open>The goroutine of a connection\<close>

text \<open>
  How a run of the loop ends: it waits for input, it has returned, or the process has died. A command
  of which a part has not arrived is read again from its beginning when more arrives, which gives the
  same as going on. The first number bounds the commands; each takes at least one byte.
\<close>

datatype ending = AwaitsInput rd | Returned | Died

fun command_loop ::
  "(rd \<Rightarrow> string list fetch) \<Rightarrow> (string list \<Rightarrow> 'x \<Rightarrow> bool \<times> 'x) \<Rightarrow> nat \<Rightarrow> rd \<Rightarrow> 'x \<Rightarrow> ending \<times> 'x"
where
  "command_loop read process 0 r x = (AwaitsInput r, x)"
| "command_loop read process (Suc n) r x =
     (case read r of
        Waiting \<Rightarrow> (AwaitsInput r, x)
      | Failing \<Rightarrow> (Returned, x)
      | Panicking \<Rightarrow> (Died, x)
      | Fetched command r1 \<Rightarrow>
          (case process command x of
             (True, x1) \<Rightarrow> command_loop read process n r1 x1
           | (False, x1) \<Rightarrow> (Returned, x1)))"

definition handleConnection ::
  "(rd \<Rightarrow> string list fetch) \<Rightarrow> (nat \<Rightarrow> string list \<Rightarrow> ('c, 'm) sample \<Rightarrow> bool \<times> ('c, 'm) sample)
    \<Rightarrow> nat \<Rightarrow> ('c, 'm) sample \<Rightarrow> ('c, 'm) sample"
where
  "handleConnection read process i x =
     (let r = inp (Socks x i)
      in case command_loop read (process i) (Suc (rd_size r)) r x of
           (AwaitsInput r1, x1) \<Rightarrow> set_sock i (inp_update (\<lambda>_. r1)) x1
         | (Returned, x1) \<Rightarrow> set_sock i (is_open_update (\<lambda>_. False)) x1
         | (Died, x1) \<Rightarrow> x1\<lparr>Down := True\<rparr>)"

text \<open>The body of the loop where every command is answered.\<close>

definition answer_command ::
  "('c \<Rightarrow> string list \<Rightarrow> 'm \<Rightarrow> string \<times> 'm) \<Rightarrow> nat \<Rightarrow> string list \<Rightarrow> ('c, 'm) sample \<Rightarrow> bool \<times> ('c, 'm) sample"
where
  "answer_command ProcessCommand i command x =
     (let (response, m) = ProcessCommand (started_with (Socks x i)) command (Own x)
      in conn_write i response (x\<lparr>Own := m\<rparr>))"

section \<open>The process\<close>

record ('c, 'm) program =
  config_ok :: "string list \<Rightarrow> bool"
  initially :: 'm
  start_value :: "'m \<Rightarrow> 'c"
  reads_command :: "rd \<Rightarrow> string list fetch"
  on_command :: "nat \<Rightarrow> string list \<Rightarrow> ('c, 'm) sample \<Rightarrow> bool \<times> ('c, 'm) sample"

definition fresh_sock :: "bool \<Rightarrow> 'c \<Rightarrow> 'c sock" where
  "fresh_sock open_now c =
     \<lparr>inp = \<lparr>rbuf = [], rsrc = []\<rparr>, outp = \<lparr>written = [], budget = None\<rparr>, is_open = open_now, started_with = c\<rparr>"

text \<open>\<open>main\<close> and \<open>Start\<close>: a bad configuration or a port in use ends the process.\<close>

definition Start :: "site \<Rightarrow> ('c, 'm) program \<Rightarrow> string list \<Rightarrow> ('c, 'm) sample option" where
  "Start S A args =
     (if config_ok A args \<and> listens (osys S)
      then Some \<lparr>Socks = (\<lambda>_. fresh_sock False (start_value A (initially A))), Own = initially A, Down = False\<rparr>
      else None)"

definition accept_sample :: "('c, 'm) program \<Rightarrow> nat \<Rightarrow> ('c, 'm) sample \<Rightarrow> ('c, 'm) sample option" where
  "accept_sample A i x = (if Down x then None else Some (set_sock i (\<lambda>_. fresh_sock True (start_value A (Own x))) x))"

text \<open>
  What a client writes arrives in one piece. A piece of more than 4096 bytes would be read in several:
  the theorems are about commands that fit.
\<close>

definition receive_bytes :: "('c, 'm) program \<Rightarrow> nat \<Rightarrow> string \<Rightarrow> ('c, 'm) sample \<Rightarrow> ('c, 'm) sample" where
  "receive_bytes A i bs x =
     (if Down x \<or> \<not> is_open (Socks x i) then x
      else handleConnection (reads_command A) (on_command A) i
             (set_sock i (inp_update (\<lambda>r. r\<lparr>rsrc := rsrc r @ [Chunk bs]\<rparr>)) x))"

definition sample_reads :: "site \<Rightarrow> ('c, 'm) sample \<Rightarrow> ('c, 'm) sample \<Rightarrow> nat \<Rightarrow> string list" where
  "sample_reads S x y e =
     segments S (drop (length (written (outp (Socks x e)))) (written (outp (Socks y e))))"

definition sample_peer :: "site \<Rightarrow> ('c, 'm) program \<Rightarrow> ('c, 'm) sample option peer" where
  "sample_peer S A =
     \<lparr>Launch = (\<lambda>args w. Some (Start S A args)),
      Dialled = (\<lambda>i w. None),
      Accept = (\<lambda>i w. case w of None \<Rightarrow> None | Some x \<Rightarrow> map_option Some (accept_sample A i x)),
      Deliver = (\<lambda>i bs w. case w of None \<Rightarrow> (\<lambda>_. [], None)
                 | Some x \<Rightarrow> (sample_reads S x (receive_bytes A i bs x), Some (receive_bytes A i bs x))),
      Elapse = (\<lambda>d w. (\<lambda>_. [], w)),
      Polls = polls S\<rparr>"

lemma sample_peer_fields [simp]:
  "Launch (sample_peer S A) args w = Some (Start S A args)"
  "Accept (sample_peer S A) i (Some x) = map_option Some (accept_sample A i x)"
  "Deliver (sample_peer S A) i bs (Some x) = (sample_reads S x (receive_bytes A i bs x), Some (receive_bytes A i bs x))"
  "Elapse (sample_peer S A) d w = (\<lambda>_. [], w)"
  "Polls (sample_peer S A) = polls S"
  by (simp_all add: sample_peer_def)

text \<open>The flags of \<open>config.go\<close>: a port.\<close>

definition port_flag :: "string \<Rightarrow> string \<Rightarrow> int \<Rightarrow> int option" where
  "port_flag name v port =
     (if name = ''port'' then (case Atoi v of (n, None) \<Rightarrow> Some n | (_, Some _) \<Rightarrow> None) else None)"

definition ParseConfig :: "string list \<Rightarrow> int option" where
  "ParseConfig args = parse_args port_flag args 6379"

end
