(* ===== verification/Sample_Codec_Properties.thy ===== *)
theory Sample_Codec_Properties
  imports Sample_Codec Requests
begin

text \<open>
  The codecs of the sample servers: reading makes progress, a value that arrives in one piece is read
  as it was encoded, and a bulk string that arrives in two pieces is not.
\<close>

section \<open>Progress\<close>

lemma fetch_then_Fetched:
  "fetch_then m f = Fetched y r2 \<longleftrightarrow> (\<exists>x r1. m = Fetched x r1 \<and> f x r1 = Fetched y r2)"
  by (cases m) auto

lemma fetch_then_cong: "(\<And>x r. m = Fetched x r \<Longrightarrow> f x r = g x r) \<Longrightarrow> fetch_then m f = fetch_then m g"
  by (cases m) auto

lemma read_one_size:
  "read_full_src 1 acc es = (b # bs, e, r) \<Longrightarrow>
    rd_size r < length acc + sum_list (map (\<lambda>e. Suc (length (ev_bytes e))) es)"
proof (induction es arbitrary: acc)
  case Nil
  then show ?case by (auto simp: rd_size_def split: if_splits)
next
  case (Cons x es)
  show ?case
  proof (cases "acc = []")
    case True
    with Cons.prems obtain c where c: "x = Chunk c" "read_full_src 1 c es = (b # bs, e, r)" by (cases x) auto
    with Cons.IH[of c] True show ?thesis by simp
  next
    case False
    then have "Suc 0 \<le> length acc" by (cases acc) auto
    with Cons.prems show ?thesis by (auto simp: rd_size_def)
  qed
qed

lemma fetch_byte_size: "fetch_byte r = Fetched b r1 \<Longrightarrow> rd_size r1 < rd_size r"
  using read_one_size[of "rbuf r" "rsrc r"]
  by (auto simp: fetch_byte_def ReadByte_def ReadFull_def rd_size_def split: list.splits option.splits rerr.splits prod.splits)

lemma fetch_line_size: "fetch_line r = Fetched l r1 \<Longrightarrow> rd_size r1 < rd_size r"
  using ReadString_size(2)[of r] by (auto simp: fetch_line_def split: prod.splits option.splits rerr.splits)

lemma fetch_int_size: "fetch_int r = Fetched n r1 \<Longrightarrow> rd_size r1 < rd_size r"
proof -
  assume *: "fetch_int r = Fetched n r1"
  then obtain l r0 where "fetch_line r = Fetched l r0" by (auto simp: fetch_int_def fetch_then_Fetched)
  with * fetch_line_size[OF this] show ?thesis
    by (cases "Atoi (TrimSpace l)") (auto simp: fetch_int_def split: option.splits)
qed

lemma fetch_some_size: "fetch_some n r = Fetched bs r1 \<Longrightarrow> rd_size r1 \<le> rd_size r"
  by (auto simp: fetch_some_def rd_size_def split: if_splits list.splits inev.splits)

lemma fetch_content_size: "fetch_content len r = Fetched s r1 \<Longrightarrow> rd_size r1 < rd_size r"
  by (auto simp: fetch_content_def fetch_then_Fetched split: if_splits
      dest!: fetch_some_size fetch_line_size)

lemmas fetch_sizes = fetch_byte_size fetch_line_size fetch_int_size fetch_content_size

lemma read_parts_size:
  "readSimpleString r = Fetched v r1 \<Longrightarrow> rd_size r1 < rd_size r"
  "readError r = Fetched v r1 \<Longrightarrow> rd_size r1 < rd_size r"
  "readInteger r = Fetched v r1 \<Longrightarrow> rd_size r1 < rd_size r"
  "readBulkString r = Fetched v r1 \<Longrightarrow> rd_size r1 < rd_size r"
  by (auto simp: readSimpleString_def readError_def readInteger_def readBulkString_def fetch_then_Fetched
      split: if_splits dest!: fetch_sizes)

lemma Read_within_size:
  "Read_within d r = Fetched v r1 \<Longrightarrow> rd_size r1 < rd_size r"
  "readElements d n r = Fetched vs r1 \<Longrightarrow> rd_size r1 \<le> rd_size r"
proof (induction d r and d n r arbitrary: v r1 and vs r1 rule: Read_within_readElements.induct)
  case (2 d r)
  from "2.prems" obtain b r0 where b: "fetch_byte r = Fetched b r0" by (auto simp: fetch_then_Fetched)
  from fetch_byte_size[OF b] have "rd_size r0 < rd_size r" .
  moreover have "rd_size r1 < rd_size r0"
    using "2.prems" b "2.IH"
    by (auto simp: fetch_then_Fetched split: if_splits dest!: read_parts_size fetch_int_size) fastforce+
  ultimately show ?case by simp
next
  case (4 d n r)
  then show ?case by (fastforce simp: fetch_then_Fetched)
qed simp_all

lemma ReadCommand_size: "ReadCommand r = Fetched args r1 \<Longrightarrow> rd_size r1 < rd_size r"
proof -
  assume *: "ReadCommand r = Fetched args r1"
  then obtain v r0 where v: "Read_within (Suc (rd_size r)) r = Fetched v r0"
    by (auto simp: ReadCommand_def Read_def fetch_then_Fetched simp del: Read_within.simps)
  with * have "r0 = r1" by (auto simp: ReadCommand_def Read_def simp del: Read_within.simps split: if_splits)
  with Read_within_size(1)[OF v] show ?thesis by simp
qed

lemma read_arguments_size: "read_arguments n r = Fetched args r1 \<Longrightarrow> rd_size r1 \<le> rd_size r"
  by (induction n arbitrary: r args)
    (fastforce simp: read_argument_def fetch_then_Fetched split: if_splits dest: fetch_sizes)+

lemma read_command_size: "read_command r = Fetched args r1 \<Longrightarrow> rd_size r1 < rd_size r"
  by (fastforce simp: read_command_def fetch_then_Fetched split: if_splits dest: fetch_sizes read_arguments_size)

text \<open>The bound on the nesting is never reached, so that \<open>Read\<close> satisfies the equation of the code.\<close>

lemma Read_within_enough:
  "rd_size r < d \<Longrightarrow> rd_size r < e \<Longrightarrow> Read_within d r = Read_within e r"
  "rd_size r < d \<Longrightarrow> rd_size r < e \<Longrightarrow> readElements d n r = readElements e n r"
proof (induction d r and d n r arbitrary: e and e rule: Read_within_readElements.induct)
  case (2 d r)
  from "2.prems" obtain e' where e: "e = Suc e'" by (cases e) auto
  show ?case unfolding e Read_within.simps
  proof (rule fetch_then_cong)
    fix b r1 assume b: "fetch_byte r = Fetched b r1"
    have "fetch_then (readElements d (nat len) r2) (\<lambda>es r3. Fetched (ArrayR es) r3)
        = fetch_then (readElements e' (nat len) r2) (\<lambda>es r3. Fetched (ArrayR es) r3)"
      if "fetch_int r1 = Fetched len r2" "b = CHR ''*''" "len \<noteq> - 1" "\<not> len < 0" for len r2
    proof -
      have "rd_size r2 < d" "rd_size r2 < e'"
        using fetch_byte_size[OF b] fetch_int_size[OF that(1)] "2.prems" e by simp_all
      then have "readElements d (nat len) r2 = readElements e' (nat len) r2" using that by (intro "2.IH") auto
      then show ?thesis by simp
    qed
    then show "(if b = CHR ''+'' then readSimpleString r1 else if b = CHR ''-'' then readError r1
        else if b = CHR '':'' then readInteger r1 else if b = CHR ''$'' then readBulkString r1
        else if b = CHR ''*''
        then fetch_then (fetch_int r1) (\<lambda>len r2. if len = - 1 then Fetched NilR r2 else if len < 0 then Panicking
               else fetch_then (readElements d (nat len) r2) (\<lambda>es r3. Fetched (ArrayR es) r3))
        else Failing)
      = (if b = CHR ''+'' then readSimpleString r1 else if b = CHR ''-'' then readError r1
        else if b = CHR '':'' then readInteger r1 else if b = CHR ''$'' then readBulkString r1
        else if b = CHR ''*''
        then fetch_then (fetch_int r1) (\<lambda>len r2. if len = - 1 then Fetched NilR r2 else if len < 0 then Panicking
               else fetch_then (readElements e' (nat len) r2) (\<lambda>es r3. Fetched (ArrayR es) r3))
        else Failing)"
      by (intro if_cong refl fetch_then_cong) auto
  qed
next
  case (4 d n r)
  show ?case unfolding readElements.simps "4.IH"(1)[OF "4.prems"]
  proof (rule fetch_then_cong)
    fix v r1 assume "Read_within e r = Fetched v r1"
    moreover from this have "rd_size r1 < rd_size r" by (rule Read_within_size)
    ultimately have "readElements d n r1 = readElements e n r1"
      using "4.prems" "4.IH"(1)[OF "4.prems"] by (intro "4.IH"(2)) simp_all
    then show "fetch_then (readElements d n r1) (\<lambda>es r2. Fetched (v # es) r2)
        = fetch_then (readElements e n r1) (\<lambda>es r2. Fetched (v # es) r2)" by simp
  qed
qed simp_all

section \<open>What arrives in one piece\<close>

lemma in_chunk_rbuf [simp]: "in_chunk \<lparr>rbuf = u, rsrc = ds\<rparr> u ds"
  by (simp add: in_chunk_def)

lemma fetch_byte_chunk: "in_chunk r (b # u) ds \<Longrightarrow> fetch_byte r = Fetched b \<lparr>rbuf = u, rsrc = ds\<rparr>"
  by (cases ds) (auto simp: in_chunk_def fetch_byte_def ReadByte_def ReadFull_def)

lemma fetch_line_chunk:
  "in_chunk r (l @ LF # u) ds \<Longrightarrow> LF \<notin> set l \<Longrightarrow> fetch_line r = Fetched (l @ [LF]) \<lparr>rbuf = u, rsrc = ds\<rparr>"
  by (simp add: fetch_line_def ReadString_in_chunk)

lemma fetch_text_chunk:
  assumes "in_chunk r (l @ crlf @ u) ds" "LF \<notin> set l"
  shows "fetch_line r = Fetched (l @ crlf) \<lparr>rbuf = u, rsrc = ds\<rparr>"
  using fetch_line_chunk[of r "l @ [CR]" u ds] assms by (simp add: crlf_def)

lemma fetch_int_chunk:
  "in_chunk r (itoa n @ crlf @ u) ds \<Longrightarrow> in_i64 n \<Longrightarrow> fetch_int r = Fetched n \<lparr>rbuf = u, rsrc = ds\<rparr>"
  by (simp add: fetch_int_def fetch_text_chunk)

lemma fetch_content_chunk:
  "fetch_content (int (length s)) \<lparr>rbuf = s @ crlf @ u, rsrc = ds\<rparr> = Fetched s \<lparr>rbuf = u, rsrc = ds\<rparr>"
  using fetch_text_chunk[of "\<lparr>rbuf = crlf @ u, rsrc = ds\<rparr>" "[]" u ds]
  by (simp add: fetch_content_def fetch_some_def zero_filled_def)

lemmas fetch_chunks = fetch_byte_chunk fetch_content_chunk
  fetch_byte_chunk[OF in_chunk_rbuf] fetch_text_chunk[OF in_chunk_rbuf] fetch_int_chunk[OF in_chunk_rbuf]

text \<open>
  The values the codec carries: texts on one line without space around them, numbers of 64 bits, and
  nothing in the fields the type does not use.
\<close>

fun sound :: "RESPValue \<Rightarrow> bool" where
  "sound (RESPValue t s i es) \<longleftrightarrow>
     (case t of
        TypeSimpleString \<Rightarrow> arg_ok s \<and> i = 0 \<and> es = []
      | TypeError \<Rightarrow> arg_ok s \<and> i = 0 \<and> es = []
      | TypeInteger \<Rightarrow> s = [] \<and> in_i64 i \<and> es = []
      | TypeBulkString \<Rightarrow> in_i64 (int (length s)) \<and> i = 0 \<and> es = []
      | TypeNil \<Rightarrow> s = [] \<and> i = 0 \<and> es = []
      | TypeArray \<Rightarrow> s = [] \<and> i = 0 \<and> in_i64 (int (length es)) \<and> (\<forall>e \<in> set es. sound e))"

lemma Read_within_value:
  assumes "sound v" "in_chunk r (Encode_value v @ u) ds" "rd_size r < d"
  shows "Read_within d r = Fetched v \<lparr>rbuf = u, rsrc = ds\<rparr>"
  using assms
proof (induction v arbitrary: r u d)
  case (RESPValue t s i es)
  from RESPValue.prems(3) obtain d' where d: "d = Suc d'" by (cases d) auto
  have elems: "readElements d' (length xs) \<lparr>rbuf = concat (map Encode_value xs) @ u, rsrc = ds\<rparr> = Fetched xs \<lparr>rbuf = u, rsrc = ds\<rparr>"
    if "set xs \<subseteq> set es" "\<forall>e \<in> set xs. sound e"
      "rd_size \<lparr>rbuf = concat (map Encode_value xs) @ u, rsrc = ds\<rparr> < d'" for xs
    using that
  proof (induction xs)
    case (Cons x xs)
    have "Read_within d' \<lparr>rbuf = concat (map Encode_value (x # xs)) @ u, rsrc = ds\<rparr>
        = Fetched x \<lparr>rbuf = concat (map Encode_value xs) @ u, rsrc = ds\<rparr>"
      using Cons.prems by (intro RESPValue.IH) simp_all
    moreover have "readElements d' (length xs) \<lparr>rbuf = concat (map Encode_value xs) @ u, rsrc = ds\<rparr> = Fetched xs \<lparr>rbuf = u, rsrc = ds\<rparr>"
      using Cons.prems by (intro Cons.IH) (simp_all add: rd_size_def)
    ultimately show ?case by simp
  qed simp
  show ?case
  proof (cases t)
    case TypeArray
    with RESPValue.prems have v: "s = []" "i = 0" "in_i64 (int (length es))" "\<forall>e \<in> set es. sound e"
      "in_chunk r (CHR ''*'' # itoa (int (length es)) @ crlf @ concat (map Encode_value es) @ u) ds" by simp_all
    note b = fetch_byte_chunk[OF v(5)]
    have n: "fetch_int \<lparr>rbuf = itoa (int (length es)) @ crlf @ concat (map Encode_value es) @ u, rsrc = ds\<rparr>
        = Fetched (int (length es)) \<lparr>rbuf = concat (map Encode_value es) @ u, rsrc = ds\<rparr>"
      using v(3) by (intro fetch_int_chunk) simp_all
    have "rd_size \<lparr>rbuf = concat (map Encode_value es) @ u, rsrc = ds\<rparr> < d'"
      using fetch_byte_size[OF b] fetch_int_size[OF n] RESPValue.prems(3) d by simp
    from elems[OF subset_refl v(4) this] b n v(1,2) TypeArray d show ?thesis by (simp add: ArrayR_def)
  next
    case TypeNil
    moreover have "in_chunk r (CHR ''$'' # itoa (- 1) @ crlf @ u) ds"
    proof -
      have "itoa (- 1) = ''-1''" by code_simp
      with RESPValue.prems TypeNil show ?thesis by simp
    qed
    ultimately show ?thesis
      using RESPValue.prems d by (simp add: fetch_chunks readBulkString_def NilR_def in_i64_def del: Encode_value.simps)
  qed (use RESPValue.prems d in \<open>simp_all add: fetch_chunks readSimpleString_def readError_def readInteger_def readBulkString_def
      SimpleString_def ErrorR_def IntegerR_def BulkString_def arg_ok_def arg_ok_trim\<close>)
qed

theorem Read_Encode:
  assumes "sound v" "in_chunk r (Encode_value v @ u) ds"
  shows "Read r = Fetched v \<lparr>rbuf = u, rsrc = ds\<rparr>"
  unfolding Read_def by (rule Read_within_value[OF assms]) simp

text \<open>
  A command arrives as the tester writes it. Up to the 4096 bytes of \<open>bufio\<close>'s buffer it can arrive in
  one piece, which is what \<open>sizes_ok\<close> asks for.
\<close>

definition sizes_ok :: "string list \<Rightarrow> bool" where
  "sizes_ok req \<longleftrightarrow> length (resp_array req) \<le> 4096"

lemma bulks_length: "length req \<le> length (bulks req) \<and> (\<forall>a \<in> set req. length a \<le> length (bulks req))"
  by (induction req) (auto simp: bulks_def bulk_def)

lemma sizes_i64: "sizes_ok req \<Longrightarrow> in_i64 (int (length req)) \<and> (\<forall>a \<in> set req. in_i64 (int (length a)))"
  using bulks_length[of req] by (fastforce simp: sizes_ok_def resp_array_def in_i64_def)

lemma bulks_at_most:
  "sum_list (map length req) < 10000 \<Longrightarrow> length (bulks req) \<le> 9 * length req + sum_list (map length req)"
proof (induction req)
  case (Cons a req)
  then have "length (nat_digits (length a)) \<le> 4" by (intro nat_digits_length[where k = 3, simplified]) simp
  with Cons show ?case by (simp add: bulks_def bulk_def itoa_def crlf_def)
qed (simp add: bulks_def)

lemma sizes_okI: "9 * length req + sum_list (map length req) \<le> 4089 \<Longrightarrow> sizes_ok req"
  using bulks_at_most[of req] nat_digits_length[of "length req" 3]
  by (simp add: sizes_ok_def resp_array_def array_header_def itoa_def crlf_def)

lemma Encode_BulkString: "Encode_value (BulkString a) = bulk a"
  by (simp add: BulkString_def bulk_def)

lemma Encode_command_array: "Encode_value (ArrayR (map BulkString req)) = resp_array req"
  by (simp add: ArrayR_def resp_array_def array_header_def bulks_def Encode_BulkString comp_def)

lemma ReadCommand_request:
  assumes "sizes_ok req" "in_chunk r (resp_array req @ u) ds"
  shows "ReadCommand r = Fetched req \<lparr>rbuf = u, rsrc = ds\<rparr>"
proof -
  let ?v = "ArrayR (map BulkString req)"
  have "sound ?v" using sizes_i64[OF assms(1)] by (simp add: ArrayR_def BulkString_def)
  with assms(2) have "Read r = Fetched ?v \<lparr>rbuf = u, rsrc = ds\<rparr>" by (intro Read_Encode) (simp_all add: Encode_command_array)
  then show ?thesis by (simp add: ReadCommand_def ArrayR_def BulkString_def comp_def)
qed

lemma read_argument_chunk:
  assumes "in_i64 (int (length a))"
  shows "read_argument \<lparr>rbuf = bulk a @ u, rsrc = ds\<rparr> = Fetched a \<lparr>rbuf = u, rsrc = ds\<rparr>"
  using assms by (simp add: read_argument_def bulk_def fetch_chunks)

lemma read_arguments_chunk:
  "\<forall>a \<in> set as. in_i64 (int (length a)) \<Longrightarrow>
    read_arguments (length as) \<lparr>rbuf = bulks as @ u, rsrc = ds\<rparr> = Fetched as \<lparr>rbuf = u, rsrc = ds\<rparr>"
  by (induction as) (simp_all add: read_argument_chunk)

lemma read_command_request:
  assumes "sizes_ok req" "in_chunk r (resp_array req @ u) ds"
  shows "read_command r = Fetched req \<lparr>rbuf = u, rsrc = ds\<rparr>"
proof -
  have "in_chunk r (CHR ''*'' # itoa (int (length req)) @ crlf @ bulks req @ u) ds"
    using assms(2) by (simp add: resp_array_def array_header_def)
  then show ?thesis
    using sizes_i64[OF assms(1)] by (simp add: read_command_def fetch_chunks read_arguments_chunk[of req])
qed

section \<open>What arrives in two pieces\<close>

text \<open>
  C37: Both codecs read the content of a bulk string with one \<open>Read\<close>. When the connection has only a first
  part \<open>a\<close> of it yet, the rest \<open>b\<close> is taken for the line end, and the argument has zeros in its place; the
  next command is read as if nothing had happened.
\<close>

theorem split_bulk_string:
  assumes "in_i64 (int (length (a @ b)))" "a \<noteq> []" "LF \<notin> set b"
  shows "read_argument \<lparr>rbuf = ''$'' @ itoa (int (length (a @ b))) @ crlf @ a, rsrc = Chunk (b @ crlf @ u) # ds\<rparr>
      = Fetched (a @ replicate (length b) (CHR 0x00)) \<lparr>rbuf = u, rsrc = ds\<rparr> \<and>
    Read \<lparr>rbuf = ''$'' @ itoa (int (length (a @ b))) @ crlf @ a, rsrc = Chunk (b @ crlf @ u) # ds\<rparr>
      = Fetched (BulkString (a @ replicate (length b) (CHR 0x00))) \<lparr>rbuf = u, rsrc = ds\<rparr>"
proof -
  let ?ds = "Chunk (b @ crlf @ u) # ds" and ?n = "int (length (a @ b))"
  have first: "fetch_byte \<lparr>rbuf = ''$'' @ itoa ?n @ crlf @ a, rsrc = ?ds\<rparr> = Fetched CHR ''$'' \<lparr>rbuf = itoa ?n @ crlf @ a, rsrc = ?ds\<rparr>"
    by (rule fetch_byte_chunk) simp
  have size: "fetch_int \<lparr>rbuf = itoa ?n @ crlf @ a, rsrc = ?ds\<rparr> = Fetched ?n \<lparr>rbuf = a, rsrc = ?ds\<rparr>"
    using assms(1) by (intro fetch_int_chunk) simp_all
  have "fetch_line \<lparr>rbuf = [], rsrc = ?ds\<rparr> = Fetched (b @ crlf) \<lparr>rbuf = u, rsrc = ds\<rparr>"
    using assms(3) by (intro fetch_text_chunk) (simp_all add: in_chunk_def)
  then have "fetch_content ?n \<lparr>rbuf = a, rsrc = ?ds\<rparr> = Fetched (a @ replicate (length b) (CHR 0x00)) \<lparr>rbuf = u, rsrc = ds\<rparr>"
    using assms(2) by (simp add: fetch_content_def fetch_some_def zero_filled_def nat_int_add)
  with first size show ?thesis by (simp add: read_argument_def Read_def readBulkString_def)
qed

lemma split_bulk_string_example:
  "read_argument \<lparr>rbuf = ''$5'' @ crlf @ ''pe'', rsrc = [Chunk (''ach'' @ crlf)]\<rparr>
    = Fetched (''pe'' @ [CHR 0x00, CHR 0x00, CHR 0x00]) \<lparr>rbuf = [], rsrc = []\<rparr>"
proof -
  have size: "in_i64 (int (length (''pe'' @ ''ach'')))" and line: "LF \<notin> set ''ach''"
    by (simp_all add: in_i64_def)
  have digits: "itoa 5 = ''5''" by (simp add: itoa_def nat_digits.simps digit_def)
  from split_bulk_string[OF size _ line, of "[]" "[]"] digits show ?thesis by simp
qed

end
