(* ===== verification/Sample_Logic.thy ===== *)
theory Sample_Logic
  imports Sample_Server Sample_Codec_Properties Stage_Logic
begin

text \<open>
  The sample servers as the other side of the tester's scripts. \<open>request_reader\<close> is what the frame needs
  of a codec, and both codecs interpret it; a \<open>sample_server\<close> is then an instance of \<open>answering\<close>,
  \<open>starting\<close> and \<open>accepting\<close>, whatever it does with a command.
\<close>

section \<open>Reading requests\<close>

abbreviation empty_rd :: rd where
  "empty_rd \<equiv> \<lparr>rbuf = [], rsrc = []\<rparr>"

locale request_reader =
  fixes read :: "rd \<Rightarrow> string list fetch"
  assumes request: "sizes_ok req \<Longrightarrow> read \<lparr>rbuf = [], rsrc = [Chunk (resp_array req)]\<rparr> = Fetched req empty_rd"
    and idle: "read empty_rd = Waiting"
    and progress: "read r = Fetched command r1 \<Longrightarrow> rd_size r1 < rd_size r"
begin

text \<open>The bound of the loop is never what ends it.\<close>

lemma command_loop_enough:
  "rd_size r < n \<Longrightarrow> rd_size r < k \<Longrightarrow> command_loop read process n r x = command_loop read process k r x"
proof (induction n arbitrary: r x k)
  case (Suc n)
  then obtain k' where k: "k = Suc k'" by (cases k) auto
  have "command_loop read process n r1 x1 = command_loop read process k' r1 x1" if "read r = Fetched command r1" for command r1 x1
    using progress[OF that] Suc.prems k by (intro Suc.IH) simp_all
  then show ?case by (auto simp: k split: fetch.splits prod.splits bool.splits)
qed simp

lemma command_loop_request:
  assumes "sizes_ok req" "rd_size \<lparr>rbuf = [], rsrc = [Chunk (resp_array req)]\<rparr> < n"
  shows "command_loop read process n \<lparr>rbuf = [], rsrc = [Chunk (resp_array req)]\<rparr> x
    = (if fst (process req x) then AwaitsInput empty_rd else Returned, snd (process req x))"
proof -
  obtain k where n: "n = Suc (Suc k)" using assms(2) by (cases n; cases "n - 1") (auto simp: rd_size_def)
  show ?thesis unfolding n by (simp add: request[OF assms(1)] idle split: prod.splits bool.splits)
qed

end

lemma codec_idle: "ReadCommand empty_rd = Waiting" "read_command empty_rd = Waiting"
  by (simp_all add: ReadCommand_def Read_def read_command_def fetch_byte_def ReadByte_def ReadFull_def)

interpretation values_codec: request_reader ReadCommand
  by unfold_locales
    (use ReadCommand_request[of _ _ "[]" "[]"] codec_idle ReadCommand_size in \<open>auto simp: in_chunk_def\<close>)

interpretation commands_codec: request_reader read_command
  by unfold_locales
    (use read_command_request[of _ _ "[]" "[]"] codec_idle read_command_size in \<open>auto simp: in_chunk_def\<close>)

section \<open>The frame\<close>

lemma set_sock_simps [simp]:
  "Socks (set_sock i f x) e = (if e = i then f (Socks x i) else Socks x e)"
  "Own (set_sock i f x) = Own x" "Down (set_sock i f x) = Down x"
  by (simp_all add: set_sock_def)

text \<open>A connection whose goroutine waits for a command, with nothing read of it.\<close>

definition attentive :: "nat \<Rightarrow> ('c, 'm) sample \<Rightarrow> bool" where
  "attentive i x \<longleftrightarrow> \<not> Down x \<and> is_open (Socks x i) \<and> inp (Socks x i) = empty_rd \<and> budget (outp (Socks x i)) = None"

definition sample_serves :: "nat \<Rightarrow> ('c, 'm) sample \<Rightarrow> ('c, 'm) sample option \<Rightarrow> bool" where
  "sample_serves i s w \<longleftrightarrow> w = Some s \<and> attentive i s"

text \<open>What a command that arrives on it leads to.\<close>

definition sample_answers :: "('c, 'm) program \<Rightarrow> nat \<Rightarrow> string list \<Rightarrow> ('c, 'm) sample \<Rightarrow> string \<Rightarrow> ('c, 'm) sample \<Rightarrow> bool" where
  "sample_answers A i req s bs t \<longleftrightarrow>
     (\<exists>t0. on_command A i req (set_sock i (inp_update (\<lambda>_. \<lparr>rbuf = [], rsrc = [Chunk (resp_array req)]\<rparr>)) s) = (True, t0) \<and>
       t = set_sock i (inp_update (\<lambda>_. empty_rd)) t0) \<and>
     attentive i t \<and> written (outp (Socks t i)) = written (outp (Socks s i)) @ bs"

definition sample_fresh :: "('c, 'm) program \<Rightarrow> nat \<Rightarrow> ('c, 'm) sample \<Rightarrow> bool" where
  "sample_fresh A i s \<longleftrightarrow> Own s = initially A \<and> started_with (Socks s i) = start_value A (initially A)"

locale sample_server = request_reader "reads_command A" for A :: "('c, 'm) program" and S :: site
begin

lemma receive_command:
  assumes "attentive i s" "sizes_ok req"
    "on_command A i req (set_sock i (inp_update (\<lambda>_. \<lparr>rbuf = [], rsrc = [Chunk (resp_array req)]\<rparr>)) s) = (True, t)"
  shows "receive_bytes A i (resp_array req) s = set_sock i (inp_update (\<lambda>_. empty_rd)) t"
proof -
  let ?r = "\<lparr>rbuf = [], rsrc = [Chunk (resp_array req)]\<rparr>"
  let ?s = "set_sock i (inp_update (\<lambda>_. ?r)) s"
  have "set_sock i (inp_update (\<lambda>r. r\<lparr>rsrc := rsrc r @ [Chunk (resp_array req)]\<rparr>)) s = ?s"
    using assms(1) by (cases "Socks s i") (simp add: attentive_def set_sock_def)
  then show ?thesis
    using assms(1,3) command_loop_request[OF assms(2), of "Suc (rd_size ?r)" "on_command A i" ?s]
    by (simp add: receive_bytes_def handleConnection_def attentive_def)
qed

lemma receive_request:
  assumes "attentive i s" "sizes_ok req" "sample_answers A i req s bs t"
  shows "receive_bytes A i (resp_array req) s = t"
  using receive_command[OF assms(1,2)] assms(3) by (auto simp: sample_answers_def)

lemma start_fresh:
  assumes "fresh_site S" "config_ok A args"
  obtains x where "Start S A args = Some x" "\<not> Down x" "Own x = initially A"
  using assms that by (simp add: Start_def fresh_site_def)

end

text \<open>What accepting a connection changes.\<close>

abbreviation greeted :: "('c, 'm) program \<Rightarrow> nat \<Rightarrow> ('c, 'm) sample \<Rightarrow> ('c, 'm) sample" where
  "greeted A i s \<equiv> set_sock i (\<lambda>_. fresh_sock True (start_value A (Own s))) s"

lemma attentive_greeted [simp]: "\<not> Down s \<Longrightarrow> attentive i (greeted A i s)"
  by (simp add: attentive_def fresh_sock_def)

lemma accept_greeted: "\<not> Down s \<Longrightarrow> accept_sample A i s = Some (greeted A i s)"
  by (simp add: accept_sample_def)

sublocale sample_server \<subseteq> answering "sample_peer S A" sample_serves
  "\<lambda>i req s v t. good_site S \<and> sizes_ok req \<and> sample_answers A i req s (wire v) t"
proof
  fix i s w req v t
  assume "sample_serves i s w" and a: "good_site S \<and> sizes_ok req \<and> sample_answers A i req s (wire v) t"
  then have s: "w = Some s" "attentive i s" by (simp_all add: sample_serves_def)
  have r: "receive_bytes A i (resp_array req) s = t" using receive_request[OF s(2)] a by blast
  have "sample_reads S s t i = segments S (wire v)" "attentive i t" using a by (simp_all add: sample_reads_def sample_answers_def)
  with a s(1) r show "\<exists>rs w'. Deliver (sample_peer S A) i (resp_array req) w = (rs, w') \<and> concat (rs i) = wire v \<and>
      [] \<notin> set (rs i) \<and> length (rs i) \<le> Polls (sample_peer S A) \<and> sample_serves i t w'"
    by (simp add: good_site_def sample_serves_def)
qed

sublocale sample_server \<subseteq> starting "sample_peer S A" sample_serves
  "\<lambda>i req s v t. good_site S \<and> sizes_ok req \<and> sample_answers A i req s (wire v) t" "\<lambda>args. fresh_site S \<and> config_ok A args" "sample_fresh A"
proof
  fix args w i assume "fresh_site S \<and> config_ok A args"
  then obtain x where x: "Start S A args = Some x" "\<not> Down x" "Own x = initially A" using start_fresh by blast
  let ?g = "greeted A i x"
  have "Launch (sample_peer S A) args w = Some (Some x)" "Accept (sample_peer S A) i (Some x) = Some (Some ?g)"
    "sample_serves i ?g (Some ?g)" "sample_fresh A i ?g"
    using x by (simp_all add: accept_greeted sample_serves_def sample_fresh_def fresh_sock_def attentive_def)
  then show "\<exists>w0. Launch (sample_peer S A) args w = Some w0 \<and>
      (\<exists>w1 s. Accept (sample_peer S A) i w0 = Some w1 \<and> sample_serves i s w1 \<and> sample_fresh A i s)" by blast
qed

sublocale sample_server \<subseteq> accepting "sample_peer S A" sample_serves
  "\<lambda>i req s v t. good_site S \<and> sizes_ok req \<and> sample_answers A i req s (wire v) t" "\<lambda>j s t. t = greeted A j s"
proof
  fix i j s w t assume "sample_serves i s w" "t = greeted A j s"
  then show "\<exists>w'. Accept (sample_peer S A) j w = Some w' \<and> sample_serves j t w'"
    by (auto simp: sample_serves_def attentive_def accept_greeted fresh_sock_def)
qed

section \<open>Many clients\<close>

text \<open>The clients of the bench from \<open>m\<close> on are connected to the server, and nothing is under way.\<close>

definition linked :: "nat \<Rightarrow> ('c, 'm) sample \<Rightarrow> ('c, 'm) sample option bench \<Rightarrow> bool" where
  "linked m x b \<longleftrightarrow> Remote b = Some x \<and> \<not> Down x \<and>
     (\<forall>i. m \<le> i \<longrightarrow> i < clientsSpawned b \<longrightarrow> attentive i x \<and> quiet (Clients b i))"

lemma spawn_linked:
  assumes "linked m x b"
  obtains b' x' where "SpawnClients (sample_peer S A) k b = (Passed, b')" "linked m x' b'" "Own x' = Own x"
    "clientsSpawned b' = clientsSpawned b + k"
  using assms
proof (induction k arbitrary: x b thesis)
  case 0
  then show ?case by (simp add: SpawnClients_def)
next
  case (Suc k)
  let ?i = "clientsSpawned b"
  let ?x = "greeted A ?i x"
  let ?b = "(with_client ?i new_client b)\<lparr>clientsSpawned := ?i + 1, Remote := Some ?x\<rparr>"
  have "spawnClient (sample_peer S A) b = (Passed, ?b)"
    using Suc.prems(2) by (simp add: linked_def spawnClient_def accept_greeted)
  moreover have "linked m ?x ?b"
    using Suc.prems(2) by (auto simp: linked_def with_client_def attentive_def fresh_sock_def less_Suc_eq)
  then obtain b' x' where "SpawnClients (sample_peer S A) k ?b = (Passed, b')" "linked m x' b'" "Own x' = Own ?x"
    "clientsSpawned b' = clientsSpawned ?b + k"
    using Suc.IH by blast
  ultimately show ?case by (intro Suc.prems(1)[of b' x']) (simp_all add: SpawnClients_def)
qed

text \<open>The tester sends the names of commands in upper case.\<close>

lemma lower_letters [simp]:
  "to_lower_char CHR ''A'' = CHR ''a''"
  "to_lower_char CHR ''B'' = CHR ''b''"
  "to_lower_char CHR ''C'' = CHR ''c''"
  "to_lower_char CHR ''D'' = CHR ''d''"
  "to_lower_char CHR ''E'' = CHR ''e''"
  "to_lower_char CHR ''F'' = CHR ''f''"
  "to_lower_char CHR ''G'' = CHR ''g''"
  "to_lower_char CHR ''H'' = CHR ''h''"
  "to_lower_char CHR ''I'' = CHR ''i''"
  "to_lower_char CHR ''J'' = CHR ''j''"
  "to_lower_char CHR ''K'' = CHR ''k''"
  "to_lower_char CHR ''L'' = CHR ''l''"
  "to_lower_char CHR ''M'' = CHR ''m''"
  "to_lower_char CHR ''N'' = CHR ''n''"
  "to_lower_char CHR ''O'' = CHR ''o''"
  "to_lower_char CHR ''P'' = CHR ''p''"
  "to_lower_char CHR ''Q'' = CHR ''q''"
  "to_lower_char CHR ''R'' = CHR ''r''"
  "to_lower_char CHR ''S'' = CHR ''s''"
  "to_lower_char CHR ''T'' = CHR ''t''"
  "to_lower_char CHR ''U'' = CHR ''u''"
  "to_lower_char CHR ''V'' = CHR ''v''"
  "to_lower_char CHR ''W'' = CHR ''w''"
  "to_lower_char CHR ''X'' = CHR ''x''"
  "to_lower_char CHR ''Y'' = CHR ''y''"
  "to_lower_char CHR ''Z'' = CHR ''z''"
  by (simp_all add: to_lower_char_def char_of_def bit_0)

section \<open>Servers that answer every command\<close>

text \<open>The tester's connection \<open>i\<close> was started with \<open>c\<close>, and the server's own state is \<open>m\<close>.\<close>

abbreviation speaking :: "'c \<Rightarrow> 'm \<Rightarrow> nat \<Rightarrow> ('c, 'm) sample option bench \<Rightarrow> bool" where
  "speaking c m i b \<equiv> \<exists>s. attended sample_serves i s b \<and> started_with (Socks s i) = c \<and> Own s = m"

locale command_server = sample_server A S for A :: "('c, 'm) program" and S +
  fixes ProcessCommand :: "'c \<Rightarrow> string list \<Rightarrow> 'm \<Rightarrow> string \<times> 'm"
  assumes answers_all: "on_command A = answer_command ProcessCommand"
begin

lemma answers_command:
  assumes "attentive i s" "ProcessCommand (started_with (Socks s i)) req (Own s) = (bs, m)"
  obtains t where "sample_answers A i req s bs t" "started_with (Socks t i) = started_with (Socks s i)" "Own t = m"
proof -
  let ?r = "\<lparr>rbuf = [], rsrc = [Chunk (resp_array req)]\<rparr>"
  let ?f = "outp_update (\<lambda>k. k\<lparr>written := written k @ bs\<rparr>)"
  let ?t = "set_sock i ?f (s\<lparr>Own := m\<rparr>)"
  have "on_command A i req (set_sock i (inp_update (\<lambda>_. ?r)) s)
      = (True, set_sock i (inp_update (\<lambda>_. ?r)) ?t)"
    using assms unfolding answers_all
    by (cases "Socks s i") (simp add: answer_command_def conn_write_def sink_write_def attentive_def set_sock_def)
  moreover have "set_sock i (inp_update (\<lambda>_. empty_rd)) (set_sock i (inp_update (\<lambda>_. ?r)) ?t) = ?t"
    using assms(1) by (cases "Socks s i") (simp add: attentive_def set_sock_def)
  ultimately have "sample_answers A i req s bs ?t"
    using assms(1) by (auto simp: sample_answers_def attentive_def)
  then show thesis by (rule that) simp_all
qed

lemma command_answered:
  assumes "good_site S" "sizes_ok (ToUpper cmd # args)" "ProcessCommand c (ToUpper cmd # args) m = (wire v, m')"
    "sample_serves i s w" "started_with (Socks s i) = c \<and> Own s = m"
  obtains t where "good_site S \<and> sizes_ok (ToUpper cmd # args) \<and> sample_answers A i (ToUpper cmd # args) s (wire v) t"
    "started_with (Socks t i) = c \<and> Own t = m'"
proof -
  have s: "attentive i s" "ProcessCommand (started_with (Socks s i)) (ToUpper cmd # args) (Own s) = (wire v, m')"
    using assms(3-5) by (simp_all add: sample_serves_def)
  show thesis by (rule answers_command[OF s]) (use assms that in simp)
qed

lemma step_passes:
  assumes "good_site S" "sizes_ok (ToUpper cmd # args)" "ProcessCommand c (ToUpper cmd # args) m = (wire v, m')"
    "wire_ok v" "snd (J v) = Pass"
  shows "passes (speaking c m i) (send_case (sample_peer S A) cmd args J i) (speaking c m' i)"
  using command_answered[OF assms(1-3)] assms(4,5) by (intro send_case_passes) metis

lemma run_ends:
  assumes "good_site S" "sizes_ok (ToUpper (Command tc) # Args tc)"
    "ProcessCommand c (ToUpper (Command tc) # Args tc) m = (wire v, m')" "wire_ok v" "judged (Assertion tc v) = r" "Retries tc = 0"
  shows "ends (speaking c m i) (SendCommandTestCase_Run (sample_peer S A) tc i) r"
  using command_answered[OF assms(1-3)] assms(4-6) by (intro run_case_ends) metis+

lemma step_ends:
  assumes "good_site S" "sizes_ok (ToUpper cmd # args)" "ProcessCommand c (ToUpper cmd # args) m = (wire v, m')"
    "wire_ok v" "judged (J v) = r"
  shows "ends (speaking c m i) (send_case (sample_peer S A) cmd args J i) r"
  by (rule run_ends) (use assms in \<open>simp_all add: send_command_def\<close>)

lemma caught:
  assumes "fresh_site S" "config_ok A args" "\<And>i. ends (speaking (start_value A (initially A)) (initially A) i) (k i) r"
  shows "fst (run_program (sample_peer S A) args (one_client (sample_peer S A) k) b) = r"
  by (rule stage_ends[OF conjI[OF assms(1,2)]], rule ends_weaken[OF assms(3)]) (auto simp: sample_fresh_def)

lemma next_connection_ends:
  assumes "\<And>j. ends (speaking (start_value A m) m j) (k j) r"
  shows "ends (speaking c m i) (one_client (sample_peer S A) k) r"
  by (rule next_client_ends[where R = "\<lambda>j s. started_with (Socks s j) = start_value A m \<and> Own s = m"])
    (use assms in \<open>auto simp: fresh_sock_def\<close>)

end

end
