(* ===== verification/Sample_Auth.thy ===== *)
theory Sample_Auth
  imports Sample_Server Sha256
begin

text \<open>
  The four sample servers on users (\<open>auth\_always\_nopass\_flag\<close>, \<open>auth\_mistake\_literal\_password\<close>,
  \<open>auth\_mistake\_sha256\<close>, \<open>auth\_acl\_whoami\_wrong\_error\_pattern\<close>), each with its command processor. A
  processor takes what the connection was started with, the command and the server's state, and gives
  the reply and the new state.
\<close>

type_synonym ('c, 'm) processor = "'c \<Rightarrow> string list \<Rightarrow> 'm \<Rightarrow> string \<times> 'm"

definition error_reply :: "string \<Rightarrow> string" where
  "error_reply s = Encode_value (ErrorR s)"

unbundle bit_operations_syntax

section \<open>\<open>nopass\<close> whatever was set\<close>

definition nopass_handleSetuser :: "string list \<Rightarrow> string" where
  "nopass_handleSetuser args = Encode_value (SimpleString ''OK'')"

definition nopass_handleAclGetUser :: "string list \<Rightarrow> string" where
  "nopass_handleAclGetUser args =
     Encode_value (ArrayR [BulkString ''flags'', ArrayR [BulkString ''nopass''], BulkString ''passwords'', ArrayR []])"

definition nopass_handleAcl :: "string list \<Rightarrow> string" where
  "nopass_handleAcl args =
     (case args of
        [] \<Rightarrow> error_reply ''ERR wrong number of arguments for 'acl' command''
      | a # as \<Rightarrow>
          (let subcommand = ToLower a
           in if subcommand = ''getuser'' then nopass_handleAclGetUser as
              else if subcommand = ''setuser'' then nopass_handleSetuser as
              else error_reply (''ERR unknown ACL subcommand '' @ [CHR 0x27] @ subcommand @ [CHR 0x27])))"

definition nopass_ProcessCommand :: "(unit, unit) processor" where
  "nopass_ProcessCommand _ args m =
     (case args of
        [] \<Rightarrow> error_reply ''ERR no command provided''
      | a # as \<Rightarrow>
          (let command = ToLower a
           in if command = ''acl'' then nopass_handleAcl as
              else error_reply (''ERR unknown command '' @ [CHR 0x27] @ command @ [CHR 0x27])), m)"

definition nopass_server :: "(unit, unit) program" where
  "nopass_server =
     \<lparr>config_ok = (\<lambda>args. ParseConfig args \<noteq> None), initially = (), start_value = (\<lambda>_. ()),
      reads_command = ReadCommand, on_command = answer_command nopass_ProcessCommand\<rparr>"

section \<open>A field called \<open>password\<close>\<close>

definition literal_handleAclGetUser :: "string list \<Rightarrow> string" where
  "literal_handleAclGetUser args =
     Encode_value (ArrayR [BulkString ''flags'', ArrayR [BulkString ''nopass''], BulkString ''password'', ArrayR []])"

definition literal_handleAcl :: "string list \<Rightarrow> string" where
  "literal_handleAcl args =
     (case args of
        [] \<Rightarrow> error_reply ''ERR wrong number of arguments for 'acl' command''
      | a # as \<Rightarrow>
          (let subcommand = ToLower a
           in if subcommand = ''getuser'' then literal_handleAclGetUser as
              else error_reply (''ERR unknown ACL subcommand '' @ [CHR 0x27] @ subcommand @ [CHR 0x27])))"

definition literal_ProcessCommand :: "(unit, unit) processor" where
  "literal_ProcessCommand _ args m =
     (case args of
        [] \<Rightarrow> error_reply ''ERR no command provided''
      | a # as \<Rightarrow>
          (let command = ToLower a
           in if command = ''acl'' then literal_handleAcl as
              else error_reply (''ERR unknown command '' @ [CHR 0x27] @ command @ [CHR 0x27])), m)"

definition literal_server :: "(unit, unit) program" where
  "literal_server =
     \<lparr>config_ok = (\<lambda>args. ParseConfig args \<noteq> None), initially = (), start_value = (\<lambda>_. ()),
      reads_command = ReadCommand, on_command = answer_command literal_ProcessCommand\<rparr>"

section \<open>SHA-1 for SHA-256\<close>

text \<open>\<open>crypto/sha1.Sum\<close> (FIPS 180-4).\<close>

definition sha1_init :: "w32 list" where
  "sha1_init = [0x67452301, 0xefcdab89, 0x98badcfe, 0x10325476, 0xc3d2e1f0]"

definition rotl :: "nat \<Rightarrow> w32 \<Rightarrow> w32" where
  "rotl n x = push_bit n x OR drop_bit (32 - n) x"

fun sha1_schedule :: "nat \<Rightarrow> w32 list \<Rightarrow> w32 list" where
  "sha1_schedule 0 w = w"
| "sha1_schedule (Suc n) w =
     (let t = length w
      in sha1_schedule n (w @ [rotl 1 (w ! (t - 3) XOR w ! (t - 8) XOR w ! (t - 14) XOR w ! (t - 16))]))"

definition sha1_round :: "w32 \<times> w32 \<times> w32 \<times> w32 \<times> w32 \<Rightarrow> nat \<times> w32 \<Rightarrow> w32 \<times> w32 \<times> w32 \<times> w32 \<times> w32" where
  "sha1_round s tw =
     (case s of (a, b, c, d, e) \<Rightarrow>
        let (f, k) = (if fst tw < 20 then ((b AND c) OR (NOT b AND d), 0x5a827999)
                      else if fst tw < 40 then (b XOR c XOR d, 0x6ed9eba1)
                      else if fst tw < 60 then ((b AND c) OR (b AND d) OR (c AND d), 0x8f1bbcdc)
                      else (b XOR c XOR d, 0xca62c1d6))
        in (rotl 5 a + f + e + k + snd tw, a, rotl 30 b, c, d))"

definition sha1_block :: "w32 list \<Rightarrow> w32 list \<Rightarrow> w32 list" where
  "sha1_block hs w =
     (let (a, b, c, d, e) = foldl sha1_round (hs ! 0, hs ! 1, hs ! 2, hs ! 3, hs ! 4) (enumerate 0 (sha1_schedule 64 w))
      in map2 (+) hs [a, b, c, d, e])"

fun sha1_blocks :: "nat \<Rightarrow> w32 list \<Rightarrow> w32 list \<Rightarrow> w32 list" where
  "sha1_blocks 0 hs ws = hs"
| "sha1_blocks (Suc n) hs ws = sha1_blocks n (sha1_block hs (take 16 ws)) (drop 16 ws)"

definition sha1_Sum :: "string \<Rightarrow> string" where
  "sha1_Sum m =
     (let ws = be_words (sha_pad m)
      in concat (map (\<lambda>w. be_bytes 4 (unat w)) (sha1_blocks (length ws div 16) sha1_init ws)))"

text \<open>\<open>users.go\<close>; a user is reached through a pointer, so that a password that is added is added in the store.\<close>

record sample_user =
  passwords :: "string list"
  nopass :: bool

type_synonym user_store = "string \<rightharpoonup> sample_user"

definition hashPassword :: "string \<Rightarrow> string" where
  "hashPassword password = EncodeToString (sha1_Sum password)"

definition CreateUser :: "string \<Rightarrow> user_store \<Rightarrow> user_store" where
  "CreateUser username users = users(username \<mapsto> \<lparr>passwords = [], nopass = True\<rparr>)"

definition GetOrCreateUser :: "string \<Rightarrow> user_store \<Rightarrow> user_store" where
  "GetOrCreateUser username users = (if users username = None then CreateUser username users else users)"

definition AddPassword :: "string \<Rightarrow> sample_user \<Rightarrow> sample_user" where
  "AddPassword password u = u\<lparr>passwords := passwords u @ [hashPassword password], nopass := False\<rparr>"

definition sha1_handleAclGetUser :: "string list \<Rightarrow> user_store \<Rightarrow> string" where
  "sha1_handleAclGetUser args users =
     (case args of
        [] \<Rightarrow> error_reply ''ERR wrong number of arguments for 'acl getuser' command''
      | username # _ \<Rightarrow>
          (let user = users username;
               flagsArray = (case user of Some u \<Rightarrow> if nopass u then [BulkString ''nopass''] else [] | None \<Rightarrow> [BulkString ''nopass'']);
               passwordsArray = (case user of Some u \<Rightarrow> map BulkString (passwords u) | None \<Rightarrow> [])
           in Encode_value (ArrayR [BulkString ''flags'', ArrayR flagsArray, BulkString ''passwords'', ArrayR passwordsArray])))"

definition apply_rule :: "string \<Rightarrow> string \<Rightarrow> user_store \<Rightarrow> user_store" where
  "apply_rule username arg users =
     (if HasPrefix arg ''>'' then users(username := map_option (AddPassword (tl arg)) (users username)) else users)"

definition sha1_handleAclSetUser :: "string list \<Rightarrow> user_store \<Rightarrow> string \<times> user_store" where
  "sha1_handleAclSetUser args users =
     (case args of
        [] \<Rightarrow> (error_reply ''ERR wrong number of arguments for 'acl setuser' command'', users)
      | username # rules \<Rightarrow>
          (Encode_value (SimpleString ''OK''), fold (apply_rule username) rules (GetOrCreateUser username users)))"

definition sha1_handleAcl :: "string list \<Rightarrow> user_store \<Rightarrow> string \<times> user_store" where
  "sha1_handleAcl args users =
     (case args of
        [] \<Rightarrow> (error_reply ''ERR wrong number of arguments for 'acl' command'', users)
      | a # as \<Rightarrow>
          (let subcommand = ToLower a
           in if subcommand = ''getuser'' then (sha1_handleAclGetUser as users, users)
              else if subcommand = ''setuser'' then sha1_handleAclSetUser as users
              else (error_reply (''ERR unknown ACL subcommand '' @ [CHR 0x27] @ subcommand @ [CHR 0x27]), users)))"

definition sha1_ProcessCommand :: "(unit, user_store) processor" where
  "sha1_ProcessCommand _ args users =
     (case args of
        [] \<Rightarrow> (error_reply ''ERR no command provided'', users)
      | a # as \<Rightarrow>
          (let command = ToLower a
           in if command = ''acl'' then sha1_handleAcl as users
              else (error_reply (''ERR unknown command '' @ [CHR 0x27] @ command @ [CHR 0x27]), users)))"

definition sha1_server :: "(unit, user_store) program" where
  "sha1_server =
     \<lparr>config_ok = (\<lambda>args. ParseConfig args \<noteq> None), initially = Map.empty, start_value = (\<lambda>_. ()),
      reads_command = ReadCommand, on_command = answer_command sha1_ProcessCommand\<rparr>"

section \<open>A refusal that begins wrongly\<close>

text \<open>
  The state tells whether the default user has got a password; a connection accepted before that is
  the default user's.
\<close>

definition whoami_handleSetuser :: "string list \<Rightarrow> bool \<Rightarrow> string \<times> bool" where
  "whoami_handleSetuser args defaultUserHasPassword = (Encode_value (SimpleString ''OK''), True)"

definition whoami_handleWhoami :: "bool \<Rightarrow> string" where
  "whoami_handleWhoami connIsDefault =
     (if connIsDefault then Encode_value (BulkString ''default'')
      else Encode_value (ErrorR ''NOAUTHAuthentication required.''))"

definition whoami_handleAcl :: "string list \<Rightarrow> bool \<Rightarrow> bool \<Rightarrow> string \<times> bool" where
  "whoami_handleAcl args connIsDefault defaultUserHasPassword =
     (case args of
        [] \<Rightarrow> (error_reply ''ERR wrong number of arguments for 'acl' command'', defaultUserHasPassword)
      | a # as \<Rightarrow>
          (let subcommand = ToLower a
           in if subcommand = ''setuser'' then whoami_handleSetuser as defaultUserHasPassword
              else if subcommand = ''whoami'' then (whoami_handleWhoami connIsDefault, defaultUserHasPassword)
              else (error_reply (''ERR unknown ACL subcommand '' @ [CHR 0x27] @ subcommand @ [CHR 0x27]),
                    defaultUserHasPassword)))"

definition whoami_ProcessCommand :: "(bool, bool) processor" where
  "whoami_ProcessCommand connIsDefault args defaultUserHasPassword =
     (case args of
        [] \<Rightarrow> (error_reply ''ERR no command provided'', defaultUserHasPassword)
      | a # as \<Rightarrow>
          (let command = ToLower a
           in if command = ''ping'' then (Encode_value (SimpleString ''PONG''), defaultUserHasPassword)
              else if command = ''acl'' then whoami_handleAcl as connIsDefault defaultUserHasPassword
              else (error_reply (''ERR unknown command '' @ [CHR 0x27] @ command @ [CHR 0x27]), defaultUserHasPassword)))"

definition whoami_server :: "(bool, bool) program" where
  "whoami_server =
     \<lparr>config_ok = (\<lambda>args. ParseConfig args \<noteq> None), initially = False,
      start_value = (\<lambda>defaultUserHasPassword. \<not> defaultUserHasPassword),
      reads_command = ReadCommand, on_command = answer_command whoami_ProcessCommand\<rparr>"

end
