(* ===== verification/Sample_Auth_Stages.thy ===== *)
theory Sample_Auth_Stages
  imports Sample_Logic Sample_Auth Auth_Stages
begin

text \<open>
  The sample servers on users do not pass the stages they were written for, and the tester says why:
  each ends with the failure that its output, kept under \<open>fixtures/auth\<close>, reports.
\<close>

section \<open>Replies\<close>

text \<open>The values of the servers' codec as the tester's library has them; both are written alike.\<close>

fun value_of :: "RESPValue \<Rightarrow> Value" where
  "value_of (RESPValue t s i es) =
     (case t of
        TypeSimpleString \<Rightarrow> NewSimpleStringValue s
      | TypeError \<Rightarrow> NewErrorValue s
      | TypeInteger \<Rightarrow> NewIntegerValue i
      | TypeBulkString \<Rightarrow> NewBulkStringValue s
      | TypeNil \<Rightarrow> NewNilValue
      | TypeArray \<Rightarrow> NewArrayValue (map value_of es))"

lemma Encode_value_wire: "Encode_value v = wire (value_of v)"
proof (induction v)
  case (RESPValue t s i es)
  then have "concat (map Encode_value es) = concat (map wire (map value_of es))"
    unfolding map_map comp_def by (intro arg_cong[where f = concat] map_cong) simp_all
  then show ?case by (simp split: RESPType.split)
qed

lemma value_of_values [simp]:
  "value_of (SimpleString s) = NewSimpleStringValue s" "value_of (ErrorR s) = NewErrorValue s"
  "value_of (BulkString s) = NewBulkStringValue s" "value_of (ArrayR es) = NewArrayValue (map value_of es)"
  by (simp_all add: sample_values)

interpretation nopass: command_server nopass_server S nopass_ProcessCommand for S
  by unfold_locales
    (use values_codec.request_reader_axioms in \<open>auto simp: nopass_server_def request_reader_def\<close>)

interpretation literal: command_server literal_server S literal_ProcessCommand for S
  by unfold_locales
    (use values_codec.request_reader_axioms in \<open>auto simp: literal_server_def request_reader_def\<close>)

interpretation sha1: command_server sha1_server S sha1_ProcessCommand for S
  by unfold_locales
    (use values_codec.request_reader_axioms in \<open>auto simp: sha1_server_def request_reader_def\<close>)

interpretation whoami: command_server whoami_server S whoami_ProcessCommand for S
  by unfold_locales
    (use values_codec.request_reader_axioms in \<open>auto simp: whoami_server_def request_reader_def\<close>)

lemma sample_configs:
  "config_ok nopass_server []" "config_ok literal_server []" "config_ok sha1_server []" "config_ok whoami_server []"
  by (simp_all add: nopass_server_def literal_server_def sha1_server_def whoami_server_def ParseConfig_def)

section \<open>Commands\<close>

lemma lower_words:
  "ToLower ''ACL'' = ''acl''" "ToLower ''GETUSER'' = ''getuser''" "ToLower ''SETUSER'' = ''setuser''" "ToLower ''WHOAMI'' = ''whoami''"
  by simp_all

lemma upper_acl: "ToUpper ''ACL'' = ''ACL''"
  by simp

lemma acl_sizes:
  "sizes_ok [ToUpper ''ACL'', ''WHOAMI'']" "sizes_ok [ToUpper ''ACL'', ''GETUSER'', ''default'']"
  "length p \<le> 4000 \<Longrightarrow> sizes_ok [ToUpper ''ACL'', ''SETUSER'', ''default'', CHR ''>'' # p]"
  by (simp_all add: sizes_okI)

lemmas sample_replies = Encode_value_wire upper_acl lower_words user_value_def NewStringArrayValue_def default_user_def

lemma nopass_commands:
  "nopass_ProcessCommand c [ToUpper ''ACL'', ''GETUSER'', ''default''] m = (wire (user_value default_user), m)"
  "nopass_ProcessCommand c [ToUpper ''ACL'', ''SETUSER'', ''default'', p] m = (wire (NewSimpleStringValue ''OK''), m)"
  by (simp_all add: nopass_ProcessCommand_def nopass_handleAcl_def nopass_handleAclGetUser_def nopass_handleSetuser_def
      sample_replies del: wire_constructors)

definition misnamed :: Value where
  "misnamed = NewArrayValue [NewBulkStringValue ''flags'', NewArrayValue [NewBulkStringValue ''nopass''],
     NewBulkStringValue ''password'', NewArrayValue []]"

lemma literal_commands:
  "literal_ProcessCommand c [ToUpper ''ACL'', ''GETUSER'', ''default''] m = (wire misnamed, m)"
  by (simp add: literal_ProcessCommand_def literal_handleAcl_def literal_handleAclGetUser_def misnamed_def
      sample_replies del: wire_constructors)

definition hashed_user :: "string \<Rightarrow> sample_user" where
  "hashed_user p = AddPassword p \<lparr>passwords = [], nopass = True\<rparr>"

lemma sha1_commands:
  "sha1_ProcessCommand c [ToUpper ''ACL'', ''GETUSER'', ''default''] Map.empty = (wire (user_value default_user), Map.empty)"
  "sha1_ProcessCommand c [ToUpper ''ACL'', ''SETUSER'', ''default'', CHR ''>'' # p] Map.empty
    = (wire (NewSimpleStringValue ''OK''), [''default'' \<mapsto> hashed_user p])"
  "sha1_ProcessCommand c [ToUpper ''ACL'', ''GETUSER'', ''default''] [''default'' \<mapsto> hashed_user p]
    = (wire (user_value \<lparr>Passwords = [hashPassword p], Flags = []\<rparr>), [''default'' \<mapsto> hashed_user p])"
  by (simp_all add: sha1_ProcessCommand_def sha1_handleAcl_def sha1_handleAclGetUser_def sha1_handleAclSetUser_def
      apply_rule_def GetOrCreateUser_def CreateUser_def hashed_user_def AddPassword_def sample_replies del: wire_constructors)

lemma whoami_commands:
  "whoami_ProcessCommand c [ToUpper ''ACL'', ''SETUSER'', ''default'', p] m = (wire (NewSimpleStringValue ''OK''), True)"
  "whoami_ProcessCommand True [ToUpper ''ACL'', ''WHOAMI''] m = (wire (NewBulkStringValue ''default''), m)"
  "whoami_ProcessCommand False [ToUpper ''ACL'', ''WHOAMI''] m = (wire (NewErrorValue ''NOAUTHAuthentication required.''), m)"
  by (simp_all add: whoami_ProcessCommand_def whoami_handleAcl_def whoami_handleSetuser_def whoami_handleWhoami_def
      sample_replies del: wire_constructors)

section \<open>Verdicts\<close>

abbreviation ask_nopass :: "string RESPAssertion" where
  "ask_nopass \<equiv> ArrayElementsAssertion (flag_assertions [''nopass''] [] @ password_assertions [])"

abbreviation ask_password :: "string \<Rightarrow> string RESPAssertion" where
  "ask_password p \<equiv> ArrayElementsAssertion (flag_assertions [] [''nopass''] @ password_assertions [p])"

lemma getuser_asks:
  "AclGetuserTestCase P ''default'' (Some [''nopass'']) None (Some []) = send_case P ''ACL'' [''GETUSER'', ''default''] ask_nopass"
  "AclGetuserTestCase P ''default'' None (Some [''nopass'']) (Some [p]) = send_case P ''ACL'' [''GETUSER'', ''default''] (ask_password p)"
  by (simp_all add: AclGetuserTestCase_def)

lemmas verdict_simps = ArrayElementsAssertion_def flag_assertions_def password_assertions_def element_spec_def hooked_def
  run_element_def and_also_verdict hook_def assertion_defs user_value_def default_user_def NewStringArrayValue_def
  BulkStringPresentInArrayAssertion_def BulkStringAbsentFromArrayAssertion_def

lemma nopass_verdicts:
  "snd (ask_nopass (user_value default_user)) = Pass"
  "snd (ask_password p (user_value default_user)) = Fail (StringPresent ''nopass'')"
  "snd (ask_nopass misnamed) = Fail (WrongText ''passwords'' ''password'')"
  by (simp_all add: verdict_simps misnamed_def)

text \<open>A SHA-1 hash has 40 digits, so it is no SHA-256 hash, whatever the password.\<close>

lemma sha1_blocks_length: "length hs = 5 \<Longrightarrow> length (sha1_blocks n hs ws) = 5"
  by (induction n hs ws rule: sha1_blocks.induct) (simp_all add: sha1_block_def split: prod.splits)

lemma hashPassword_length: "length (hashPassword p) = 40"
  using sha1_blocks_length[of sha1_init]
  by (simp add: hashPassword_def sha1_Sum_def hex_length words_length Let_def sha1_init_def)

lemma sha1_verdict:
  "snd (ask_password p (user_value \<lparr>Passwords = [hashPassword p], Flags = []\<rparr>))
    = Fail (WrongElement 1 (password_hash p) (hashPassword p))"
proof -
  have *: "password_hash p \<noteq> hashPassword p" using password_hash_length[of p] hashPassword_length[of p] by auto
  show ?thesis using * not_sym[OF *] by (simp add: verdict_simps password_hash_def)
qed

lemma whoami_verdict:
  "judged (PrefixAndSubstringsAssertion ERROR True (Some (error_prefix ''NOAUTH '')) []
      (NewErrorValue ''NOAUTHAuthentication required.'') :: string report)
    = Failed (Mismatch (NoPrefix ERROR ''NOAUTH '' True ''NOAUTHAuthentication required.''))"
  by (simp add: judged_def PrefixAndSubstringsAssertion_def IsValueOfDataTypeStoredAsByteSlice_def assertion_defs
      error_prefix_def check_prefix_def trailing_space_def CutSuffix_def HasSuffix_def)

section \<open>Stages\<close>

lemma reply_ok:
  "wire_ok (NewSimpleStringValue ''OK'')" "wire_ok (NewErrorValue ''NOAUTHAuthentication required.'')" "wire_ok misnamed"
  "wire_ok (user_value default_user)" "wire_ok (NewBulkStringValue ''default'')"
  "wire_ok (user_value \<lparr>Passwords = [hashPassword p], Flags = []\<rparr>)"
  using hashPassword_length[of p]
  by (simp_all add: HasPrefix_def crlf_def misnamed_def user_value_def default_user_def NewStringArrayValue_def value_constructors in_i64_def)

lemma judged_fail: "snd r = Fail f \<Longrightarrow> judged r = Failed (Mismatch f)"
  by (cases r) simp

lemma nopass_caught:
  assumes "fresh_site S" "length p \<le> 4000"
  shows "fst (testSetUserPassword (sample_peer S nopass_server) p b) = Failed (Mismatch (StringPresent ''nopass''))"
proof -
  have S: "good_site S" using assms(1) by (simp add: fresh_site_def)
  note first = nopass.step_passes[where J = ask_nopass, OF S acl_sizes(2) nopass_commands(1) reply_ok(4) nopass_verdicts(1)]
  note set = nopass.step_passes[OF S acl_sizes(3)[OF assms(2)] nopass_commands(2) reply_ok(1)]
  note last = nopass.step_ends[where J = "ask_password p", OF S acl_sizes(2) nopass_commands(1) reply_ok(4) judged_fail[OF nopass_verdicts(2)]]
  show ?thesis
    unfolding testSetUserPassword_def getuser_asks AclSetuserTestCase_def list.map append.simps
    by (rule nopass.caught[OF assms(1) sample_configs(1)], rule ends_Cons[OF first ends_Cons[OF set ends_first[OF last]]]) simp_all
qed

lemma literal_caught:
  assumes "fresh_site S"
  shows "fst (testGetUserPasswordsRetrieval (sample_peer S literal_server) b) = Failed (Mismatch (WrongText ''passwords'' ''password''))"
proof -
  have S: "good_site S" using assms by (simp add: fresh_site_def)
  show ?thesis
    unfolding testGetUserPasswordsRetrieval_def getuser_asks
    by (rule literal.caught[OF assms sample_configs(2)],
        rule literal.step_ends[where J = ask_nopass, OF S acl_sizes(2) literal_commands reply_ok(3) judged_fail[OF nopass_verdicts(3)]])
qed

lemma sha1_caught:
  assumes "fresh_site S" "length p \<le> 4000"
  shows "fst (testSetUserPassword (sample_peer S sha1_server) p b)
    = Failed (Mismatch (WrongElement 1 (password_hash p) (hashPassword p)))"
proof -
  have S: "good_site S" using assms(1) by (simp add: fresh_site_def)
  note first = sha1.step_passes[where J = ask_nopass, OF S acl_sizes(2) sha1_commands(1) reply_ok(4) nopass_verdicts(1)]
  note set = sha1.step_passes[OF S acl_sizes(3)[OF assms(2)] sha1_commands(2) reply_ok(1)]
  note last = sha1.step_ends[where J = "ask_password p", OF S acl_sizes(2) sha1_commands(3) reply_ok(6) judged_fail[OF sha1_verdict]]
  show ?thesis
    unfolding testSetUserPassword_def getuser_asks AclSetuserTestCase_def list.map append.simps
    by (rule sha1.caught[OF assms(1) sample_configs(3)], unfold sha1_server_def program.simps,
        rule ends_Cons[OF first ends_Cons[OF set ends_first[OF last]], unfolded sha1_server_def program.simps]) simp_all
qed

lemma whoami_start:
  "initially whoami_server = False" "start_value whoami_server False = True" "start_value whoami_server True = False"
  by (simp_all add: whoami_server_def)

lemma whoami_caught:
  assumes "fresh_site S" "length p \<le> 4000"
  shows "fst (testdefaultUserAuthentication (sample_peer S whoami_server) p b)
    = Failed (Mismatch (NoPrefix ERROR ''NOAUTH '' True ''NOAUTHAuthentication required.''))"
proof -
  have S: "good_site S" using assms(1) by (simp add: fresh_site_def)
  note set = whoami.step_passes[where J = "SimpleStringAssertion ''OK''", OF S acl_sizes(3)[OF assms(2)] whoami_commands(1) reply_ok(1) expected_pass(1)]
  note ask = whoami.step_passes[where J = "BulkStringAssertion ''default''", OF S acl_sizes(1) whoami_commands(2) reply_ok(5) expected_pass(2)]
  note last = whoami.step_ends[where
      J = "PrefixAndSubstringsAssertion ERROR True (Some (error_prefix ''NOAUTH '')) []", OF S acl_sizes(1) whoami_commands(3) reply_ok(2) whoami_verdict]
  note second = whoami.next_connection_ends[where m = True, unfolded whoami_start, OF last]
  show ?thesis
    unfolding testdefaultUserAuthentication_def AclSetuserTestCase_def AclWhoamiTestCase_def AclWhoamiErrorTestCase_def list.map append.simps
    by (rule whoami.caught[OF assms(1) sample_configs(4), unfolded whoami_start],
        rule ends_proceed[OF passes_Cons[OF set passes_Cons[OF ask passes_Nil]] second])
qed

text \<open>
  C35: The four sample servers on users fail the tester's stages they were written for, whatever the
  password (so long that the command fits the servers' buffer), each with one failure: a \<open>nopass\<close> flag that should have gone, a field called \<open>password\<close>,
  a SHA-1 hash where the SHA-256 hash is expected, and a refusal that begins with \<open>NOAUTH\<close> but without
  the space after it, which the failure mentions.
\<close>

theorem sample_users_caught:
  assumes "fresh_site S" "length p \<le> 4000"
  shows "fst (testSetUserPassword (sample_peer S nopass_server) p b1) = Failed (Mismatch (StringPresent ''nopass'')) \<and>
    fst (testGetUserPasswordsRetrieval (sample_peer S literal_server) b2) = Failed (Mismatch (WrongText ''passwords'' ''password'')) \<and>
    fst (testSetUserPassword (sample_peer S sha1_server) p b3)
      = Failed (Mismatch (WrongElement 1 (password_hash p) (hashPassword p))) \<and>
    fst (testdefaultUserAuthentication (sample_peer S whoami_server) p b4)
      = Failed (Mismatch (NoPrefix ERROR ''NOAUTH '' True ''NOAUTHAuthentication required.''))"
  using nopass_caught[OF assms] literal_caught[OF assms(1)] sha1_caught[OF assms] whoami_caught[OF assms] by blast

lemma sample_users_caught_example:
  "fst (testSetUserPassword (sample_peer local_site nopass_server) ''secret''
     \<lparr>Clients = \<lambda>_. new_client, clientsSpawned = 0, Remote = None\<rparr>) = Failed (Mismatch (StringPresent ''nopass''))"
proof -
  have "length ''secret'' \<le> 4000" by simp
  from sample_users_caught[OF fresh_local_site this, THEN conjunct1] show ?thesis .
qed

end
