(* ===== verification/Sample_Psync.thy ===== *)
theory Sample_Psync
  imports Sample_Server
begin

text \<open>
  The sample server \<open>repl\_fullresync\_wrong\_pattern\<close>, a master whose answer to \<open>PSYNC\<close> has a replication
  id that is too short.
\<close>

section \<open>\<open>config.go\<close>\<close>

record sample_config =
  Port :: int
  ReplicaOf :: "(string \<times> int) option"

text \<open>The flags as they are given, then what \<open>ParseConfig\<close> makes of \<open>replicaof\<close>; \<open>None\<close> is its error.\<close>

definition psync_flag :: "string \<Rightarrow> string \<Rightarrow> int \<times> string \<Rightarrow> (int \<times> string) option" where
  "psync_flag name v F =
     (if name = ''port'' then (case Atoi v of (n, None) \<Rightarrow> Some (n, snd F) | (_, Some _) \<Rightarrow> None)
      else if name = ''replicaof'' then Some (fst F, v)
      else None)"

definition psync_ParseConfig :: "string list \<Rightarrow> sample_config option" where
  "psync_ParseConfig args =
     (case parse_args psync_flag args (6379, []) of
        None \<Rightarrow> None
      | Some (port, replicaOf) \<Rightarrow>
          if replicaOf = [] then Some \<lparr>Port = port, ReplicaOf = None\<rparr>
          else let parts = Fields replicaOf
               in if length parts \<noteq> 2 then None
                  else case Atoi (parts ! 1) of
                         (_, Some _) \<Rightarrow> None
                       | (replicaPort, None) \<Rightarrow> Some \<lparr>Port = port, ReplicaOf = Some (parts ! 0, replicaPort)\<rparr>)"

section \<open>\<open>commands.go\<close>\<close>

definition psync_handleReplConf :: "string list \<Rightarrow> string" where
  "psync_handleReplConf args =
     (case args of
        [] \<Rightarrow> EncodeError ''ERR wrong number of arguments for 'replconf' command''
      | a # _ \<Rightarrow>
          (let subcommand = ToLower a
           in if subcommand = ''listening-port'' then EncodeSimpleString ''OK''
              else if subcommand = ''capa'' then EncodeSimpleString ''OK''
              else EncodeError ''ERR unsupported REPLCONF subcommand''))"

definition psync_handlePsync :: "string list \<Rightarrow> string" where
  "psync_handlePsync args =
     (if length args \<noteq> 2 then EncodeError ''ERR wrong number of arguments for 'psync' command''
      else if args ! 0 \<noteq> ''?'' \<or> args ! 1 \<noteq> ''-1'' then EncodeError ''ERR only full resync is supported''
      else EncodeSimpleString ''FULLRESYNC 4d3e1bc3e18c 0'')"

definition psync_ProcessCommand :: "unit \<Rightarrow> string list \<Rightarrow> unit \<Rightarrow> string \<times> unit" where
  "psync_ProcessCommand _ args m =
     (case args of
        [] \<Rightarrow> EncodeError ''ERR no command provided''
      | a # as \<Rightarrow>
          (let command = ToLower a
           in if command = ''ping'' then EncodeSimpleString ''PONG''
              else if command = ''replconf'' then psync_handleReplConf as
              else if command = ''psync'' then psync_handlePsync as
              else EncodeError (''ERR unknown command '' @ [CHR 0x27] @ command @ [CHR 0x27])), m)"

definition psync_server :: "(unit, unit) program" where
  "psync_server =
     \<lparr>config_ok = (\<lambda>args. psync_ParseConfig args \<noteq> None), initially = (), start_value = (\<lambda>_. ()),
      reads_command = read_command, on_command = answer_command psync_ProcessCommand\<rparr>"

end
