(* ===== verification/Sample_Psync_Stages.thy ===== *)
theory Sample_Psync_Stages
  imports Sample_Logic Sample_Psync Basic_Stages
begin

text \<open>
  The sample master with the short replication id passes the handshake up to \<open>PSYNC\<close>, and the tester
  rejects its answer to that.
\<close>

interpretation psync: command_server psync_server S psync_ProcessCommand for S
  by unfold_locales
    (use commands_codec.request_reader_axioms in \<open>auto simp: psync_server_def request_reader_def\<close>)

lemma psync_words:
  "ToUpper ''PING'' = ''PING''" "ToUpper ''REPLCONF'' = ''REPLCONF''" "ToUpper ''PSYNC'' = ''PSYNC''"
  "ToLower ''PING'' = ''ping''" "ToLower ''REPLCONF'' = ''replconf''" "ToLower ''PSYNC'' = ''psync''"
  "ToLower ''listening-port'' = ''listening-port''" "ToLower ''capa'' = ''capa''"
  by (simp_all; simp add: to_lower_char_def)+

lemma psync_commands:
  "psync_ProcessCommand c [ToUpper ''PING''] m = (wire (NewSimpleStringValue ''PONG''), m)"
  "psync_ProcessCommand c [ToUpper ''REPLCONF'', ''listening-port'', p] m = (wire (NewSimpleStringValue ''OK''), m)"
  "psync_ProcessCommand c [ToUpper ''REPLCONF'', ''capa'', ''psync2''] m = (wire (NewSimpleStringValue ''OK''), m)"
  "psync_ProcessCommand c [ToUpper ''PSYNC'', ''?'', ''-1''] m = (wire (NewSimpleStringValue ''FULLRESYNC 4d3e1bc3e18c 0''), m)"
  by (simp_all add: psync_ProcessCommand_def psync_handleReplConf_def psync_handlePsync_def psync_words EncodeSimpleString_def del: ToLower.simps ToUpper.simps)

lemma psync_sizes:
  "sizes_ok [ToUpper ''PING'']" "sizes_ok [ToUpper ''REPLCONF'', ''listening-port'', ''6380'']"
  "sizes_ok [ToUpper ''REPLCONF'', ''capa'', ''psync2'']" "sizes_ok [ToUpper ''PSYNC'', ''?'', ''-1'']"
  by (simp_all add: sizes_okI)

lemma psync_verdict:
  "judged (RegexAssertion SIMPLE_STRING fullresync_pattern ''FULLRESYNC 8371b4fb1155b71f4a04d3e1bc3e18c4a990aeeb 0''
      (NewSimpleStringValue ''FULLRESYNC 4d3e1bc3e18c 0'') :: string report)
    = Failed (Mismatch (NoMatch ''FULLRESYNC 8371b4fb1155b71f4a04d3e1bc3e18c4a990aeeb 0'' ''FULLRESYNC 4d3e1bc3e18c 0''))"
  by code_simp

lemma psync_wire_ok:
  "wire_ok (NewSimpleStringValue ''PONG'')" "wire_ok (NewSimpleStringValue ''OK'')"
  "wire_ok (NewSimpleStringValue ''FULLRESYNC 4d3e1bc3e18c 0'')"
  by (simp_all add: HasPrefix_def crlf_def)

text \<open>
  The sample master with the short replication id answers the tester's handshake up to \<open>PSYNC\<close> and
  then fails the stage: the tester's pattern does not match what it answers.
\<close>

lemma sample_psync_caught:
  assumes "fresh_site S"
  shows "fst (testReplMasterPsync (sample_peer S psync_server) b)
    = Failed (Mismatch (NoMatch ''FULLRESYNC 8371b4fb1155b71f4a04d3e1bc3e18c4a990aeeb 0'' ''FULLRESYNC 4d3e1bc3e18c 0''))"
proof -
  have S: "good_site S" using assms by (simp add: fresh_site_def)
  have port: "itoa 6380 = ''6380''" by (simp add: itoa_def digit_def nat_digits.simps)
  have config: "config_ok psync_server [''--port'', ''6379'']"
    using Atoi_itoa[of 6379] by (simp add: psync_server_def psync_ParseConfig_def psync_flag_def itoa_def digit_def nat_digits.simps in_i64_def)
  note ok = expected_pass(1)[of "''OK''"]
  note ping = psync.step_passes[where J = "SimpleStringAssertion ''PONG''", OF S psync_sizes(1) psync_commands(1) psync_wire_ok(1) expected_pass(1)]
  note port_step = psync.step_passes[where J = "SimpleStringAssertion ''OK''", OF S psync_sizes(2) psync_commands(2) psync_wire_ok(2) ok]
  note capa_step = psync.step_passes[where J = "SimpleStringAssertion ''OK''", OF S psync_sizes(3) psync_commands(3) psync_wire_ok(2) ok]
  have last: "ends (speaking c m i) (SendHandshake_RunPsyncStep (sample_peer S psync_server) i)
      (Failed (Mismatch (NoMatch ''FULLRESYNC 8371b4fb1155b71f4a04d3e1bc3e18c4a990aeeb 0'' ''FULLRESYNC 4d3e1bc3e18c 0'')))" for c m i
    unfolding SendHandshake_RunPsyncStep_def
    by (rule psync.run_ends[OF S]) (use psync_sizes(4) psync_commands(4) psync_verdict psync_wire_ok(3) in \<open>simp_all add: send_command_def\<close>)
  show ?thesis
    unfolding testReplMasterPsync_def SendHandshake_RunPingStep_def SendHandshake_RunReplconfStep_def port
    by (rule psync.caught[OF assms config], rule ends_Cons[OF ping ends_Cons[OF passes_proceed[OF port_step capa_step] ends_first[OF last]]]) simp
qed

lemma sample_psync_caught_example:
  "fst (testReplMasterPsync (sample_peer local_site psync_server) \<lparr>Clients = \<lambda>_. new_client, clientsSpawned = 0, Remote = None\<rparr>)
    \<noteq> Passed"
  unfolding sample_psync_caught[OF fresh_local_site] by simp

end
