(* ===== verification/Sample_Blpop.thy ===== *)
theory Sample_Blpop
  imports Sample_Server
begin

text \<open>
  The sample server \<open>blpop-all-clients\<close>, which hands the element that a \<open>RPUSH\<close> brings to every client
  that waits in \<open>BLPOP\<close>. A lock protects each of its parts during one operation, which is one step here.
\<close>

section \<open>\<open>store.go\<close>\<close>

type_synonym list_store = "string \<rightharpoonup> string list"

definition Store_Delete :: "string \<Rightarrow> list_store \<Rightarrow> list_store" where
  "Store_Delete key s = s(key := None)"

definition Store_Exists :: "string \<Rightarrow> list_store \<Rightarrow> bool" where
  "Store_Exists key s \<longleftrightarrow> s key \<noteq> None"

definition Store_RPush :: "string \<Rightarrow> string list \<Rightarrow> list_store \<Rightarrow> int \<times> list_store" where
  "Store_RPush key values s =
     (case s key of
        None \<Rightarrow> (int (length values), s(key \<mapsto> values))
      | Some es \<Rightarrow> (int (length (es @ values)), s(key \<mapsto> es @ values)))"

definition Store_LPop :: "string \<Rightarrow> list_store \<Rightarrow> string option \<times> list_store" where
  "Store_LPop key s =
     (case s key of
        None \<Rightarrow> (None, s)
      | Some [] \<Rightarrow> (None, s)
      | Some (value # es) \<Rightarrow> (Some value, if es = [] then Store_Delete key s else s(key \<mapsto> es)))"

section \<open>\<open>blocking.go\<close>\<close>

text \<open>The waiting connections, all for the key that was named last.\<close>

record blocking_state =
  store :: list_store
  waiting_key :: string
  waiters :: "nat list"

definition WaitForElement :: "string \<Rightarrow> nat \<Rightarrow> blocking_state \<Rightarrow> blocking_state" where
  "WaitForElement key conn m = m\<lparr>waiting_key := key, waiters := waiters m @ [conn]\<rparr>"

text \<open>A write that fails is ignored.\<close>

definition NotifyAllWaiters :: "string \<Rightarrow> (unit, blocking_state) sample \<Rightarrow> (unit, blocking_state) sample" where
  "NotifyAllWaiters key x =
     (let m = Own x
      in if waiting_key m \<noteq> key then x
         else case Store_LPop key (store m) of
                (None, _) \<Rightarrow> x
              | (Some value, s) \<Rightarrow>
                  if waiters m = [] then x\<lparr>Own := m\<lparr>store := s\<rparr>\<rparr>
                  else let response = EncodeArray [key, value];
                           x1 = fold (\<lambda>conn x. snd (conn_write conn response x)) (waiters m) (x\<lparr>Own := m\<lparr>store := s\<rparr>\<rparr>)
                       in x1\<lparr>Own := (Own x1)\<lparr>waiters := [], waiting_key := []\<rparr>\<rparr>)"

section \<open>\<open>commands.go\<close>\<close>

definition blpop_handleEcho :: "string list \<Rightarrow> string" where
  "blpop_handleEcho args =
     (case args of [] \<Rightarrow> EncodeError ''ERR wrong number of arguments for 'echo' command'' | a # _ \<Rightarrow> EncodeBulkString a)"

definition blpop_handleRPush :: "string list \<Rightarrow> blocking_state \<Rightarrow> string \<times> blocking_state" where
  "blpop_handleRPush args m =
     (case args of
        key # v # vs \<Rightarrow> (let (n, s) = Store_RPush key (v # vs) (store m) in (EncodeInteger n, m\<lparr>store := s\<rparr>))
      | _ \<Rightarrow> (EncodeError ''ERR wrong number of arguments for 'rpush' command'', m))"

text \<open>\<open>None\<close>: no reply now.\<close>

definition blpop_handleBLPop :: "string list \<Rightarrow> nat \<Rightarrow> blocking_state \<Rightarrow> string option \<times> blocking_state" where
  "blpop_handleBLPop args conn m =
     (case args of
        key # timeoutStr # _ \<Rightarrow>
          (case Atoi timeoutStr of
             (_, Some _) \<Rightarrow> (Some (EncodeError ''ERR timeout is not an integer or out of range''), m)
           | (timeout, None) \<Rightarrow>
               if timeout \<noteq> 0 then (Some (EncodeError ''ERR timeout not supported yet''), m)
               else (case Store_LPop key (store m) of
                       (Some value, s) \<Rightarrow> (Some (EncodeArray [key, value]), m\<lparr>store := s\<rparr>)
                     | (None, s) \<Rightarrow> (None, WaitForElement key conn (m\<lparr>store := s\<rparr>))))
      | _ \<Rightarrow> (Some (EncodeError ''ERR wrong number of arguments for 'blpop' command''), m))"

definition blpop_ProcessCommand :: "string list \<Rightarrow> nat \<Rightarrow> blocking_state \<Rightarrow> string option \<times> blocking_state" where
  "blpop_ProcessCommand args conn m =
     (case args of
        [] \<Rightarrow> (Some (EncodeError ''ERR no command provided''), m)
      | a # as \<Rightarrow>
          (let command = ToLower a
           in if command = ''ping'' then (Some (EncodeSimpleString ''PONG''), m)
              else if command = ''echo'' then (Some (blpop_handleEcho as), m)
              else if command = ''rpush'' then apfst Some (blpop_handleRPush as m)
              else if command = ''blpop'' then blpop_handleBLPop as conn m
              else (Some (EncodeError (''ERR unknown command '' @ [CHR 0x27] @ command @ [CHR 0x27])), m)))"

section \<open>\<open>server.go\<close>\<close>

definition blpop_command :: "nat \<Rightarrow> string list \<Rightarrow> (unit, blocking_state) sample \<Rightarrow> bool \<times> (unit, blocking_state) sample" where
  "blpop_command conn command x =
     (let (response, m) = blpop_ProcessCommand command conn (Own x);
          (ok, x1) = (case response of None \<Rightarrow> (True, x\<lparr>Own := m\<rparr>) | Some bs \<Rightarrow> conn_write conn bs (x\<lparr>Own := m\<rparr>))
      in if \<not> ok then (False, x1)
         else (True, if command \<noteq> [] \<and> ToLower (hd command) = ''rpush'' \<and> 1 < length command
                     then NotifyAllWaiters (command ! 1) x1 else x1))"

definition blpop_server :: "(unit, blocking_state) program" where
  "blpop_server =
     \<lparr>config_ok = (\<lambda>args. ParseConfig args \<noteq> None),
      initially = \<lparr>store = Map.empty, waiting_key = [], waiters = []\<rparr>, start_value = (\<lambda>_. ()),
      reads_command = read_command, on_command = blpop_command\<rparr>"

end
