(* ===== verification/Sample_Blpop_Stages.thy ===== *)
theory Sample_Blpop_Stages
  imports Sample_Logic Sample_Blpop Group_Logic Assertion_Properties
begin

text \<open>
  The sample server that serves every waiting client: the tester's stage on \<open>BLPOP\<close> without a timeout
  finds the client that should not have got anything.
\<close>

interpretation blpop: sample_server blpop_server S for S
  by unfold_locales (use commands_codec.request_reader_axioms in \<open>auto simp: blpop_server_def request_reader_def\<close>)

section \<open>Commands\<close>

lemma blpop_words: "ToLower ''BLPOP'' = ''blpop''" "ToLower ''RPUSH'' = ''rpush''" "ToUpper ''RPUSH'' = ''RPUSH''"
  by simp_all

lemma EncodeArray_wire: "EncodeArray [key, val] = wire (NewStringArrayValue [key, val])"
  by (simp add: EncodeArray_def EncodeBulkString_def NewStringArrayValue_def)

text \<open>Nothing is stored, and these connections wait for \<open>key\<close>.\<close>

definition waiting_for :: "string \<Rightarrow> nat list \<Rightarrow> (unit, blocking_state) sample \<Rightarrow> bool" where
  "waiting_for key ws x \<longleftrightarrow> store (Own x) = Map.empty \<and> waiters (Own x) = ws \<and> (ws \<noteq> [] \<longrightarrow> waiting_key (Own x) = key)"

lemma Atoi_zero: "Atoi ''0'' = (0, None)"
  using Atoi_itoa[of 0] by (simp add: itoa_def nat_digits.simps digit_def in_i64_def)

lemma blpop_waits:
  assumes "attentive i x" "sizes_ok [''BLPOP'', key, ''0'']" "waiting_for key ws x"
  obtains y where "receive_bytes blpop_server i (resp_array [''BLPOP'', key, ''0'']) x = y"
    "Socks y = Socks x" "Down y = Down x" "waiting_for key (ws @ [i]) y"
proof -
  let ?m = "WaitForElement key i (Own x)"
  let ?s = "set_sock i (inp_update (\<lambda>_. \<lparr>rbuf = [], rsrc = [Chunk (resp_array [''BLPOP'', key, ''0''])]\<rparr>)) x"
  obtain k where "Own x = \<lparr>store = Map.empty, waiting_key = k, waiters = ws\<rparr>"
    using assms(3) by (cases "Own x") (simp add: waiting_for_def)
  then have "on_command blpop_server i [''BLPOP'', key, ''0''] ?s = (True, ?s\<lparr>Own := ?m\<rparr>)"
    by (simp add: blpop_server_def blpop_command_def blpop_ProcessCommand_def blpop_handleBLPop_def blpop_words
        Atoi_zero Store_LPop_def del: ToLower.simps)
  from blpop.receive_command[OF assms(1,2) this]
  have "receive_bytes blpop_server i (resp_array [''BLPOP'', key, ''0'']) x = x\<lparr>Own := ?m\<rparr>"
    using assms(1) by (cases "Socks x i") (simp add: set_sock_def attentive_def fun_upd_idem)
  then show thesis using assms(3) by (intro that[of "x\<lparr>Own := ?m\<rparr>"]) (simp_all add: waiting_for_def WaitForElement_def)
qed

lemma blpop_wait_delivered:
  assumes "good_site S" "attentive i x" "sizes_ok [''BLPOP'', key, ''0'']" "waiting_for key ws x"
  obtains y where "Deliver (sample_peer S blpop_server) i (resp_array [''BLPOP'', key, ''0'']) (Some x) = (\<lambda>_. [], Some y)"
    "Socks y = Socks x" "Down y = Down x" "waiting_for key (ws @ [i]) y"
proof -
  obtain y where y: "receive_bytes blpop_server i (resp_array [''BLPOP'', key, ''0'']) x = y"
    "Socks y = Socks x" "Down y = Down x" "waiting_for key (ws @ [i]) y"
    by (rule blpop_waits[OF assms(2-4)])
  have "sample_reads S x y = (\<lambda>_. [])" using y(2) quiet_reads[OF assms(1)] by (intro ext) (simp add: sample_reads_def)
  with y show thesis by (intro that[of y]) simp_all
qed

section \<open>Two clients that wait\<close>

lemma client_blocks:
  assumes "good_site S" "sizes_ok [''BLPOP'', key, ''0'']" "linked m x b" "waiting_for key ws x" "m \<le> i" "i < clientsSpawned b"
  obtains b' y where "client_send (sample_peer S blpop_server) i (SendCommand ''BLPOP'' [key, ''0''] (Clients b i)) b = (Passed, b')"
    "linked m y b'" "waiting_for key (ws @ [i]) y" "clientsSpawned b' = clientsSpawned b"
proof -
  have i: "attentive i x" "quiet (Clients b i)" "Remote b = Some x" using assms(3,5,6) by (simp_all add: linked_def)
  obtain y where y: "Deliver (sample_peer S blpop_server) i (resp_array [''BLPOP'', key, ''0'']) (Remote b) = (\<lambda>_. [], Some y)"
    "Socks y = Socks x" "Down y = Down x" "waiting_for key (ws @ [i]) y"
    unfolding i(3) by (rule blpop_wait_delivered[OF assms(1) i(1) assms(2,4)])
  obtain b' where b: "client_send (sample_peer S blpop_server) i (SendCommand ''BLPOP'' [key, ''0''] (Clients b i)) b = (Passed, b')"
    "quiet (Clients b' i)" "\<forall>e. e \<noteq> i \<longrightarrow> Clients b' e = Clients b e" "Remote b' = Some y" "clientsSpawned b' = clientsSpawned b"
    by (rule client_waits[OF i(2) y(1)])
  have "quiet (Clients b' e)" if "quiet (Clients b e)" for e using that b(2,3) by (cases "e = i") simp_all
  then have "linked m y b'" using assms(3) b(4,5) y(2,3) by (simp add: linked_def attentive_def)
  with b(1,5) y(4) show thesis by (intro that[of b' y])
qed

lemma group_blocks:
  assumes "good_site S" "sizes_ok [''BLPOP'', key, ''0'']" "linked m x b" "waiting_for key [] x"
    "m \<le> i" "i < clientsSpawned b" "m \<le> j" "j < clientsSpawned b"
  obtains b' y where "SendBlockingCommands (sample_peer S blpop_server) (blpop_group key val ''0'' [i, j]) b = (Passed, b')"
    "linked m y b'" "waiting_for key [i, j] y" "clientsSpawned b' = clientsSpawned b"
proof -
  let ?P = "sample_peer S blpop_server"
  obtain b1 y1 where b1: "client_send ?P i (SendCommand ''BLPOP'' [key, ''0''] (Clients b i)) b = (Passed, b1)"
    "linked m y1 b1" "waiting_for key ([] @ [i]) y1" "clientsSpawned b1 = clientsSpawned b"
    by (rule client_blocks[OF assms(1-6)])
  obtain b2 y2 where b2: "client_send ?P j (SendCommand ''BLPOP'' [key, ''0''] (Clients b1 j)) b1 = (Passed, b2)"
    "linked m y2 b2" "waiting_for key (([] @ [i]) @ [j]) y2" "clientsSpawned b2 = clientsSpawned b1"
    by (rule client_blocks[OF assms(1,2) b1(2,3) assms(7)]) (use assms(8) b1(4) in simp)
  have "sleep ?P 1000000 b2 = b2" by (simp add: sleep_def absorb_def)
  then have "SendBlockingCommands ?P (blpop_group key val ''0'' [i, j]) b = (Passed, b2)"
    using b1(1) b2(1) by (simp add: SendBlockingCommands_def blpop_group_def)
  then show thesis using b2 b1(4) by (intro that[of b2 y2]) simp_all
qed

section \<open>The push\<close>

definition tell :: "nat \<Rightarrow> string \<Rightarrow> ('c, 'm) sample \<Rightarrow> ('c, 'm) sample" where
  "tell e bs x = set_sock e (outp_update (\<lambda>k. k\<lparr>written := written k @ bs\<rparr>)) x"

lemma conn_write_tell: "is_open (Socks x e) \<Longrightarrow> budget (outp (Socks x e)) = None \<Longrightarrow> conn_write e bs x = (True, tell e bs x)"
  by (cases "Socks x e") (simp add: conn_write_def sink_write_def tell_def set_sock_def)

lemma tell_simps [simp]:
  "Own (tell e bs x) = Own x" "Down (tell e bs x) = Down x" "is_open (Socks (tell e bs x) d) = is_open (Socks x d)"
  "inp (Socks (tell e bs x) d) = inp (Socks x d)" "budget (outp (Socks (tell e bs x) d)) = budget (outp (Socks x d))"
  "written (outp (Socks (tell e bs x) d)) = written (outp (Socks x d)) @ (if d = e then bs else [])"
  by (simp_all add: tell_def)

lemma tell_own: "(tell e bs x)\<lparr>Own := m\<rparr> = tell e bs (x\<lparr>Own := m\<rparr>)"
  by (simp add: tell_def set_sock_def)

lemma push_tells_both:
  assumes "attentive i x" "attentive j x" "attentive k x" "distinct [i, j, k]" "waiting_for key [i, j] x"
  obtains y where "sample_answers blpop_server k [''RPUSH'', key, val] x (wire (NewIntegerValue 1)) y"
    "\<And>e. e \<noteq> k \<Longrightarrow> written (outp (Socks y e)) = written (outp (Socks x e)) @ (if e \<in> {i, j} then EncodeArray [key, val] else [])"
proof -
  let ?s = "set_sock k (inp_update (\<lambda>_. \<lparr>rbuf = [], rsrc = [Chunk (resp_array [''RPUSH'', key, val])]\<rparr>)) x"
  let ?one = "tell k (wire (NewIntegerValue 1)) (?s\<lparr>Own := (Own x)\<lparr>store := [key \<mapsto> [val]]\<rparr>\<rparr>)"
  let ?t = "tell j (EncodeArray [key, val]) (tell i (EncodeArray [key, val]) (?one\<lparr>Own := (Own x)\<lparr>store := Map.empty\<rparr>\<rparr>))"
  let ?u = "?t\<lparr>Own := \<lparr>store = Map.empty, waiting_key = [], waiters = []\<rparr>\<rparr>"
  have own: "Own x = \<lparr>store = Map.empty, waiting_key = key, waiters = [i, j]\<rparr>"
    using assms(5) by (cases "Own x") (simp add: waiting_for_def)
  have cmd: "blpop_ProcessCommand [''RPUSH'', key, val] k (Own x) = (Some (wire (NewIntegerValue 1)), (Own x)\<lparr>store := [key \<mapsto> [val]]\<rparr>)"
    by (simp add: blpop_ProcessCommand_def blpop_handleRPush_def blpop_words Store_RPush_def own EncodeInteger_def
        del: ToLower.simps)
  have told: "conn_write k (wire (NewIntegerValue 1)) (?s\<lparr>Own := (Own x)\<lparr>store := [key \<mapsto> [val]]\<rparr>\<rparr>) = (True, ?one)"
    using assms(3) by (intro conn_write_tell) (simp_all add: attentive_def)
  have "NotifyAllWaiters key ?one = ?u"
    using assms(1,2,4) by (simp add: NotifyAllWaiters_def own Store_LPop_def Store_Delete_def conn_write_tell tell_own attentive_def Let_def)
  then have on: "on_command blpop_server k [''RPUSH'', key, val] ?s = (True, ?u)"
    using cmd told by (simp add: blpop_server_def blpop_command_def blpop_words del: wire_constructors ToLower.simps)
  let ?y = "set_sock k (inp_update (\<lambda>_. empty_rd)) ?u"
  have "sample_answers blpop_server k [''RPUSH'', key, val] x (wire (NewIntegerValue 1)) ?y"
    using on assms(3,4) by (auto simp: sample_answers_def attentive_def simp del: wire_constructors)
  moreover have "written (outp (Socks ?y e)) = written (outp (Socks x e)) @ (if e \<in> {i, j} then EncodeArray [key, val] else [])"
    if "e \<noteq> k" for e using that assms(4) by simp
  ultimately show thesis by (rule that)
qed

lemma two_elements_ok: "length key + length val \<le> 4000 \<Longrightarrow> wire_ok (NewStringArrayValue [key, val])"
  by (simp add: NewStringArrayValue_def value_constructors in_i64_def)

lemma push_reaches_both:
  assumes "good_site S" "sizes_ok [''RPUSH'', key, val]" "linked m y b" "waiting_for key [i, j] y" "distinct [i, j, k]"
    "\<And>e. e \<in> {i, j, k} \<Longrightarrow> m \<le> e \<and> e < clientsSpawned b"
  obtains b' where "send_case (sample_peer S blpop_server) ''RPUSH'' [key, val] (IntegerAssertion 1) k b = (Passed, b')"
    "\<And>e. e \<in> {i, j} \<Longrightarrow> inbox (segments S (wire (NewStringArrayValue [key, val]))) (Clients b' e)"
proof -
  let ?P = "sample_peer S blpop_server" and ?v = "NewStringArrayValue [key, val]"
  have at: "attentive e y" "quiet (Clients b e)" if "e \<in> {i, j, k}" for e
    using assms(3) assms(6)[OF that] by (simp_all add: linked_def)
  obtain z where z: "sample_answers blpop_server k [''RPUSH'', key, val] y (wire (NewIntegerValue 1)) z"
    "\<And>e. e \<noteq> k \<Longrightarrow> written (outp (Socks z e)) = written (outp (Socks y e)) @ (if e \<in> {i, j} then EncodeArray [key, val] else [])"
    by (rule push_tells_both[of i y j k key]) (use at assms(4,5) in auto)
  have "attended sample_serves k y b" "wire_ok (NewIntegerValue 1)"
    using at assms(3) by (simp_all add: attended_def sample_serves_def linked_def value_constructors in_i64_def)
  note ready = this
  obtain b' where b': "send_case ?P ''RPUSH'' [key, val] (IntegerAssertion 1) k b
      = (judged (IntegerAssertion 1 (NewIntegerValue 1) :: string report), b')"
    "spread k (Deliver ?P k (resp_array [ToUpper ''RPUSH'', key, val]) (Remote b)) b b'"
    by (rule blpop.send_case_answer[OF ready(1) _ ready(2), of S "''RPUSH''" "[key, val]" z "IntegerAssertion 1"])
      (use assms(1,2) z(1) in \<open>simp_all add: blpop_words del: ToUpper.simps wire_constructors\<close>)
  have "receive_bytes blpop_server k (resp_array [''RPUSH'', key, val]) y = z"
    by (rule blpop.receive_request[OF _ assms(2) z(1)]) (rule at(1), simp)
  moreover have "Remote b = Some y" using assms(3) by (simp add: linked_def)
  ultimately have arrived: "Deliver ?P k (resp_array [ToUpper ''RPUSH'', key, val]) (Remote b) = (sample_reads S y z, Some z)"
    by (simp only: blpop_words sample_peer_fields)
  have got: "inbox (segments S (wire ?v)) (Clients b' e)" if "e \<in> {i, j}" for e
  proof -
    have e: "e \<noteq> k" using that assms(5) by auto
    have q: "quiet (Clients b e)" by (rule at(2)) (use that in blast)
    from z(2)[OF e] that have "written (outp (Socks z e)) = written (outp (Socks y e)) @ wire ?v"
      unfolding EncodeArray_wire by (simp only: if_True)
    then have "sample_reads S y z e = segments S (wire ?v)" by (simp add: sample_reads_def)
    moreover have "Clients b' e = (Clients b e)\<lparr>net_in := net_in (Clients b e) @ sample_reads S y z e\<rparr>"
      using b'(2) e unfolding spread_def arrived by simp
    ultimately show ?thesis using inbox_more[OF q, of "segments S (wire ?v)"] by simp
  qed
  have "judged (IntegerAssertion 1 (NewIntegerValue 1) :: string report) = Passed" by (simp add: assertion_defs)
  with b'(1) got show thesis by (intro that[of b']) simp_all
qed

section \<open>Property\<close>

lemma clients_wait:
  assumes "fresh_site S" "sizes_ok [''BLPOP'', key, ''0'']"
  obtains b2 y where
    "testListBlpopNoTimeout (sample_peer S blpop_server) n key val b
      = run_all [send_case (sample_peer S blpop_server) ''RPUSH'' [key, val] (IntegerAssertion 1) (clientsSpawned b + 2),
          AssertResponses (sample_peer S blpop_server) n (blpop_group key val ''0'' [clientsSpawned b, clientsSpawned b + 1])] b2"
    "linked (clientsSpawned b) y b2" "waiting_for key [clientsSpawned b, clientsSpawned b + 1] y" "clientsSpawned b2 = clientsSpawned b + 3"
proof -
  let ?P = "sample_peer S blpop_server" and ?m = "clientsSpawned b"
  let ?g = "blpop_group key val ''0'' [?m, ?m + 1]"
  have S: "good_site S" using assms(1) by (simp add: fresh_site_def)
  obtain x where x: "Start S blpop_server [] = Some x" "\<not> Down x" "Own x = initially blpop_server"
    by (rule blpop.start_fresh[OF assms(1), of "[]"]) (simp_all add: blpop_server_def ParseConfig_def)
  have "linked ?m x (b\<lparr>Remote := Some x\<rparr>)" using x by (simp add: linked_def)
  then obtain b1 x1 where b1: "SpawnClients ?P 3 (b\<lparr>Remote := Some x\<rparr>) = (Passed, b1)" "linked ?m x1 b1" "Own x1 = Own x"
    "clientsSpawned b1 = ?m + 3" by (rule spawn_linked) simp
  have none: "waiting_for key [] x1" using b1(3) x(3) by (simp add: waiting_for_def blpop_server_def)
  have range: "?m \<le> ?m" "?m < clientsSpawned b1" "?m \<le> ?m + 1" "?m + 1 < clientsSpawned b1" using b1(4) by simp_all
  obtain b2 y where b2: "SendBlockingCommands ?P ?g b1 = (Passed, b2)" "linked ?m y b2" "waiting_for key [?m, ?m + 1] y"
    "clientsSpawned b2 = clientsSpawned b1"
    by (rule group_blocks[OF S assms(2) b1(2) none range])
  have "[?m ..< ?m + 3] = [?m, ?m + 1, ?m + 2]" by (simp add: upt_rec)
  then have "testListBlpopNoTimeout ?P n key val b = run_all [SendBlockingCommands ?P ?g,
      send_case ?P ''RPUSH'' [key, val] (IntegerAssertion 1) (?m + 2), AssertResponses ?P n ?g] b1"
    using b1(1) x(1) by (simp add: testListBlpopNoTimeout_def run_program_def some_clients_def Let_def del: run_all.simps upt_Suc)
  also have "\<dots> = run_all [send_case ?P ''RPUSH'' [key, val] (IntegerAssertion 1) (?m + 2), AssertResponses ?P n ?g] b2"
    using b2(1) by simp
  finally show thesis using b2(2-4) b1(4) by (intro that) simp_all
qed

text \<open>
  C36: The sample server that serves every waiting client fails the tester's stage on \<open>BLPOP\<close> with two
  waiting clients: the later one is looked at first and has the element, and then the other one, which
  should have nothing, has received it as well.
\<close>

theorem sample_blpop_caught:
  assumes "fresh_site S" "length key + length val \<le> 4000" "0 < n"
  shows "fst (testListBlpopNoTimeout (sample_peer S blpop_server) n key val b)
    = Failed (Unexpected (hd (segments S (resp_array [key, val]))))"
proof -
  let ?P = "sample_peer S blpop_server" and ?m = "clientsSpawned b" and ?v = "NewStringArrayValue [key, val]"
  let ?g = "blpop_group key val ''0'' [?m, ?m + 1]" and ?rs = "segments S (wire ?v)"
  have S: "good_site S" using assms(1) by (simp add: fresh_site_def)
  have sizes: "sizes_ok [''BLPOP'', key, ''0'']" "sizes_ok [''RPUSH'', key, val]"
    using assms(2) by (simp_all add: sizes_okI)
  obtain b2 y where b2: "testListBlpopNoTimeout ?P n key val b
      = run_all [send_case ?P ''RPUSH'' [key, val] (IntegerAssertion 1) (?m + 2), AssertResponses ?P n ?g] b2"
    "linked ?m y b2" "waiting_for key [?m, ?m + 1] y" "clientsSpawned b2 = ?m + 3"
    by (rule clients_wait[OF assms(1) sizes(1)])
  obtain b3 where b3: "send_case ?P ''RPUSH'' [key, val] (IntegerAssertion 1) (?m + 2) b2 = (Passed, b3)"
    "inbox ?rs (Clients b3 ?m)" "inbox ?rs (Clients b3 (?m + 1))"
    by (rule push_reaches_both[OF S sizes(2) b2(2,3), of "?m + 2"]) (use b2(4) in auto)
  have rs: "concat ?rs = wire ?v" "[] \<notin> set ?rs" "length ?rs \<le> Polls ?P" using S by (simp_all add: good_site_def)
  have ne: "?rs \<noteq> []" using rs(1) wire_nonempty[of ?v] by auto
  have accept: "snd (OrderedBulkStringArrayAssertion [key, val] ?v :: string report) = Pass"
    by (simp add: assertion_defs NewStringArrayValue_def)
  have group: "rev (GroupClients ?g) = [?m + 1, ?m]" "ResponseExpectingClientsCount ?g = 1"
    "snd (AssertionForReceivedResponse ?g ?v) = Pass" "?m + 1 \<noteq> ?m" using accept by (simp_all add: blpop_group_def)
  have still: "Elapse ?P 1000000 w = (\<lambda>_. [], w)" for w by simp
  have judge: "fst (AssertResponses ?P n ?g b3) = Failed (Unexpected (hd ?rs))"
    by (rule both_of_two[OF group(1,4,2) assms(3) two_elements_ok[OF assms(2)] rs b3(3,2) ne rs(2) group(3) still])
  have "resp_array [key, val] = wire ?v" by (simp add: resp_array_def array_header_def bulk_def NewStringArrayValue_def)
  then show ?thesis unfolding b2(1) using b3(1) judge by (cases "AssertResponses ?P n ?g b3") (simp del: sample_peer_fields)
qed

lemma sample_blpop_caught_example:
  "fst (testListBlpopNoTimeout (sample_peer local_site blpop_server) 1 ''pear'' ''orange''
     \<lparr>Clients = \<lambda>_. new_client, clientsSpawned = 0, Remote = None\<rparr>) = Failed (Unexpected (resp_array [''pear'', ''orange'']))"
proof -
  have "length ''pear'' + length ''orange'' \<le> 4000" by simp
  moreover have "hd (segments local_site (resp_array [''pear'', ''orange''])) = resp_array [''pear'', ''orange'']"
    by (simp add: local_site_def resp_array_def)
  ultimately show ?thesis using sample_blpop_caught[OF fresh_local_site, of "''pear''" "''orange''" 1] by simp
qed

end
