(* ===== verification/Spec2Isabelle.thy ===== *)
theory Spec2Isabelle
  imports Auth_Properties Process_Invariants Replication_Properties Persistence_Properties Geo_Properties Codec_Properties
    Tester_Location Tester_Sorted_Set Assertion_Properties File_Properties List_Stages Auth_Stages Replica_Stages Primary_Stages Sample_Auth_Stages Sample_Psync_Stages Sample_Blpop_Stages
begin

text \<open>
  A model of the repository's Redis server (\<open>src/redis-starter-go/app\<close>) and of the tester that checks it
  (\<open>src/redis-tester/internal\<close>), with the theorems that say what they do, alone and together.

  The program. One process listens for clients. Each connection has a goroutine, \<open>serveCommands\<close>,
  that reads a line, calls the handler whose name the line is, and lets the handler read its own
  arguments from the buffered reader. The handlers share package variables (the string store, lists,
  sorted sets, users, replicas, offsets), start goroutines that delete expired keys, wait in
  \<open>BLPOP\<close> and \<open>WAIT\<close>, propagate writes to replicas and append them to a file; \<open>main\<close> loads an RDB or an
  append-only file and, for a replica, connects to the master and serves its stream. The tester
  speaks to the server through a RESP library of its own, computes expected answers with its own
  sorted set and geohash, and judges what it receives with assertions; its test cases are scripts over
  client connections, and its stages start the program and run test cases.

  Ground theories.
  \<^item> \<open>Prelude\<close>: bytes, outcomes of a handler (returns, panics, blocks), 64-bit wrap-around, slices,
    association lists; the named collections.
  \<^item> \<open>Go_Strings\<close>, \<open>Go_Float\<close>, \<open>Sha256\<close>: the parts of Go's \<open>strings\<close>, \<open>strconv\<close>, \<open>float64\<close> arithmetic,
    \<open>crypto/sha256\<close> and \<open>encoding/hex\<close> the program uses, as executable definitions.
  \<^item> \<open>Resp_Format\<close>: the RESP texts both sides build. \<open>Reader\<close>: \<open>bufio.Reader\<close>, with the chunks and
    errors the network delivers as part of the state, and the locale \<open>line_source\<close> of what the
    handlers rely on, interpreted for the reader and, in \<open>Server_State\<close>, for a connection.

  The server, one theory per part, a definition per function of the source.
  \<^item> \<open>Server_State\<close>: the variables of \<open>server.go\<close> and the types of \<open>structures.go\<close> as the record
    \<open>server\<close>; connections with input, output, session user and what their goroutine waits for; the
    silent wrapper of a replica's connection to its master; \<open>CheckAuth\<close>.
  \<^item> \<open>Key_Value\<close> (\<open>PING ECHO SET GET CONFIG KEYS INFO\<close>, expiry), \<open>Acl_Auth\<close> (\<open>ACL AUTH\<close>), \<open>Lists\<close>
    (\<open>RPUSH LPUSH LRANGE LLEN LPOP BLPOP\<close>), \<open>Sorted_Sets\<close> (\<open>ZADD ZRANK ZRANGE ZCARD ZSCORE ZREM\<close> with
    the read-write lock), \<open>Geocoding\<close> and \<open>Geo_Handlers\<close> (\<open>geocoding.go\<close>, \<open>GEOADD GEOPOS GEODIST
    GEOSEARCH\<close>), \<open>Propagation\<close> and \<open>Replication\<close> (\<open>utils.go\<close>, \<open>REPLCONF PSYNC WAIT\<close>, both sides of the
    handshake), \<open>Rdb\<close> (\<open>rdb.go\<close>), \<open>Aof\<close> (\<open>AOFParser\<close>).
  \<^item> \<open>Dispatch\<close>: \<open>serveCommands\<close> as \<open>serve_step\<close> and the loop \<open>serve_loop\<close>. \<open>Server\<close>: \<open>main\<close>, and the
    process as the step relation \<open>step\<close>: a turn of a connection, a waiting client served or timed
    out, an expiry, a new connection, the clock.

  The tester.
  \<^item> \<open>Resp_Codec\<close> (\<open>resp/value\<close>, \<open>encoder\<close>, \<open>decoder\<close>), \<open>Resp_Connection\<close> (\<open>resp/connection\<close>),
    \<open>Tester_Sorted_Set\<close>, \<open>Tester_Location\<close> (\<open>data_structures\<close>).
  \<^item> \<open>Resp_Assertions\<close> (\<open>resp_assertions\<close>): a function from a value to a verdict per assertion, with the
    log of what its hooks did; \<open>Go_Text\<close>: the quoting and case folding it needs. \<open>File_Assertions\<close>
    (\<open>filesystem_assertion\<close>, \<open>filesystem_asserter\<close>) over a file system that is a parameter.
  \<^item> \<open>Test_Cases\<close>, \<open>Command_Cases\<close>, \<open>Group_Cases\<close> (\<open>test_cases\<close>): scripts on a \<open>bench\<close>, the tester's
    connections and the other side; the other side is a \<open>peer\<close>, a record of what it does when it is
    started, connected to, sent bytes, or when time passes. \<open>Tester_Stages\<close>, \<open>Protocol_Stages\<close>: the
    functions \<open>test...\<close> of the files \<open>test_*.go\<close>, random choices as arguments.
  \<^item> \<open>Server_Peer\<close>: the repository's server as such a peer: its command line, its start, its goroutines
    taking turns, the expiry of keys and waits as time passes, and the network between the two, which
    cuts the replies into reads as it likes (\<open>site\<close>). \<open>Replica_Peer\<close>: the same server started as a replica,
    which dials the tester and goes through the handshake as the replies arrive.

  The tester's own fixtures (\<open>test_helpers/scenarios\<close>), servers that are wrong on purpose.
  \<^item> \<open>Sample_Codec\<close>: their two RESP codecs (\<open>resp.go\<close>). \<open>Sample_Server\<close>: their frame (\<open>config.go\<close>,
    \<open>server.go\<close>, \<open>main.go\<close>) with the commands left open (\<open>program\<close>), and such a server as a \<open>peer\<close>.
    \<open>Sample_Auth\<close> (the four servers on users, with SHA-1), \<open>Sample_Psync\<close>
    (\<open>repl_fullresync_wrong_pattern\<close>), \<open>Sample_Blpop\<close> (\<open>blpop-all-clients\<close>): their commands.

  The theorems.
  \<^item> \<open>Requests\<close>: how a request that arrives in any chunks reaches its handler; the lemmas every
    statement about the serve loop uses.
  \<^item> \<open>Store_Properties\<close>, \<open>Auth_Properties\<close>, \<open>List_Properties\<close>: what a client of the store, the users and
    the lists observes, request by request, with the state that is left; what goes wrong when
    requests are split, refused or pipelined, and when a timeout meets a push.
  \<^item> \<open>Sorted_Set_Properties\<close>: the locale \<open>ordered_scores\<close> states the contract of a sorted set (a map from
    names to scores, listed by score and then name); the server's and the tester's implementations
    interpret it, so both refine the map and agree with each other; the commands on top of it.
  \<^item> \<open>Process_Invariants\<close>: the locale \<open>step_invariant\<close> has one law per kind of step and gives
    preservation along every run; interpreted for the queues of waiting clients and for the sorted
    sets, from the start of \<open>main\<close> on.
  \<^item> \<open>Replication_Properties\<close>: replica and master agree on store and offset; what \<open>WAIT\<close> counts.
  \<^item> \<open>Persistence_Properties\<close>: the append-only file and RDB files of string values, written and read
    back, with keys that had expired coming back from the former; what is misread in the latter.
  \<^item> \<open>Geo_Properties\<close>: the boxes \<open>GEOSEARCH\<close> scans, as prefixes of the interleaved score.
  \<^item> \<open>Codec_Properties\<close>: round trip, well-formedness, incompleteness and depth of the tester's decoder,
    reading values from the network, and decoding the server's append-only file.
  \<^item> \<open>Assertion_Properties\<close>: the locale \<open>exact_assertion\<close> (an assertion that accepts one value and never
    crashes), interpreted for eight assertions; what the others accept, and where they accept too much.
    \<open>File_Properties\<close>: the file assertions on the files the server writes.
  \<^item> \<open>Run_Logic\<close>: triples over test runs, whatever server is on the other side, and the locales
    \<open>answering\<close>, \<open>starting\<close> and \<open>accepting\<close> of what a script needs of one. \<open>Group_Logic\<close>: groups of
    clients that wait. \<open>Master_Logic\<close>: the tester as the master; \<open>dialling\<close> and \<open>joining\<close> are what it
    needs of a program that has dialled it, and the handshake is proved once inside them.
  \<^item> \<open>Stage_Logic\<close> interprets the first three for the repository's server: the tester's encoder,
    connection, decoder and assertion meet the server's serve loop. \<open>Basic_Stages\<close>, \<open>List_Stages\<close>,
    \<open>Auth_Stages\<close>: the server passes these stages of the tester. \<open>Replica_Stages\<close> interprets \<open>joining\<close>
    for it as a replica, and it passes the stages in which the tester is the master. \<open>Primary_Logic\<close>
    and \<open>Primary_Stages\<close>: as a master it passes those in which the tester plays replicas; \<open>crowd\<close> says of
    all connections at once what has been sent and not yet read.
  \<^item> \<open>Sample_Codec_Properties\<close>: what the fixtures' codecs read back, and what they garble. \<open>Sample_Logic\<close>:
    \<open>request_reader\<close>, the contract of a codec, interpreted for both, and from it \<open>answering\<close>, \<open>starting\<close>
    and \<open>accepting\<close> for every sample server. \<open>Sample_Auth_Stages\<close>, \<open>Sample_Psync_Stages\<close>,
    \<open>Sample_Blpop_Stages\<close>: the tester catches each of them, with the failure the fixture records.

  Loops and bounds. The serve loop, the argument loops and the file readers are total functions: each
  turn makes the unread input shorter. The decoder of nested arrays takes a bound on the depth, and
  the length of the input is enough (\<open>Codec_Properties\<close>); the decimal formatting of a \<open>float64\<close> tries
  at most 17 digits and 400 places, which cover every finite number. Go's \<open>int\<close> is 64 bits wide and
  wraps; lengths and geohashes are words of their width; a \<open>float64\<close> is its rational value, an
  infinity, a negative zero or NaN, rounded to even after every operation.

  Parameters. What the process cannot decide is an argument: the chunks of the network, failing
  writes, the contents of files, random numbers, the order in which Go iterates over a map and the
  last bits of \<open>math.Sin\<close>, \<open>Cos\<close>, \<open>Asin\<close> and \<open>Sqrt\<close>. A handler runs as one step, so data races inside
  handlers are not modelled; a handler that has to wait for a lock does not return, and its effect up
  to there is part of its result but not a step of the process.

  Not modelled. Log output and the wording of messages; of the tester, the test case and the stages
  that put files in place for the program (RDB files, append-only directories, \<open>CONFIG\<close>) or measure
  elapsed time, its table of stages and command line; of its fixtures, the server that propagates to
  replicas and the one that writes three \<open>PONG\<close>s. A client that connects to a replica during its
  handshake waits in the program and is not accepted in \<open>Replica_Peer\<close>. The 4096 bytes of a
  \<open>bufio.Reader\<close>: a chunk of the network counts as buffered whole, whatever its size, which matters
  where a handler looks at what is buffered (the option of \<open>SET\<close>, the count of \<open>LPOP\<close>). The fixtures
  read a command in one piece, which holds up to those 4096 bytes, and what they answer reaches the
  tester at once.
\<close>

end
